(* ===== verification/Prelude.thy ===== *)
theory Prelude
  imports
    Main
    "HOL-Library.AList"
    "HOL-Library.Char_ord"
    "HOL-Library.List_Lexorder"
    "HOL-Library.Word"
    "HOL-Library.Multiset"
begin

text \<open>
  Shared vocabulary of the development: Rust's \<open>HashMap\<close> as an association list with
  distinct keys (the list order stands for the map's unspecified iteration order), maps of
  counters and the contract they obey, and the string functions of Rust's standard library
  that the components use (splitting, joining, trimming, decimal printing and parsing).
  Strings are lists of bytes; where the source classifies characters, only the ASCII
  classes are modelled.
\<close>

named_theorems hmap_simps \<open>lookup laws of hash maps\<close>
named_theorems str_simps \<open>laws of the string functions\<close>

section \<open>Hash maps\<close>

type_synonym ('k, 'v) hmap = "('k \<times> 'v) list"

abbreviation hm_get :: "('k, 'v) hmap \<Rightarrow> 'k \<Rightarrow> 'v option" where
  "hm_get \<equiv> map_of"

abbreviation hm_insert :: "'k \<Rightarrow> 'v \<Rightarrow> ('k, 'v) hmap \<Rightarrow> ('k, 'v) hmap" where
  "hm_insert \<equiv> AList.update"

abbreviation hm_remove :: "'k \<Rightarrow> ('k, 'v) hmap \<Rightarrow> ('k, 'v) hmap" where
  "hm_remove \<equiv> AList.delete"

abbreviation hm_contains :: "('k, 'v) hmap \<Rightarrow> 'k \<Rightarrow> bool" where
  "hm_contains m k \<equiv> map_of m k \<noteq> None"

abbreviation hm_wf :: "('k, 'v) hmap \<Rightarrow> bool" where
  "hm_wf m \<equiv> distinct (map fst m)"

lemma hm_get_insert [hmap_simps, simp]:
  "hm_get (hm_insert k v m) k' = (if k' = k then Some v else hm_get m k')"
  by (simp add: update_conv)

lemma hm_get_remove [hmap_simps, simp]:
  "hm_get (hm_remove k m) k' = (if k' = k then None else hm_get m k')"
  by (simp add: delete_conv)

lemma hm_wf_insert [simp, intro]: "hm_wf m \<Longrightarrow> hm_wf (hm_insert k v m)"
  by (simp add: distinct_update)

lemma hm_wf_remove [simp, intro]: "hm_wf m \<Longrightarrow> hm_wf (hm_remove k m)"
  by (simp add: distinct_delete)

lemma hm_insert_fresh: "hm_get m k = None \<Longrightarrow> hm_insert k v m = m @ [(k, v)]"
  by (induction m) (auto split: if_splits)

text \<open>\<open>iter.find_map(f)\<close>\<close>

primrec find_map :: "('a \<Rightarrow> 'b option) \<Rightarrow> 'a list \<Rightarrow> 'b option" where
  "find_map f [] = None"
| "find_map f (x # xs) = (case f x of Some y \<Rightarrow> Some y | None \<Rightarrow> find_map f xs)"

lemma distinct_sub_mset:
  assumes sub: "mset xs \<subseteq># mset ys" and ys: "distinct ys"
  shows "distinct xs"
proof -
  have "count (mset xs) a = (if a \<in> set xs then 1 else 0)" for a
  proof -
    have "count (mset ys) a = (if a \<in> set ys then 1 else 0)"
      using ys unfolding distinct_count_atmost_1 by blast
    then have "count (mset ys) a \<le> 1" by (simp split: if_splits)
    with mset_subset_eq_count [OF sub, of a] have "count (mset xs) a \<le> 1" by linarith
    then show ?thesis by (metis count_eq_zero_iff le_eq_less_or_eq less_one set_mset_mset)
  qed
  then show ?thesis by (simp add: distinct_count_atmost_1)
qed

section \<open>Maps of counters\<close>

text \<open>
  \<open>HashMap<K, usize>\<close> used as a multiset: an absent key counts as zero. The counters are
  natural numbers: a \<open>usize\<close> that counts live sandboxes or tasks does not overflow.
\<close>

definition cnt :: "('k, nat) hmap \<Rightarrow> 'k \<Rightarrow> nat" where
  "cnt m k = (case hm_get m k of None \<Rightarrow> 0 | Some n \<Rightarrow> n)"

text \<open>\<open>*m.entry(k).or_insert(0) += 1\<close>\<close>

definition cnt_inc :: "'k \<Rightarrow> ('k, nat) hmap \<Rightarrow> ('k, nat) hmap" where
  "cnt_inc k m = hm_insert k (cnt m k + 1) m"

definition cnt_wf :: "('k, nat) hmap \<Rightarrow> bool" where
  "cnt_wf m \<longleftrightarrow> hm_wf m \<and> (\<forall>kv \<in> set m. 0 < snd kv)"

lemma cnt_wf_alt:
  "cnt_wf m \<longleftrightarrow> hm_wf m \<and> (\<forall>k n. hm_get m k = Some n \<longrightarrow> 0 < n)"
  by (fastforce simp: cnt_wf_def dest: map_of_SomeD)

lemma cnt_wf_pos: "cnt_wf m \<Longrightarrow> hm_get m k = Some n \<Longrightarrow> 0 < n"
  by (simp add: cnt_wf_alt)

lemma cnt_wf_contains: "cnt_wf m \<Longrightarrow> hm_contains m k \<longleftrightarrow> 0 < cnt m k"
  by (auto simp: cnt_def dest: cnt_wf_pos split: option.splits)

lemma cnt_inc_get [hmap_simps, simp]:
  "cnt (cnt_inc k m) k' = (if k' = k then cnt m k + 1 else cnt m k')"
  by (simp add: cnt_inc_def cnt_def)

lemma cnt_remove_get [hmap_simps, simp]:
  "cnt (hm_remove k m) k' = (if k' = k then 0 else cnt m k')"
  by (simp add: cnt_def)

lemma cnt_insert_get [hmap_simps, simp]:
  "cnt (hm_insert k n m) k' = (if k' = k then n else cnt m k')"
  by (simp add: cnt_def)

lemma cnt_wf_insert: "cnt_wf m \<Longrightarrow> 0 < n \<Longrightarrow> cnt_wf (hm_insert k n m)"
  by (auto simp: cnt_wf_alt split: if_splits)

lemma cnt_wf_remove: "cnt_wf m \<Longrightarrow> cnt_wf (hm_remove k m)"
  by (auto simp: cnt_wf_alt split: if_splits)

lemma cnt_wf_inc: "cnt_wf m \<Longrightarrow> cnt_wf (cnt_inc k m)"
  by (simp add: cnt_inc_def cnt_wf_insert)

lemma cnt_wf_empty [simp]: "cnt_wf []"
  by (simp add: cnt_wf_def)

lemma cnt_empty [simp]: "cnt [] k = 0"
  by (simp add: cnt_def)

lemma contains_inc [simp]: "hm_contains (cnt_inc k m) k' \<longleftrightarrow> k' = k \<or> hm_contains m k'"
  by (simp add: cnt_inc_def)

section \<open>The contract of a reference counter\<close>

text \<open>
  The pool keeps three counter maps (running refills, restores in flight, live sandboxes
  per template). Their clients rely on one contract: an increment adds one reference to
  exactly one key, a decrement releases one. A run of a client is a list of events; as
  long as it never releases a key more often than it referenced it, the counter is the
  starting value plus the references minus the releases.
\<close>

datatype 'k rc_event = Inc 'k | Dec 'k

fun rc_delta :: "'k \<Rightarrow> 'k rc_event list \<Rightarrow> int" where
  "rc_delta k [] = 0"
| "rc_delta k (Inc j # es) = (if j = k then 1 else 0) + rc_delta k es"
| "rc_delta k (Dec j # es) = (if j = k then -1 else 0) + rc_delta k es"

fun rc_ok :: "nat \<Rightarrow> 'k \<Rightarrow> 'k rc_event list \<Rightarrow> bool" where
  "rc_ok n k [] = True"
| "rc_ok n k (Inc j # es) = rc_ok (if j = k then n + 1 else n) k es"
| "rc_ok n k (Dec j # es) = (if j = k then 0 < n \<and> rc_ok (n - 1) k es else rc_ok n k es)"

locale refcount =
  fixes rc_get :: "'s \<Rightarrow> 'k \<Rightarrow> nat"
    and rc_inc :: "'k \<Rightarrow> 's \<Rightarrow> 's"
    and rc_dec :: "'k \<Rightarrow> 's \<Rightarrow> 's"
    and rc_inv :: "'s \<Rightarrow> bool"
  assumes get_inc: "rc_inv s \<Longrightarrow> rc_get (rc_inc k s) k' = rc_get s k' + (if k' = k then 1 else 0)"
    and get_dec: "rc_inv s \<Longrightarrow> rc_get (rc_dec k s) k' = rc_get s k' - (if k' = k then 1 else 0)"
    and inv_inc: "rc_inv s \<Longrightarrow> rc_inv (rc_inc k s)"
    and inv_dec: "rc_inv s \<Longrightarrow> rc_inv (rc_dec k s)"
begin

primrec rc_step :: "'k rc_event \<Rightarrow> 's \<Rightarrow> 's" where
  "rc_step (Inc k) s = rc_inc k s"
| "rc_step (Dec k) s = rc_dec k s"

lemma inc_dec_cancel: "rc_inv s \<Longrightarrow> rc_get (rc_dec k (rc_inc k s)) k' = rc_get s k'"
  by (simp add: get_dec get_inc inv_inc)

lemma run_inv: "rc_inv s \<Longrightarrow> rc_inv (fold rc_step es s)"
proof (induction es arbitrary: s)
  case (Cons e es)
  then show ?case by (cases e) (simp_all add: inv_inc inv_dec)
qed simp

lemma run_balance:
  "rc_inv s \<Longrightarrow> rc_ok (rc_get s k) k es \<Longrightarrow>
   int (rc_get (fold rc_step es s) k) = int (rc_get s k) + rc_delta k es"
proof (induction es arbitrary: s)
  case (Cons e es)
  show ?case
  proof (cases e)
    case (Inc j)
    from Cons.prems Inc have "rc_ok (rc_get (rc_inc j s) k) k es"
      by (simp add: get_inc split: if_splits)
    with Cons Inc show ?thesis by (simp add: get_inc inv_inc)
  next
    case (Dec j)
    from Cons.prems Dec have "rc_ok (rc_get (rc_dec j s) k) k es"
      by (simp add: get_dec split: if_splits)
    with Cons Dec show ?thesis by (auto simp: get_dec inv_dec split: if_splits)
  qed
qed simp

end

section \<open>The contract of a store with exclusive acquisition\<close>

text \<open>
  The template pool and the continuation store both hand out snapshots that may be restored
  once. What a client relies on: an item handed out was on offer and no longer is, and an
  acquisition never puts anything on offer. Then no sequence of acquisitions hands out the
  same item twice.
\<close>

fun acquire_all :: "('i \<Rightarrow> 's \<Rightarrow> 't option \<times> 's) \<Rightarrow> 'i list \<Rightarrow> 's \<Rightarrow> 't list \<times> 's" where
  "acquire_all acq [] s = ([], s)"
| "acquire_all acq (i # is') s =
     (case acq i s of (r, s1) \<Rightarrow>
        (case acquire_all acq is' s1 of (ts, s2) \<Rightarrow>
           ((case r of None \<Rightarrow> ts | Some t \<Rightarrow> t # ts), s2)))"

locale exclusive_store =
  fixes acq :: "'i \<Rightarrow> 's \<Rightarrow> 't option \<times> 's"
    and on_offer :: "'s \<Rightarrow> 't set"
    and request_ok :: "'i \<Rightarrow> bool"
    and store_inv :: "'s \<Rightarrow> bool"
  assumes acq_some: "store_inv s \<Longrightarrow> request_ok i \<Longrightarrow> acq i s = (Some t, s') \<Longrightarrow>
      t \<in> on_offer s \<and> on_offer s' \<subseteq> on_offer s - {t} \<and> store_inv s'"
    and acq_none: "store_inv s \<Longrightarrow> request_ok i \<Longrightarrow> acq i s = (None, s') \<Longrightarrow>
      on_offer s' \<subseteq> on_offer s \<and> store_inv s'"
begin

lemma acquire_all_distinct:
  assumes "store_inv s" and "list_all request_ok is'" and "acquire_all acq is' s = (ts, s')"
  shows "distinct ts \<and> set ts \<subseteq> on_offer s \<and> on_offer s' \<subseteq> on_offer s - set ts \<and> store_inv s'"
  using assms
proof (induction is' arbitrary: s ts s')
  case (Cons i is')
  obtain r s1 where a: "acq i s = (r, s1)" by force
  obtain us s2 where b: "acquire_all acq is' s1 = (us, s2)" by force
  from Cons.prems a b have eq: "ts = (case r of None \<Rightarrow> us | Some t \<Rightarrow> t # us)" "s' = s2" by auto
  have s1: "store_inv s1"
    using acq_some [of s i] acq_none [of s i] a Cons.prems by (cases r) auto
  from Cons.IH [OF s1 _ b] Cons.prems(2)
  have us: "distinct us" "set us \<subseteq> on_offer s1" "on_offer s2 \<subseteq> on_offer s1 - set us" "store_inv s2"
    by auto
  show ?case
  proof (cases r)
    case None
    with acq_none [of s i s1] a Cons.prems us eq show ?thesis by auto
  next
    case (Some t)
    with acq_some [of s i t s1] a Cons.prems us eq show ?thesis by auto
  qed
qed auto

end

section \<open>Strings\<close>

abbreviation starts_with :: "string \<Rightarrow> string \<Rightarrow> bool" where
  "starts_with p s \<equiv> take (length p) s = p"

definition strip_prefix :: "string \<Rightarrow> string \<Rightarrow> string option" where
  "strip_prefix p s = (if starts_with p s then Some (drop (length p) s) else None)"

text \<open>\<open>s.split(c)\<close>: always at least one piece.\<close>

fun split_on :: "char \<Rightarrow> string \<Rightarrow> string list" where
  "split_on c [] = [[]]"
| "split_on c (x # xs) =
     (if x = c then [] # split_on c xs
      else (case split_on c xs of [] \<Rightarrow> [[x]] | w # ws \<Rightarrow> (x # w) # ws))"

fun join_with :: "string \<Rightarrow> string list \<Rightarrow> string" where
  "join_with sep [] = []"
| "join_with sep [w] = w"
| "join_with sep (w # v # ws) = w @ sep @ join_with sep (v # ws)"

text \<open>\<open>s.contains(pat)\<close>\<close>

fun str_contains :: "string \<Rightarrow> string \<Rightarrow> bool" where
  "str_contains pat [] = (pat = [])"
| "str_contains pat (x # xs) = (starts_with pat (x # xs) \<or> str_contains pat xs)"

text \<open>\<open>s.replace(c, r)\<close> for a one-character pattern\<close>

definition replace_char :: "char \<Rightarrow> string \<Rightarrow> string \<Rightarrow> string" where
  "replace_char c r s = concat (map (\<lambda>x. if x = c then r else [x]) s)"

definition is_ws :: "char \<Rightarrow> bool" where
  "is_ws c \<longleftrightarrow> c \<in> set (map char_of [9, 10, 11, 12, 13, 32 :: nat])"

definition trim :: "string \<Rightarrow> string" where
  "trim s = rev (dropWhile is_ws (rev (dropWhile is_ws s)))"

text \<open>\<open>s.split_whitespace()\<close>: the maximal blank-free pieces.\<close>

fun split_ws :: "string \<Rightarrow> string list" where
  "split_ws [] = []"
| "split_ws (x # xs) =
     (if is_ws x then split_ws xs
      else (case xs of
              [] \<Rightarrow> [[x]]
            | y # _ \<Rightarrow> (if is_ws y then [x] # split_ws xs
                       else (case split_ws xs of [] \<Rightarrow> [[x]] | w # ws \<Rightarrow> (x # w) # ws))))"

definition is_digit :: "char \<Rightarrow> bool" where
  "is_digit c \<longleftrightarrow> 48 \<le> (of_char c :: nat) \<and> (of_char c :: nat) \<le> 57"

definition is_alpha :: "char \<Rightarrow> bool" where
  "is_alpha c \<longleftrightarrow> (let n = (of_char c :: nat) in (65 \<le> n \<and> n \<le> 90) \<or> (97 \<le> n \<and> n \<le> 122))"

definition digit_val :: "char \<Rightarrow> nat" where
  "digit_val c = of_char c - 48"

definition digit_char :: "nat \<Rightarrow> char" where
  "digit_char n = char_of (48 + n)"

text \<open>Decimal printing of unsigned integers (\<open>to_string\<close>, \<open>format!\<close>).\<close>

fun show_nat :: "nat \<Rightarrow> string" where
  "show_nat n = (if n < 10 then [digit_char n] else show_nat (n div 10) @ [digit_char (n mod 10)])"

declare show_nat.simps [simp del]

definition dec_val :: "string \<Rightarrow> nat" where
  "dec_val s = foldl (\<lambda>n c. 10 * n + digit_val c) 0 s"

text \<open>\<open>s.parse::<uN>()\<close>: an optional plus sign, then digits only, no overflow past \<open>mx\<close>.\<close>

definition parse_uint :: "nat \<Rightarrow> string \<Rightarrow> nat option" where
  "parse_uint mx s =
     (let d = (case s of [] \<Rightarrow> [] | c # cs \<Rightarrow> (if c = CHR ''+'' then cs else s))
      in if d = [] \<or> \<not> list_all is_digit d \<or> dec_val d > mx then None else Some (dec_val d))"

abbreviation u32_max :: nat where "u32_max \<equiv> 4294967295"
abbreviation u64_max :: nat where "u64_max \<equiv> 18446744073709551615"

subsection \<open>Laws\<close>

lemma split_on_nonempty [str_simps, simp]: "split_on c s \<noteq> []"
  by (induction s) (auto split: list.splits)

lemma join_with_Cons_char: "join_with sep ((x # w) # ws) = x # join_with sep (w # ws)"
  by (cases ws) simp_all

lemma join_with_Nil_head: "ws \<noteq> [] \<Longrightarrow> join_with sep ([] # ws) = sep @ join_with sep ws"
  by (cases ws) simp_all

lemma join_split [str_simps]: "join_with [c] (split_on c s) = s"
proof (induction s)
  case (Cons x xs)
  then show ?case
    by (cases "split_on c xs") (auto simp: join_with_Cons_char join_with_Nil_head)
qed simp

lemma join_with_nonempty: "ws \<noteq> [] \<Longrightarrow> last ws \<noteq> [] \<Longrightarrow> join_with sep ws \<noteq> []"
  by (induction sep ws rule: join_with.induct) auto

lemma join_with_last: "ws \<noteq> [] \<Longrightarrow> last ws \<noteq> [] \<Longrightarrow> last (join_with sep ws) = last (last ws)"
  by (induction sep ws rule: join_with.induct) (auto simp: join_with_nonempty)

lemma join_with_append:
  "vs \<noteq> [] \<Longrightarrow> ws \<noteq> [] \<Longrightarrow> join_with sep (vs @ ws) = join_with sep vs @ sep @ join_with sep ws"
  by (induction sep vs rule: join_with.induct) (auto simp: neq_Nil_conv)

lemma split_on_notin: "c \<notin> set w \<Longrightarrow> split_on c w = [w]"
  by (induction w) auto

lemma split_on_append: "c \<notin> set w \<Longrightarrow> split_on c (w @ c # s) = w # split_on c s"
  by (induction w) auto

lemma split_join [str_simps]:
  "ws \<noteq> [] \<Longrightarrow> \<forall>w \<in> set ws. c \<notin> set w \<Longrightarrow> split_on c (join_with [c] ws) = ws"
  by (induction "[c]" ws rule: join_with.induct) (simp_all add: split_on_notin split_on_append)

lemma split_on_pieces: "w \<in> set (split_on c s) \<Longrightarrow> c \<notin> set w"
  by (induction s arbitrary: w) (auto split: list.splits if_splits)

lemma strip_prefix_append [str_simps, simp]: "strip_prefix p (p @ s) = Some s"
  by (simp add: strip_prefix_def)

lemma strip_prefix_Some: "strip_prefix p s = Some r \<longleftrightarrow> s = p @ r"
  by (auto simp: strip_prefix_def) (metis append_take_drop_id)

lemma trim_notws: "s = [] \<or> (\<not> is_ws (hd s) \<and> \<not> is_ws (last s)) \<Longrightarrow> trim s = s"
proof -
  assume s: "s = [] \<or> (\<not> is_ws (hd s) \<and> \<not> is_ws (last s))"
  then have "dropWhile is_ws s = s" and "dropWhile is_ws (rev s) = rev s"
    by (auto simp: dropWhile_eq_self_iff hd_rev)
  then show ?thesis by (simp add: trim_def)
qed

lemma digit_char_of: "n < 10 \<Longrightarrow> of_char (digit_char n) = (48 + n :: nat)"
  by (simp add: digit_char_def)

lemma is_digit_char [simp]: "n < 10 \<Longrightarrow> is_digit (digit_char n)"
  by (simp add: is_digit_def digit_char_of)

lemma digit_val_char [simp]: "n < 10 \<Longrightarrow> digit_val (digit_char n) = n"
  by (simp add: digit_val_def digit_char_of)

lemma show_nat_digits: "list_all is_digit (show_nat n)"
proof (induction n rule: show_nat.induct)
  case (1 n)
  then show ?case by (subst show_nat.simps) auto
qed

lemma show_nat_nonempty [simp]: "show_nat n \<noteq> []"
  by (subst show_nat.simps) simp

lemma dec_val_show [simp]: "dec_val (show_nat n) = n"
proof (induction n rule: show_nat.induct)
  case (1 n)
  then show ?case by (subst show_nat.simps) (auto simp: dec_val_def)
qed

lemma show_nat_inj [simp]: "show_nat m = show_nat n \<longleftrightarrow> m = n"
  by (metis dec_val_show)

lemma not_digit_in_show: "\<not> is_digit c \<Longrightarrow> c \<notin> set (show_nat n)"
  using show_nat_digits [of n] by (auto simp: list_all_iff)

lemma parse_show_nat [str_simps]: "n \<le> mx \<Longrightarrow> parse_uint mx (show_nat n) = Some n"
proof -
  assume n: "n \<le> mx"
  obtain c cs where eq: "show_nat n = c # cs" by (cases "show_nat n") auto
  moreover have "c \<noteq> CHR ''+''"
    using show_nat_digits [of n] eq by (auto simp: is_digit_def)
  ultimately show ?thesis
    using n show_nat_digits [of n] dec_val_show [of n] by (simp add: parse_uint_def)
qed

end
