(* ===== verification/Storage.thy ===== *)
theory Storage
  imports Prelude
begin

text \<open>
  The storage entry shared by the sandboxer and the guest agent
  (\<^verbatim>\<open>vmm/common/src/storage.rs\<close>): one host source made available to the guest, with a
  reference count per container. The mount of the OCI specification is plain data.
\<close>

record mount =
  m_destination :: string
  m_type :: string
  m_source :: string
  m_options :: "string list"

record storage =
  st_host_source :: string
  st_type :: string
  st_id :: string
  st_device_id :: "string option"
  st_ref_container :: "(string, nat) hmap"
  st_need_guest_handle :: bool
  st_source :: string
  st_driver :: string
  st_driver_options :: "string list"
  st_fstype :: string
  st_options :: "string list"
  st_mount_point :: string
  st_lower_dirs :: "string option"
  st_cleanup_path :: "string option"
  st_owned_by_runtime :: bool
  st_source_identity :: "string option"

definition is_for_mount :: "storage \<Rightarrow> mount \<Rightarrow> bool" where
  "is_for_mount s m \<longleftrightarrow> st_host_source s = m_source m \<and> st_type s = m_type m"

definition ref_count :: "storage \<Rightarrow> nat" where
  "ref_count s = fold (\<lambda>(_, v) acc. acc + v) (st_ref_container s) 0"

definition refer :: "string \<Rightarrow> storage \<Rightarrow> storage" where
  "refer c s =
     s\<lparr>st_ref_container :=
         (case hm_get (st_ref_container s) c of
            None \<Rightarrow> hm_insert c 1 (st_ref_container s)
          | Some r \<Rightarrow> hm_insert c (r + 1) (st_ref_container s))\<rparr>"

definition storage_defer :: "string \<Rightarrow> storage \<Rightarrow> storage" where
  "storage_defer c s = s\<lparr>st_ref_container := hm_remove c (st_ref_container s)\<rparr>"

section \<open>Reference counts\<close>

definition storage_wf :: "storage \<Rightarrow> bool" where
  "storage_wf s \<longleftrightarrow> cnt_wf (st_ref_container s)"

lemma fold_snd_add: "fold (\<lambda>(_, v) acc. acc + v) m n = n + sum_list (map snd m)" for n :: nat
  by (induction m arbitrary: n) auto

lemma ref_count_sum: "ref_count s = sum_list (map snd (st_ref_container s))"
  by (simp add: ref_count_def fold_snd_add)

lemma ref_count_zero:
  "storage_wf s \<Longrightarrow> ref_count s = 0 \<longleftrightarrow> st_ref_container s = []"
  by (cases "st_ref_container s") (auto simp: storage_wf_def cnt_wf_def ref_count_sum)

lemma refer_cnt_inc: "refer c s = s\<lparr>st_ref_container := cnt_inc c (st_ref_container s)\<rparr>"
  by (simp add: refer_def cnt_inc_def cnt_def split: option.splits)

lemma storage_wf_refer: "storage_wf s \<Longrightarrow> storage_wf (refer c s)"
  by (simp add: refer_cnt_inc storage_wf_def cnt_wf_inc)

lemma storage_wf_defer: "storage_wf s \<Longrightarrow> storage_wf (storage_defer c s)"
  by (simp add: storage_defer_def storage_wf_def cnt_wf_remove)

lemma sum_list_insert:
  "hm_wf m \<Longrightarrow> sum_list (map snd (hm_insert k v m)) + cnt m k = sum_list (map snd m) + v"
  by (induction m) (auto simp: cnt_def map_of_eq_None_iff [THEN iffD2] split: option.splits)

lemma sum_list_remove:
  "hm_wf m \<Longrightarrow> sum_list (map snd (hm_remove k m)) + cnt m k = sum_list (map snd m)"
  by (induction m) (auto simp: cnt_def delete_id map_of_eq_None_iff split: option.splits)

lemma ref_count_refer: "storage_wf s \<Longrightarrow> ref_count (refer c s) = ref_count s + 1"
  using sum_list_insert [of "st_ref_container s" c "cnt (st_ref_container s) c + 1"]
  by (simp add: refer_cnt_inc ref_count_sum storage_wf_def cnt_wf_def cnt_inc_def)

lemma ref_count_defer:
  "storage_wf s \<Longrightarrow> ref_count (storage_defer c s) + cnt (st_ref_container s) c = ref_count s"
  using sum_list_remove [of "st_ref_container s" c]
  by (simp add: storage_defer_def ref_count_sum storage_wf_def cnt_wf_def)

end
