(* ===== verification/Template_Types.thy ===== *)
theory Template_Types
  imports Storage
begin

text \<open>
  The data of the template store (\<^verbatim>\<open>vmm/sandbox/src/template/types.rs\<close> and the parts of
  \<^verbatim>\<open>vm.rs\<close> and \<^verbatim>\<open>sandbox.rs\<close> it refers to): snapshot types, template keys, pooled
  templates. The lemmas show that the keys built by concatenation identify what they were
  built from.
\<close>

datatype snapshot_type = Environment | WarmFork | Continuation

datatype lease_mode = Shared | Exclusive

definition lease_mode_default :: lease_mode where
  "lease_mode_default = Shared"

text \<open>The custom \<open>Deserialize\<close> and the derived \<open>Serialize\<close> (snake case) of the enum.\<close>

definition snapshot_type_deserialize :: "string \<Rightarrow> snapshot_type option" where
  "snapshot_type_deserialize s =
     (if s = ''environment'' then Some Environment
      else if s = ''warm_fork'' then Some WarmFork
      else if s = ''continuation'' then Some Continuation
      else None)"

fun snapshot_type_serialize :: "snapshot_type \<Rightarrow> string" where
  "snapshot_type_serialize Environment = ''environment''"
| "snapshot_type_serialize WarmFork = ''warm_fork''"
| "snapshot_type_serialize Continuation = ''continuation''"

definition from_annotation :: "string \<Rightarrow> snapshot_type option" where
  "from_annotation v =
     (if v = ''warm-fork'' \<or> v = ''warm_fork'' then Some WarmFork
      else if v = ''continuation'' then Some Continuation
      else None)"

fun requires_network_hotplug :: "snapshot_type \<Rightarrow> bool" where
  "requires_network_hotplug Environment = True"
| "requires_network_hotplug WarmFork = True"
| "requires_network_hotplug Continuation = False"

record workload_identity =
  pod_uid :: string
  generation :: nat

record snapshot_container_meta =
  sc_id :: string
  sc_lower_dirs :: string
  sc_storage_id :: string
  sc_device_id :: string
  sc_img_path :: string

record disk_image_entry =
  die_storage_id :: string
  die_device_id :: string
  die_filename :: string

record warm_fork_target =
  wt_container_name :: string
  wt_container_id :: string
  wt_socket_path :: string
  wt_env_overrides :: "(string, string) hmap"
  wt_context :: string

datatype template_key = TemplateKey (tk_key: string)

definition from_vm_config ::
  "string \<Rightarrow> string \<Rightarrow> nat \<Rightarrow> nat \<Rightarrow> string \<Rightarrow> string \<Rightarrow> template_key" where
  "from_vm_config kernel_path image_path vcpus memory_mb kernel_params storage_backend =
     TemplateKey (kernel_path @ '':'' @ image_path @ '':'' @ show_nat vcpus @ '':'' @
       show_nat memory_mb @ '':'' @ kernel_params @ '':'' @ storage_backend)"

definition user_key :: "string \<Rightarrow> template_key" where
  "user_key k = TemplateKey k"

definition from_workload_identity :: "string \<Rightarrow> nat \<Rightarrow> template_key" where
  "from_workload_identity uid gen = TemplateKey (uid @ '':'' @ show_nat gen)"

record pooled_template =
  pt_id :: string
  pt_key :: template_key
  pt_snapshot_dir :: string
  pt_pmem_path :: string
  pt_kernel_path :: string
  pt_vcpus :: nat
  pt_memory_mb :: nat
  pt_created_at_secs :: nat
  pt_original_task_vsock :: string
  pt_original_console_path :: string
  pt_hypervisor_api_version :: string
  pt_snapshot_type :: snapshot_type
  pt_id_generator :: nat
  pt_disk_images :: "disk_image_entry list"
  pt_storages :: "storage list"
  pt_orphan_container_ids :: "string list"
  pt_snapshot_containers :: "snapshot_container_meta list"
  pt_ready_protocol_version :: "string option"
  pt_workload_identity :: "workload_identity option"
  pt_warm_fork_targets :: "warm_fork_target list"

text \<open>\<open>PooledTemplate::new\<close>; the clock is an argument.\<close>

definition pooled_template_new ::
  "nat \<Rightarrow> string \<Rightarrow> template_key \<Rightarrow> string \<Rightarrow> string \<Rightarrow> string \<Rightarrow> nat \<Rightarrow> nat \<Rightarrow> string \<Rightarrow> string
   \<Rightarrow> pooled_template" where
  "pooled_template_new now_secs i key snapshot_dir pmem_path kernel_path vcpus memory_mb
       original_task_vsock original_console_path =
     \<lparr>pt_id = i, pt_key = key, pt_snapshot_dir = snapshot_dir, pt_pmem_path = pmem_path,
      pt_kernel_path = kernel_path, pt_vcpus = vcpus, pt_memory_mb = memory_mb,
      pt_created_at_secs = now_secs, pt_original_task_vsock = original_task_vsock,
      pt_original_console_path = original_console_path, pt_hypervisor_api_version = [],
      pt_snapshot_type = Environment, pt_id_generator = 0, pt_disk_images = [],
      pt_storages = [], pt_orphan_container_ids = [], pt_snapshot_containers = [],
      pt_ready_protocol_version = None, pt_workload_identity = None,
      pt_warm_fork_targets = []\<rparr>"

record create_template_request =
  ctr_id :: string
  ctr_key :: "string option"
  ctr_vcpus :: "nat option"
  ctr_memory_mb :: "nat option"
  ctr_lease_mode :: lease_mode

definition create_template_request_new :: "string \<Rightarrow> create_template_request" where
  "create_template_request_new i =
     \<lparr>ctr_id = i, ctr_key = None, ctr_vcpus = None, ctr_memory_mb = None,
      ctr_lease_mode = lease_mode_default\<rparr>"

definition new_with_lease_mode :: "string \<Rightarrow> lease_mode \<Rightarrow> create_template_request" where
  "new_with_lease_mode i m =
     \<lparr>ctr_id = i, ctr_key = None, ctr_vcpus = None, ctr_memory_mb = None, ctr_lease_mode = m\<rparr>"

definition with_key :: "string \<Rightarrow> string \<Rightarrow> create_template_request" where
  "with_key i k =
     \<lparr>ctr_id = i, ctr_key = Some k, ctr_vcpus = None, ctr_memory_mb = None,
      ctr_lease_mode = lease_mode_default\<rparr>"

section \<open>Round trips and keys\<close>

lemma serialize_deserialize: "snapshot_type_deserialize (snapshot_type_serialize t) = Some t"
  by (cases t) (simp_all add: snapshot_type_deserialize_def)

lemma colon_not_digit: "\<not> is_digit CHR '':''"
  by (simp add: is_digit_def)

lemma append_sep_eq:
  assumes "c \<notin> set a" and "c \<notin> set b"
  shows "a @ c # x = b @ c # y \<longleftrightarrow> a = b \<and> x = y"
proof
  assume eq: "a @ c # x = b @ c # y"
  have "takeWhile (\<lambda>z. z \<noteq> c) (a @ c # x) = a" "takeWhile (\<lambda>z. z \<noteq> c) (b @ c # y) = b"
    using assms by (simp_all add: takeWhile_tail takeWhile_append2 takeWhile_eq_all_conv
        takeWhile_append split: if_splits)
  with eq have "a = b" by simp
  with eq show "a = b \<and> x = y" by simp
qed simp

lemma append_sep_eq_last:
  assumes "c \<notin> set x" and "c \<notin> set y"
  shows "a @ c # x = b @ c # y \<longleftrightarrow> a = b \<and> x = y"
proof
  assume eq: "a @ c # x = b @ c # y"
  have "rev x @ c # rev a = rev (a @ c # x)" by simp
  also have "\<dots> = rev y @ c # rev b" by (simp add: eq)
  finally show "a = b \<and> x = y" using assms by (simp add: append_sep_eq)
qed simp

text \<open>
  \<open>TemplateKey::from_vm_config\<close> identifies the VM shape. Two configurations whose kernel
  path, image path and storage backend contain no colon have the same pool key only if they
  agree in every component. The kernel parameters may contain colons: the fields on both
  sides of them delimit them.
\<close>

theorem from_vm_config_injective:
  assumes "CHR '':'' \<notin> set k" "CHR '':'' \<notin> set k'" "CHR '':'' \<notin> set i" "CHR '':'' \<notin> set i'"
    and "CHR '':'' \<notin> set b" "CHR '':'' \<notin> set b'"
  shows "from_vm_config k i v m p b = from_vm_config k' i' v' m' p' b' \<longleftrightarrow>
    k = k' \<and> i = i' \<and> v = v' \<and> m = m' \<and> p = p' \<and> b = b'"
  using assms not_digit_in_show [OF colon_not_digit]
  by (simp add: from_vm_config_def append_sep_eq append_sep_eq_last)

theorem from_vm_config_injective_witness:
  "from_vm_config ''/k'' ''/i'' 2 1024 ''a=b:c'' ''blk'' \<noteq>
   from_vm_config ''/k'' ''/i'' 2 512 ''a=b:c'' ''blk''"
  using from_vm_config_injective
    [of "''/k''" "''/k''" "''/i''" "''/i''" "''blk''" "''blk''" 2 1024 "''a=b:c''" 2 512 "''a=b:c''"]
  by simp

text \<open>
  the key of a workload identity is injective without any side condition, so a warm
  fork or a continuation of one pod generation is never offered to another.
\<close>

theorem from_workload_identity_injective:
  "from_workload_identity u g = from_workload_identity u' g' \<longleftrightarrow> u = u' \<and> g = g'"
  using not_digit_in_show [OF colon_not_digit]
  by (simp add: from_workload_identity_def append_sep_eq_last)

end
