(* ===== verification/Store_Dir.thy ===== *)
theory Store_Dir
  imports Template_Types
begin

text \<open>
  The directories in which the template pool and the continuation store persist templates:
  one directory per template, holding \<^verbatim>\<open>pooled_template.json\<close> and, once the template has been
  handed out exclusively, the file \<^verbatim>\<open>consumed\<close>. The file system calls of
  \<^verbatim>\<open>tokio::fs\<close> are total functions on this store. Which calls fail is decided by the
  \<open>host\<close>: every theorem quantifies over it, so it holds for every pattern of I/O faults.
  The host also carries the JSON codec (the \<open>serde_json\<close> package), of which only the
  round trip of a saved template is ever assumed.
\<close>

section \<open>Directories and hosts\<close>

record 'c dir_entry =
  d_json :: "'c option"
  d_consumed :: bool

type_synonym ('d, 'c) store_disk = "('d, 'c dir_entry) hmap"

datatype io_error = NotFound | IoFault

text \<open>Addresses are of type \<open>'d\<close>; \<open>'k\<close> names the directories that are listed.\<close>

datatype ('d, 'k) fs_op =
    CreateDir 'd | RemoveDir 'd | WriteJson 'd | ReadJson 'd
  | CreateMarker 'd | SyncMarker 'd | RemoveMarker 'd | StatMarker 'd | StatDir 'd
  | ListDir 'k | NextDir 'k | NextEntry 'd | CreateRoot

text \<open>
  \<open>h_residue\<close> is what a failing recursive delete leaves of a directory: it may have removed
  some of the files already.
\<close>

record ('d, 'k, 'c) host =
  h_fault :: "('d, 'k) fs_op \<Rightarrow> bool"
  h_residue :: "'c dir_entry \<Rightarrow> 'c dir_entry"
  h_to_json :: "pooled_template \<Rightarrow> 'c"
  h_from_json :: "'c \<Rightarrow> pooled_template option"

section \<open>File system calls\<close>

definition fs_create_dir_all ::
  "('d, 'k, 'c) host \<Rightarrow> 'd \<Rightarrow> ('d, 'c) store_disk \<Rightarrow> io_error option \<times> ('d, 'c) store_disk" where
  "fs_create_dir_all h d dk =
     (if h_fault h (CreateDir d) then (Some IoFault, dk)
      else if hm_contains dk d then (None, dk)
      else (None, hm_insert d \<lparr>d_json = None, d_consumed = False\<rparr> dk))"

definition fs_remove_dir_all ::
  "('d, 'k, 'c) host \<Rightarrow> 'd \<Rightarrow> ('d, 'c) store_disk \<Rightarrow> io_error option \<times> ('d, 'c) store_disk" where
  "fs_remove_dir_all h d dk =
     (case hm_get dk d of
        None \<Rightarrow> (if h_fault h (RemoveDir d) then (Some IoFault, dk) else (Some NotFound, dk))
      | Some e \<Rightarrow>
          (if h_fault h (RemoveDir d) then (Some IoFault, hm_insert d (h_residue h e) dk)
           else (None, hm_remove d dk)))"

text \<open>\<open>PooledTemplate::save\<close>: a temporary file renamed over the target, so all or nothing.\<close>

definition template_save ::
  "('d, 'k, 'c) host \<Rightarrow> pooled_template \<Rightarrow> 'd \<Rightarrow> ('d, 'c) store_disk
   \<Rightarrow> io_error option \<times> ('d, 'c) store_disk" where
  "template_save h t d dk =
     (case hm_get dk d of
        None \<Rightarrow> (Some NotFound, dk)
      | Some e \<Rightarrow>
          (if h_fault h (WriteJson d) then (Some IoFault, dk)
           else (None, hm_insert d (e\<lparr>d_json := Some (h_to_json h t)\<rparr>) dk)))"

definition template_load ::
  "('d, 'k, 'c) host \<Rightarrow> 'd \<Rightarrow> ('d, 'c) store_disk \<Rightarrow> pooled_template option" where
  "template_load h d dk =
     (if h_fault h (ReadJson d) then None
      else (case hm_get dk d of
              None \<Rightarrow> None
            | Some e \<Rightarrow> (case d_json e of None \<Rightarrow> None | Some c \<Rightarrow> h_from_json h c)))"

text \<open>
  \<open>write_consumed_marker\<close>: \<open>File::create\<close>, then \<open>sync_all\<close>. When only the sync fails, the
  marker is on disk although the call reports an error.
\<close>

definition write_consumed_marker ::
  "('d, 'k, 'c) host \<Rightarrow> 'd \<Rightarrow> ('d, 'c) store_disk \<Rightarrow> io_error option \<times> ('d, 'c) store_disk" where
  "write_consumed_marker h d dk =
     (if h_fault h (CreateMarker d) then (Some IoFault, dk)
      else (case hm_get dk d of
              None \<Rightarrow> (Some NotFound, dk)
            | Some e \<Rightarrow>
                (if h_fault h (SyncMarker d)
                 then (Some IoFault, hm_insert d (e\<lparr>d_consumed := True\<rparr>) dk)
                 else (None, hm_insert d (e\<lparr>d_consumed := True\<rparr>) dk))))"

definition fs_remove_marker ::
  "('d, 'k, 'c) host \<Rightarrow> 'd \<Rightarrow> ('d, 'c) store_disk \<Rightarrow> io_error option \<times> ('d, 'c) store_disk" where
  "fs_remove_marker h d dk =
     (if h_fault h (RemoveMarker d) then (Some IoFault, dk)
      else (case hm_get dk d of
              None \<Rightarrow> (Some NotFound, dk)
            | Some e \<Rightarrow>
                (if d_consumed e then (None, hm_insert d (e\<lparr>d_consumed := False\<rparr>) dk)
                 else (Some NotFound, dk))))"

definition marker_on :: "'d \<Rightarrow> ('d, 'c) store_disk \<Rightarrow> bool" where
  "marker_on d dk \<longleftrightarrow> (case hm_get dk d of None \<Rightarrow> False | Some e \<Rightarrow> d_consumed e)"

definition fs_try_exists_marker ::
  "('d, 'k, 'c) host \<Rightarrow> 'd \<Rightarrow> ('d, 'c) store_disk \<Rightarrow> io_error + bool" where
  "fs_try_exists_marker h d dk =
     (if h_fault h (StatMarker d) then Inl IoFault else Inr (marker_on d dk))"

definition fs_exists_dir :: "('d, 'k, 'c) host \<Rightarrow> 'd \<Rightarrow> ('d, 'c) store_disk \<Rightarrow> bool" where
  "fs_exists_dir h d dk \<longleftrightarrow> \<not> h_fault h (StatDir d) \<and> hm_contains dk d"

text \<open>
  Listing the directories selected by \<open>P\<close> under \<open>k\<close>; the order is that of the store. An error
  of \<open>next_entry\<close> ends the iteration.
\<close>

definition fs_read_dir ::
  "('d, 'k, 'c) host \<Rightarrow> 'k \<Rightarrow> ('d \<Rightarrow> bool) \<Rightarrow> ('d, 'c) store_disk \<Rightarrow> 'd list" where
  "fs_read_dir h k P dk =
     (if h_fault h (ListDir k) then []
      else takeWhile (\<lambda>d. \<not> h_fault h (NextEntry d)) (filter P (map fst dk)))"

section \<open>What the stores rely on\<close>

text \<open>The JSON codec restores every template it wrote.\<close>

definition codec_ok :: "('d, 'k, 'c) host \<Rightarrow> bool" where
  "codec_ok h \<longleftrightarrow> (\<forall>t. h_from_json h (h_to_json h t) = Some t)"

text \<open>
  A failing recursive delete never invents content, and never removes the marker while it
  leaves the metadata.
\<close>

definition residue_ok :: "('d, 'k, 'c) host \<Rightarrow> bool" where
  "residue_ok h \<longleftrightarrow>
     (\<forall>e. (d_consumed (h_residue h e) \<longrightarrow> d_consumed e) \<and>
          (d_json (h_residue h e) = None \<or>
           (d_json (h_residue h e) = d_json e \<and> (d_consumed e \<longrightarrow> d_consumed (h_residue h e)))))"

text \<open>A host without faults, with templates stored as themselves, for concrete runs.\<close>

definition ideal_host :: "('d, 'k, pooled_template) host" where
  "ideal_host =
     \<lparr>h_fault = (\<lambda>_. False), h_residue = (\<lambda>e. e), h_to_json = (\<lambda>t. t), h_from_json = Some\<rparr>"

lemma ideal_host_sel [simp]:
  "h_fault ideal_host op = False" "h_residue ideal_host e = e"
  "h_to_json ideal_host t = t" "h_from_json ideal_host t = Some t"
  by (simp_all add: ideal_host_def)

lemma codec_ok_ideal [simp]: "codec_ok ideal_host"
  and residue_ok_ideal [simp]: "residue_ok ideal_host"
  by (simp_all add: codec_ok_def residue_ok_def)

section \<open>What is on disk for a restart to find\<close>

text \<open>The metadata a restart would read back from an address, if the read succeeds.\<close>

definition offered :: "('d, 'c) store_disk \<Rightarrow> 'd \<Rightarrow> 'c option" where
  "offered dk d =
     (case hm_get dk d of None \<Rightarrow> None | Some e \<Rightarrow> (if d_consumed e then None else d_json e))"

named_theorems fs_defs \<open>definitions of the file system calls\<close>

lemmas [fs_defs] = fs_create_dir_all_def fs_remove_dir_all_def template_save_def
  write_consumed_marker_def fs_remove_marker_def

lemma disk_wf [simp]:
  assumes "hm_wf dk"
  shows "hm_wf (snd (fs_create_dir_all h d dk))" "hm_wf (snd (fs_remove_dir_all h d dk))"
    "hm_wf (snd (template_save h t d dk))" "hm_wf (snd (write_consumed_marker h d dk))"
    "hm_wf (snd (fs_remove_marker h d dk))"
  using assms by (auto simp: fs_defs split: option.splits)

lemma get_other [simp]:
  assumes "d' \<noteq> d"
  shows "hm_get (snd (fs_create_dir_all h d dk)) d' = hm_get dk d'"
    "hm_get (snd (fs_remove_dir_all h d dk)) d' = hm_get dk d'"
    "hm_get (snd (template_save h t d dk)) d' = hm_get dk d'"
    "hm_get (snd (write_consumed_marker h d dk)) d' = hm_get dk d'"
    "hm_get (snd (fs_remove_marker h d dk)) d' = hm_get dk d'"
  using assms by (auto simp: fs_defs split: option.splits)

lemma offered_create [simp]: "offered (snd (fs_create_dir_all h d dk)) = offered dk"
  by (auto simp: fun_eq_iff offered_def fs_create_dir_all_def split: option.splits)

lemma residue_okD:
  assumes "residue_ok h" and "d_json (h_residue h e) = Some c"
  shows "d_json e = Some c" and "d_consumed e \<Longrightarrow> d_consumed (h_residue h e)"
  using assms unfolding residue_ok_def by (metis option.distinct(1))+

lemma marker_remove:
  "residue_ok h \<Longrightarrow> marker_on d' (snd (fs_remove_dir_all h d dk)) \<Longrightarrow> marker_on d' dk"
  by (cases "d' = d")
    (auto simp: marker_on_def fs_remove_dir_all_def residue_ok_def split: option.splits if_splits)

lemma marker_create: "marker_on d' (snd (fs_create_dir_all h d dk)) \<Longrightarrow> marker_on d' dk"
  by (auto simp: marker_on_def fs_create_dir_all_def split: option.splits if_splits)

lemma offered_remove:
  "residue_ok h \<Longrightarrow> offered (snd (fs_remove_dir_all h d dk)) d' = Some c \<Longrightarrow> offered dk d' = Some c"
  by (cases "d' = d")
    (auto simp: offered_def fs_remove_dir_all_def dest: residue_okD split: option.splits if_splits)

lemma offered_removed:
  "fst (fs_remove_dir_all h d dk) \<noteq> Some IoFault \<Longrightarrow> offered (snd (fs_remove_dir_all h d dk)) d = None"
  by (auto simp: offered_def fs_remove_dir_all_def split: option.splits if_splits)

lemma offered_save:
  "offered (snd (template_save h t d dk)) d' = Some c \<Longrightarrow>
   offered dk d' = Some c \<or> (d' = d \<and> c = h_to_json h t \<and> fst (template_save h t d dk) = None)"
  by (auto simp: offered_def template_save_def split: option.splits if_splits)

lemma offered_mark:
  "offered (snd (write_consumed_marker h d dk)) d' = Some c \<Longrightarrow> offered dk d' = Some c"
  by (auto simp: offered_def write_consumed_marker_def split: option.splits if_splits)

lemma offered_marked:
  "fst (write_consumed_marker h d dk) = None \<Longrightarrow> offered (snd (write_consumed_marker h d dk)) d = None"
  by (auto simp: offered_def write_consumed_marker_def split: option.splits if_splits)

lemma offered_unmark_other:
  "d' \<noteq> d \<Longrightarrow> offered (snd (fs_remove_marker h d dk)) d' = offered dk d'"
  by (simp add: offered_def)

lemma offered_json: "offered dk d = Some c \<Longrightarrow> \<exists>e. hm_get dk d = Some e \<and> d_json e = Some c"
  by (auto simp: offered_def split: option.splits if_splits)

end
