(* ===== verification/Template_Metrics.thy ===== *)
theory Template_Metrics
  imports Template_Types
begin

text \<open>
  The health counters of the pool (\<^verbatim>\<open>vmm/sandbox/src/template/metrics.rs\<close>). They are
  \<open>AtomicU64\<close>, whose \<open>fetch_add\<close> wraps around, hence 64-bit words. The derived floating-point
  rates and averages are not modelled.
\<close>

record template_metrics =
  templates_created :: "64 word"
  total_starts :: "64 word"
  pool_hits :: "64 word"
  pool_misses :: "64 word"
  restore_total_ms :: "64 word"
  restore_count :: "64 word"
  environment_hits :: "64 word"
  warmfork_hits :: "64 word"
  continuation_hits :: "64 word"
  environment_restore_ms :: "64 word"
  warmfork_restore_ms :: "64 word"
  continuation_restore_ms :: "64 word"
  environment_restore_count :: "64 word"
  warmfork_restore_count :: "64 word"
  continuation_restore_count :: "64 word"

definition template_metrics_default :: template_metrics where
  "template_metrics_default =
     \<lparr>templates_created = 0, total_starts = 0, pool_hits = 0, pool_misses = 0,
      restore_total_ms = 0, restore_count = 0, environment_hits = 0, warmfork_hits = 0,
      continuation_hits = 0, environment_restore_ms = 0, warmfork_restore_ms = 0,
      continuation_restore_ms = 0, environment_restore_count = 0, warmfork_restore_count = 0,
      continuation_restore_count = 0\<rparr>"

definition record_environment_hit :: "64 word \<Rightarrow> template_metrics \<Rightarrow> template_metrics" where
  "record_environment_hit restore_ms m =
     m\<lparr>total_starts := total_starts m + 1, pool_hits := pool_hits m + 1,
       restore_total_ms := restore_total_ms m + restore_ms,
       restore_count := restore_count m + 1,
       environment_hits := environment_hits m + 1,
       environment_restore_ms := environment_restore_ms m + restore_ms,
       environment_restore_count := environment_restore_count m + 1\<rparr>"

definition record_warmfork_hit :: "64 word \<Rightarrow> template_metrics \<Rightarrow> template_metrics" where
  "record_warmfork_hit restore_ms m =
     m\<lparr>total_starts := total_starts m + 1, pool_hits := pool_hits m + 1,
       restore_total_ms := restore_total_ms m + restore_ms,
       restore_count := restore_count m + 1,
       warmfork_hits := warmfork_hits m + 1,
       warmfork_restore_ms := warmfork_restore_ms m + restore_ms,
       warmfork_restore_count := warmfork_restore_count m + 1\<rparr>"

definition record_continuation_hit :: "64 word \<Rightarrow> template_metrics \<Rightarrow> template_metrics" where
  "record_continuation_hit restore_ms m =
     m\<lparr>total_starts := total_starts m + 1, pool_hits := pool_hits m + 1,
       restore_total_ms := restore_total_ms m + restore_ms,
       restore_count := restore_count m + 1,
       continuation_hits := continuation_hits m + 1,
       continuation_restore_ms := continuation_restore_ms m + restore_ms,
       continuation_restore_count := continuation_restore_count m + 1\<rparr>"

definition record_miss :: "template_metrics \<Rightarrow> template_metrics" where
  "record_miss m = m\<lparr>total_starts := total_starts m + 1, pool_misses := pool_misses m + 1\<rparr>"

definition record_template_created :: "template_metrics \<Rightarrow> template_metrics" where
  "record_template_created m = m\<lparr>templates_created := templates_created m + 1\<rparr>"

section \<open>The counters are consistent\<close>

text \<open>One call of a recording method.\<close>

datatype metric_event =
    EnvironmentHit "64 word" | WarmforkHit "64 word" | ContinuationHit "64 word"
  | Miss | TemplateCreated

primrec metric_apply :: "metric_event \<Rightarrow> template_metrics \<Rightarrow> template_metrics" where
  "metric_apply (EnvironmentHit ms) m = record_environment_hit ms m"
| "metric_apply (WarmforkHit ms) m = record_warmfork_hit ms m"
| "metric_apply (ContinuationHit ms) m = record_continuation_hit ms m"
| "metric_apply Miss m = record_miss m"
| "metric_apply TemplateCreated m = record_template_created m"

definition metrics_consistent :: "template_metrics \<Rightarrow> bool" where
  "metrics_consistent m \<longleftrightarrow>
     total_starts m = pool_hits m + pool_misses m \<and>
     pool_hits m = environment_hits m + warmfork_hits m + continuation_hits m \<and>
     restore_count m = pool_hits m \<and>
     environment_restore_count m = environment_hits m \<and>
     warmfork_restore_count m = warmfork_hits m \<and>
     continuation_restore_count m = continuation_hits m \<and>
     restore_total_ms m =
       environment_restore_ms m + warmfork_restore_ms m + continuation_restore_ms m"

lemma metrics_consistent_default: "metrics_consistent template_metrics_default"
  by (simp add: metrics_consistent_def template_metrics_default_def)

lemma metrics_consistent_apply: "metrics_consistent m \<Longrightarrow> metrics_consistent (metric_apply e m)"
  by (cases e)
    (simp_all add: metrics_consistent_def record_environment_hit_def record_warmfork_hit_def
      record_continuation_hit_def record_miss_def record_template_created_def)

text \<open>
  after any sequence of recordings the counters add up, even when they wrap around:
  every start is a hit or a miss, every hit has exactly one kind and one timed restore, and
  the total restore time is the sum of the times per kind.
\<close>

theorem metrics_consistent_run:
  "metrics_consistent (fold metric_apply es template_metrics_default)"
proof -
  have "metrics_consistent m \<Longrightarrow> metrics_consistent (fold metric_apply es m)" for m
    by (induction es arbitrary: m) (simp_all add: metrics_consistent_apply)
  then show ?thesis by (simp add: metrics_consistent_default)
qed

end
