(* ===== verification/Template_Pool.thy ===== *)
theory Template_Pool
  imports Store_Dir Template_Metrics
begin

text \<open>
  The template pool (\<^verbatim>\<open>vmm/sandbox/src/template/pool.rs\<close>): its state, every operation on it
  and the leases handed to a restore. The pool's disk is part of its state. An operation
  returns its result together with the new state; the \<open>unreachable!\<close> branches of the source
  are the error \<open>Unreachable\<close>. Each operation runs to completion here; interleavings of
  operations are the subject of the theory on races.
\<close>

section \<open>State\<close>

datatype kind_dir = EnvironmentDir | WarmforkDir

type_synonym pool_addr = "kind_dir \<times> string"
type_synonym 'c pool_host = "(pool_addr, kind_dir, 'c) host"
type_synonym available_map = "(template_key, pooled_template list) hmap"

record 'c pool =
  available :: available_map
  store_dir :: string
  environment_max_per_key :: nat
  warmfork_max_per_key :: nat
  metrics :: template_metrics
  in_flight_refills :: "(template_key, nat) hmap"
  in_flight_restores :: "(string, nat) hmap"
  template_ready :: "64 word"
  in_use_count :: "(string, nat) hmap"
  gc_watermark :: nat
  pool_lease_mode :: lease_mode
  reflink_supported :: bool
  disk :: "(pool_addr, 'c) store_disk"

datatype pool_error =
    Unreachable
  | CreateRootFailed
  | CreateTemplateDirFailed
  | WatermarkEvictionFailed string
  | WatermarkNoCandidate
  | MaxPerKeyInUse string
  | MaxPerKeyEvictionFailed string
  | SaveFailed
  | KindMismatch
  | BeingRestored
  | InUse
  | RemoveDirFailed

datatype restore_lease_kind = SharedLease | SharedRef | ExclusiveLease

record template_lease =
  tl_tmpl :: "pooled_template option"
  tl_kind :: restore_lease_kind

definition pool_new ::
  "string \<Rightarrow> nat \<Rightarrow> nat \<Rightarrow> nat \<Rightarrow> lease_mode \<Rightarrow> bool \<Rightarrow> (pool_addr, 'c) store_disk \<Rightarrow> 'c pool" where
  "pool_new dir env_max wf_max watermark mode reflink dk =
     \<lparr>available = [], store_dir = dir, environment_max_per_key = env_max,
      warmfork_max_per_key = wf_max, metrics = template_metrics_default,
      in_flight_refills = [], in_flight_restores = [], template_ready = 0,
      in_use_count = [], gc_watermark = watermark, pool_lease_mode = mode,
      reflink_supported = reflink, disk = dk\<rparr>"

fun template_dir :: "pooled_template \<Rightarrow> pool_addr option" where
  "template_dir t =
     (case pt_snapshot_type t of
        Environment \<Rightarrow> Some (EnvironmentDir, pt_id t)
      | WarmFork \<Rightarrow> Some (WarmforkDir, pt_id t)
      | Continuation \<Rightarrow> None)"

declare template_dir.simps [simp del]

definition find_template_dir :: "'c pool_host \<Rightarrow> 'c pool \<Rightarrow> string \<Rightarrow> pool_addr" where
  "find_template_dir h p i =
     (if fs_exists_dir h (EnvironmentDir, i) (disk p) then (EnvironmentDir, i)
      else if fs_exists_dir h (WarmforkDir, i) (disk p) then (WarmforkDir, i)
      else (EnvironmentDir, i))"

text \<open>\<open>map.entry(t.key).or_default().push_back(t)\<close>\<close>

definition push_template :: "pooled_template \<Rightarrow> available_map \<Rightarrow> available_map" where
  "push_template t av =
     hm_insert (pt_key t) ((case hm_get av (pt_key t) of None \<Rightarrow> [] | Some q \<Rightarrow> q) @ [t]) av"

text \<open>\<open>available.values().flat_map(|q| q.iter())\<close>\<close>

definition all_templates :: "'c pool \<Rightarrow> pooled_template list" where
  "all_templates p = concat (map snd (available p))"

definition total_depth :: "'c pool \<Rightarrow> nat" where
  "total_depth p = sum_list (map (\<lambda>(_, q). length q) (available p))"

text \<open>\<open>values_mut().for_each(|q| q.retain(|t| t.id != id))\<close>\<close>

definition pool_retain :: "string \<Rightarrow> 'c pool \<Rightarrow> 'c pool" where
  "pool_retain i p =
     p\<lparr>available := map (\<lambda>(k, q). (k, filter (\<lambda>t. pt_id t \<noteq> i) q)) (available p)\<rparr>"

definition find_by_id :: "'c pool \<Rightarrow> string \<Rightarrow> pooled_template option" where
  "find_by_id p i = find (\<lambda>t. pt_id t = i) (all_templates p)"

section \<open>Loading\<close>

definition load_entry ::
  "'c pool_host \<Rightarrow> (pool_addr, 'c) store_disk \<Rightarrow> pool_addr \<Rightarrow> available_map \<Rightarrow> available_map" where
  "load_entry h dk d av =
     (if (case fs_try_exists_marker h d dk of Inl _ \<Rightarrow> False | Inr b \<Rightarrow> b) then av
      else (case template_load h d dk of
              Some t \<Rightarrow> push_template t av
            | None \<Rightarrow> av))"

definition load_from_disk ::
  "'c pool_host \<Rightarrow> string \<Rightarrow> nat \<Rightarrow> nat \<Rightarrow> nat \<Rightarrow> lease_mode \<Rightarrow> bool \<Rightarrow> (pool_addr, 'c) store_disk
   \<Rightarrow> pool_error + 'c pool" where
  "load_from_disk h dir env_max wf_max watermark mode reflink dk =
     (if h_fault h CreateRoot then Inl CreateRootFailed
      else
        let p = pool_new dir env_max wf_max watermark mode reflink dk;
            scan = (\<lambda>kd av. fold (load_entry h dk) (fs_read_dir h kd (\<lambda>d. fst d = kd) dk) av)
        in Inr (p\<lparr>available := fold scan [EnvironmentDir, WarmforkDir] (available p)\<rparr>))"

section \<open>Adding\<close>

text \<open>The inner loop of step 1: the oldest evictable template, \<open>Inl\<close> on an unreachable kind.\<close>

fun add_evictable :: "'c pool \<Rightarrow> pooled_template \<Rightarrow> pool_error + bool" where
  "add_evictable p t =
     (case pt_snapshot_type t of
        Environment \<Rightarrow> Inr (hm_get (in_use_count p) (pt_id t) = None)
      | WarmFork \<Rightarrow>
          Inr (pool_lease_mode p = Shared \<and> hm_get (in_use_count p) (pt_id t) = None)
      | Continuation \<Rightarrow> Inl Unreachable)"

declare add_evictable.simps [simp del]

fun oldest_candidate ::
  "'c pool \<Rightarrow> pooled_template list \<Rightarrow> pooled_template option \<Rightarrow> pool_error + pooled_template option" where
  "oldest_candidate p [] cand = Inr cand"
| "oldest_candidate p (t # ts) cand =
     (if hm_contains (in_flight_restores p) (pt_id t) then oldest_candidate p ts cand
      else (case add_evictable p t of
              Inl e \<Rightarrow> Inl e
            | Inr evictable \<Rightarrow>
                oldest_candidate p ts
                  (if evictable \<and>
                      (case cand of None \<Rightarrow> True
                       | Some o' \<Rightarrow> pt_created_at_secs t < pt_created_at_secs o')
                   then Some t else cand)))"

text \<open>The cleanup of the staging directory on the error paths; its own errors are only logged.\<close>

definition cleanup_new_dir :: "'c pool_host \<Rightarrow> pool_addr \<Rightarrow> 'c pool \<Rightarrow> 'c pool" where
  "cleanup_new_dir h d p = p\<lparr>disk := snd (fs_remove_dir_all h d (disk p))\<rparr>"

text \<open>Step 1 of \<open>add\<close>: the global water level.\<close>

definition add_water_level ::
  "'c pool_host \<Rightarrow> pool_addr \<Rightarrow> 'c pool \<Rightarrow> (pool_error + unit) \<times> 'c pool" where
  "add_water_level h tmpl_dir p =
     (if total_depth p \<ge> gc_watermark p then
        (case oldest_candidate p (all_templates p) None of
           Inl e \<Rightarrow> (Inl e, p)
         | Inr None \<Rightarrow> (Inl WatermarkNoCandidate, cleanup_new_dir h tmpl_dir p)
         | Inr (Some c) \<Rightarrow>
             (case template_dir c of
                None \<Rightarrow> (Inl Unreachable, p)
              | Some old_dir \<Rightarrow>
                  (case fs_remove_dir_all h old_dir (disk p) of
                     (Some _, dk) \<Rightarrow>
                       (Inl (WatermarkEvictionFailed (pt_id c)),
                        cleanup_new_dir h tmpl_dir (p\<lparr>disk := dk\<rparr>))
                   | (None, dk) \<Rightarrow> (Inr (), pool_retain (pt_id c) (p\<lparr>disk := dk\<rparr>)))))
      else (Inr (), p))"

fun kind_max_per_key :: "'c pool \<Rightarrow> snapshot_type \<Rightarrow> nat option" where
  "kind_max_per_key p Environment = Some (environment_max_per_key p)"
| "kind_max_per_key p WarmFork = Some (warmfork_max_per_key p)"
| "kind_max_per_key p Continuation = None"

text \<open>Step 2 of \<open>add\<close>: the depth per key.\<close>

definition add_key_depth ::
  "'c pool_host \<Rightarrow> pooled_template \<Rightarrow> pool_addr \<Rightarrow> 'c pool \<Rightarrow> (pool_error + unit) \<times> 'c pool" where
  "add_key_depth h t tmpl_dir p =
     (case kind_max_per_key p (pt_snapshot_type t) of
        None \<Rightarrow> (Inl Unreachable, p)
      | Some mx \<Rightarrow>
          (case hm_get (available p) (pt_key t) of
             None \<Rightarrow> (Inr (), p)
           | Some q \<Rightarrow>
               (if length q \<ge> mx \<and> q \<noteq> [] then
                  let oldest = hd q in
                  if hm_contains (in_flight_restores p) (pt_id oldest) \<or>
                     hm_get (in_use_count p) (pt_id oldest) \<noteq> None
                  then (Inl (MaxPerKeyInUse (pt_id oldest)), cleanup_new_dir h tmpl_dir p)
                  else (case template_dir oldest of
                          None \<Rightarrow> (Inl Unreachable, p)
                        | Some old_dir \<Rightarrow>
                            (case fs_remove_dir_all h old_dir (disk p) of
                               (Some _, dk) \<Rightarrow>
                                 (Inl (MaxPerKeyEvictionFailed (pt_id oldest)),
                                  cleanup_new_dir h tmpl_dir (p\<lparr>disk := dk\<rparr>))
                             | (None, dk) \<Rightarrow>
                                 (Inr (),
                                  p\<lparr>disk := dk,
                                    available := hm_insert (pt_key t)
                                      (filter (\<lambda>x. pt_id x \<noteq> pt_id oldest) q) (available p)\<rparr>)))
                else (Inr (), p))))"

definition add_insert ::
  "'c pool_host \<Rightarrow> pooled_template \<Rightarrow> pool_addr \<Rightarrow> 'c pool \<Rightarrow> (pool_error + unit) \<times> 'c pool" where
  "add_insert h t tmpl_dir p =
     (case template_save h t tmpl_dir (disk p) of
        (Some _, dk) \<Rightarrow> (Inl SaveFailed, p\<lparr>disk := dk\<rparr>)
      | (None, dk) \<Rightarrow>
          (Inr (), p\<lparr>disk := dk, available := push_template t (available p),
                     template_ready := template_ready p + 1\<rparr>))"

definition add :: "'c pool_host \<Rightarrow> pooled_template \<Rightarrow> 'c pool \<Rightarrow> (pool_error + unit) \<times> 'c pool" where
  "add h t p =
     (case template_dir t of
        None \<Rightarrow> (Inl Unreachable, p)
      | Some d \<Rightarrow>
          (case fs_create_dir_all h d (disk p) of
             (Some _, dk) \<Rightarrow> (Inl CreateTemplateDirFailed, p\<lparr>disk := dk\<rparr>)
           | (None, dk) \<Rightarrow>
               (case add_water_level h d (p\<lparr>disk := dk\<rparr>) of
                  (Inl e, p1) \<Rightarrow> (Inl e, p1)
                | (Inr _, p1) \<Rightarrow>
                    (case add_key_depth h t d p1 of
                       (Inl e, p2) \<Rightarrow> (Inl e, p2)
                     | (Inr _, p2) \<Rightarrow> add_insert h t d p2))))"

section \<open>Refills\<close>

definition begin_refill :: "template_key \<Rightarrow> 'c pool \<Rightarrow> 'c pool" where
  "begin_refill k p = p\<lparr>in_flight_refills := cnt_inc k (in_flight_refills p)\<rparr>"

definition end_refill :: "template_key \<Rightarrow> 'c pool \<Rightarrow> 'c pool" where
  "end_refill k p =
     p\<lparr>in_flight_refills :=
         (case hm_get (in_flight_refills p) k of
            None \<Rightarrow> in_flight_refills p
          | Some n \<Rightarrow>
              (if n - 1 = 0 then hm_remove k (in_flight_refills p)
               else hm_insert k (n - 1) (in_flight_refills p))),
       template_ready := template_ready p + 1\<rparr>"

definition in_flight_count_for_key :: "template_key \<Rightarrow> 'c pool \<Rightarrow> nat" where
  "in_flight_count_for_key k p = (case hm_get (in_flight_refills p) k of None \<Rightarrow> 0 | Some n \<Rightarrow> n)"

definition in_flight_count :: "'c pool \<Rightarrow> nat" where
  "in_flight_count p = sum_list (map snd (in_flight_refills p))"

section \<open>Acquiring and releasing\<close>

definition peek_by_id_for_restore ::
  "string \<Rightarrow> 'c pool \<Rightarrow> pooled_template option \<times> 'c pool" where
  "peek_by_id_for_restore i p =
     (case find_by_id p i of
        None \<Rightarrow> (None, p)
      | Some t \<Rightarrow> (Some t, p\<lparr>in_flight_restores := cnt_inc (pt_id t) (in_flight_restores p)\<rparr>))"

definition peek_by_id_with_ref :: "string \<Rightarrow> 'c pool \<Rightarrow> pooled_template option \<times> 'c pool" where
  "peek_by_id_with_ref i p =
     (case find_by_id p i of
        None \<Rightarrow> (None, p)
      | Some t \<Rightarrow>
          (if pool_lease_mode p \<noteq> Shared then (None, p)
           else (Some t, p\<lparr>in_use_count := cnt_inc (pt_id t) (in_use_count p)\<rparr>)))"

text \<open>
  The tail shared by \<open>acquire\<close> and \<open>acquire_by_id\<close>: mark the removed template as consumed, or
  put it back.
\<close>

definition consume_template ::
  "'c pool_host \<Rightarrow> pooled_template \<Rightarrow> 'c pool \<Rightarrow> (pool_error + pooled_template option) \<times> 'c pool" where
  "consume_template h t p =
     (case template_dir t of
        None \<Rightarrow> (Inl Unreachable, p)
      | Some d \<Rightarrow>
          (case write_consumed_marker h d (disk p) of
             (Some _, dk) \<Rightarrow>
               (Inr None, p\<lparr>disk := dk, available := push_template t (available p)\<rparr>)
           | (None, dk) \<Rightarrow> (Inr (Some t), p\<lparr>disk := dk\<rparr>)))"

text \<open>\<open>queue.remove(pos)\<close> for the first match, in the first queue that has one.\<close>

fun remove_first :: "string \<Rightarrow> pooled_template list \<Rightarrow> (pooled_template \<times> pooled_template list) option" where
  "remove_first i [] = None"
| "remove_first i (t # q) =
     (if pt_id t = i then Some (t, q)
      else map_option (\<lambda>(x, r). (x, t # r)) (remove_first i q))"

fun remove_found :: "string \<Rightarrow> available_map \<Rightarrow> (pooled_template \<times> available_map) option" where
  "remove_found i [] = None"
| "remove_found i ((k, q) # av) =
     (case remove_first i q of
        Some (t, q') \<Rightarrow> Some (t, (k, q') # av)
      | None \<Rightarrow> map_option (\<lambda>(x, r). (x, (k, q) # r)) (remove_found i av))"

definition acquire_by_id ::
  "'c pool_host \<Rightarrow> string \<Rightarrow> 'c pool \<Rightarrow> (pool_error + pooled_template option) \<times> 'c pool" where
  "acquire_by_id h i p =
     (case remove_found i (available p) of
        None \<Rightarrow> (Inr None, p)
      | Some (t, av) \<Rightarrow> consume_template h t (p\<lparr>available := av\<rparr>))"

definition acquire ::
  "'c pool_host \<Rightarrow> template_key \<Rightarrow> 'c pool \<Rightarrow> (pool_error + pooled_template option) \<times> 'c pool" where
  "acquire h k p =
     (case hm_get (available p) k of
        None \<Rightarrow> (Inr None, p)
      | Some q \<Rightarrow>
          (if q = [] then (Inr None, p)
           else consume_template h (last q)
                  (p\<lparr>available := hm_insert k (butlast q) (available p)\<rparr>)))"

definition release :: "'c pool_host \<Rightarrow> pooled_template \<Rightarrow> 'c pool \<Rightarrow> (pool_error + unit) \<times> 'c pool" where
  "release h t p =
     (case template_dir t of
        None \<Rightarrow> (Inl Unreachable, p)
      | Some d \<Rightarrow>
          (Inr (), p\<lparr>disk := snd (fs_remove_marker h d (disk p)),
                     available := push_template t (available p)\<rparr>))"

definition depth :: "template_key \<Rightarrow> 'c pool \<Rightarrow> nat" where
  "depth k p = (case hm_get (available p) k of None \<Rightarrow> 0 | Some q \<Rightarrow> length q)"

text \<open>\<open>available.get(key)\<close>, then \<open>back()\<close>\<close>

definition latest :: "template_key \<Rightarrow> 'c pool \<Rightarrow> pooled_template option" where
  "latest k p =
     (case hm_get (available p) k of
        None \<Rightarrow> None
      | Some q \<Rightarrow> (if q = [] then None else Some (last q)))"

definition peek_with_ref :: "template_key \<Rightarrow> 'c pool \<Rightarrow> pooled_template option \<times> 'c pool" where
  "peek_with_ref k p =
     (case latest k p of
        None \<Rightarrow> (None, p)
      | Some t \<Rightarrow>
          (if pool_lease_mode p \<noteq> Shared then (None, p)
           else (Some t, p\<lparr>in_use_count := cnt_inc (pt_id t) (in_use_count p)\<rparr>)))"

definition peek_latest_for_restore ::
  "template_key \<Rightarrow> 'c pool \<Rightarrow> pooled_template option \<times> 'c pool" where
  "peek_latest_for_restore k p =
     (case latest k p of
        None \<Rightarrow> (None, p)
      | Some t \<Rightarrow> (Some t, p\<lparr>in_flight_restores := cnt_inc (pt_id t) (in_flight_restores p)\<rparr>))"

definition acquire_for_restore ::
  "'c pool_host \<Rightarrow> template_key \<Rightarrow> 'c pool \<Rightarrow> (pool_error + pooled_template option) \<times> 'c pool" where
  "acquire_for_restore h k p =
     (case latest k p of
        None \<Rightarrow> (Inr None, p)
      | Some t \<Rightarrow>
          (case pt_snapshot_type t of
             Environment \<Rightarrow> apfst Inr (peek_latest_for_restore k p)
           | WarmFork \<Rightarrow>
               (if pool_lease_mode p = Shared then apfst Inr (peek_with_ref k p)
                else acquire h k p)
           | Continuation \<Rightarrow> (Inl Unreachable, p)))"

definition acquire_by_id_for_restore ::
  "'c pool_host \<Rightarrow> string \<Rightarrow> 'c pool \<Rightarrow> (pool_error + pooled_template option) \<times> 'c pool" where
  "acquire_by_id_for_restore h i p =
     (case find_by_id p i of
        None \<Rightarrow> (Inr None, p)
      | Some t \<Rightarrow>
          (case pt_snapshot_type t of
             Environment \<Rightarrow> apfst Inr (peek_by_id_for_restore i p)
           | WarmFork \<Rightarrow>
               (if pool_lease_mode p = Shared then apfst Inr (peek_by_id_with_ref i p)
                else acquire_by_id h i p)
           | Continuation \<Rightarrow> (Inl Unreachable, p)))"

section \<open>Garbage collection\<close>

text \<open>
  The deletion loop shared by \<open>gc_if_needed\<close> and \<open>evict_by_kind\<close>: the directory first; a
  directory already gone counts as deleted; any other failure keeps the template.
\<close>

fun delete_candidates ::
  "'c pool_host \<Rightarrow> pooled_template list \<Rightarrow> nat \<Rightarrow> 'c pool \<Rightarrow> (pool_error + nat) \<times> 'c pool" where
  "delete_candidates h [] n p = (Inr n, p)"
| "delete_candidates h (t # ts) n p =
     (case template_dir t of
        None \<Rightarrow> (Inl Unreachable, p)
      | Some d \<Rightarrow>
          (case fs_remove_dir_all h d (disk p) of
             (Some IoFault, dk) \<Rightarrow> delete_candidates h ts n (p\<lparr>disk := dk\<rparr>)
           | (_, dk) \<Rightarrow> delete_candidates h ts (n + 1) (pool_retain (pt_id t) (p\<lparr>disk := dk\<rparr>))))"

definition gc_eligible :: "'c pool \<Rightarrow> pooled_template \<Rightarrow> bool" where
  "gc_eligible p t \<longleftrightarrow>
     (if hm_contains (in_flight_restores p) (pt_id t) then False
      else if hm_contains (in_use_count p) (pt_id t) then False
      else \<not> (pt_snapshot_type t = WarmFork \<and> pool_lease_mode p \<noteq> Shared))"

definition gc_if_needed :: "'c pool_host \<Rightarrow> 'c pool \<Rightarrow> (pool_error + unit) \<times> 'c pool" where
  "gc_if_needed h p =
     (if total_depth p \<le> gc_watermark p then (Inr (), p)
      else
        let candidates = sort_key pt_created_at_secs (filter (gc_eligible p) (all_templates p));
            to_delete = total_depth p - gc_watermark p
        in (case delete_candidates h (take to_delete candidates) 0 p of
              (Inl e, p') \<Rightarrow> (Inl e, p')
            | (Inr _, p') \<Rightarrow> (Inr (), p')))"

definition end_restore :: "'c pool_host \<Rightarrow> string \<Rightarrow> 'c pool \<Rightarrow> (pool_error + unit) \<times> 'c pool" where
  "end_restore h i p =
     (case hm_get (in_flight_restores p) i of
        None \<Rightarrow> (Inr (), p)
      | Some n \<Rightarrow>
          (if n > 0 then
             (if n - 1 = 0
              then gc_if_needed h (p\<lparr>in_flight_restores := hm_remove i (in_flight_restores p)\<rparr>)
              else (Inr (), p\<lparr>in_flight_restores :=
                                hm_insert i (n - 1) (in_flight_restores p)\<rparr>))
           else (Inr (), p)))"

definition deref :: "'c pool_host \<Rightarrow> string \<Rightarrow> 'c pool \<Rightarrow> (pool_error + unit) \<times> 'c pool" where
  "deref h i p =
     (case hm_get (in_use_count p) i of
        None \<Rightarrow> (Inr (), p)
      | Some n \<Rightarrow>
          (if n = 0 then (Inr (), p)
           else if n - 1 = 0
           then gc_if_needed h (p\<lparr>in_use_count := hm_remove i (in_use_count p)\<rparr>)
           else (Inr (), p\<lparr>in_use_count := hm_insert i (n - 1) (in_use_count p)\<rparr>)))"

definition ref_template :: "string \<Rightarrow> 'c pool \<Rightarrow> 'c pool" where
  "ref_template i p = p\<lparr>in_use_count := cnt_inc i (in_use_count p)\<rparr>"

definition rebuild_active_refs :: "string list \<Rightarrow> string list \<Rightarrow> 'c pool \<Rightarrow> 'c pool" where
  "rebuild_active_refs shared_container_ids env_non_copy_pinned_ids p =
     p\<lparr>in_use_count := fold cnt_inc (shared_container_ids @ env_non_copy_pinned_ids) []\<rparr>"

section \<open>Reporting\<close>

definition key_count :: "'c pool \<Rightarrow> nat" where
  "key_count p = length (filter (\<lambda>(_, q). q \<noteq> []) (available p))"

definition depth_by_key :: "'c pool \<Rightarrow> (string \<times> nat) list" where
  "depth_by_key p =
     map (\<lambda>(k, q). (tk_key k, length q)) (filter (\<lambda>(_, q). q \<noteq> []) (available p))"

definition depth_by_type :: "'c pool \<Rightarrow> (string \<times> nat) list" where
  "depth_by_type p =
     (let (e, w) = fold (\<lambda>t (e, w). case pt_snapshot_type t of
                           Environment \<Rightarrow> (e + 1, w)
                         | WarmFork \<Rightarrow> (e, w + 1)
                         | Continuation \<Rightarrow> (e, w)) (all_templates p) (0, 0)
      in [(''environment'', e), (''warm_fork'', w)])"

definition list_templates :: "'c pool \<Rightarrow> pooled_template list" where
  "list_templates p = sort_key pt_id (all_templates p)"

definition get_template :: "string \<Rightarrow> 'c pool \<Rightarrow> pooled_template option" where
  "get_template i p = find_by_id p i"

definition active_shared_refs :: "'c pool \<Rightarrow> (string \<times> nat) list" where
  "active_shared_refs p = sort_key fst (in_use_count p)"

definition in_flight_restores_by_template :: "'c pool \<Rightarrow> (string \<times> nat) list" where
  "in_flight_restores_by_template p = sort_key fst (in_flight_restores p)"

definition gc_blocked_templates :: "'c pool \<Rightarrow> (string \<times> string) list" where
  "gc_blocked_templates p =
     sort_key fst (concat (map (\<lambda>t.
       if hm_contains (in_flight_restores p) (pt_id t) then [(pt_id t, ''restore_in_flight'')]
       else if hm_contains (in_use_count p) (pt_id t) then [(pt_id t, ''shared_refcount'')]
       else []) (all_templates p)))"

section \<open>Explicit removal\<close>

definition remove_by_id ::
  "'c pool_host \<Rightarrow> string \<Rightarrow> snapshot_type \<Rightarrow> 'c pool \<Rightarrow> (pool_error + bool) \<times> 'c pool" where
  "remove_by_id h i expected_kind p =
     (case find_by_id p i of
        None \<Rightarrow> (Inr False, p)
      | Some t \<Rightarrow>
          (if pt_snapshot_type t \<noteq> expected_kind then (Inl KindMismatch, p)
           else if hm_contains (in_flight_restores p) (pt_id t) then (Inl BeingRestored, p)
           else if hm_contains (in_use_count p) (pt_id t) then (Inl InUse, p)
           else (case template_dir t of
                   None \<Rightarrow> (Inl Unreachable, p)
                 | Some d \<Rightarrow>
                     (case fs_remove_dir_all h d (disk p) of
                        (Some IoFault, dk) \<Rightarrow> (Inl RemoveDirFailed, p\<lparr>disk := dk\<rparr>)
                      | (_, dk) \<Rightarrow> (Inr True, pool_retain i (p\<lparr>disk := dk\<rparr>))))))"

fun evict_eligible :: "'c pool \<Rightarrow> snapshot_type \<Rightarrow> pooled_template \<Rightarrow> pool_error + bool" where
  "evict_eligible p kind t =
     (if pt_snapshot_type t \<noteq> kind \<or> hm_contains (in_flight_restores p) (pt_id t) then Inr False
      else (case pt_snapshot_type t of
              Environment \<Rightarrow> Inr (\<not> hm_contains (in_use_count p) (pt_id t))
            | WarmFork \<Rightarrow>
                Inr (pool_lease_mode p \<noteq> Shared \<or> \<not> hm_contains (in_use_count p) (pt_id t))
            | Continuation \<Rightarrow> Inl Unreachable))"

declare evict_eligible.simps [simp del]

fun evict_candidates ::
  "'c pool \<Rightarrow> snapshot_type \<Rightarrow> pooled_template list \<Rightarrow> pool_error + pooled_template list" where
  "evict_candidates p kind [] = Inr []"
| "evict_candidates p kind (t # ts) =
     (case evict_eligible p kind t of
        Inl e \<Rightarrow> Inl e
      | Inr b \<Rightarrow>
          (case evict_candidates p kind ts of
             Inl e \<Rightarrow> Inl e
           | Inr cs \<Rightarrow> Inr (if b then t # cs else cs)))"

definition evict_by_kind ::
  "'c pool_host \<Rightarrow> snapshot_type \<Rightarrow> nat \<Rightarrow> 'c pool \<Rightarrow> (pool_error + nat) \<times> 'c pool" where
  "evict_by_kind h kind target_depth p =
     (case evict_candidates p kind (all_templates p) of
        Inl e \<Rightarrow> (Inl e, p)
      | Inr cs \<Rightarrow>
          (if length cs \<le> target_depth then (Inr 0, p)
           else delete_candidates h
                  (take (length cs - target_depth) (sort_key pt_created_at_secs cs)) 0 p))"

definition cleanup_consumed :: "'c pool_host \<Rightarrow> string \<Rightarrow> 'c pool \<Rightarrow> 'c pool" where
  "cleanup_consumed h i p =
     (let d = find_template_dir h p i in
      case fs_try_exists_marker h d (disk p) of
        Inr True \<Rightarrow> p\<lparr>disk := snd (fs_remove_dir_all h d (disk p))\<rparr>
      | Inr False \<Rightarrow> p
      | Inl _ \<Rightarrow> p)"

definition gc_orphaned_entry ::
  "'c pool_host \<Rightarrow> string list \<Rightarrow> pool_addr \<Rightarrow> (pool_addr, 'c) store_disk
   \<Rightarrow> (pool_addr, 'c) store_disk" where
  "gc_orphaned_entry h active d dk =
     (if \<not> (case fs_try_exists_marker h d dk of Inl _ \<Rightarrow> False | Inr b \<Rightarrow> b) then dk
      else if snd d \<in> set active then dk
      else snd (fs_remove_dir_all h d dk))"

definition gc_orphaned_consumed :: "'c pool_host \<Rightarrow> string list \<Rightarrow> 'c pool \<Rightarrow> 'c pool" where
  "gc_orphaned_consumed h active p =
     p\<lparr>disk := fold (\<lambda>kd dk.
         fold (gc_orphaned_entry h active) (fs_read_dir h kd (\<lambda>d. fst d = kd) dk) dk)
       [EnvironmentDir, WarmforkDir] (disk p)\<rparr>"

section \<open>Waiting for a refill\<close>

text \<open>
  A waiting task interleaves with the others. Each turn of its loop records whether the
  deadline has passed, and what ended the \<open>select!\<close>: the watch channel changed (after the
  other tasks have changed the pool), the channel closed, or the sleep until the deadline
  elapsed. The list of turns ends where the deadline does.
\<close>

datatype 's wake = Woken "'s \<Rightarrow> 's" | Closed | TimedOut

fun wait_loop ::
  "(template_key \<Rightarrow> 'c pool \<Rightarrow> (pool_error + pooled_template option) \<times> 'c pool) \<Rightarrow> template_key
   \<Rightarrow> (bool \<times> 'c pool wake) list \<Rightarrow> 'c pool \<Rightarrow> (pool_error + pooled_template option) \<times> 'c pool" where
  "wait_loop attempt k turns p =
     (case attempt k p of
        (Inl e, p') \<Rightarrow> (Inl e, p')
      | (Inr (Some t), p') \<Rightarrow> (Inr (Some t), p')
      | (Inr None, p') \<Rightarrow>
          (if in_flight_count_for_key k p' = 0 then (Inr None, p')
           else (case turns of
                   [] \<Rightarrow> (Inr None, p')
                 | (remaining_is_zero, w) # ts \<Rightarrow>
                     (if remaining_is_zero then (Inr None, p')
                      else (case w of
                              Woken others \<Rightarrow> wait_loop attempt k ts (others p')
                            | Closed \<Rightarrow> (Inr None, p')
                            | TimedOut \<Rightarrow> (Inr None, p'))))))"

declare wait_loop.simps [simp del]

definition wait_for_template where
  "wait_for_template h k turns p = wait_loop (acquire h) k turns p"

definition wait_and_peek_with_ref where
  "wait_and_peek_with_ref k turns p =
     wait_loop (\<lambda>k p. apfst Inr (peek_with_ref k p)) k turns p"

definition wait_and_acquire_for_restore where
  "wait_and_acquire_for_restore h k turns p = wait_loop (acquire_for_restore h) k turns p"

section \<open>Leases\<close>

definition template_lease_new :: "'c pool \<Rightarrow> pooled_template \<Rightarrow> pool_error + template_lease" where
  "template_lease_new p t =
     (case pt_snapshot_type t of
        Environment \<Rightarrow> Inr \<lparr>tl_tmpl = Some t, tl_kind = SharedLease\<rparr>
      | WarmFork \<Rightarrow>
          Inr \<lparr>tl_tmpl = Some t,
               tl_kind = (if pool_lease_mode p = Shared then SharedRef else ExclusiveLease)\<rparr>
      | Continuation \<Rightarrow> Inl Unreachable)"

text \<open>A lease consumed twice would panic; the ownership discipline excludes it.\<close>

definition lease_complete ::
  "'c pool_host \<Rightarrow> template_lease \<Rightarrow> 'c pool \<Rightarrow> (pool_error + unit) \<times> 'c pool" where
  "lease_complete h l p =
     (case tl_tmpl l of
        None \<Rightarrow> (Inl Unreachable, p)
      | Some t \<Rightarrow>
          (case tl_kind l of
             SharedLease \<Rightarrow> end_restore h (pt_id t) p
           | SharedRef \<Rightarrow> (Inr (), p)
           | ExclusiveLease \<Rightarrow> (Inr (), p)))"

definition lease_fail ::
  "'c pool_host \<Rightarrow> template_lease \<Rightarrow> 'c pool \<Rightarrow> (pool_error + unit) \<times> 'c pool" where
  "lease_fail h l p =
     (case tl_tmpl l of
        None \<Rightarrow> (Inl Unreachable, p)
      | Some t \<Rightarrow>
          (case tl_kind l of
             SharedLease \<Rightarrow> end_restore h (pt_id t) p
           | SharedRef \<Rightarrow> deref h (pt_id t) p
           | ExclusiveLease \<Rightarrow> release h t p))"

end
