(* ===== verification/Pool_Inv.thy ===== *)
theory Pool_Inv
  imports Template_Pool
begin

text \<open>
  The invariant of the template pool and how each operation acts on the multiset of pooled
  templates and on what the disk would offer to a restart. The three kinds of operation
  that remove templates to free space share one contract, the locale \<open>evictor\<close>: pinned
  templates and their directories survive.
\<close>

section \<open>Templates of a map of queues\<close>

abbreviation templates_of :: "available_map \<Rightarrow> pooled_template list" where
  "templates_of av \<equiv> concat (map snd av)"

definition keyed :: "available_map \<Rightarrow> bool" where
  "keyed av \<longleftrightarrow> (\<forall>(k, q) \<in> set av. \<forall>t \<in> set q. pt_key t = k)"

lemma keyed_Cons [simp]: "keyed ((k, q) # av) \<longleftrightarrow> (\<forall>t \<in> set q. pt_key t = k) \<and> keyed av"
  by (auto simp: keyed_def)

lemma keyed_get: "keyed av \<Longrightarrow> hm_get av k = Some q \<Longrightarrow> t \<in> set q \<Longrightarrow> pt_key t = k"
  by (auto simp: keyed_def dest: map_of_SomeD)

lemma keyed_insert:
  "keyed av \<Longrightarrow> (\<And>t. t \<in> set q \<Longrightarrow> pt_key t = k) \<Longrightarrow> keyed (hm_insert k q av)"
  by (induction av) (auto simp: keyed_def)

lemma mset_templates_insert:
  "hm_get av k = Some q \<Longrightarrow>
   mset (templates_of (hm_insert k q' av)) + mset q = mset (templates_of av) + mset q'"
  by (induction av) (auto split: if_splits)

lemma mset_templates_fresh:
  "hm_get av k = None \<Longrightarrow> mset (templates_of (hm_insert k q av)) = mset (templates_of av) + mset q"
  by (simp add: hm_insert_fresh)

lemma mset_push [simp]: "mset (templates_of (push_template t av)) = add_mset t (mset (templates_of av))"
proof (cases "hm_get av (pt_key t)")
  case (Some q)
  from mset_templates_insert [OF this, of "q @ [t]"] Some show ?thesis
    by (simp add: push_template_def)
qed (simp add: push_template_def mset_templates_fresh)

lemma hm_wf_push [simp]: "hm_wf av \<Longrightarrow> hm_wf (push_template t av)"
  by (simp add: push_template_def)

lemma keyed_push: "keyed av \<Longrightarrow> keyed (push_template t av)"
  by (auto simp: push_template_def intro!: keyed_insert dest: keyed_get split: option.splits)

lemma get_in_templates: "hm_get av k = Some q \<Longrightarrow> set q \<subseteq> set (templates_of av)"
  by (auto dest: map_of_SomeD)

lemma remove_first_Some:
  "remove_first i q = Some (t, q') \<Longrightarrow> pt_id t = i \<and> mset q = add_mset t (mset q')"
  by (induction q arbitrary: q') (auto split: if_splits)

lemma remove_first_None: "remove_first i q = None \<longleftrightarrow> i \<notin> pt_id ` set q"
  by (induction q) auto

lemma remove_found_Some:
  "remove_found i av = Some (t, av') \<Longrightarrow>
   pt_id t = i \<and> mset (templates_of av) = add_mset t (mset (templates_of av')) \<and>
   map fst av' = map fst av \<and> (keyed av \<longrightarrow> keyed av')"
proof (induction i av arbitrary: av' rule: remove_found.induct)
  case (2 i k q av)
  show ?case
  proof (cases "remove_first i q")
    case None
    with 2 show ?thesis by auto
  next
    case (Some r)
    obtain x q' where r: "r = (x, q')" by force
    with Some have "mset q = add_mset x (mset q')" by (auto dest: remove_first_Some)
    then have "set q = insert x (set q')"
      by (metis set_mset_add_mset_insert set_mset_mset)
    with 2 Some r remove_first_Some [of i q x q'] show ?thesis by auto
  qed
qed simp

lemma remove_found_None: "remove_found i av = None \<longleftrightarrow> i \<notin> pt_id ` set (templates_of av)"
  by (induction i av rule: remove_found.induct)
    (auto simp: remove_first_None [symmetric] image_Un split: option.splits)

lemma total_depth_length: "total_depth p = length (all_templates p)"
  by (simp add: total_depth_def all_templates_def length_concat case_prod_unfold o_def)

lemma all_templates_retain:
  "all_templates (pool_retain i p) = filter (\<lambda>t. pt_id t \<noteq> i) (all_templates p)"
proof -
  have "templates_of (map (\<lambda>(k, q). (k, filter (\<lambda>t. pt_id t \<noteq> i) q)) av)
      = filter (\<lambda>t. pt_id t \<noteq> i) (templates_of av)" for av
    by (induction av) auto
  then show ?thesis by (simp add: pool_retain_def all_templates_def)
qed

lemma retain_fields [simp]:
  "disk (pool_retain i p) = disk p" "in_flight_restores (pool_retain i p) = in_flight_restores p"
  "in_use_count (pool_retain i p) = in_use_count p"
  "in_flight_refills (pool_retain i p) = in_flight_refills p"
  "gc_watermark (pool_retain i p) = gc_watermark p"
  "pool_lease_mode (pool_retain i p) = pool_lease_mode p"
  "template_ready (pool_retain i p) = template_ready p"
  by (simp_all add: pool_retain_def)

lemma all_templates_upd [simp]:
  "all_templates (p\<lparr>disk := dk\<rparr>) = all_templates p"
  "all_templates (p\<lparr>in_flight_restores := r\<rparr>) = all_templates p"
  "all_templates (p\<lparr>in_use_count := r\<rparr>) = all_templates p"
  "all_templates (p\<lparr>in_flight_refills := f\<rparr>) = all_templates p"
  "all_templates (p\<lparr>template_ready := w\<rparr>) = all_templates p"
  by (simp_all add: all_templates_def)

section \<open>Well-formedness\<close>

definition pool_ids :: "'c pool \<Rightarrow> string set" where
  "pool_ids p = pt_id ` set (all_templates p)"

definition pool_wf :: "'c pool \<Rightarrow> bool" where
  "pool_wf p \<longleftrightarrow>
     hm_wf (available p) \<and> keyed (available p) \<and>
     (\<forall>t \<in> set (all_templates p). pt_snapshot_type t \<noteq> Continuation) \<and>
     distinct (map pt_id (all_templates p)) \<and>
     cnt_wf (in_flight_refills p) \<and> cnt_wf (in_flight_restores p) \<and> cnt_wf (in_use_count p) \<and>
     hm_wf (disk p)"

text \<open>A template is pinned while it is being restored or backs a running sandbox.\<close>

definition pinned :: "'c pool \<Rightarrow> string \<Rightarrow> bool" where
  "pinned p i \<longleftrightarrow> hm_contains (in_flight_restores p) i \<or> hm_contains (in_use_count p) i"

lemma template_dir_Some:
  "pt_snapshot_type t \<noteq> Continuation \<Longrightarrow> \<exists>kd. template_dir t = Some (kd, pt_id t)"
  by (cases "pt_snapshot_type t") (simp_all add: template_dir.simps)

lemma template_dir_None: "template_dir t = None \<longleftrightarrow> pt_snapshot_type t = Continuation"
  by (cases "pt_snapshot_type t") (simp_all add: template_dir.simps)

lemma template_dir_id: "template_dir t = Some d \<Longrightarrow> snd d = pt_id t"
  by (cases "pt_snapshot_type t") (auto simp: template_dir.simps)

lemma template_dir_fst:
  "template_dir t = Some d \<Longrightarrow> fst d = EnvironmentDir \<longleftrightarrow> pt_snapshot_type t = Environment"
  by (cases "pt_snapshot_type t") (auto simp: template_dir.simps)

lemma pool_wf_dir:
  assumes "pool_wf p" and "t \<in> set (all_templates p)"
  obtains kd where "template_dir t = Some (kd, pt_id t)"
  using assms template_dir_Some [of t] by (auto simp: pool_wf_def)

lemma pool_wf_same_id:
  assumes "pool_wf p" and "s \<in> set (all_templates p)" "t \<in> set (all_templates p)"
    and "pt_id s = pt_id t"
  shows "s = t"
  using assms by (auto simp: pool_wf_def distinct_map dest: inj_onD)

lemma find_by_id_Some: "find_by_id p i = Some t \<Longrightarrow> t \<in> set (all_templates p) \<and> pt_id t = i"
  by (auto simp: find_by_id_def find_Some_iff)

lemma find_by_id_None: "find_by_id p i = None \<longleftrightarrow> i \<notin> pool_ids p"
  by (auto simp: find_by_id_def find_None_iff pool_ids_def)

lemma find_by_id_unique:
  assumes "pool_wf p" and "t \<in> set (all_templates p)"
  shows "find_by_id p (pt_id t) = Some t"
proof (cases "find_by_id p (pt_id t)")
  case None
  with assms show ?thesis by (simp add: find_by_id_None pool_ids_def)
next
  case (Some s)
  with assms show ?thesis by (auto dest!: find_by_id_Some intro: pool_wf_same_id)
qed

lemma latest_Some: "latest k p = Some t \<Longrightarrow> t \<in> set (all_templates p)"
  using get_in_templates [of "available p" k]
  by (auto simp: latest_def all_templates_def split: option.splits if_splits)
    (meson UN_E last_in_set subsetD)

lemma pool_wf_retain: "pool_wf p \<Longrightarrow> pool_wf (pool_retain i p)"
proof -
  assume wf: "pool_wf p"
  have "map fst (available (pool_retain i p)) = map fst (available p)"
    by (simp add: pool_retain_def o_def case_prod_unfold)
  moreover have "keyed (available p) \<Longrightarrow> keyed (available (pool_retain i p))"
    by (auto simp: keyed_def pool_retain_def)
  ultimately show ?thesis using wf
    by (auto simp: pool_wf_def all_templates_retain distinct_map_filter)
qed

lemma pool_wf_disk: "pool_wf p \<Longrightarrow> hm_wf dk \<Longrightarrow> pool_wf (p\<lparr>disk := dk\<rparr>)"
  by (simp add: pool_wf_def)

lemma pool_wf_disk_wf: "pool_wf p \<Longrightarrow> hm_wf (disk p)"
  by (simp add: pool_wf_def)

lemma pool_wf_refills: "pool_wf p \<Longrightarrow> cnt_wf m \<Longrightarrow> pool_wf (p\<lparr>in_flight_refills := m\<rparr>)"
  by (simp add: pool_wf_def)

lemma pool_wf_restores: "pool_wf p \<Longrightarrow> cnt_wf m \<Longrightarrow> pool_wf (p\<lparr>in_flight_restores := m\<rparr>)"
  by (simp add: pool_wf_def)

lemma pool_wf_in_use: "pool_wf p \<Longrightarrow> cnt_wf m \<Longrightarrow> pool_wf (p\<lparr>in_use_count := m\<rparr>)"
  by (simp add: pool_wf_def)

lemma pool_wf_ready: "pool_wf p \<Longrightarrow> pool_wf (p\<lparr>template_ready := w\<rparr>)"
  by (simp add: pool_wf_def)

lemmas pool_wf_upd = pool_wf_disk pool_wf_refills pool_wf_restores pool_wf_in_use pool_wf_ready

text \<open>Replacing the queues by ones with the same templates or fewer.\<close>

lemma pool_wf_available:
  assumes "pool_wf p" and "hm_wf av" and "keyed av"
    and sub: "mset (templates_of av) \<subseteq># mset (all_templates p)"
  shows "pool_wf (p\<lparr>available := av\<rparr>)"
proof -
  have "image_mset pt_id (mset (templates_of av)) \<subseteq># image_mset pt_id (mset (all_templates p))"
    by (rule image_mset_subseteq_mono [OF sub])
  then have "mset (map pt_id (templates_of av)) \<subseteq># mset (map pt_id (all_templates p))" by simp
  with assms(1) have "distinct (map pt_id (templates_of av))"
    unfolding pool_wf_def using distinct_sub_mset by blast
  moreover have "set (templates_of av) \<subseteq> set (all_templates p)"
    using set_mset_mono [OF sub] by simp
  ultimately show ?thesis using assms
    by (auto simp: pool_wf_def all_templates_def)
qed

lemma pool_wf_push:
  assumes "pool_wf p" and "pt_id t \<notin> pool_ids p" and "pt_snapshot_type t \<noteq> Continuation"
  shows "pool_wf (p\<lparr>available := push_template t (available p)\<rparr>)"
proof -
  let ?p = "p\<lparr>available := push_template t (available p)\<rparr>"
  have m: "mset (all_templates ?p) = add_mset t (mset (all_templates p))"
    by (simp add: all_templates_def)
  then have s: "set (all_templates ?p) = insert t (set (all_templates p))"
    by (metis set_mset_add_mset_insert set_mset_mset)
  have "mset (map pt_id (all_templates ?p)) = mset (map pt_id (t # all_templates p))"
    using m by simp
  moreover have "distinct (map pt_id (t # all_templates p))"
    using assms by (auto simp: pool_wf_def pool_ids_def)
  ultimately have "distinct (map pt_id (all_templates ?p))"
    using mset_eq_imp_distinct_iff by blast
  with assms s show ?thesis by (auto simp: pool_wf_def keyed_push)
qed

section \<open>What the disk offers\<close>

definition json_at :: "('d, 'c) store_disk \<Rightarrow> 'd \<Rightarrow> 'c option" where
  "json_at dk d = (case hm_get dk d of None \<Rightarrow> None | Some e \<Rightarrow> d_json e)"

text \<open>\<open>disk_le dk' dk\<close>: the disk \<open>dk'\<close> holds and offers nothing that \<open>dk\<close> does not.\<close>

definition disk_le :: "('d, 'c) store_disk \<Rightarrow> ('d, 'c) store_disk \<Rightarrow> bool" where
  "disk_le dk' dk \<longleftrightarrow>
     (\<forall>d c. (json_at dk' d = Some c \<longrightarrow> json_at dk d = Some c) \<and>
            (offered dk' d = Some c \<longrightarrow> offered dk d = Some c))"

lemma disk_le_refl [simp]: "disk_le dk dk"
  by (simp add: disk_le_def)

lemma disk_le_trans: "disk_le a b \<Longrightarrow> disk_le b c \<Longrightarrow> disk_le a c"
  by (simp add: disk_le_def)

lemma disk_leD:
  "disk_le dk' dk \<Longrightarrow> json_at dk' d = Some c \<Longrightarrow> json_at dk d = Some c"
  "disk_le dk' dk \<Longrightarrow> offered dk' d = Some c \<Longrightarrow> offered dk d = Some c"
  by (simp_all add: disk_le_def)

lemma disk_le_create: "disk_le (snd (fs_create_dir_all h d dk)) dk"
  by (auto simp: disk_le_def json_at_def fs_create_dir_all_def offered_def split: option.splits
      if_splits)

lemma json_remove:
  "residue_ok h \<Longrightarrow> json_at (snd (fs_remove_dir_all h d dk)) d' = Some c \<Longrightarrow> json_at dk d' = Some c"
  by (cases "d' = d")
    (auto simp: json_at_def fs_remove_dir_all_def dest: residue_okD split: option.splits if_splits)

lemma disk_le_remove: "residue_ok h \<Longrightarrow> disk_le (snd (fs_remove_dir_all h d dk)) dk"
  unfolding disk_le_def using json_remove offered_remove by metis

lemma disk_le_mark: "disk_le (snd (write_consumed_marker h d dk)) dk"
  by (auto simp: disk_le_def json_at_def write_consumed_marker_def offered_def
      split: option.splits if_splits)

section \<open>Removing candidates\<close>

definition removable :: "'c pool_host \<Rightarrow> pooled_template \<Rightarrow> bool" where
  "removable h t \<longleftrightarrow> (case template_dir t of None \<Rightarrow> False | Some d \<Rightarrow> \<not> h_fault h (RemoveDir d))"

text \<open>Only the queues and the disk differ.\<close>

definition only_store :: "'c pool \<Rightarrow> 'c pool \<Rightarrow> bool" where
  "only_store p p' \<longleftrightarrow>
     store_dir p' = store_dir p \<and> environment_max_per_key p' = environment_max_per_key p \<and>
     warmfork_max_per_key p' = warmfork_max_per_key p \<and> metrics p' = metrics p \<and>
     in_flight_refills p' = in_flight_refills p \<and> in_flight_restores p' = in_flight_restores p \<and>
     template_ready p' = template_ready p \<and> in_use_count p' = in_use_count p \<and>
     gc_watermark p' = gc_watermark p \<and> pool_lease_mode p' = pool_lease_mode p \<and>
     reflink_supported p' = reflink_supported p"

lemma only_store_refl [simp]: "only_store p p"
  by (simp add: only_store_def)

lemma only_store_trans: "only_store a b \<Longrightarrow> only_store b c \<Longrightarrow> only_store a c"
  by (simp add: only_store_def)

lemma only_storeI [simp]:
  "only_store p (p\<lparr>disk := dk\<rparr>)" "only_store p (p\<lparr>available := av\<rparr>)"
  "only_store p (p\<lparr>disk := dk, available := av\<rparr>)" "only_store p (pool_retain i p)"
  by (simp_all add: only_store_def pool_retain_def)

lemma only_store_pinned: "only_store p p' \<Longrightarrow> pinned p' i = pinned p i"
  by (simp add: only_store_def pinned_def)

lemma remove_fault:
  "fst (fs_remove_dir_all h d dk) = Some IoFault \<longleftrightarrow> h_fault h (RemoveDir d)"
  by (auto simp: fs_remove_dir_all_def split: option.splits)

text \<open>One round of the loop.\<close>

definition delete_one :: "'c pool_host \<Rightarrow> pooled_template \<Rightarrow> 'c pool \<Rightarrow> 'c pool" where
  "delete_one h t p =
     (let p' = p\<lparr>disk := snd (fs_remove_dir_all h (the (template_dir t)) (disk p))\<rparr>
      in if removable h t then pool_retain (pt_id t) p' else p')"

lemma delete_candidates_Cons:
  assumes "pt_snapshot_type t \<noteq> Continuation"
  shows "delete_candidates h (t # ts) n p =
    delete_candidates h ts (if removable h t then n + 1 else n) (delete_one h t p)"
proof -
  from template_dir_Some [OF assms] obtain kd where d: "template_dir t = Some (kd, pt_id t)" by blast
  obtain r dk where rm: "fs_remove_dir_all h (kd, pt_id t) (disk p) = (r, dk)" by force
  with remove_fault [of h "(kd, pt_id t)" "disk p"]
  have "removable h t \<longleftrightarrow> r \<noteq> Some IoFault" by (simp add: removable_def d)
  then show ?thesis
    by (cases r; cases "the r") (simp_all add: d rm delete_one_def Let_def)
qed

lemma delete_one_props:
  assumes "pt_snapshot_type t \<noteq> Continuation"
  shows "only_store p (delete_one h t p)"
    and "all_templates (delete_one h t p) =
      filter (\<lambda>x. \<not> (removable h t \<and> pt_id x = pt_id t)) (all_templates p)"
    and "pool_wf p \<Longrightarrow> pool_wf (delete_one h t p)"
    and "residue_ok h \<Longrightarrow> disk_le (disk (delete_one h t p)) (disk p)"
    and "snd d \<noteq> pt_id t \<Longrightarrow> hm_get (disk (delete_one h t p)) d = hm_get (disk p) d"
proof -
  from template_dir_Some [OF assms] obtain kd where dir: "template_dir t = Some (kd, pt_id t)" by blast
  show "only_store p (delete_one h t p)"
    by (simp add: delete_one_def Let_def only_store_def pool_retain_def)
  show "all_templates (delete_one h t p) =
      filter (\<lambda>x. \<not> (removable h t \<and> pt_id x = pt_id t)) (all_templates p)"
    by (simp add: delete_one_def Let_def all_templates_retain)
  show "pool_wf p \<Longrightarrow> pool_wf (delete_one h t p)"
    by (simp add: delete_one_def Let_def pool_wf_retain pool_wf_disk pool_wf_disk_wf)
  show "residue_ok h \<Longrightarrow> disk_le (disk (delete_one h t p)) (disk p)"
    by (simp add: delete_one_def Let_def disk_le_remove)
  show "snd d \<noteq> pt_id t \<Longrightarrow> hm_get (disk (delete_one h t p)) d = hm_get (disk p) d"
    using get_other(2) [of d "(kd, pt_id t)" h "disk p"]
    by (cases d) (auto simp: delete_one_def Let_def dir)
qed

abbreviation poolable :: "pooled_template list \<Rightarrow> bool" where
  "poolable ts \<equiv> \<forall>t \<in> set ts. pt_snapshot_type t \<noteq> Continuation"

lemma delete_candidates_run:
  "poolable ts \<Longrightarrow>
   delete_candidates h ts n p =
     (Inr (n + length (filter (removable h) ts)), fold (delete_one h) ts p)"
proof (induction ts arbitrary: n p)
  case (Cons t ts)
  then show ?case by (subst delete_candidates_Cons) auto
qed simp

lemma delete_all_only_store: "poolable ts \<Longrightarrow> only_store p (fold (delete_one h) ts p)"
  by (induction ts arbitrary: p) (simp, metis fold_simps(2) only_store_trans delete_one_props(1)
      list.set_intros)

lemma delete_all_templates:
  "poolable ts \<Longrightarrow>
   all_templates (fold (delete_one h) ts p) =
     filter (\<lambda>x. pt_id x \<notin> pt_id ` set (filter (removable h) ts)) (all_templates p)"
  by (induction ts arbitrary: p) (auto simp: delete_one_props(2) intro!: filter_cong)

lemma delete_all_wf: "poolable ts \<Longrightarrow> pool_wf p \<Longrightarrow> pool_wf (fold (delete_one h) ts p)"
  by (induction ts arbitrary: p) (simp_all add: delete_one_props(3))

lemma delete_all_disk_le:
  "poolable ts \<Longrightarrow> residue_ok h \<Longrightarrow> disk_le (disk (fold (delete_one h) ts p)) (disk p)"
  by (induction ts arbitrary: p) (simp, metis fold_simps(2) disk_le_trans delete_one_props(4)
      list.set_intros)

lemma delete_all_other_dir:
  "poolable ts \<Longrightarrow> snd d \<notin> pt_id ` set ts \<Longrightarrow>
   hm_get (disk (fold (delete_one h) ts p)) d = hm_get (disk p) d"
  by (induction ts arbitrary: p) (simp_all add: delete_one_props(5))

section \<open>The contract of an eviction\<close>

text \<open>
  \<open>keeps_pinned p p'\<close>: what clients rely on when templates are removed behind their back.
  Every pinned template is still in the pool, its directory is untouched, and no counter
  changed.
\<close>

definition keeps_pinned :: "'c pool \<Rightarrow> 'c pool \<Rightarrow> bool" where
  "keeps_pinned p p' \<longleftrightarrow>
     only_store p p' \<and>
     (\<forall>t \<in> set (all_templates p). pinned p (pt_id t) \<longrightarrow> t \<in> set (all_templates p')) \<and>
     (\<forall>d. snd d \<in> pool_ids p \<longrightarrow> pinned p (snd d) \<longrightarrow> hm_get (disk p') d = hm_get (disk p) d)"

text \<open>\<open>shrunk p p'\<close>: nothing is added to the pool or offered by its disk.\<close>

definition shrunk :: "'c pool \<Rightarrow> 'c pool \<Rightarrow> bool" where
  "shrunk p p' \<longleftrightarrow>
     mset (all_templates p') \<subseteq># mset (all_templates p) \<and> disk_le (disk p') (disk p)"

lemma shrunk_refl [simp]: "shrunk p p"
  by (simp add: shrunk_def)

lemma shrunk_trans: "shrunk a b \<Longrightarrow> shrunk b c \<Longrightarrow> shrunk a c"
  by (auto simp: shrunk_def intro: subset_mset.order_trans disk_le_trans)

lemma shrunk_set: "shrunk p p' \<Longrightarrow> set (all_templates p') \<subseteq> set (all_templates p)"
  by (metis shrunk_def set_mset_mono set_mset_mset)

lemma keeps_pinned_refl [simp]: "keeps_pinned p p"
  by (simp add: keeps_pinned_def)

lemma keeps_pinned_trans:
  assumes "keeps_pinned a b" and "keeps_pinned b c"
  shows "keeps_pinned a c"
proof -
  have "snd d \<in> pool_ids b" if "snd d \<in> pool_ids a" "pinned a (snd d)" for d :: pool_addr
    using assms(1) that by (auto simp: keeps_pinned_def pool_ids_def)
  with assms show ?thesis
    by (auto simp: keeps_pinned_def only_store_pinned intro: only_store_trans)
qed

locale evictor =
  fixes evict :: "'r \<Rightarrow> 'c pool_host \<Rightarrow> 'c pool \<Rightarrow> 'c pool"
    and guard :: "'r \<Rightarrow> 'c pool \<Rightarrow> bool"
  assumes evict_wf: "pool_wf p \<Longrightarrow> pool_wf (evict r h p)"
    and evict_shrunk: "pool_wf p \<Longrightarrow> residue_ok h \<Longrightarrow> shrunk p (evict r h p)"
    and evict_keeps: "pool_wf p \<Longrightarrow> guard r p \<Longrightarrow> keeps_pinned p (evict r h p)"
    and guard_stable: "pool_wf p \<Longrightarrow> guard r p \<Longrightarrow> guard r (evict r' h p)"
begin

text \<open>The contract holds for any sequence of requests, under any faults.\<close>

lemma evict_run:
  assumes "pool_wf p" and "\<forall>(r, h) \<in> set rs. residue_ok h \<and> guard r p"
  shows "pool_wf (fold (\<lambda>(r, h). evict r h) rs p) \<and> shrunk p (fold (\<lambda>(r, h). evict r h) rs p) \<and>
    keeps_pinned p (fold (\<lambda>(r, h). evict r h) rs p)"
  using assms
proof (induction rs arbitrary: p)
  case (Cons rh rs)
  obtain r h where rh: "rh = (r, h)" by force
  with Cons.prems have "residue_ok h" "guard r p"
    and "\<forall>(r, h) \<in> set rs. residue_ok h \<and> guard r (evict r h p)"
    and "\<forall>(r', h') \<in> set rs. residue_ok h' \<and> guard r' (evict r h p)"
    by (auto simp: guard_stable)
  with Cons.IH [of "evict r h p"] Cons.prems(1) rh show ?case
    by (auto simp: evict_wf intro: shrunk_trans [OF evict_shrunk]
        keeps_pinned_trans [OF evict_keeps])
qed simp

end

lemma delete_all_shrunk:
  assumes "poolable ts" and "residue_ok h"
  shows "shrunk p (fold (delete_one h) ts p)"
  using assms by (simp add: shrunk_def mset_filter delete_all_templates delete_all_disk_le)

lemma delete_all_keeps:
  assumes "poolable ts" and free: "\<forall>t \<in> set ts. \<not> pinned p (pt_id t)"
  shows "keeps_pinned p (fold (delete_one h) ts p)"
  using assms
  by (auto simp: keeps_pinned_def delete_all_only_store delete_all_templates
      intro!: delete_all_other_dir)

end
