(* ===== verification/Pool_Evict.thy ===== *)
theory Pool_Evict
  imports Pool_Inv
begin

text \<open>
  Space reclamation in the template pool: the water-level collector, eviction by kind and
  removal by id, each shown to be a run of \<open>delete_one\<close> over an explicit list of victims and
  to satisfy the eviction contract; the counters of restores, running sandboxes and refills
  as instances of the reference-counting contract.
\<close>

section \<open>Lists\<close>

lemma sorted_take_drop:
  assumes "sorted (map f xs)" and "x \<in> set (take n xs)" and "y \<in> set (drop n xs)"
  shows "f x \<le> f y"
proof -
  have "sorted (map f (take n xs) @ map f (drop n xs))"
    using assms(1) by (metis append_take_drop_id map_append)
  with assms(2, 3) show ?thesis by (auto simp: sorted_append)
qed

lemma length_filter_notin:
  assumes d: "distinct (map f xs)" and sub: "set vs \<subseteq> set xs" and vs: "distinct vs"
  shows "length (filter (\<lambda>x. f x \<notin> f ` set vs) xs) + length vs = length xs"
proof -
  have "inj_on f (set xs)" using d by (simp add: distinct_map)
  then have "set (filter (\<lambda>x. f x \<in> f ` set vs) xs) = set vs"
    using sub by (auto dest: inj_onD)
  moreover have "distinct (filter (\<lambda>x. f x \<in> f ` set vs) xs)"
    using d by (simp add: distinct_map)
  ultimately have "length (filter (\<lambda>x. f x \<in> f ` set vs) xs) = length vs"
    using vs by (metis distinct_card)
  then show ?thesis using sum_length_filter_compl [of "\<lambda>x. f x \<in> f ` set vs" xs] by simp
qed

section \<open>The water-level collector\<close>

definition gc_victims :: "'c pool \<Rightarrow> pooled_template list" where
  "gc_victims p =
     take (total_depth p - gc_watermark p)
       (sort_key pt_created_at_secs (filter (gc_eligible p) (all_templates p)))"

lemma poolable_all: "pool_wf p \<Longrightarrow> poolable (all_templates p)"
  by (simp add: pool_wf_def)

lemma gc_victims_sub: "set (gc_victims p) \<subseteq> set (filter (gc_eligible p) (all_templates p))"
  using set_take_subset [of _ "sort_key pt_created_at_secs (filter (gc_eligible p) (all_templates p))"]
  by (auto simp: gc_victims_def)

lemma gc_victims_poolable: "pool_wf p \<Longrightarrow> poolable (gc_victims p)"
  using gc_victims_sub [of p] poolable_all [of p] by auto

lemma gc_if_needed_run:
  assumes "pool_wf p"
  shows "gc_if_needed h p = (Inr (), fold (delete_one h) (gc_victims p) p)"
  using delete_candidates_run [OF gc_victims_poolable [OF assms], of h 0 p]
  by (simp add: gc_if_needed_def gc_victims_def Let_def)

lemma gc_victims_free: "t \<in> set (gc_victims p) \<Longrightarrow> \<not> pinned p (pt_id t)"
  using gc_victims_sub [of p] by (auto simp: gc_eligible_def pinned_def split: if_splits)

lemma gc_wf: "pool_wf p \<Longrightarrow> pool_wf (snd (gc_if_needed h p))"
  by (simp add: gc_if_needed_run delete_all_wf gc_victims_poolable)

lemma gc_shrunk: "pool_wf p \<Longrightarrow> residue_ok h \<Longrightarrow> shrunk p (snd (gc_if_needed h p))"
  by (simp add: gc_if_needed_run delete_all_shrunk gc_victims_poolable)

lemma gc_keeps: "pool_wf p \<Longrightarrow> keeps_pinned p (snd (gc_if_needed h p))"
  by (simp add: gc_if_needed_run delete_all_keeps gc_victims_poolable gc_victims_free)

lemma gc_only_store: "pool_wf p \<Longrightarrow> only_store p (snd (gc_if_needed h p))"
  by (simp add: gc_if_needed_run delete_all_only_store gc_victims_poolable)

lemma distinct_all: "pool_wf p \<Longrightarrow> distinct (all_templates p)"
  by (simp add: pool_wf_def distinct_map)

lemma gc_total:
  assumes wf: "pool_wf p" and ok: "\<And>t. t \<in> set (all_templates p) \<Longrightarrow> removable h t"
  shows "total_depth (snd (gc_if_needed h p)) =
    total_depth p -
      min (total_depth p - gc_watermark p) (length (filter (gc_eligible p) (all_templates p)))"
proof -
  have "filter (removable h) (gc_victims p) = gc_victims p"
    using gc_victims_sub [of p] ok by (auto simp: filter_id_conv)
  then have all: "all_templates (snd (gc_if_needed h p)) =
      filter (\<lambda>x. pt_id x \<notin> pt_id ` set (gc_victims p)) (all_templates p)"
    using delete_all_templates [OF gc_victims_poolable [OF wf], of h p]
    by (simp add: gc_if_needed_run wf del: set_filter)
  have "length (filter (\<lambda>x. pt_id x \<notin> pt_id ` set (gc_victims p)) (all_templates p)) +
      length (gc_victims p) = length (all_templates p)"
  proof (rule length_filter_notin)
    show "distinct (map pt_id (all_templates p))" using wf by (simp add: pool_wf_def)
    show "set (gc_victims p) \<subseteq> set (all_templates p)" using gc_victims_sub [of p] by auto
    show "distinct (gc_victims p)"
      using distinct_all [OF wf] by (simp add: gc_victims_def distinct_take)
  qed
  moreover have "length (gc_victims p) =
      min (total_depth p - gc_watermark p) (length (filter (gc_eligible p) (all_templates p)))"
    by (simp add: gc_victims_def min.commute)
  ultimately show ?thesis by (simp add: total_depth_length all)
qed

lemma gc_oldest_first:
  assumes wf: "pool_wf p"
    and x: "x \<in> set (all_templates p)" "x \<notin> set (all_templates (snd (gc_if_needed h p)))"
    and y: "y \<in> set (all_templates (snd (gc_if_needed h p)))" "gc_eligible p y" "removable h y"
  shows "gc_eligible p x \<and> pt_created_at_secs x \<le> pt_created_at_secs y"
proof -
  let ?s = "sort_key pt_created_at_secs (filter (gc_eligible p) (all_templates p))"
  let ?n = "total_depth p - gc_watermark p"
  note all = delete_all_templates [OF gc_victims_poolable [OF wf], of h p]
  from x all wf obtain v where v: "v \<in> set (gc_victims p)" "pt_id v = pt_id x"
    by (auto simp: gc_if_needed_run)
  then have "v \<in> set (all_templates p)" using gc_victims_sub [of p] by auto
  with v x(1) wf have xv: "x \<in> set (gc_victims p)" by (metis pool_wf_same_id)
  from y all wf have "y \<notin> set (gc_victims p)" "y \<in> set (all_templates p)"
    by (auto simp: gc_if_needed_run)
  then have "y \<in> set (drop ?n ?s)"
    using y(2) set_append [of "take ?n ?s" "drop ?n ?s"]
    by (auto simp: gc_victims_def simp del: set_append)
  with xv have "pt_created_at_secs x \<le> pt_created_at_secs y"
    by (auto simp: gc_victims_def intro: sorted_take_drop [OF sorted_sort_key])
  with xv show ?thesis using gc_victims_sub [of p] by auto
qed

section \<open>Eviction by kind and removal by id\<close>

definition evict_ok :: "'c pool \<Rightarrow> snapshot_type \<Rightarrow> pooled_template \<Rightarrow> bool" where
  "evict_ok p kind t \<longleftrightarrow> evict_eligible p kind t = Inr True"

lemma evict_eligible_poolable:
  "pt_snapshot_type t \<noteq> Continuation \<Longrightarrow> evict_eligible p kind t = Inr (evict_ok p kind t)"
  by (cases "pt_snapshot_type t") (simp_all add: evict_ok_def evict_eligible.simps)

lemma evict_candidates_filter:
  "poolable ts \<Longrightarrow> evict_candidates p kind ts = Inr (filter (evict_ok p kind) ts)"
  by (induction ts) (simp_all add: evict_eligible_poolable)

definition evict_victims :: "'c pool \<Rightarrow> snapshot_type \<Rightarrow> nat \<Rightarrow> pooled_template list" where
  "evict_victims p kind target =
     (let cs = filter (evict_ok p kind) (all_templates p)
      in take (length cs - target) (sort_key pt_created_at_secs cs))"

lemma evict_victims_sub:
  "set (evict_victims p kind target) \<subseteq> set (filter (evict_ok p kind) (all_templates p))"
  using set_take_subset [of _ "sort_key pt_created_at_secs (filter (evict_ok p kind) (all_templates p))"]
  by (auto simp: evict_victims_def Let_def)

lemma evict_victims_poolable: "pool_wf p \<Longrightarrow> poolable (evict_victims p kind target)"
  using evict_victims_sub [of p kind target] poolable_all [of p] by auto

lemma evict_by_kind_run:
  assumes "pool_wf p"
  shows "evict_by_kind h kind target p =
    (Inr (length (filter (removable h) (evict_victims p kind target))),
     fold (delete_one h) (evict_victims p kind target) p)"
  using delete_candidates_run [OF evict_victims_poolable [OF assms], of h kind target 0 p] assms
  by (simp add: evict_by_kind_def evict_victims_def Let_def evict_candidates_filter poolable_all)

text \<open>
  Eviction by kind looks at the pins of warm forks only in a pool with shared leases.
\<close>

definition evict_guard_ok :: "snapshot_type \<Rightarrow> 'c pool \<Rightarrow> bool" where
  "evict_guard_ok kind p \<longleftrightarrow> kind = WarmFork \<longrightarrow> pool_lease_mode p = Shared"

lemma evict_victims_free:
  "evict_guard_ok kind p \<Longrightarrow> t \<in> set (evict_victims p kind target) \<Longrightarrow> \<not> pinned p (pt_id t)"
  using subsetD [OF evict_victims_sub [of p kind target], of t]
  by (auto simp: evict_ok_def evict_eligible.simps evict_guard_ok_def pinned_def
      split: if_splits snapshot_type.splits)

lemma remove_by_id_cases:
  assumes wf: "pool_wf p"
  shows "snd (remove_by_id h i kind p) = p \<or>
    (\<exists>t \<in> set (all_templates p). pt_id t = i \<and> \<not> pinned p i \<and> pt_snapshot_type t = kind \<and>
       remove_by_id h i kind p =
         (if removable h t then Inr True else Inl RemoveDirFailed, delete_one h t p))"
proof (cases "find_by_id p i")
  case None
  then show ?thesis by (simp add: remove_by_id_def)
next
  case (Some t)
  then have t: "t \<in> set (all_templates p)" "pt_id t = i" by (auto dest: find_by_id_Some)
  with pool_wf_dir [OF wf] obtain kd where d: "template_dir t = Some (kd, i)" by blast
  obtain r dk where rm: "fs_remove_dir_all h (kd, i) (disk p) = (r, dk)" by force
  with remove_fault [of h "(kd, i)" "disk p"]
  have r: "removable h t \<longleftrightarrow> r \<noteq> Some IoFault" by (simp add: removable_def d)
  have "remove_by_id h i kind p =
      (if removable h t then Inr True else Inl RemoveDirFailed, delete_one h t p)"
    if "pt_snapshot_type t = kind" "\<not> pinned p i"
    using that t r
    by (cases r; cases "the r")
      (simp_all add: remove_by_id_def Some d rm delete_one_def Let_def pinned_def)
  moreover have "snd (remove_by_id h i kind p) = p" if "pt_snapshot_type t \<noteq> kind \<or> pinned p i"
    using that t by (auto simp: remove_by_id_def Some pinned_def)
  ultimately show ?thesis using t by blast
qed

section \<open>The eviction contract holds\<close>

lemma delete_one_shrunk:
  "pt_snapshot_type t \<noteq> Continuation \<Longrightarrow> residue_ok h \<Longrightarrow> shrunk p (delete_one h t p)"
  using delete_all_shrunk [of "[t]" h p] by simp

lemma delete_one_keeps:
  "pt_snapshot_type t \<noteq> Continuation \<Longrightarrow> \<not> pinned p (pt_id t) \<Longrightarrow> keeps_pinned p (delete_one h t p)"
  using delete_all_keeps [of "[t]" p h] by simp

lemma remove_by_id_evictor:
  assumes "pool_wf p"
  shows "pool_wf (snd (remove_by_id h i kind p))"
    and "residue_ok h \<Longrightarrow> shrunk p (snd (remove_by_id h i kind p))"
    and "keeps_pinned p (snd (remove_by_id h i kind p))"
  using remove_by_id_cases [OF assms, of h i kind] assms poolable_all [OF assms]
  by (auto simp: delete_one_props(3) delete_one_shrunk delete_one_keeps)

text \<open>A request to free space.\<close>

datatype reclaim = Gc | EvictKind snapshot_type nat | RemoveById string snapshot_type

primrec reclaim_step :: "reclaim \<Rightarrow> 'c pool_host \<Rightarrow> 'c pool \<Rightarrow> 'c pool" where
  "reclaim_step Gc h p = snd (gc_if_needed h p)"
| "reclaim_step (EvictKind kind target) h p = snd (evict_by_kind h kind target p)"
| "reclaim_step (RemoveById i kind) h p = snd (remove_by_id h i kind p)"

primrec reclaim_guard :: "reclaim \<Rightarrow> 'c pool \<Rightarrow> bool" where
  "reclaim_guard Gc p = True"
| "reclaim_guard (EvictKind kind target) p = evict_guard_ok kind p"
| "reclaim_guard (RemoveById i kind) p = True"

lemma reclaim_wf: "pool_wf p \<Longrightarrow> pool_wf (reclaim_step r h p)"
  by (cases r) (simp_all add: gc_wf evict_by_kind_run delete_all_wf evict_victims_poolable
      remove_by_id_evictor)

lemma reclaim_shrunk: "pool_wf p \<Longrightarrow> residue_ok h \<Longrightarrow> shrunk p (reclaim_step r h p)"
  by (cases r) (simp_all add: gc_shrunk evict_by_kind_run delete_all_shrunk evict_victims_poolable
      remove_by_id_evictor)

lemma reclaim_keeps: "pool_wf p \<Longrightarrow> reclaim_guard r p \<Longrightarrow> keeps_pinned p (reclaim_step r h p)"
  by (cases r) (simp_all add: gc_keeps evict_by_kind_run delete_all_keeps evict_victims_poolable
      evict_victims_free remove_by_id_evictor)

lemma reclaim_only_store: "pool_wf p \<Longrightarrow> only_store p (reclaim_step r h p)"
  by (cases r) (use remove_by_id_evictor(3) in \<open>auto simp: gc_only_store evict_by_kind_run
      delete_all_only_store evict_victims_poolable keeps_pinned_def\<close>)

interpretation reclaim: evictor reclaim_step reclaim_guard
proof
  fix p :: "'c pool" and r r' h
  assume "pool_wf p" "reclaim_guard r p"
  with reclaim_only_store [of p r' h] show "reclaim_guard r (reclaim_step r' h p)"
    by (cases r) (simp_all add: only_store_def evict_guard_ok_def)
qed (simp_all add: reclaim_wf reclaim_shrunk reclaim_keeps)

section \<open>The three counters\<close>

lemma cnt_dec_get:
  "cnt_wf m \<Longrightarrow> hm_get m k = Some n \<Longrightarrow>
   cnt (if n - 1 = 0 then hm_remove k m else hm_insert k (n - 1) m) k' =
     cnt m k' - (if k' = k then 1 else 0)"
  using cnt_wf_pos [of m k n] by (auto simp: cnt_def)

lemma cnt_dec_wf:
  "cnt_wf m \<Longrightarrow> cnt_wf (if n - 1 = 0 then hm_remove k m else hm_insert k (n - 1) m)"
  by (auto intro: cnt_wf_remove cnt_wf_insert)

definition refills_of :: "'c pool \<Rightarrow> template_key \<Rightarrow> nat" where
  "refills_of p k = in_flight_count_for_key k p"

definition restores_of :: "'c pool \<Rightarrow> string \<Rightarrow> nat" where
  "restores_of p i = cnt (in_flight_restores p) i"

definition uses_of :: "'c pool \<Rightarrow> string \<Rightarrow> nat" where
  "uses_of p i = cnt (in_use_count p) i"

lemma begin_refill_wf: "pool_wf p \<Longrightarrow> pool_wf (begin_refill k p)"
  by (simp add: begin_refill_def pool_wf_def cnt_wf_inc)

lemma end_refill_wf: "pool_wf p \<Longrightarrow> pool_wf (end_refill k p)"
  by (auto simp: end_refill_def pool_wf_def cnt_dec_wf all_templates_def split: option.splits
      intro: cnt_wf_remove cnt_wf_insert)

lemma ref_template_wf: "pool_wf p \<Longrightarrow> pool_wf (ref_template i p)"
  by (simp add: ref_template_def pool_wf_in_use pool_wf_def cnt_wf_inc)

lemma end_restore_run:
  assumes wf: "pool_wf p"
  shows "pool_wf (snd (end_restore h i p))" and "fst (end_restore h i p) = Inr ()"
    and "restores_of (snd (end_restore h i p)) j = restores_of p j - (if j = i then 1 else 0)"
    and "in_use_count (snd (end_restore h i p)) = in_use_count p"
    and "residue_ok h \<Longrightarrow> shrunk p (snd (end_restore h i p))"
proof -
  have r: "cnt_wf (in_flight_restores p)" using wf by (simp add: pool_wf_def)
  have q: "pool_wf (p\<lparr>in_flight_restores := hm_remove i (in_flight_restores p)\<rparr>)" (is "pool_wf ?q")
    using wf r by (simp add: pool_wf_restores cnt_wf_remove)
  have gc: "in_flight_restores (snd (gc_if_needed h ?q)) = in_flight_restores ?q"
    "in_use_count (snd (gc_if_needed h ?q)) = in_use_count ?q"
    using gc_only_store [OF q, of h] by (simp_all add: only_store_def)
  show "pool_wf (snd (end_restore h i p))"
    using wf r by (auto simp: end_restore_def gc_wf q pool_wf_restores cnt_wf_insert
        split: option.splits)
  show "fst (end_restore h i p) = Inr ()"
    by (auto simp: end_restore_def gc_if_needed_run q split: option.splits)
  show "restores_of (snd (end_restore h i p)) j = restores_of p j - (if j = i then 1 else 0)"
    using r by (auto simp: end_restore_def restores_of_def gc cnt_def dest: cnt_wf_pos
        split: option.splits)
  show "in_use_count (snd (end_restore h i p)) = in_use_count p"
    by (auto simp: end_restore_def gc split: option.splits)
  show "shrunk p (snd (end_restore h i p))" if "residue_ok h"
    using gc_shrunk [OF q that] by (auto simp: end_restore_def shrunk_def split: option.splits)
qed

lemma deref_run:
  assumes wf: "pool_wf p"
  shows "pool_wf (snd (deref h i p))" and "fst (deref h i p) = Inr ()"
    and "uses_of (snd (deref h i p)) j = uses_of p j - (if j = i then 1 else 0)"
    and "in_flight_restores (snd (deref h i p)) = in_flight_restores p"
    and "residue_ok h \<Longrightarrow> shrunk p (snd (deref h i p))"
proof -
  have r: "cnt_wf (in_use_count p)" using wf by (simp add: pool_wf_def)
  have q: "pool_wf (p\<lparr>in_use_count := hm_remove i (in_use_count p)\<rparr>)" (is "pool_wf ?q")
    using wf r by (simp add: pool_wf_in_use cnt_wf_remove)
  have gc: "in_use_count (snd (gc_if_needed h ?q)) = in_use_count ?q"
    "in_flight_restores (snd (gc_if_needed h ?q)) = in_flight_restores ?q"
    using gc_only_store [OF q, of h] by (simp_all add: only_store_def)
  show "pool_wf (snd (deref h i p))"
    using wf r by (auto simp: deref_def gc_wf q pool_wf_in_use cnt_wf_insert split: option.splits)
  show "fst (deref h i p) = Inr ()"
    by (auto simp: deref_def gc_if_needed_run q split: option.splits)
  show "uses_of (snd (deref h i p)) j = uses_of p j - (if j = i then 1 else 0)"
    using r by (auto simp: deref_def uses_of_def gc cnt_def dest: cnt_wf_pos split: option.splits)
  show "in_flight_restores (snd (deref h i p)) = in_flight_restores p"
    by (auto simp: deref_def gc split: option.splits)
  show "shrunk p (snd (deref h i p))" if "residue_ok h"
    using gc_shrunk [OF q that] by (auto simp: deref_def shrunk_def split: option.splits)
qed

interpretation refills: refcount refills_of begin_refill end_refill pool_wf
proof
  fix p :: "'c pool" and k k'
  assume wf: "pool_wf p"
  show "refills_of (begin_refill k p) k' = refills_of p k' + (if k' = k then 1 else 0)"
    using cnt_inc_get [of k "in_flight_refills p" k']
    by (simp add: refills_of_def begin_refill_def in_flight_count_for_key_def cnt_def)
  show "refills_of (end_refill k p) k' = refills_of p k' - (if k' = k then 1 else 0)"
    using wf by (auto simp: refills_of_def end_refill_def in_flight_count_for_key_def pool_wf_def
        dest: cnt_wf_pos split: option.splits)
qed (simp_all add: begin_refill_wf end_refill_wf)

lemma uses_of_ref: "uses_of (ref_template i p) j = uses_of p j + (if j = i then 1 else 0)"
  by (simp add: uses_of_def ref_template_def)

interpretation uses: refcount uses_of ref_template "\<lambda>i p. snd (deref h i p)" pool_wf for h
  by unfold_locales (simp_all add: uses_of_ref ref_template_wf deref_run)

text \<open>The increment of the restore counter is the one of the two peeks.\<close>

definition begin_restore :: "string \<Rightarrow> 'c pool \<Rightarrow> 'c pool" where
  "begin_restore i p = p\<lparr>in_flight_restores := cnt_inc i (in_flight_restores p)\<rparr>"

lemma restores_of_begin:
  "restores_of (begin_restore i p) j = restores_of p j + (if j = i then 1 else 0)"
  by (simp add: restores_of_def begin_restore_def)

lemma begin_restore_wf: "pool_wf p \<Longrightarrow> pool_wf (begin_restore i p)"
  by (simp add: begin_restore_def pool_wf_def cnt_wf_inc)

interpretation restores: refcount restores_of begin_restore "\<lambda>i p. snd (end_restore h i p)" pool_wf
  for h
  by unfold_locales (simp_all add: restores_of_begin begin_restore_wf end_restore_run)

end
