(* ===== verification/Pool_Ops.thy ===== *)
theory Pool_Ops
  imports Pool_Evict
begin

text \<open>
  What each remaining operation of the pool does, as one relation between the states before
  and after: \<open>reduced\<close> for the eviction steps inside \<open>add\<close>, \<open>took\<close> for an exclusive acquisition,
  and exact descriptions of \<open>add\<close>, \<open>release\<close> and \<open>load_from_disk\<close>.
\<close>

section \<open>Adding\<close>

definition reduced :: "'c pool \<Rightarrow> 'c pool \<Rightarrow> bool" where
  "reduced p p' \<longleftrightarrow>
     pool_wf p' \<and> shrunk p p' \<and> keeps_pinned p p' \<and>
     (\<forall>d. marker_on d (disk p') \<longrightarrow> marker_on d (disk p))"

lemma reduced_refl: "pool_wf p \<Longrightarrow> reduced p p"
  by (simp add: reduced_def)

lemma reduced_trans: "reduced a b \<Longrightarrow> reduced b c \<Longrightarrow> reduced a c"
  by (auto simp: reduced_def intro: shrunk_trans keeps_pinned_trans)

lemma reduced_wf: "reduced p p' \<Longrightarrow> pool_wf p'"
  by (simp add: reduced_def)

lemma reduced_ids: "reduced p p' \<Longrightarrow> pool_ids p' \<subseteq> pool_ids p"
  using shrunk_set [of p p'] by (auto simp: reduced_def pool_ids_def)

text \<open>Touching one directory that no pinned template owns.\<close>

lemma reduced_disk:
  assumes "pool_wf p" and "hm_wf dk" and "disk_le dk (disk p)"
    and "\<And>d'. snd d' \<noteq> i \<Longrightarrow> hm_get dk d' = hm_get (disk p) d'"
    and "i \<notin> pool_ids p \<or> \<not> pinned p i" and "\<And>d. marker_on d dk \<Longrightarrow> marker_on d (disk p)"
  shows "reduced p (p\<lparr>disk := dk\<rparr>)"
proof -
  have "hm_get dk d = hm_get (disk p) d" if "snd d \<in> pool_ids p" "pinned p (snd d)" for d
    using assms(4) [of d] assms(5) that by (cases "snd d = i") auto
  with assms show ?thesis
    by (simp add: reduced_def pool_wf_disk shrunk_def keeps_pinned_def)
qed

lemma reduced_remove_dir:
  assumes "pool_wf p" and "residue_ok h" and "snd d \<notin> pool_ids p \<or> \<not> pinned p (snd d)"
  shows "reduced p (p\<lparr>disk := snd (fs_remove_dir_all h d (disk p))\<rparr>)"
  using assms
  by (intro reduced_disk [where i = "snd d"])
    (auto simp: pool_wf_disk_wf disk_le_remove intro: get_other(2) marker_remove)

lemma reduced_create_dir:
  assumes "pool_wf p" and "snd d \<notin> pool_ids p"
  shows "reduced p (p\<lparr>disk := snd (fs_create_dir_all h d (disk p))\<rparr>)"
  using assms
  by (intro reduced_disk [where i = "snd d"])
    (auto simp: pool_wf_disk_wf disk_le_create intro: get_other(1) marker_create)

lemma reduced_cleanup:
  "pool_wf p \<Longrightarrow> residue_ok h \<Longrightarrow> snd d \<notin> pool_ids p \<Longrightarrow> reduced p (cleanup_new_dir h d p)"
  by (simp add: cleanup_new_dir_def reduced_remove_dir)

lemma delete_one_marker:
  "residue_ok h \<Longrightarrow> marker_on d (disk (delete_one h t p)) \<Longrightarrow> marker_on d (disk p)"
  by (auto simp: delete_one_def Let_def dest: marker_remove split: if_splits)

lemma reduced_delete_one:
  assumes "pool_wf p" and "residue_ok h" and "t \<in> set (all_templates p)" and "\<not> pinned p (pt_id t)"
  shows "reduced p (delete_one h t p)"
  using assms poolable_all [OF assms(1)]
  by (auto simp: reduced_def delete_one_props(3) delete_one_shrunk delete_one_keeps
      dest: delete_one_marker)

text \<open>Step 1 evicts the oldest template that nothing pins.\<close>

definition add_free :: "'c pool \<Rightarrow> pooled_template \<Rightarrow> bool" where
  "add_free p t \<longleftrightarrow>
     \<not> hm_contains (in_flight_restores p) (pt_id t) \<and> add_evictable p t = Inr True"

lemma add_evictable_poolable:
  "pt_snapshot_type t \<noteq> Continuation \<Longrightarrow> \<exists>b. add_evictable p t = Inr b"
  by (cases "pt_snapshot_type t") (simp_all add: add_evictable.simps)

lemma add_free_not_pinned: "add_free p t \<Longrightarrow> \<not> pinned p (pt_id t)"
  by (cases "pt_snapshot_type t") (auto simp: add_free_def add_evictable.simps pinned_def)

lemma oldest_candidate_spec:
  assumes "poolable ts"
  shows "\<exists>r. oldest_candidate p ts cand = Inr r \<and>
    (case r of
       None \<Rightarrow> cand = None \<and> (\<forall>t \<in> set ts. \<not> add_free p t)
     | Some c \<Rightarrow> (cand = Some c \<or> (c \<in> set ts \<and> add_free p c)) \<and>
         (\<forall>t \<in> set ts. add_free p t \<longrightarrow> pt_created_at_secs c \<le> pt_created_at_secs t) \<and>
         (\<forall>o'. cand = Some o' \<longrightarrow> pt_created_at_secs c \<le> pt_created_at_secs o'))"
  using assms
proof (induction ts arbitrary: cand)
  case Nil
  then show ?case by (auto split: option.splits)
next
  case (Cons t ts)
  from Cons.prems add_evictable_poolable [of t p] obtain b where b: "add_evictable p t = Inr b"
    by auto
  let ?take = "\<not> hm_contains (in_flight_restores p) (pt_id t) \<and> b \<and>
      (case cand of None \<Rightarrow> True | Some o' \<Rightarrow> pt_created_at_secs t < pt_created_at_secs o')"
  have eq: "oldest_candidate p (t # ts) cand = oldest_candidate p ts (if ?take then Some t else cand)"
    by (simp add: b)
  have free: "add_free p t \<longleftrightarrow> \<not> hm_contains (in_flight_restores p) (pt_id t) \<and> b"
    by (simp add: add_free_def b)
  from Cons.IH [of "if ?take then Some t else cand"] Cons.prems
  obtain r where r: "oldest_candidate p (t # ts) cand = Inr r"
    "case r of
       None \<Rightarrow> (if ?take then Some t else cand) = None \<and> (\<forall>t \<in> set ts. \<not> add_free p t)
     | Some c \<Rightarrow> ((if ?take then Some t else cand) = Some c \<or> (c \<in> set ts \<and> add_free p c)) \<and>
         (\<forall>t \<in> set ts. add_free p t \<longrightarrow> pt_created_at_secs c \<le> pt_created_at_secs t) \<and>
         (\<forall>o'. (if ?take then Some t else cand) = Some o' \<longrightarrow>
            pt_created_at_secs c \<le> pt_created_at_secs o')"
    unfolding eq by auto
  show ?case
  proof (intro exI conjI)
    show "oldest_candidate p (t # ts) cand = Inr r" by (rule r(1))
  qed (use r(2) free in \<open>cases cand; cases r; auto split: if_splits\<close>)
qed

lemma delete_one_success:
  assumes "template_dir t = Some d" and "fs_remove_dir_all h d (disk p) = (None, dk)"
  shows "pool_retain (pt_id t) (p\<lparr>disk := dk\<rparr>) = delete_one h t p"
proof -
  have "removable h t"
    using remove_fault [of h d "disk p"] assms by (simp add: removable_def)
  with assms show ?thesis by (simp add: delete_one_def)
qed

lemma add_water_level_reduced:
  assumes wf: "pool_wf p" and h: "residue_ok h" and d: "snd d \<notin> pool_ids p"
  shows "reduced p (snd (add_water_level h d p))"
    and "fst (add_water_level h d p) \<noteq> Inl Unreachable"
    and "fst (add_water_level h d p) = Inr () \<Longrightarrow>
      total_depth (snd (add_water_level h d p)) < max (total_depth p) (gc_watermark p)"
proof -
  from oldest_candidate_spec [OF poolable_all [OF wf], of p None]
  obtain r where r: "oldest_candidate p (all_templates p) None = Inr r"
    "\<And>c. r = Some c \<Longrightarrow> c \<in> set (all_templates p) \<and> add_free p c"
    by (auto split: option.splits)
  have "reduced p (snd (add_water_level h d p)) \<and> fst (add_water_level h d p) \<noteq> Inl Unreachable \<and>
    (fst (add_water_level h d p) = Inr () \<longrightarrow>
     total_depth (snd (add_water_level h d p)) < max (total_depth p) (gc_watermark p))"
  proof (cases r)
    case None
    with r wf h d show ?thesis
      by (auto simp: add_water_level_def reduced_cleanup reduced_refl)
  next
    case (Some c)
    with r have c: "c \<in> set (all_templates p)" "\<not> pinned p (pt_id c)"
      by (auto dest: add_free_not_pinned)
    from pool_wf_dir [OF wf c(1)] obtain kd where kd: "template_dir c = Some (kd, pt_id c)" .
    obtain e dk where rm: "fs_remove_dir_all h (kd, pt_id c) (disk p) = (e, dk)" by force
    with reduced_remove_dir [OF wf h, of "(kd, pt_id c)"] c
    have red: "reduced p (p\<lparr>disk := dk\<rparr>)" by simp
    have del: "e = None \<Longrightarrow> pool_retain (pt_id c) (p\<lparr>disk := dk\<rparr>) = delete_one h c p"
      using delete_one_success [OF kd] rm by simp
    have "pool_ids (p\<lparr>disk := dk\<rparr>) = pool_ids p" by (simp add: pool_ids_def)
    then have "reduced p (cleanup_new_dir h d (p\<lparr>disk := dk\<rparr>))"
      using reduced_trans [OF red reduced_cleanup [OF reduced_wf [OF red] h]] d by simp
    moreover have "e = None \<Longrightarrow> length (all_templates (delete_one h c p)) < length (all_templates p)"
      using c(1) length_filter_less [of c "all_templates p" "\<lambda>t. pt_id t \<noteq> pt_id c"]
      by (simp add: all_templates_retain flip: del)
    ultimately show ?thesis
      using Some r(1) kd rm wf red del reduced_delete_one [OF wf h c]
      by (cases e) (auto simp: add_water_level_def reduced_refl total_depth_length)
  qed
  then show "reduced p (snd (add_water_level h d p))"
    and "fst (add_water_level h d p) \<noteq> Inl Unreachable"
    and "fst (add_water_level h d p) = Inr () \<Longrightarrow>
      total_depth (snd (add_water_level h d p)) < max (total_depth p) (gc_watermark p)"
    by blast+
qed

text \<open>Step 2 evicts the head of the key's queue.\<close>

lemma mset_filter_sub: "mset (filter P xs) \<subseteq># mset xs"
  by (simp add: mset_filter)

lemma evict_head_reduced:
  assumes wf: "pool_wf p" and q: "hm_get (available p) k = Some q"
    and i: "\<not> pinned p i" and red: "reduced p (p\<lparr>disk := dk\<rparr>)"
  shows "reduced p (p\<lparr>disk := dk, available := hm_insert k (filter (\<lambda>x. pt_id x \<noteq> i) q) (available p)\<rparr>)"
    (is "reduced p ?p'")
proof -
  let ?q = "filter (\<lambda>x. pt_id x \<noteq> i) q"
  let ?av = "hm_insert k ?q (available p)"
  have all: "all_templates ?p' = templates_of ?av" by (simp add: all_templates_def)
  have eq: "mset (templates_of ?av) + mset q = mset (all_templates p) + mset ?q"
    using mset_templates_insert [OF q, of ?q] by (simp add: all_templates_def)
  have sub: "mset (templates_of ?av) \<subseteq># mset (all_templates p)"
    using eq mset_filter_sub [of "\<lambda>x. pt_id x \<noteq> i" q]
    by (metis mset_subset_eq_mono_add_left_cancel mset_subset_eq_mono_add_right_cancel
        subset_mset.order_refl subset_mset.add_left_mono)
  have "keyed ?av"
    using wf keyed_get [OF _ q] by (auto simp: pool_wf_def intro!: keyed_insert)
  then have "pool_wf ?p'"
    using pool_wf_available [OF reduced_wf [OF red], of ?av] wf sub by (simp add: pool_wf_def)
  moreover have "t \<in> set (templates_of ?av)" if "t \<in> set (all_templates p)" "pinned p (pt_id t)" for t
  proof -
    have "count (mset ?q) t = count (mset q) t" using that(2) i by (auto simp: count_filter_mset)
    then have "count (mset (templates_of ?av)) t = count (mset (all_templates p)) t"
      using arg_cong [OF eq, of "\<lambda>M. count M t"] by simp
    with that(1) show ?thesis by (metis count_mset_0_iff)
  qed
  ultimately show ?thesis
    using red sub by (auto simp: reduced_def shrunk_def keeps_pinned_def all only_store_def)
qed

lemma depth_get: "depth k p = length (case hm_get (available p) k of None \<Rightarrow> [] | Some q \<Rightarrow> q)"
  by (simp add: depth_def split: option.splits)

lemma add_key_depth_reduced:
  assumes wf: "pool_wf p" and h: "residue_ok h" and d: "snd d \<notin> pool_ids p"
    and t: "kind_max_per_key p (pt_snapshot_type t) = Some mx"
  shows "reduced p (snd (add_key_depth h t d p))"
    and "fst (add_key_depth h t d p) \<noteq> Inl Unreachable"
    and "fst (add_key_depth h t d p) = Inr () \<Longrightarrow>
      depth (pt_key t) (snd (add_key_depth h t d p)) < max (depth (pt_key t) p) (max mx 1)"
    and "total_depth (snd (add_key_depth h t d p)) \<le> total_depth p"
proof -
  let ?r = "add_key_depth h t d p"
  have "reduced p (snd ?r) \<and> fst ?r \<noteq> Inl Unreachable \<and>
    (fst ?r = Inr () \<longrightarrow> depth (pt_key t) (snd ?r) < max (depth (pt_key t) p) (max mx 1))"
  proof (cases "hm_get (available p) (pt_key t)")
    case None
    with t wf show ?thesis by (auto simp: add_key_depth_def reduced_refl depth_def)
  next
    case (Some q)
    show ?thesis
    proof (cases "length q \<ge> mx \<and> q \<noteq> [] \<and> \<not> pinned p (pt_id (hd q))")
      case False
      with Some t wf h d show ?thesis
        by (auto simp: add_key_depth_def reduced_refl reduced_cleanup depth_def Let_def pinned_def)
    next
      case True
      let ?o = "hd q"
      have o: "?o \<in> set (all_templates p)"
        using subsetD [OF get_in_templates [OF Some] hd_in_set] True
        by (simp add: all_templates_def)
      from pool_wf_dir [OF wf o] obtain kd where kd: "template_dir ?o = Some (kd, pt_id ?o)" .
      obtain e dk where rm: "fs_remove_dir_all h (kd, pt_id ?o) (disk p) = (e, dk)" by force
      with reduced_remove_dir [OF wf h, of "(kd, pt_id ?o)"] True
      have red: "reduced p (p\<lparr>disk := dk\<rparr>)" by simp
      have "reduced p (cleanup_new_dir h d (p\<lparr>disk := dk\<rparr>))"
        using reduced_trans [OF red reduced_cleanup [OF reduced_wf [OF red] h]] d
        by (simp add: pool_ids_def)
      moreover have "length (filter (\<lambda>x. pt_id x \<noteq> pt_id ?o) q) < length q"
        using True length_filter_less [of ?o q] by auto
      ultimately show ?thesis
        using Some t True kd rm evict_head_reduced [OF wf Some _ red, of "pt_id ?o"]
        by (cases e) (auto simp: add_key_depth_def Let_def pinned_def depth_def)
    qed
  qed
  then show "reduced p (snd ?r)" and "fst ?r \<noteq> Inl Unreachable"
    and "fst ?r = Inr () \<Longrightarrow> depth (pt_key t) (snd ?r) < max (depth (pt_key t) p) (max mx 1)"
    by blast+
  then show "total_depth (snd ?r) \<le> total_depth p"
    by (metis reduced_def shrunk_def total_depth_length size_mset size_mset_mono)
qed

lemma save_error: "fst (template_save h t d dk) \<noteq> None \<Longrightarrow> snd (template_save h t d dk) = dk"
  by (simp add: template_save_def split: option.splits if_splits)

lemma kind_max_poolable:
  "pt_snapshot_type t \<noteq> Continuation \<Longrightarrow> \<exists>mx. kind_max_per_key p (pt_snapshot_type t) = Some mx"
  by (cases "pt_snapshot_type t") simp_all

text \<open>
  An \<open>add\<close> either fails, with nothing but unpinned templates removed, or evicts what it must
  and then saves and inserts the template.
\<close>

lemma add_spec:
  assumes wf: "pool_wf p" and h: "residue_ok h" and fresh: "pt_id t \<notin> pool_ids p"
    and dir: "template_dir t = Some d"
  obtains (failed) e p' where "add h t p = (Inl e, p')" and "e \<noteq> Unreachable" and "reduced p p'"
  | (added) p2 dk where "reduced p p2" and "template_save h t d (disk p2) = (None, dk)"
      and "add h t p = (Inr (), p2\<lparr>disk := dk, available := push_template t (available p2),
             template_ready := template_ready p2 + 1\<rparr>)"
      and "total_depth p2 < max (total_depth p) (gc_watermark p)"
      and "\<And>mx. kind_max_per_key p (pt_snapshot_type t) = Some mx \<Longrightarrow>
             \<exists>p1. reduced p p1 \<and> depth (pt_key t) p2 < max (depth (pt_key t) p1) (max mx 1)"
proof -
  have d: "snd d = pt_id t" using template_dir_id [OF dir] .
  obtain e0 dk0 where c: "fs_create_dir_all h d (disk p) = (e0, dk0)" by force
  let ?p0 = "p\<lparr>disk := dk0\<rparr>"
  have r0: "reduced p ?p0" using reduced_create_dir [OF wf, of d h] c d fresh by simp
  have f0: "snd d \<notin> pool_ids ?p0" using d fresh by (simp add: pool_ids_def)
  obtain e1 p1 where w: "add_water_level h d ?p0 = (e1, p1)" by force
  note w' = add_water_level_reduced [OF reduced_wf [OF r0] h f0, unfolded w]
  have r1: "reduced p p1" using reduced_trans [OF r0 w'(1)] by simp
  have f1: "snd d \<notin> pool_ids p1" using reduced_ids [OF r1] d fresh by auto
  from dir have "pt_snapshot_type t \<noteq> Continuation" by (auto simp: template_dir.simps)
  then obtain mx where mx: "kind_max_per_key p1 (pt_snapshot_type t) = Some mx"
    using kind_max_poolable by blast
  have mx': "kind_max_per_key p (pt_snapshot_type t) = kind_max_per_key p1 (pt_snapshot_type t)"
    using r1 by (cases "pt_snapshot_type t") (auto simp: reduced_def keeps_pinned_def only_store_def)
  obtain e2 p2 where k: "add_key_depth h t d p1 = (e2, p2)" by force
  note k' = add_key_depth_reduced [OF reduced_wf [OF r1] h f1 mx, unfolded k]
  have r2: "reduced p p2" using reduced_trans [OF r1 k'(1)] by simp
  obtain e3 dk where s: "template_save h t d (disk p2) = (e3, dk)" by force
  note def = add_def [of h t p] dir c w k s
  show ?thesis
  proof (cases "e0 = None \<and> \<not> isl e1 \<and> \<not> isl e2 \<and> e3 = None")
    case True
    then have ok: "e0 = None" "e1 = Inr ()" "e2 = Inr ()" "e3 = None"
      by (cases e1; cases e2; simp)+
    show ?thesis
    proof (rule added)
      show "reduced p p2" by (rule r2)
      show "template_save h t d (disk p2) = (None, dk)" using s ok by simp
      show "total_depth p2 < max (total_depth p) (gc_watermark p)"
        using w'(3) k'(4) ok by (simp add: total_depth_length)
      show "\<exists>p1. reduced p p1 \<and> depth (pt_key t) p2 < max (depth (pt_key t) p1) (max mx 1)"
        if "kind_max_per_key p (pt_snapshot_type t) = Some mx" for mx
        using that k'(3) ok r1 mx mx' by auto
    qed (simp add: def ok add_insert_def)
  next
    case False
    then have "\<exists>e p'. add h t p = (Inl e, p') \<and> e \<noteq> Unreachable \<and> reduced p p'"
      using w'(2) k'(2) r0 r1 r2 save_error [of h t d "disk p2"]
      by (cases e0; cases e1; cases e2; cases e3) (auto simp: def add_insert_def)
    then show ?thesis using failed by blast
  qed
qed

section \<open>Acquiring and releasing\<close>

text \<open>
  \<open>took p r p'\<close>: either nothing was handed out and the pool holds the same templates, or one
  template left the pool and its directory carries the consumed marker.
\<close>

definition took ::
  "'c pool \<Rightarrow> pool_error + pooled_template option \<Rightarrow> 'c pool \<Rightarrow> bool" where
  "took p r p' \<longleftrightarrow>
     pool_wf p' \<and> only_store p p' \<and> disk_le (disk p') (disk p) \<and>
     (case r of
        Inl _ \<Rightarrow> False
      | Inr None \<Rightarrow> mset (all_templates p') = mset (all_templates p)
      | Inr (Some t) \<Rightarrow>
          mset (all_templates p) = add_mset t (mset (all_templates p')) \<and>
          (\<exists>d. template_dir t = Some d \<and> marker_on d (disk p')))"

lemma marker_not_offered: "marker_on d dk \<Longrightarrow> offered dk d = None"
  by (simp add: marker_on_def offered_def split: option.splits)

lemma marker_written: "fst (write_consumed_marker h d dk) = None \<Longrightarrow>
  marker_on d (snd (write_consumed_marker h d dk))"
  by (auto simp: marker_on_def write_consumed_marker_def split: option.splits if_splits)

lemma mset_all_sub_ids:
  assumes "pool_wf p" and "mset (all_templates p) = add_mset t (mset (templates_of av))"
  shows "pt_id t \<notin> pt_id ` set (templates_of av)"
proof -
  have "mset (map pt_id (all_templates p)) = mset (pt_id t # map pt_id (templates_of av))"
    using assms(2) by simp
  moreover have "distinct (map pt_id (all_templates p))" using assms(1) by (simp add: pool_wf_def)
  ultimately have "distinct (pt_id t # map pt_id (templates_of av))"
    using mset_eq_imp_distinct_iff by blast
  then show ?thesis by simp
qed

lemma consume_template_took:
  assumes wf: "pool_wf p" and av: "hm_wf av" "keyed av"
    and m: "mset (all_templates p) = add_mset t (mset (templates_of av))"
  shows "took p (fst (consume_template h t (p\<lparr>available := av\<rparr>)))
    (snd (consume_template h t (p\<lparr>available := av\<rparr>)))"
proof -
  let ?p = "p\<lparr>available := av\<rparr>"
  have t: "t \<in> set (all_templates p)" using m by (metis set_mset_mset union_single_eq_member)
  from pool_wf_dir [OF wf t] obtain kd where kd: "template_dir t = Some (kd, pt_id t)" .
  have wf': "pool_wf ?p" using pool_wf_available [OF wf av] m by simp
  have all: "all_templates ?p = templates_of av" by (simp add: all_templates_def)
  have fresh: "pt_id t \<notin> pool_ids ?p"
    using mset_all_sub_ids [OF wf m] by (simp add: pool_ids_def all)
  have nc: "pt_snapshot_type t \<noteq> Continuation" using poolable_all [OF wf] t by auto
  obtain e dk where w: "write_consumed_marker h (kd, pt_id t) (disk p) = (e, dk)" by force
  have dk: "hm_wf dk" "disk_le dk (disk p)"
    using disk_wf(4) [of "disk p" h "(kd, pt_id t)"] disk_le_mark [of h "(kd, pt_id t)" "disk p"]
      pool_wf_disk_wf [OF wf] w by auto
  show ?thesis
  proof (cases e)
    case None
    with w marker_written [of h "(kd, pt_id t)" "disk p"] have "marker_on (kd, pt_id t) dk" by simp
    with None w kd wf' dk m show ?thesis
      by (simp add: consume_template_def took_def pool_wf_disk only_store_def all)
  next
    case (Some _)
    have "pool_wf (?p\<lparr>disk := dk, available := push_template t av\<rparr>)"
      using pool_wf_push [OF pool_wf_disk [OF wf' dk(1)], of t] fresh nc
      by (simp add: pool_ids_def)
    with Some w kd dk m show ?thesis
      by (simp add: consume_template_def took_def only_store_def all_templates_def)
  qed
qed

lemma took_none: "pool_wf p \<Longrightarrow> took p (Inr None) p"
  by (simp add: took_def)

lemma acquire_took:
  assumes wf: "pool_wf p"
  shows "took p (fst (acquire h k p)) (snd (acquire h k p))"
proof (cases "\<exists>q. hm_get (available p) k = Some q \<and> q \<noteq> []")
  case True
  then obtain q where q: "hm_get (available p) k = Some q" "q \<noteq> []" by blast
  let ?av = "hm_insert k (butlast q) (available p)"
  have "mset q = add_mset (last q) (mset (butlast q))"
    using q(2) by (metis append_butlast_last_id mset.simps union_mset_add_mset_right add.right_neutral
        mset_append)
  with mset_templates_insert [OF q(1), of "butlast q"]
  have "mset (all_templates p) = add_mset (last q) (mset (templates_of ?av))"
    by (simp add: all_templates_def)
  moreover have "keyed ?av"
    using wf keyed_get [OF _ q(1)]
    by (auto simp: pool_wf_def intro!: keyed_insert dest: in_set_butlastD)
  ultimately show ?thesis
    using consume_template_took [OF wf, of ?av] wf q by (simp add: acquire_def pool_wf_def)
next
  case False
  then show ?thesis using wf by (auto simp: acquire_def took_none split: option.splits)
qed

lemma acquire_by_id_took:
  assumes wf: "pool_wf p"
  shows "took p (fst (acquire_by_id h i p)) (snd (acquire_by_id h i p))"
proof (cases "remove_found i (available p)")
  case None
  then show ?thesis using wf by (simp add: acquire_by_id_def took_none)
next
  case (Some r)
  obtain t av where r: "r = (t, av)" by force
  with Some remove_found_Some [of i "available p" t av]
  have "mset (all_templates p) = add_mset t (mset (templates_of av))"
    and "map fst av = map fst (available p)" and "keyed (available p) \<longrightarrow> keyed av"
    by (auto simp: all_templates_def)
  with consume_template_took [OF wf, of av t h] wf show ?thesis
    by (simp add: acquire_by_id_def Some r pool_wf_def)
qed

text \<open>The pool is a store with exclusive acquisition; a request is a key and a host.\<close>

definition pool_acquire ::
  "template_key \<times> 'c pool_host \<Rightarrow> 'c pool \<Rightarrow> pooled_template option \<times> 'c pool" where
  "pool_acquire r p = apfst (case_sum (\<lambda>_. None) (\<lambda>t. t)) (acquire (snd r) (fst r) p)"

interpretation pool_excl: exclusive_store pool_acquire "\<lambda>p. set (all_templates p)" "\<lambda>_. True" pool_wf
proof
  fix p p' :: "'c pool" and r :: "template_key \<times> 'c pool_host" and t
  assume wf: "pool_wf p"
  obtain k h where r: "r = (k, h)" by force
  obtain res q where q: "acquire h k p = (res, q)" by force
  have took: "took p res q" using acquire_took [OF wf, of h k] q by simp
  show "t \<in> set (all_templates p) \<and> set (all_templates p') \<subseteq> set (all_templates p) - {t} \<and> pool_wf p'"
    if "pool_acquire r p = (Some t, p')"
  proof -
    from that r q have res: "res = Inr (Some t)" "p' = q"
      by (auto simp: pool_acquire_def split: sum.splits)
    with took have m: "mset (all_templates p) = add_mset t (mset (all_templates q))" and "pool_wf q"
      by (auto simp: took_def)
    have "distinct (t # all_templates q)"
      using distinct_all [OF wf] mset_eq_imp_distinct_iff [of "all_templates p" "t # all_templates q"] m
      by simp
    with mset_eq_setD [of "all_templates p" "t # all_templates q"] m \<open>pool_wf q\<close> res
    show ?thesis by auto
  qed
  show "set (all_templates p') \<subseteq> set (all_templates p) \<and> pool_wf p'"
    if "pool_acquire r p = (None, p')"
    using that r q took mset_eq_setD [of "all_templates q" "all_templates p"]
    by (auto simp: pool_acquire_def took_def split: sum.splits)
qed

text \<open>In LIFO order: the template handed out is the last one of its queue.\<close>

lemma acquire_latest:
  assumes "pool_wf p" and "fst (acquire h k p) = Inr (Some t)"
  shows "latest k p = Some t"
  using assms
  by (auto simp: acquire_def latest_def consume_template_def split: option.splits if_splits prod.splits)

lemma acquire_by_id_id:
  assumes "fst (acquire_by_id h i p) = Inr (Some t)"
  shows "pt_id t = i"
  using assms
  by (auto simp: acquire_by_id_def consume_template_def dest!: remove_found_Some
      split: option.splits prod.splits)

lemma release_run:
  assumes wf: "pool_wf p" and dir: "template_dir t = Some d" and fresh: "pt_id t \<notin> pool_ids p"
  shows "fst (release h t p) = Inr ()" and "pool_wf (snd (release h t p))"
    and "mset (all_templates (snd (release h t p))) = add_mset t (mset (all_templates p))"
    and "only_store p (snd (release h t p))"
    and "disk (snd (release h t p)) = snd (fs_remove_marker h d (disk p))"
proof -
  have nc: "pt_snapshot_type t \<noteq> Continuation" using dir by (auto simp: template_dir.simps)
  have "pool_wf (p\<lparr>disk := snd (fs_remove_marker h d (disk p))\<rparr>)"
    using wf by (simp add: pool_wf_disk pool_wf_disk_wf)
  from pool_wf_push [OF this, of t] fresh nc show "pool_wf (snd (release h t p))"
    by (simp add: release_def dir pool_ids_def)
qed (simp_all add: release_def dir all_templates_def only_store_def)

section \<open>Peeks\<close>

lemma peek_by_id_for_restore_eq:
  "peek_by_id_for_restore i p =
     (find_by_id p i, if find_by_id p i = None then p else begin_restore i p)"
  by (auto simp: peek_by_id_for_restore_def begin_restore_def dest: find_by_id_Some
      split: option.splits)

lemma peek_latest_for_restore_eq:
  "peek_latest_for_restore k p =
     (latest k p, case latest k p of None \<Rightarrow> p | Some t \<Rightarrow> begin_restore (pt_id t) p)"
  by (simp add: peek_latest_for_restore_def begin_restore_def split: option.splits)

lemma peek_with_ref_eq:
  "peek_with_ref k p =
     (if pool_lease_mode p = Shared
      then (latest k p, case latest k p of None \<Rightarrow> p | Some t \<Rightarrow> ref_template (pt_id t) p)
      else (None, p))"
  by (simp add: peek_with_ref_def ref_template_def split: option.splits)

lemma peek_by_id_with_ref_eq:
  "peek_by_id_with_ref i p =
     (if pool_lease_mode p = Shared
      then (find_by_id p i, if find_by_id p i = None then p else ref_template i p)
      else (None, p))"
  by (auto simp: peek_by_id_with_ref_def ref_template_def dest: find_by_id_Some
      split: option.splits)

lemmas peek_eqs = peek_by_id_for_restore_eq peek_latest_for_restore_eq peek_with_ref_eq
  peek_by_id_with_ref_eq

end
