(* ===== verification/Pool_System.thy ===== *)
theory Pool_System
  imports Pool_Ops
begin

text \<open>
  The pool over its whole life, restarts included. The state adds to the pool the templates
  that were handed out exclusively and have not been returned. A step is one operation of
  the pool, under an arbitrary pattern of I/O faults, or a restart that reloads the pool
  from its disk. The invariant relates memory, disk and the templates handed out; it gives
  the crash safety of exclusive leases.
\<close>

section \<open>Loading\<close>

definition load_at ::
  "'c pool_host \<Rightarrow> (pool_addr, 'c) store_disk \<Rightarrow> pool_addr \<Rightarrow> pooled_template option" where
  "load_at h dk d =
     (if (case fs_try_exists_marker h d dk of Inl _ \<Rightarrow> False | Inr b \<Rightarrow> b) then None
      else template_load h d dk)"

lemma load_entry_eq:
  "load_entry h dk d av = (case load_at h dk d of None \<Rightarrow> av | Some t \<Rightarrow> push_template t av)"
  by (simp add: load_entry_def load_at_def split: option.splits)

lemma fold_load_entry:
  "mset (templates_of (fold (load_entry h dk) ds av)) =
     mset (templates_of av) + mset (List.map_filter (load_at h dk) ds)"
  "hm_wf av \<Longrightarrow> hm_wf (fold (load_entry h dk) ds av)"
  "keyed av \<Longrightarrow> keyed (fold (load_entry h dk) ds av)"
  by (induction ds arbitrary: av)
    (auto simp: load_entry_eq map_filter_simps keyed_push split: option.splits)

definition load_dirs :: "'c pool_host \<Rightarrow> (pool_addr, 'c) store_disk \<Rightarrow> pool_addr list" where
  "load_dirs h dk =
     fs_read_dir h EnvironmentDir (\<lambda>d. fst d = EnvironmentDir) dk @
     fs_read_dir h WarmforkDir (\<lambda>d. fst d = WarmforkDir) dk"

lemma distinct_load_dirs: "hm_wf dk \<Longrightarrow> distinct (load_dirs h dk)"
  by (auto simp: load_dirs_def fs_read_dir_def dest!: set_takeWhileD)

lemma load_from_disk_run:
  assumes "load_from_disk h dir em wm w mode rf dk = Inr p"
  shows "mset (all_templates p) = mset (List.map_filter (load_at h dk) (load_dirs h dk))"
    and "hm_wf (available p)" and "keyed (available p)" and "disk p = dk"
    and "in_flight_refills p = []" "in_flight_restores p = []" "in_use_count p = []"
    and "pool_lease_mode p = mode" "gc_watermark p = w"
proof -
  from assms have p: "p = (pool_new dir em wm w mode rf dk)\<lparr>available :=
      fold (load_entry h dk) (load_dirs h dk) []\<rparr>"
    by (simp add: load_from_disk_def load_dirs_def pool_new_def Let_def split: if_splits)
  show "mset (all_templates p) = mset (List.map_filter (load_at h dk) (load_dirs h dk))"
    by (simp add: p all_templates_def fold_load_entry)
  show "hm_wf (available p)" "keyed (available p)"
    by (simp_all add: p fold_load_entry(2)) (rule fold_load_entry(3), simp add: keyed_def)
qed (use assms in \<open>auto simp: load_from_disk_def pool_new_def Let_def split: if_splits\<close>)

text \<open>Every entry that can be loaded is offered by the disk, unless the marker could not be read.\<close>

lemma load_at_offered:
  assumes "load_at h dk d = Some t" and "\<not> h_fault h (StatMarker d)"
  shows "\<exists>c. offered dk d = Some c \<and> json_at dk d = Some c \<and> h_from_json h c = Some t"
  using assms
  by (auto simp: load_at_def fs_try_exists_marker_def marker_on_def template_load_def offered_def
      json_at_def split: option.splits if_splits)

section \<open>The invariant\<close>

record 'c sys =
  s_pool :: "'c pool"
  s_lent :: "pooled_template list"

text \<open>
  The hosts of one life share the codec. On a restart the marker files can be read; all
  other faults are arbitrary.
\<close>

record 'c codec =
  to_json :: "pooled_template \<Rightarrow> 'c"
  from_json :: "'c \<Rightarrow> pooled_template option"

definition host_ok :: "'c codec \<Rightarrow> 'c pool_host \<Rightarrow> bool" where
  "host_ok cd h \<longleftrightarrow>
     h_to_json h = to_json cd \<and> h_from_json h = from_json cd \<and> residue_ok h"

definition stat_ok :: "'c pool_host \<Rightarrow> bool" where
  "stat_ok h \<longleftrightarrow> (\<forall>d. \<not> h_fault h (StatMarker d))"

definition recoverable ::
  "'c codec \<Rightarrow> (pool_addr, 'c) store_disk \<Rightarrow> pool_addr \<Rightarrow> pooled_template option" where
  "recoverable cd dk d = Option.bind (offered dk d) (from_json cd)"

definition json_faithful ::
  "'c codec \<Rightarrow> (pool_addr, 'c) store_disk \<Rightarrow> pooled_template \<Rightarrow> bool" where
  "json_faithful cd dk t \<longleftrightarrow>
     (\<forall>d c. template_dir t = Some d \<longrightarrow> json_at dk d = Some c \<longrightarrow> from_json cd c = Some t)"

definition recovery_sound ::
  "'c codec \<Rightarrow> 'c pool \<Rightarrow> pooled_template list \<Rightarrow> pool_addr \<Rightarrow> pooled_template \<Rightarrow> bool" where
  "recovery_sound cd p lent d t \<longleftrightarrow>
     template_dir t = Some d \<and> pt_id t \<notin> pt_id ` set lent \<and>
     (\<forall>t' \<in> set (all_templates p). pt_id t' = pt_id t \<longrightarrow> t' = t) \<and>
     (\<forall>d' t'. recoverable cd (disk p) d' = Some t' \<longrightarrow> pt_id t' = pt_id t \<longrightarrow> d' = d)"

text \<open>
  Ids are unique over the pool and the templates handed out. Whatever metadata is in the
  directory of such a template is its own. What a restart would recover lies in its own
  directory, has not been handed out, and is the template the pool holds under that id.
\<close>

definition life_inv :: "'c codec \<Rightarrow> 'c pool \<Rightarrow> pooled_template list \<Rightarrow> bool" where
  "life_inv cd p lent \<longleftrightarrow>
     pool_wf p \<and> distinct (map pt_id (all_templates p @ lent)) \<and> poolable lent \<and>
     (\<forall>t \<in> set (all_templates p) \<union> set lent. json_faithful cd (disk p) t) \<and>
     (\<forall>d t. recoverable cd (disk p) d = Some t \<longrightarrow> recovery_sound cd p lent d t)"

abbreviation sys_inv :: "'c codec \<Rightarrow> 'c sys \<Rightarrow> bool" where
  "sys_inv cd s \<equiv> life_inv cd (s_pool s) (s_lent s)"

text \<open>
  An id is fresh when neither the pool, nor a template handed out, nor the disk uses it.
\<close>

definition fresh_id :: "'c codec \<Rightarrow> 'c sys \<Rightarrow> string \<Rightarrow> bool" where
  "fresh_id cd s i \<longleftrightarrow>
     i \<notin> pool_ids (s_pool s) \<and> i \<notin> pt_id ` set (s_lent s) \<and>
     (\<forall>kd. recoverable cd (disk (s_pool s)) (kd, i) = None)"

inductive sys_step :: "'c codec \<Rightarrow> 'c sys \<Rightarrow> 'c sys \<Rightarrow> bool" for cd where
  Add: "host_ok cd h \<Longrightarrow> fresh_id cd s (pt_id t) \<Longrightarrow> pt_snapshot_type t \<noteq> Continuation \<Longrightarrow>
    sys_step cd s (s\<lparr>s_pool := snd (add h t (s_pool s))\<rparr>)"
| Acquire: "host_ok cd h \<Longrightarrow> acquire h k (s_pool s) = (Inr r, p') \<Longrightarrow>
    sys_step cd s (s\<lparr>s_pool := p',
      s_lent := (case r of None \<Rightarrow> s_lent s | Some t \<Rightarrow> t # s_lent s)\<rparr>)"
| AcquireById: "host_ok cd h \<Longrightarrow> acquire_by_id h i (s_pool s) = (Inr r, p') \<Longrightarrow>
    sys_step cd s (s\<lparr>s_pool := p',
      s_lent := (case r of None \<Rightarrow> s_lent s | Some t \<Rightarrow> t # s_lent s)\<rparr>)"
| Release: "host_ok cd h \<Longrightarrow> t \<in> set (s_lent s) \<Longrightarrow>
    sys_step cd s (s\<lparr>s_pool := snd (release h t (s_pool s)), s_lent := remove1 t (s_lent s)\<rparr>)"
| PeekRestore: "sys_step cd s (s\<lparr>s_pool := snd (peek_latest_for_restore k (s_pool s))\<rparr>)"
| PeekRestoreById: "sys_step cd s (s\<lparr>s_pool := snd (peek_by_id_for_restore i (s_pool s))\<rparr>)"
| PeekRef: "sys_step cd s (s\<lparr>s_pool := snd (peek_with_ref k (s_pool s))\<rparr>)"
| PeekRefById: "sys_step cd s (s\<lparr>s_pool := snd (peek_by_id_with_ref i (s_pool s))\<rparr>)"
| EndRestore: "host_ok cd h \<Longrightarrow>
    sys_step cd s (s\<lparr>s_pool := snd (end_restore h i (s_pool s))\<rparr>)"
| Deref: "host_ok cd h \<Longrightarrow> sys_step cd s (s\<lparr>s_pool := snd (deref h i (s_pool s))\<rparr>)"
| RefTemplate: "sys_step cd s (s\<lparr>s_pool := ref_template i (s_pool s)\<rparr>)"
| RebuildRefs: "sys_step cd s (s\<lparr>s_pool := rebuild_active_refs ids js (s_pool s)\<rparr>)"
| BeginRefill: "sys_step cd s (s\<lparr>s_pool := begin_refill k (s_pool s)\<rparr>)"
| EndRefill: "sys_step cd s (s\<lparr>s_pool := end_refill k (s_pool s)\<rparr>)"
| Reclaim: "host_ok cd h \<Longrightarrow> sys_step cd s (s\<lparr>s_pool := reclaim_step r h (s_pool s)\<rparr>)"
| CleanupConsumed: "host_ok cd h \<Longrightarrow>
    sys_step cd s (s\<lparr>s_pool := cleanup_consumed h i (s_pool s)\<rparr>)"
| GcOrphaned: "host_ok cd h \<Longrightarrow>
    sys_step cd s (s\<lparr>s_pool := gc_orphaned_consumed h active (s_pool s)\<rparr>)"
| Restart: "host_ok cd h \<Longrightarrow> stat_ok h \<Longrightarrow>
    load_from_disk h dir em wm w mode rf (disk (s_pool s)) = Inr p' \<Longrightarrow>
    sys_step cd s (s\<lparr>s_pool := p'\<rparr>)"

inductive_cases sys_step_cases: "sys_step cd s s'"

section \<open>The invariant is preserved\<close>

declare split_paired_All [simp del]

lemma recoverable_mono:
  "disk_le dk' dk \<Longrightarrow> recoverable cd dk' d = Some t \<Longrightarrow> recoverable cd dk d = Some t"
  by (auto simp: recoverable_def bind_eq_Some_conv dest: disk_leD(2))

lemma distinct_map_mset: "mset xs = mset ys \<Longrightarrow> distinct (map f xs) \<longleftrightarrow> distinct (map f ys)"
  by (metis mset_map mset_eq_imp_distinct_iff)

lemma recovery_soundI:
  assumes "template_dir t = Some d" and "pt_id t \<notin> pt_id ` set lent"
    and "\<And>t'. t' \<in> set (all_templates p) \<Longrightarrow> pt_id t' = pt_id t \<Longrightarrow> t' = t"
    and "\<And>d' t'. recoverable cd (disk p) d' = Some t' \<Longrightarrow> pt_id t' = pt_id t \<Longrightarrow> d' = d"
  shows "recovery_sound cd p lent d t"
  using assms unfolding recovery_sound_def by blast

lemma recovery_soundD:
  assumes "recovery_sound cd p lent d t"
  shows "template_dir t = Some d" and "pt_id t \<notin> pt_id ` set lent"
    and "t' \<in> set (all_templates p) \<Longrightarrow> pt_id t' = pt_id t \<Longrightarrow> t' = t"
    and "recoverable cd (disk p) d' = Some t' \<Longrightarrow> pt_id t' = pt_id t \<Longrightarrow> d' = d"
  using assms unfolding recovery_sound_def by blast+

lemma life_invI:
  assumes "pool_wf p" and "distinct (map pt_id (all_templates p @ lent))" and "poolable lent"
    and "\<And>t. t \<in> set (all_templates p) \<union> set lent \<Longrightarrow> json_faithful cd (disk p) t"
    and "\<And>d t. recoverable cd (disk p) d = Some t \<Longrightarrow> recovery_sound cd p lent d t"
  shows "life_inv cd p lent"
  using assms unfolding life_inv_def by blast

lemma life_inv_faithful:
  "life_inv cd p lent \<Longrightarrow> t \<in> set (all_templates p) \<union> set lent \<Longrightarrow> json_faithful cd (disk p) t"
  "life_inv cd p lent \<Longrightarrow> poolable lent"
  unfolding life_inv_def by blast+

lemma life_inv_sound:
  "life_inv cd p lent \<Longrightarrow> recoverable cd (disk p) d = Some t \<Longrightarrow> recovery_sound cd p lent d t"
  unfolding life_inv_def by blast

lemma life_inv_json:
  "life_inv cd p lent \<Longrightarrow> t \<in> set (all_templates p) \<union> set lent \<Longrightarrow> template_dir t = Some d \<Longrightarrow>
   json_at (disk p) d = Some c \<Longrightarrow> from_json cd c = Some t"
  unfolding life_inv_def json_faithful_def by blast

lemma json_faithful_mono: "disk_le dk' dk \<Longrightarrow> json_faithful cd dk t \<Longrightarrow> json_faithful cd dk' t"
  by (auto simp: json_faithful_def dest: disk_leD(1))

text \<open>Steps that add nothing.\<close>

lemma life_inv_shrunk:
  assumes inv: "life_inv cd p lent" and wf: "pool_wf p'" and sh: "shrunk p p'"
  shows "life_inv cd p' lent"
proof -
  have le: "disk_le (disk p') (disk p)" using sh by (simp add: shrunk_def)
  have sub: "set (all_templates p') \<subseteq> set (all_templates p)" by (rule shrunk_set [OF sh])
  have "mset (all_templates p' @ lent) \<subseteq># mset (all_templates p @ lent)"
    using sh by (simp add: shrunk_def)
  then have "mset (map pt_id (all_templates p' @ lent)) \<subseteq># mset (map pt_id (all_templates p @ lent))"
    by (metis image_mset_subseteq_mono mset_map)
  then have "distinct (map pt_id (all_templates p' @ lent))"
    using inv distinct_sub_mset unfolding life_inv_def by blast
  moreover have "recovery_sound cd p' lent d t" if "recoverable cd (disk p') d = Some t" for d t
    using inv sub recoverable_mono [OF le] that
    unfolding life_inv_def recovery_sound_def by blast
  ultimately show ?thesis
    using inv wf sub json_faithful_mono [OF le] unfolding life_inv_def by blast
qed

text \<open>An exclusive acquisition.\<close>

lemma life_inv_took:
  assumes inv: "life_inv cd p lent" and took: "took p (Inr r) p'"
  shows "life_inv cd p' (case r of None \<Rightarrow> lent | Some t \<Rightarrow> t # lent)"
proof (cases r)
  case None
  with took life_inv_shrunk [OF inv, of p'] show ?thesis
    by (simp add: took_def shrunk_def)
next
  case (Some t)
  from took Some obtain d where m: "mset (all_templates p) = add_mset t (mset (all_templates p'))"
    and d: "template_dir t = Some d" "marker_on d (disk p')"
    and wf: "pool_wf p'" and le: "disk_le (disk p') (disk p)"
    by (auto simp: took_def)
  have set: "set (all_templates p) = insert t (set (all_templates p'))"
    using mset_eq_setD [of "all_templates p" "t # all_templates p'"] m by simp
  have dist: "distinct (map pt_id (all_templates p' @ t # lent))"
    using inv distinct_map_mset [of "all_templates p @ lent" "all_templates p' @ t # lent" pt_id] m
    by (simp add: life_inv_def)
  have nc: "pt_snapshot_type t \<noteq> Continuation" using d(1) by (auto simp: template_dir.simps)
  have "recovery_sound cd p' (t # lent) d' u" if u: "recoverable cd (disk p') d' = Some u" for d' u
  proof -
    from inv recoverable_mono [OF le u] have snd: "recovery_sound cd p lent d' u"
      unfolding life_inv_def by blast
    have "pt_id u \<noteq> pt_id t"
    proof
      assume "pt_id u = pt_id t"
      with snd set have "t = u" by (simp add: recovery_sound_def)
      with snd d(1) have "d' = d" by (simp add: recovery_sound_def)
      with u d(2) show False by (simp add: recoverable_def marker_not_offered)
    qed
    with snd set recoverable_mono [OF le] show ?thesis
      unfolding recovery_sound_def by (simp; blast)
  qed
  moreover have "\<forall>u \<in> set (all_templates p') \<union> set (t # lent). json_faithful cd (disk p') u"
    using inv set json_faithful_mono [OF le] by (auto simp: life_inv_def)
  ultimately show ?thesis
    using inv wf dist nc Some by (simp add: life_inv_def)
qed

text \<open>A template given back.\<close>

lemma unmark_json: "json_at (snd (fs_remove_marker h d dk)) d' = json_at dk d'"
  by (auto simp: json_at_def fs_remove_marker_def split: option.splits)

lemma unmark_recoverable:
  assumes "recoverable cd (snd (fs_remove_marker h d dk)) d' = Some u"
  shows "recoverable cd dk d' = Some u \<or>
    (d' = d \<and> (\<exists>c. json_at dk d = Some c \<and> from_json cd c = Some u))"
  using assms
  by (cases "d' = d")
    (auto simp: recoverable_def bind_eq_Some_conv offered_def json_at_def fs_remove_marker_def
      split: option.splits if_splits)

lemma life_inv_release:
  assumes inv: "life_inv cd p lent" and t: "t \<in> set lent"
  shows "life_inv cd (snd (release h t p)) (remove1 t lent)"
proof -
  let ?p = "snd (release h t p)" and ?l = "remove1 t lent"
  have dist: "distinct (map pt_id (all_templates p @ lent))" and wf: "pool_wf p"
    using inv by (simp_all add: life_inv_def)
  from inv t obtain kd where dir: "template_dir t = Some (kd, pt_id t)"
    using template_dir_Some [of t] by (auto simp: life_inv_def)
  have fresh: "pt_id t \<notin> pool_ids p" using dist t by (auto simp: pool_ids_def)
  note rel = release_run [OF wf dir fresh, of h]
  have set: "set (all_templates ?p) = insert t (set (all_templates p))"
    using mset_eq_setD [of "all_templates ?p" "t # all_templates p"] rel(3) by simp
  have "mset (all_templates ?p @ ?l) = mset (all_templates p @ lent)"
    using rel(3) t by simp
  from distinct_map_mset [OF this] dist have dist': "distinct (map pt_id (all_templates ?p @ ?l))"
    by blast
  have sub: "set ?l \<subseteq> set lent" by (rule set_remove1_subset)
  have notin: "pt_id t \<notin> pt_id ` set ?l"
    using dist' set by (simp only: map_append distinct_append set_map) blast
  have faithful: "json_faithful cd (disk ?p) u \<longleftrightarrow> json_faithful cd (disk p) u" for u
    by (simp add: json_faithful_def rel(5) unmark_json)
  have new: "recoverable cd (disk p) d = Some u \<or> (d = (kd, pt_id t) \<and> u = t)"
    if "recoverable cd (disk ?p) d = Some u" for d u
    using unmark_recoverable [of cd h "(kd, pt_id t)" "disk p" d u] that
      life_inv_json [OF inv _ dir] t by (auto simp: rel(5))
  note old = life_inv_sound [OF inv]
  have sound: "recovery_sound cd ?p ?l d u" if u: "recoverable cd (disk ?p) d = Some u" for d u
    using new [OF u]
  proof
    assume "recoverable cd (disk p) d = Some u"
    from old [OF this] have o: "recovery_sound cd p lent d u" .
    have ne: "pt_id u \<noteq> pt_id t" using recovery_soundD(2) [OF o] t by auto
    show ?thesis
    proof (rule recovery_soundI)
      show "d' = d" if "recoverable cd (disk ?p) d' = Some t'" "pt_id t' = pt_id u" for d' t'
        using new [OF that(1)] that(2) ne recovery_soundD(4) [OF o, of d' t'] by auto
      show "pt_id u \<notin> pt_id ` set ?l" 
        using recovery_soundD(2) [OF o] subsetD [OF image_mono [OF sub]] by metis
      show "t' = u" if "t' \<in> set (all_templates ?p)" "pt_id t' = pt_id u" for t'
        using that ne set recovery_soundD(3) [OF o] by auto
    qed (rule recovery_soundD(1) [OF o])
  next
    assume du: "d = (kd, pt_id t) \<and> u = t"
    show ?thesis
    proof (rule recovery_soundI)
      show "d' = d" if "recoverable cd (disk ?p) d' = Some t'" "pt_id t' = pt_id u" for d' t'
        using new [OF that(1)] that(2) du t recovery_soundD(2) [OF old, of d' t'] by auto
    qed (use du dir notin set fresh in \<open>auto simp: pool_ids_def image_iff\<close>)
  qed
  show ?thesis
  proof (rule life_invI)
    show "poolable ?l" using life_inv_faithful(2) [OF inv] sub by blast
    show "json_faithful cd (disk ?p) u" if "u \<in> set (all_templates ?p) \<union> set ?l" for u
      using that set subsetD [OF sub, of u] t faithful [of u] life_inv_faithful(1) [OF inv, of u]
      by auto
  qed (fact rel(2) dist' sound)+
qed

text \<open>A template added under a fresh id.\<close>

lemma save_json:
  "json_at (snd (template_save h t d dk)) d' =
     (if d' = d \<and> fst (template_save h t d dk) = None then Some (h_to_json h t) else json_at dk d')"
  by (auto simp: json_at_def template_save_def split: option.splits if_splits)

lemma save_recoverable:
  assumes "h_to_json h = to_json cd" and "from_json cd (to_json cd t) = Some t"
    and "recoverable cd (snd (template_save h t d dk)) d' = Some u"
  shows "recoverable cd dk d' = Some u \<or> (d' = d \<and> u = t)"
  using assms offered_save [of h t d dk d']
  by (auto simp: recoverable_def bind_eq_Some_conv)

lemma life_inv_added:
  assumes inv: "life_inv cd p lent" and dir: "template_dir t = Some d"
    and h: "h_to_json h = to_json cd" "from_json cd (to_json cd t) = Some t"
    and save: "template_save h t d (disk p) = (None, dk)"
    and fresh: "pt_id t \<notin> pool_ids p" "pt_id t \<notin> pt_id ` set lent"
      "\<And>d u. recoverable cd (disk p) d = Some u \<Longrightarrow> pt_id u \<noteq> pt_id t"
  shows "life_inv cd (p\<lparr>disk := dk, available := push_template t (available p), template_ready := w\<rparr>)
    lent" (is "life_inv cd ?p lent")
proof -
  have dk: "dk = snd (template_save h t d (disk p))" using save by simp
  have nc: "pt_snapshot_type t \<noteq> Continuation" using dir by (auto simp: template_dir.simps)
  have m: "mset (all_templates ?p) = add_mset t (mset (all_templates p))"
    by (simp add: all_templates_def)
  then have set: "set (all_templates ?p) = insert t (set (all_templates p))"
    using mset_eq_setD [of "all_templates ?p" "t # all_templates p"] by simp
  have "pool_wf (p\<lparr>disk := dk\<rparr>)"
    using inv by (simp add: life_inv_def pool_wf_disk dk pool_wf_disk_wf)
  from pool_wf_ready [OF pool_wf_push [OF this, of t]] fresh(1) nc
  have wf: "pool_wf ?p" by (simp add: pool_ids_def)
  have dist: "distinct (map pt_id (all_templates ?p @ lent))"
    using distinct_map_mset [of "all_templates ?p @ lent" "t # all_templates p @ lent" pt_id] m inv
      fresh(1, 2) by (auto simp: life_inv_def pool_ids_def)
  have faithful: "json_faithful cd dk u" if u: "u \<in> set (all_templates ?p) \<union> set lent" for u
  proof (cases "u = t")
    case True
    then show ?thesis
      using dir h save save_json [of h t d "disk p"] by (simp add: json_faithful_def)
  next
    case False
    with u set fresh(1, 2) have "pt_id u \<noteq> pt_id t" "json_faithful cd (disk p) u"
      using inv by (auto simp: pool_ids_def life_inv_def image_iff)
    moreover have "template_dir u \<noteq> Some d"
      using template_dir_id [OF dir] template_dir_id [of u d] \<open>pt_id u \<noteq> pt_id t\<close> by auto
    ultimately show ?thesis by (auto simp: json_faithful_def dk save_json)
  qed
  have new: "recoverable cd (disk p) d' = Some u \<or> (d' = d \<and> u = t)"
    if "recoverable cd (disk ?p) d' = Some u" for d' u
    using save_recoverable [OF h, of d "disk p" d' u] that by (simp add: dk)
  have "recovery_sound cd ?p lent d' u" if u: "recoverable cd (disk ?p) d' = Some u" for d' u
    using new [OF u]
  proof
    assume r: "recoverable cd (disk p) d' = Some u"
    note o = recovery_soundD [OF life_inv_sound [OF inv r]]
    show ?thesis
    proof (rule recovery_soundI)
      show "d'' = d'" if "recoverable cd (disk ?p) d'' = Some t'" "pt_id t' = pt_id u" for d'' t'
        using new [OF that(1)] that(2) fresh(3) [OF r] o(4) [of d'' t'] by auto
    qed (use o(1-3) fresh(3) [OF r] set in auto)
  next
    assume du: "d' = d \<and> u = t"
    show ?thesis
    proof (rule recovery_soundI)
      show "d'' = d'" if "recoverable cd (disk ?p) d'' = Some t'" "pt_id t' = pt_id u" for d'' t'
        using new [OF that(1)] that(2) du fresh(3) [of d'' t'] by auto
    qed (use du dir fresh(1, 2) set in \<open>auto simp: pool_ids_def image_iff\<close>)
  qed
  then show ?thesis
    using wf dist faithful life_inv_faithful(2) [OF inv] by (intro life_invI) auto
qed

lemma life_inv_add:
  assumes inv: "life_inv cd p lent" and h: "host_ok cd h" and nc: "pt_snapshot_type t \<noteq> Continuation"
    and codec: "from_json cd (to_json cd t) = Some t"
    and fresh: "pt_id t \<notin> pool_ids p" "pt_id t \<notin> pt_id ` set lent"
      "\<And>kd. recoverable cd (disk p) (kd, pt_id t) = None"
  shows "life_inv cd (snd (add h t p)) lent"
proof -
  have wf: "pool_wf p" using inv by (simp add: life_inv_def)
  have res: "residue_ok h" and to: "h_to_json h = to_json cd" using h by (simp_all add: host_ok_def)
  from template_dir_Some [OF nc] obtain kd where dir: "template_dir t = Some (kd, pt_id t)" by blast
  have red: "life_inv cd p' lent" if "reduced p p'" for p'
    using life_inv_shrunk [OF inv] that by (simp add: reduced_def)
  show ?thesis
  proof (rule add_spec [OF wf res fresh(1) dir])
    fix e p' assume "add h t p = (Inl e, p')" "reduced p p'"
    then show ?thesis using red by simp
  next
    fix p2 dk
    assume p2: "reduced p p2" and save: "template_save h t (kd, pt_id t) (disk p2) = (None, dk)"
      and eq: "add h t p = (Inr (), p2\<lparr>disk := dk, available := push_template t (available p2),
             template_ready := template_ready p2 + 1\<rparr>)"
    have le: "disk_le (disk p2) (disk p)" using p2 by (simp add: reduced_def shrunk_def)
    have ne: "pt_id u \<noteq> pt_id t" if u: "recoverable cd (disk p2) d = Some u" for d u
    proof -
      have "recovery_sound cd p lent d u"
        using life_inv_sound [OF inv recoverable_mono [OF le u]] .
      then have "d = (fst d, pt_id u)" using template_dir_id recovery_soundD(1) by (metis prod.collapse)
      then show ?thesis using recoverable_mono [OF le u] fresh(3) [of "fst d"] by auto
    qed
    have "pt_id t \<notin> pool_ids p2" using reduced_ids [OF p2] fresh(1) by auto
    from life_inv_added [OF red [OF p2] dir to codec save this fresh(2) ne]
    show ?thesis using eq by simp
  qed
qed

text \<open>A restart.\<close>

lemma map_filter_set: "t \<in> set (List.map_filter f ds) \<longleftrightarrow> (\<exists>d \<in> set ds. f d = Some t)"
  by (induction ds) (auto simp: map_filter_simps split: option.splits)

lemma distinct_map_filter_inj:
  assumes "distinct ds"
    and "\<And>d d' t t'. f d = Some t \<Longrightarrow> f d' = Some t' \<Longrightarrow> g t = g t' \<Longrightarrow> d = d'"
  shows "distinct (map g (List.map_filter f ds))"
  using assms(1)
proof (induction ds)
  case (Cons d ds)
  then show ?case
    using assms(2) by (auto simp: map_filter_simps map_filter_set split: option.splits) blast
qed (simp add: map_filter_simps)

lemma load_at_recoverable:
  assumes "host_ok cd h" and "stat_ok h" and "load_at h dk d = Some t"
  shows "recoverable cd dk d = Some t"
    and "\<And>c. json_at dk d = Some c \<Longrightarrow> from_json cd c = Some t"
  using load_at_offered [OF assms(3)] assms(1, 2)
  by (auto simp: recoverable_def host_ok_def stat_ok_def)

lemma life_inv_restart:
  assumes inv: "life_inv cd p lent" and h: "host_ok cd h" and st: "stat_ok h"
    and load: "load_from_disk h dir em wm w mode rf (disk p) = Inr p'"
  shows "life_inv cd p' lent"
proof -
  let ?dk = "disk p"
  let ?ts = "List.map_filter (load_at h ?dk) (load_dirs h ?dk)"
  note L = load_from_disk_run [OF load]
  have wf: "hm_wf ?dk" using inv by (simp add: life_inv_def pool_wf_disk_wf)
  have set: "set (all_templates p') = set ?ts" using mset_eq_setD [OF L(1)] .
  have rec: "\<exists>d. recoverable cd ?dk d = Some t \<and> recovery_sound cd p lent d t \<and>
      (\<forall>c. json_at ?dk d = Some c \<longrightarrow> from_json cd c = Some t)" if "t \<in> set (all_templates p')" for t
  proof -
    from that set obtain d where d: "load_at h ?dk d = Some t" by (auto simp: map_filter_set)
    show ?thesis
      using load_at_recoverable [OF h st d] life_inv_sound [OF inv load_at_recoverable(1) [OF h st d]]
      by blast
  qed
  have nc: "poolable (all_templates p')"
    using rec recovery_soundD(1) by (metis option.distinct(1) template_dir_None)
  have "distinct (map pt_id ?ts)"
    using load_at_recoverable(1) [OF h st] recovery_soundD(4) [OF life_inv_sound [OF inv]]
    by (intro distinct_map_filter_inj [OF distinct_load_dirs [OF wf]]) metis
  then have dist: "distinct (map pt_id (all_templates p'))" using distinct_map_mset [OF L(1)] by blast
  have notin: "pt_id t \<notin> pt_id ` set lent" if "t \<in> set (all_templates p')" for t
    using rec [OF that] recovery_soundD(2) by blast
  show ?thesis
  proof (rule life_invI)
    show "pool_wf p'" using L(2-7) nc dist wf by (simp add: pool_wf_def)
    show "distinct (map pt_id (all_templates p' @ lent))"
      using dist notin inv by (auto simp: life_inv_def)
    show "poolable lent" by (rule life_inv_faithful(2) [OF inv])
    show "json_faithful cd (disk p') t" if "t \<in> set (all_templates p') \<union> set lent" for t
    proof (cases "t \<in> set lent")
      case True
      then show ?thesis using life_inv_faithful(1) [OF inv, of t] L(4) by simp
    next
      case False
      with that rec obtain d where "template_dir t = Some d"
        "\<forall>c. json_at ?dk d = Some c \<longrightarrow> from_json cd c = Some t"
        using recovery_soundD(1) by blast
      then show ?thesis using L(4) by (simp add: json_faithful_def)
    qed
    fix d t assume "recoverable cd (disk p') d = Some t"
    then have r: "recoverable cd ?dk d = Some t" using L(4) by simp
    note o = recovery_soundD [OF life_inv_sound [OF inv r]]
    show "recovery_sound cd p' lent d t"
    proof (rule recovery_soundI)
      fix t' assume t': "t' \<in> set (all_templates p')" "pt_id t' = pt_id t"
      from rec [OF t'(1)] obtain d' where d': "recoverable cd ?dk d' = Some t'" by blast
      from o(4) [OF d' t'(2)] d' r show "t' = t" by simp
    qed (use o L(4) in auto)
  qed
qed

text \<open>The remaining operations.\<close>

lemma cleanup_consumed_shrunk:
  assumes "pool_wf p"
  shows "pool_wf (cleanup_consumed h i p)"
    and "residue_ok h \<Longrightarrow> shrunk p (cleanup_consumed h i p)"
  using assms
  by (auto simp: cleanup_consumed_def Let_def pool_wf_disk pool_wf_disk_wf shrunk_def disk_le_remove
      split: sum.splits bool.splits)

lemma gc_orphaned_entry_disk:
  "hm_wf dk \<Longrightarrow> hm_wf (gc_orphaned_entry h active d dk)"
  "residue_ok h \<Longrightarrow> disk_le (gc_orphaned_entry h active d dk) dk"
  by (simp_all add: gc_orphaned_entry_def disk_le_remove)

lemma gc_orphaned_fold:
  "hm_wf dk \<Longrightarrow> hm_wf (fold (gc_orphaned_entry h active) ds dk)"
  "residue_ok h \<Longrightarrow> disk_le (fold (gc_orphaned_entry h active) ds dk) dk"
proof -
  show "hm_wf dk \<Longrightarrow> hm_wf (fold (gc_orphaned_entry h active) ds dk)"
    by (induction ds arbitrary: dk) (simp_all add: gc_orphaned_entry_disk)
  show "residue_ok h \<Longrightarrow> disk_le (fold (gc_orphaned_entry h active) ds dk) dk"
  proof (induction ds arbitrary: dk)
    case (Cons d ds)
    then show ?case using disk_le_trans [OF Cons.IH gc_orphaned_entry_disk(2)] by simp
  qed simp
qed

lemma gc_orphaned_shrunk:
  assumes "pool_wf p"
  shows "pool_wf (gc_orphaned_consumed h active p)"
    and "residue_ok h \<Longrightarrow> shrunk p (gc_orphaned_consumed h active p)"
  using assms disk_le_trans [OF gc_orphaned_fold(2) gc_orphaned_fold(2)]
  by (simp_all add: gc_orphaned_consumed_def pool_wf_disk pool_wf_disk_wf gc_orphaned_fold shrunk_def)

lemma fold_cnt_inc:
  "cnt (fold cnt_inc is m) i = cnt m i + count (mset is) i"
  "cnt_wf m \<Longrightarrow> cnt_wf (fold cnt_inc is m)"
  by (induction "is" arbitrary: m) (simp_all add: cnt_wf_inc)

lemma same_store_shrunk:
  "all_templates p' = all_templates p \<Longrightarrow> disk p' = disk p \<Longrightarrow> shrunk p p'"
  by (simp add: shrunk_def)

lemma begin_restore_shrunk: "shrunk p (begin_restore i p)" "shrunk p (ref_template i p)"
  "shrunk p (begin_refill k p)" "shrunk p (end_refill k p)" "shrunk p (rebuild_active_refs ids js p)"
  by (simp_all add: same_store_shrunk begin_restore_def ref_template_def begin_refill_def
      end_refill_def rebuild_active_refs_def all_templates_def)

lemma rebuild_wf: "pool_wf p \<Longrightarrow> pool_wf (rebuild_active_refs ids js p)"
  by (simp add: rebuild_active_refs_def pool_wf_in_use fold_cnt_inc(2) del: fold_append)

lemma peek_wf_shrunk:
  assumes "pool_wf p"
  shows "pool_wf (snd (peek_latest_for_restore k p))" "shrunk p (snd (peek_latest_for_restore k p))"
    "pool_wf (snd (peek_by_id_for_restore i p))" "shrunk p (snd (peek_by_id_for_restore i p))"
    "pool_wf (snd (peek_with_ref k p))" "shrunk p (snd (peek_with_ref k p))"
    "pool_wf (snd (peek_by_id_with_ref i p))" "shrunk p (snd (peek_by_id_with_ref i p))"
  using assms
  by (simp_all add: peek_eqs begin_restore_wf ref_template_wf begin_restore_shrunk
      split: option.splits)

lemma life_inv_wf: "life_inv cd p lent \<Longrightarrow> pool_wf p"
  by (simp add: life_inv_def)

lemma sys_inv_shrunk:
  assumes "sys_inv cd s" and "pool_wf (s_pool s) \<Longrightarrow> pool_wf p' \<and> shrunk (s_pool s) p'"
  shows "sys_inv cd (s\<lparr>s_pool := p'\<rparr>)"
  using life_inv_shrunk [OF assms(1), of p'] assms(2) life_inv_wf [OF assms(1)] by simp

lemma sys_step_inv:
  assumes "sys_step cd s s'" and "sys_inv cd s" and "\<And>t. from_json cd (to_json cd t) = Some t"
  shows "sys_inv cd s'"
  using assms
proof (induction rule: sys_step.induct)
  case (Add h s t)
  then show ?case using life_inv_add [of cd "s_pool s"] by (simp add: fresh_id_def)
next
  case (Acquire h k s r p')
  then show ?case
    using acquire_took [of "s_pool s" h k] life_inv_took [of cd "s_pool s" "s_lent s" r p']
    by (simp add: life_inv_def)
next
  case (AcquireById h i s r p')
  then show ?case
    using acquire_by_id_took [of "s_pool s" h i] life_inv_took [of cd "s_pool s" "s_lent s" r p']
    by (simp add: life_inv_def)
next
  case (Release h t s)
  then show ?case using life_inv_release by simp
next
  case (Restart h dir em wm w mode rf s p')
  then show ?case using life_inv_restart by simp
qed (erule sys_inv_shrunk, simp add: host_ok_def peek_wf_shrunk end_restore_run deref_run
    begin_restore_shrunk ref_template_wf rebuild_wf begin_refill_wf end_refill_wf reclaim_wf
    reclaim_shrunk cleanup_consumed_shrunk gc_orphaned_shrunk)+

end
