(* ===== verification/Pool_Properties.thy ===== *)
theory Pool_Properties
  imports Pool_System
begin

text \<open>
  The properties of the template pool: crash safety of exclusive leases, survival of pinned
  templates, bounds, order of eviction, balance of the counters, durability, and three
  concrete runs on which the code falls short of its comments.
\<close>

section \<open>Concrete pools\<close>

definition demo_template :: "string \<Rightarrow> snapshot_type \<Rightarrow> nat \<Rightarrow> pooled_template" where
  "demo_template i kind secs =
     (pooled_template_new secs i (user_key ''k'') ''/s'' ''/p'' ''/k'' 1 64 ''v'' ''c'')
       \<lparr>pt_snapshot_type := kind\<rparr>"

lemma demo_template_sel [simp]:
  "pt_id (demo_template i kind secs) = i" "pt_key (demo_template i kind secs) = user_key ''k''"
  "pt_snapshot_type (demo_template i kind secs) = kind"
  "pt_created_at_secs (demo_template i kind secs) = secs"
  by (simp_all add: demo_template_def pooled_template_new_def)

definition demo_pool :: "lease_mode \<Rightarrow> nat \<Rightarrow> pooled_template pool" where
  "demo_pool mode watermark = pool_new ''/store'' 2 2 watermark mode True []"

definition demo_codec :: "pooled_template codec" where
  "demo_codec = \<lparr>to_json = (\<lambda>t. t), from_json = Some\<rparr>"

text \<open>A pool holding the templates \<open>ts\<close>, each in its directory.\<close>

definition stocked :: "lease_mode \<Rightarrow> nat \<Rightarrow> pooled_template list \<Rightarrow> pooled_template pool" where
  "stocked mode watermark ts =
     (demo_pool mode watermark)
       \<lparr>available := [(user_key ''k'', ts)],
        disk := map (\<lambda>t. (the (template_dir t), \<lparr>d_json = Some t, d_consumed = False\<rparr>)) ts\<rparr>"

lemma demo_host [simp]: "host_ok demo_codec ideal_host" "stat_ok ideal_host"
  by (simp_all add: host_ok_def stat_ok_def demo_codec_def ideal_host_def residue_ok_def)

lemma demo_codec_sel [simp]: "from_json demo_codec (to_json demo_codec t) = Some t"
  "to_json demo_codec t = t" "from_json demo_codec t = Some t"
  by (simp_all add: demo_codec_def)

lemmas demo_defs = demo_pool_def stocked_def pool_new_def template_dir.simps
  fresh_id_def pool_ids_def all_templates_def

section \<open>Exclusive leases\<close>

lemma life_inv_new: "life_inv cd (pool_new dir em wm w mode rf []) []"
  by (intro life_invI)
    (auto simp: pool_new_def pool_wf_def all_templates_def keyed_def recoverable_def offered_def)

lemma sys_reach_inv:
  assumes "(sys_step cd)\<^sup>*\<^sup>* s0 s" and "sys_inv cd s0" and "\<And>t. from_json cd (to_json cd t) = Some t"
  shows "sys_inv cd s"
  using assms(1, 2) by (induction rule: rtranclp_induct) (auto intro: sys_step_inv [OF _ _ assms(3)])



section \<open>Pinned templates survive\<close>

lemma stocked_wf:
  assumes "distinct (map pt_id ts)" and "poolable ts" and "\<forall>t \<in> set ts. pt_key t = user_key ''k''"
  shows "pool_wf (stocked mode w ts)"
proof -
  have "inj_on (\<lambda>t. the (template_dir t)) (set ts)"
  proof (rule inj_onI)
    fix s t assume "s \<in> set ts" "t \<in> set ts" "the (template_dir s) = the (template_dir t)"
    then show "s = t"
      using assms(1, 2) template_dir_Some [of s] template_dir_Some [of t]
      by (auto simp: distinct_map dest: inj_onD)
  qed
  with assms show ?thesis
    by (auto simp: pool_wf_def stocked_def demo_pool_def pool_new_def all_templates_def distinct_map
        keyed_def o_def)
qed



section \<open>Adding\<close>

lemma depth_filter:
  assumes "pool_wf p"
  shows "depth k p = length (filter (\<lambda>t. pt_key t = k) (all_templates p))"
proof -
  have "hm_wf av \<Longrightarrow> keyed av \<Longrightarrow>
    (case hm_get av k of None \<Rightarrow> 0 | Some q \<Rightarrow> length q) =
      length (filter (\<lambda>t. pt_key t = k) (templates_of av))" for av :: available_map
  proof (induction av)
    case (Cons kq av)
    obtain k' q where kq: "kq = (k', q)" by force
    have "filter (\<lambda>t. pt_key t = k) q = (if k' = k then q else [])"
      using Cons.prems kq by (auto simp: filter_empty_conv filter_id_conv)
    moreover have "k' = k \<Longrightarrow> filter (\<lambda>t. pt_key t = k) (templates_of av) = []"
      using Cons.prems kq by (fastforce simp: filter_empty_conv keyed_def image_iff)
    ultimately show ?case using Cons kq by auto
  qed simp
  then show ?thesis using assms by (simp add: depth_def all_templates_def pool_wf_def)
qed

lemma depth_mono:
  assumes "pool_wf p" and "reduced p p'"
  shows "depth k p' \<le> depth k p"
proof -
  have "filter_mset (\<lambda>t. pt_key t = k) (mset (all_templates p')) \<subseteq>#
      filter_mset (\<lambda>t. pt_key t = k) (mset (all_templates p))"
    using assms(2) by (simp add: reduced_def shrunk_def multiset_filter_mono)
  then have "mset (filter (\<lambda>t. pt_key t = k) (all_templates p')) \<subseteq>#
      mset (filter (\<lambda>t. pt_key t = k) (all_templates p))" by (simp only: mset_filter)
  from size_mset_mono [OF this, unfolded size_mset] show ?thesis
    using assms by (simp add: depth_filter reduced_wf)
qed

lemma latest_push:
  "latest (pt_key t) (p\<lparr>disk := dk, available := push_template t (available p), template_ready := w\<rparr>) = Some t"
  by (simp add: latest_def push_template_def)

lemma depth_push:
  "depth (pt_key t) (p\<lparr>disk := dk, available := push_template t (available p), template_ready := w\<rparr>) =
     depth (pt_key t) p + 1"
  by (simp add: depth_def push_template_def split: option.splits)

lemma total_push:
  "total_depth (p\<lparr>disk := dk, available := push_template t (available p), template_ready := w\<rparr>) =
     total_depth p + 1"
proof -
  have "size (mset (templates_of (push_template t (available p)))) = length (templates_of (available p)) + 1"
    by (simp only: mset_push) simp
  then show ?thesis unfolding size_mset total_depth_length all_templates_def by simp
qed

text \<open>
  C16: \<open>add\<close> keeps the pool within its limits and never panics. Adding a template under a fresh
  id keeps the pool well formed, never removes a pinned template, never takes the pool
  beyond the water level nor the key beyond its limit (or beyond what they already
  exceeded). If it succeeds, the template is the next one offered for its key; if it
  fails, no template was added.
\<close>

theorem add_within_limits:
  assumes wf: "pool_wf p" and h: "residue_ok h" and fresh: "pt_id t \<notin> pool_ids p"
    and nc: "pt_snapshot_type t \<noteq> Continuation"
    and mx: "kind_max_per_key p (pt_snapshot_type t) = Some mx"
    and add: "add h t p = (r, p')"
  shows "r \<noteq> Inl Unreachable \<and> pool_wf p' \<and>
    (\<forall>u \<in> set (all_templates p). pinned p (pt_id u) \<longrightarrow> u \<in> set (all_templates p')) \<and>
    total_depth p' \<le> max (total_depth p) (gc_watermark p) \<and>
    depth (pt_key t) p' \<le> max (depth (pt_key t) p) (max mx 1) \<and>
    (if r = Inr () then latest (pt_key t) p' = Some t
     else mset (all_templates p') \<subseteq># mset (all_templates p))"
proof -
  from template_dir_Some [OF nc] obtain kd where dir: "template_dir t = Some (kd, pt_id t)" by blast
  have total: "total_depth q \<le> total_depth p" if "reduced p q" for q
    using that by (metis reduced_def shrunk_def total_depth_length size_mset size_mset_mono)
  show ?thesis
  proof (rule add_spec [OF wf h fresh dir])
    fix e q assume "add h t p = (Inl e, q)" "e \<noteq> Unreachable" and q: "reduced p q"
    with add total [OF q] depth_mono [OF wf q, of "pt_key t"] show ?thesis
      by (auto simp: reduced_def keeps_pinned_def shrunk_def)
  next
    fix p2 dk
    assume p2: "reduced p p2" and save: "template_save h t (kd, pt_id t) (disk p2) = (None, dk)"
      and eq: "add h t p = (Inr (), p2\<lparr>disk := dk, available := push_template t (available p2),
             template_ready := template_ready p2 + 1\<rparr>)"
      and tot: "total_depth p2 < max (total_depth p) (gc_watermark p)"
      and dep: "\<And>mx. kind_max_per_key p (pt_snapshot_type t) = Some mx \<Longrightarrow>
        \<exists>p1. reduced p p1 \<and> depth (pt_key t) p2 < max (depth (pt_key t) p1) (max mx 1)"
    let ?p' = "p2\<lparr>disk := dk, available := push_template t (available p2),
        template_ready := template_ready p2 + 1\<rparr>"
    have "hm_wf dk" using save disk_wf(3) [OF pool_wf_disk_wf [OF reduced_wf [OF p2]]]
      by (metis snd_conv)
    then have wf': "pool_wf ?p'"
      using pool_wf_ready [OF pool_wf_push [OF pool_wf_disk [OF reduced_wf [OF p2]], of dk t]] nc
        reduced_ids [OF p2] fresh by (auto simp: pool_ids_def)
    have "mset (all_templates ?p') = mset (t # all_templates p2)" by (simp add: all_templates_def)
    from mset_eq_setD [OF this] have "set (all_templates p2) \<subseteq> set (all_templates ?p')" by auto
    moreover from dep [OF mx] obtain p1 where "reduced p p1"
      "depth (pt_key t) p2 < max (depth (pt_key t) p1) (max mx 1)" by blast
    moreover have "depth (pt_key t) p1 \<le> depth (pt_key t) p"
      using depth_mono [OF wf \<open>reduced p p1\<close>] .
    ultimately show ?thesis
      using wf' tot eq add p2
      by (auto simp: latest_push depth_push total_push reduced_def keeps_pinned_def)
  qed
qed

theorem add_within_limits_witness:
  "fst (add ideal_host (demo_template ''c'' Environment 9)
     (stocked Shared 2 [demo_template ''a'' Environment 5, demo_template ''b'' WarmFork 7])) = Inr () \<and>
   latest (user_key ''k'') (snd (add ideal_host (demo_template ''c'' Environment 9)
     (stocked Shared 2 [demo_template ''a'' Environment 5, demo_template ''b'' WarmFork 7]))) =
       Some (demo_template ''c'' Environment 9)"
proof -
  let ?p = "stocked Shared 2 [demo_template ''a'' Environment 5, demo_template ''b'' WarmFork 7]"
  let ?t = "demo_template ''c'' Environment 9"
  have wf: "pool_wf ?p" by (intro stocked_wf) auto
  obtain p' where p': "add ideal_host ?t ?p = (Inr (), p')"
    by (simp add: add_def add_water_level_def add_evictable.simps add_key_depth_def add_insert_def
        demo_defs fs_defs total_depth_def pool_retain_def push_template_def)
  have "pt_id ?t \<notin> pool_ids ?p" "pt_snapshot_type ?t \<noteq> Continuation"
    "kind_max_per_key ?p (pt_snapshot_type ?t) = Some 2"
    by (simp_all add: demo_defs)
  from add_within_limits [OF wf residue_ok_ideal this p'] p' show ?thesis by simp
qed

section \<open>Acquiring and releasing\<close>

text \<open>
  \<open>acquire\<close> never panics and loses nothing. If it hands out a template, that template was
  the last one added for the key, it has left the pool, and its directory carries the
  consumed marker. Otherwise the pool holds exactly the templates it held before, also
  when the marker could not be written.
\<close>

theorem acquire_exclusive:
  assumes wf: "pool_wf p" and acq: "acquire h k p = (r, p')"
  shows "pool_wf p' \<and>
    (case r of
       Inl e \<Rightarrow> False
     | Inr None \<Rightarrow> mset (all_templates p') = mset (all_templates p)
     | Inr (Some t) \<Rightarrow> latest k p = Some t \<and> pt_id t \<notin> pool_ids p' \<and>
         mset (all_templates p) = add_mset t (mset (all_templates p')) \<and>
         (\<exists>d. template_dir t = Some d \<and> marker_on d (disk p')))"
proof -
  have took: "took p r p'" using acquire_took [OF wf, of h k] acq by simp
  have "pt_id t \<notin> pool_ids p'" if "mset (all_templates p) = add_mset t (mset (all_templates p'))" for t
    using mset_all_sub_ids [OF wf, of t "available p'"] that
    by (simp add: all_templates_def pool_ids_def)
  with took acquire_latest [OF wf, of h k] acq show ?thesis
    by (auto simp: took_def split: sum.splits option.splits)
qed

theorem acquire_exclusive_witness:
  "\<exists>p'. acquire ideal_host (user_key ''k'')
      (stocked Exclusive 5 [demo_template ''a'' WarmFork 5, demo_template ''b'' WarmFork 7]) =
     (Inr (Some (demo_template ''b'' WarmFork 7)), p') \<and> ''b'' \<notin> pool_ids p'"
proof -
  let ?p = "stocked Exclusive 5 [demo_template ''a'' WarmFork 5, demo_template ''b'' WarmFork 7]"
  have wf: "pool_wf ?p" by (intro stocked_wf) auto
  obtain p' where p': "acquire ideal_host (user_key ''k'') ?p =
      (Inr (Some (demo_template ''b'' WarmFork 7)), p')"
    by (simp add: acquire_def consume_template_def fs_defs demo_defs)
  from acquire_exclusive [OF wf p'] p' show ?thesis by simp
qed

text \<open>
  giving a template back undoes its acquisition. The pool holds the same templates as
  before, the returned one is again the next offered for its key, and if the marker file
  could be removed a restart would find it again.
\<close>

theorem release_undoes_acquire:
  assumes inv: "life_inv cd p lent" and acq: "acquire h k p = (Inr (Some t), p1)"
    and rel: "release h' t p1 = (r, p2)"
  shows "r = Inr () \<and> pool_wf p2 \<and> mset (all_templates p2) = mset (all_templates p) \<and>
    latest (pt_key t) p2 = Some t \<and>
    (\<forall>d c. template_dir t = Some d \<longrightarrow> \<not> h_fault h' (RemoveMarker d) \<longrightarrow>
       json_at (disk p1) d = Some c \<longrightarrow> recoverable cd (disk p2) d = Some t)"
proof -
  have wf: "pool_wf p" using inv by (rule life_inv_wf)
  have took: "took p (Inr (Some t)) p1" using acquire_took [OF wf, of h k] acq by simp
  then obtain d where dir: "template_dir t = Some d" and wf1: "pool_wf p1"
    and m: "mset (all_templates p) = add_mset t (mset (all_templates p1))"
    by (auto simp: took_def)
  have fresh: "pt_id t \<notin> pool_ids p1"
    using mset_all_sub_ids [OF wf, of t "available p1"] m by (simp add: all_templates_def pool_ids_def)
  note R = release_run [OF wf1 dir fresh, of h', unfolded rel, simplified]
  have inv1: "life_inv cd p1 (t # lent)" using life_inv_took [OF inv took] by simp
  have "recoverable cd (disk p2) d = Some t"
    if "\<not> h_fault h' (RemoveMarker d)" and j: "json_at (disk p1) d = Some c" for c
  proof -
    have "from_json cd c = Some t" using life_inv_json [OF inv1 _ dir j] by simp
    moreover have "offered (snd (fs_remove_marker h' d (disk p1))) d = Some c"
      using that by (auto simp: offered_def fs_remove_marker_def json_at_def split: option.splits)
    ultimately show ?thesis by (simp add: R(5) recoverable_def)
  qed
  moreover have "latest (pt_key t) p2 = Some t"
    using rel dir by (auto simp: release_def latest_def push_template_def)
  ultimately show ?thesis using R(1-3) m dir by auto
qed

theorem release_undoes_acquire_witness:
  "\<exists>p1 p2. acquire ideal_host (user_key ''k'') (stocked Exclusive 5 [demo_template ''b'' WarmFork 7]) =
     (Inr (Some (demo_template ''b'' WarmFork 7)), p1) \<and>
     release ideal_host (demo_template ''b'' WarmFork 7) p1 = (Inr (), p2) \<and>
     recoverable demo_codec (disk p2) (WarmforkDir, ''b'') = Some (demo_template ''b'' WarmFork 7)"
proof -
  let ?t = "demo_template ''b'' WarmFork 7"
  let ?p = "stocked Exclusive 5 [?t]"
  have "pool_wf ?p" by (intro stocked_wf) auto
  then have inv: "life_inv demo_codec ?p []"
    by (intro life_invI) (auto simp: demo_defs json_faithful_def recovery_sound_def recoverable_def
        offered_def json_at_def split: if_splits)
  obtain p1 where p1: "acquire ideal_host (user_key ''k'') ?p = (Inr (Some ?t), p1)"
    and j: "json_at (disk p1) (WarmforkDir, ''b'') = Some ?t"
    by (simp add: acquire_def consume_template_def fs_defs demo_defs json_at_def)
  obtain r p2 where p2: "release ideal_host ?t p1 = (r, p2)" by force
  have "template_dir ?t = Some (WarmforkDir, ''b'')" by (simp add: template_dir.simps)
  with release_undoes_acquire [OF inv p1 p2] p1 p2 j show ?thesis by auto
qed

section \<open>Garbage collection\<close>

text \<open>
  C24: the collector brings the pool down to the water level, or removes every template it
  may remove. It deletes exactly as many templates as the pool exceeds the level by, or all
  eligible ones if there are fewer; the deleted ones are the oldest of the eligible ones
  whose directory can be deleted. It never panics.
\<close>

theorem gc_to_watermark:
  assumes wf: "pool_wf p" and ok: "\<And>t. t \<in> set (all_templates p) \<Longrightarrow> removable h t"
    and gc: "gc_if_needed h p = (r, p')"
  shows "r = Inr () \<and>
    total_depth p' = total_depth p -
      min (total_depth p - gc_watermark p) (length (filter (gc_eligible p) (all_templates p))) \<and>
    (\<forall>x \<in> set (all_templates p) - set (all_templates p'). gc_eligible p x \<and>
      (\<forall>y \<in> set (all_templates p'). gc_eligible p y \<longrightarrow> pt_created_at_secs x \<le> pt_created_at_secs y)) \<and>
    (\<forall>y \<in> set (all_templates p'). y \<in> set (all_templates p))"
proof -
  have sub: "set (all_templates p') \<subseteq> set (all_templates p)"
    using delete_all_templates [OF gc_victims_poolable [OF wf], of h p] gc gc_if_needed_run [OF wf, of h]
    by auto
  have "gc_eligible p x \<and> (\<forall>y \<in> set (all_templates p'). gc_eligible p y \<longrightarrow>
      pt_created_at_secs x \<le> pt_created_at_secs y)"
    if x: "x \<in> set (all_templates p)" "x \<notin> set (all_templates p')" for x
  proof (intro conjI ballI impI)
    fix y assume "y \<in> set (all_templates p')" "gc_eligible p y"
    then show "pt_created_at_secs x \<le> pt_created_at_secs y"
      using gc_oldest_first [OF wf x(1), of h y] x(2) gc ok sub by auto
  next
    from x gc gc_if_needed_run [OF wf, of h] delete_all_templates [OF gc_victims_poolable [OF wf], of h p]
    obtain v where v: "v \<in> set (gc_victims p)" "pt_id v = pt_id x" by auto
    with gc_victims_sub [of p] pool_wf_same_id [OF wf _ x(1)] show "gc_eligible p x" by auto
  qed
  with gc_total [OF wf ok] gc gc_if_needed_run [OF wf, of h] sub show ?thesis by auto
qed

theorem gc_to_watermark_witness:
  "\<exists>p'. gc_if_needed ideal_host (stocked Shared 1
      [demo_template ''a'' Environment 5, demo_template ''b'' WarmFork 7, demo_template ''c'' Environment 3]) =
     (Inr (), p') \<and> total_depth p' = 1"
proof -
  let ?p = "stocked Shared 1 [demo_template ''a'' Environment 5, demo_template ''b'' WarmFork 7,
      demo_template ''c'' Environment 3]"
  have wf: "pool_wf ?p" by (intro stocked_wf) auto
  have rem: "removable ideal_host t" if "t \<in> set (all_templates ?p)" for t
    by (rule pool_wf_dir [OF wf that]) (simp add: removable_def)
  obtain p' where p': "gc_if_needed ideal_host ?p = (Inr (), p')"
    using gc_if_needed_run [OF wf] by blast
  have "length (filter (gc_eligible ?p) (all_templates ?p)) = 3" "total_depth ?p = 3" "gc_watermark ?p = 1"
    by (simp_all add: gc_eligible_def demo_defs total_depth_def)
  with gc_to_watermark [OF wf rem p'] p' show ?thesis by auto
qed

section \<open>Counters and leases\<close>

primrec use_step :: "'c pool_host \<Rightarrow> string rc_event \<Rightarrow> 'c pool \<Rightarrow> 'c pool" where
  "use_step h (Inc i) p = ref_template i p"
| "use_step h (Dec i) p = snd (deref h i p)"

lemma use_step_eq: "use_step h = refcount.rc_step ref_template (\<lambda>i p. snd (deref h i p))"
proof (intro ext)
  fix e p show "use_step h e p = refcount.rc_step ref_template (\<lambda>i p. snd (deref h i p)) e p"
    by (cases e) (simp_all add: uses.rc_step.simps)
qed

text \<open>
  C21: the use counter of a template counts its users. Over any sequence of \<open>ref_template\<close> and
  \<open>deref\<close> calls in which no user releases more than it took, with the collections that the
  releases trigger, the counter is the initial value plus the references minus the
  releases, and the template is pinned by use exactly while the counter is positive.
\<close>

theorem in_use_count_balanced:
  assumes wf: "pool_wf p" and ok: "rc_ok (uses_of p i) i es"
  shows "int (uses_of (fold (use_step h) es p) i) = int (uses_of p i) + rc_delta i es \<and>
    (hm_contains (in_use_count (fold (use_step h) es p)) i \<longleftrightarrow> 0 < int (uses_of p i) + rc_delta i es)"
proof -
  have bal: "int (uses_of (fold (use_step h) es p) i) = int (uses_of p i) + rc_delta i es"
    using uses.run_balance [OF wf ok, of h] by (simp add: use_step_eq)
  have "pool_wf (fold (use_step h) es p)"
    using uses.run_inv [OF wf, of h es] by (simp add: use_step_eq)
  then have "cnt_wf (in_use_count (fold (use_step h) es p))" by (simp add: pool_wf_def)
  then have "hm_contains (in_use_count (fold (use_step h) es p)) i \<longleftrightarrow>
      0 < uses_of (fold (use_step h) es p) i"
    by (simp only: uses_of_def cnt_wf_contains)
  with bal show ?thesis by (metis of_nat_0_less_iff)
qed

theorem in_use_count_balanced_witness:
  "\<not> hm_contains (in_use_count (fold (use_step ideal_host) [Inc ''a'', Inc ''b'', Dec ''a'']
     (stocked Shared 5 [demo_template ''a'' WarmFork 7]))) ''a''"
proof -
  have wf: "pool_wf (stocked Shared 5 [demo_template ''a'' WarmFork 7])" by (intro stocked_wf) auto
  have u: "uses_of (stocked Shared 5 [demo_template ''a'' WarmFork 7]) ''a'' = 0"
    by (simp add: uses_of_def demo_defs)
  show ?thesis
    using in_use_count_balanced [OF wf, of "''a''" "[Inc ''a'', Inc ''b'', Dec ''a'']" ideal_host]
    by (simp add: u del: not_None_eq fold_simps)
qed


lemma acquire_for_restore_cases:
  assumes wf: "pool_wf p" and acq: "acquire_for_restore h k p = (Inr (Some t), p1)"
  obtains (env) "pt_snapshot_type t = Environment" "p1 = begin_restore (pt_id t) p"
      "t \<in> set (all_templates p)"
  | (shared) "pt_snapshot_type t = WarmFork" "pool_lease_mode p = Shared"
      "p1 = ref_template (pt_id t) p" "t \<in> set (all_templates p)"
  | (excl) "pt_snapshot_type t = WarmFork" "pool_lease_mode p = Exclusive"
      "took p (Inr (Some t)) p1"
proof -
  from acq obtain u where u: "latest k p = Some u" by (auto simp: acquire_for_restore_def split: option.splits)
  have "u \<in> set (all_templates p)" using latest_Some [OF u] .
  show ?thesis
  proof (cases "pt_snapshot_type u")
    case Environment
    then show ?thesis
      using acq u env latest_Some [OF u] by (auto simp: acquire_for_restore_def peek_eqs)
  next
    case WarmFork
    show ?thesis
    proof (cases "pool_lease_mode p")
      case Shared
      then show ?thesis
        using acq u WarmFork shared latest_Some [OF u] by (auto simp: acquire_for_restore_def peek_eqs)
    next
      case Exclusive
      then have a: "acquire h k p = (Inr (Some t), p1)"
        using acq u WarmFork by (simp add: acquire_for_restore_def)
      then have "t = u" using acquire_latest [OF wf, of h k t] u by simp
      with a Exclusive WarmFork excl acquire_took [OF wf, of h k] show ?thesis by simp
    qed
  next
    case Continuation
    then show ?thesis using acq u by (simp add: acquire_for_restore_def)
  qed
qed

text \<open>
  C31: a failed restore leaves no trace in the counters. For every kind of template and
  lease mode, taking a template for a restore and failing its lease returns every restore
  counter and every use counter to its value, and an exclusively taken template to the
  pool; nothing panics.
\<close>

theorem lease_fail_balanced:
  assumes wf: "pool_wf p" and acq: "acquire_for_restore h k p = (Inr (Some t), p1)"
    and lease: "template_lease_new p1 t = Inr l" and fail: "lease_fail h' l p1 = (r, p2)"
  shows "r = Inr () \<and> pool_wf p2 \<and> (\<forall>i. restores_of p2 i = restores_of p i) \<and>
    (\<forall>i. uses_of p2 i = uses_of p i) \<and>
    (pool_lease_mode p = Exclusive \<and> pt_snapshot_type t = WarmFork \<longrightarrow>
      mset (all_templates p2) = mset (all_templates p))"
  using wf acq
proof (cases rule: acquire_for_restore_cases)
  case env
  then have l: "l = \<lparr>tl_tmpl = Some t, tl_kind = SharedLease\<rparr>" using lease by (simp add: template_lease_new_def)
  note wf1 = begin_restore_wf [OF wf, of "pt_id t"]
  have "uses_of (begin_restore (pt_id t) p) i = uses_of p i" for i
    by (simp add: uses_of_def begin_restore_def)
  with end_restore_run [OF wf1, of h' "pt_id t"] fail l env show ?thesis
    by (auto simp: lease_fail_def restores_of_begin uses_of_def)
next
  case shared
  then have l: "l = \<lparr>tl_tmpl = Some t, tl_kind = SharedRef\<rparr>"
    using lease by (simp add: template_lease_new_def ref_template_def)
  note wf1 = ref_template_wf [OF wf, of "pt_id t"]
  have "restores_of (ref_template (pt_id t) p) i = restores_of p i" for i
    by (simp add: restores_of_def ref_template_def)
  with deref_run [OF wf1, of h' "pt_id t"] fail l shared show ?thesis
    by (auto simp: lease_fail_def uses_of_ref restores_of_def)
next
  case excl
  then have os: "only_store p p1" and wf1: "pool_wf p1"
    and m: "mset (all_templates p) = add_mset t (mset (all_templates p1))"
    by (simp_all add: took_def)
  then have l: "l = \<lparr>tl_tmpl = Some t, tl_kind = ExclusiveLease\<rparr>"
    using lease excl by (simp add: template_lease_new_def only_store_def)
  obtain d where dir: "template_dir t = Some d" using excl by (auto simp: took_def)
  have fresh: "pt_id t \<notin> pool_ids p1"
    using mset_all_sub_ids [OF wf, of t "available p1"] m by (simp add: all_templates_def pool_ids_def)
  note R = release_run [OF wf1 dir fresh, of h']
  have "only_store p p2" using only_store_trans [OF os R(4)] fail l by (simp add: lease_fail_def)
  with R(1-3) m fail l show ?thesis
    by (auto simp: lease_fail_def restores_of_def uses_of_def only_store_def)
qed

theorem lease_fail_balanced_witness:
  "\<exists>p1 l p2. acquire_for_restore ideal_host (user_key ''k'')
      (stocked Exclusive 5 [demo_template ''b'' WarmFork 7]) =
      (Inr (Some (demo_template ''b'' WarmFork 7)), p1) \<and>
     template_lease_new p1 (demo_template ''b'' WarmFork 7) = Inr l \<and>
     lease_fail ideal_host l p1 = (Inr (), p2) \<and>
     mset (all_templates p2) = {# demo_template ''b'' WarmFork 7 #}"
proof -
  let ?t = "demo_template ''b'' WarmFork 7"
  let ?p = "stocked Exclusive 5 [?t]"
  have wf: "pool_wf ?p" by (intro stocked_wf) auto
  obtain p1 where p1: "acquire_for_restore ideal_host (user_key ''k'') ?p = (Inr (Some ?t), p1)"
    by (simp add: acquire_for_restore_def latest_def acquire_def consume_template_def fs_defs demo_defs)
  obtain l where l: "template_lease_new p1 ?t = Inr l" by (simp add: template_lease_new_def)
  obtain r p2 where p2: "lease_fail ideal_host l p1 = (r, p2)" by force
  have "pool_lease_mode ?p = Exclusive" "mset (all_templates ?p) = {# ?t #}" by (simp_all add: demo_defs)
  with lease_fail_balanced [OF wf p1 l p2] p1 l p2 show ?thesis by auto
qed

section \<open>Restarts\<close>

definition no_fault :: "('d, 'k, 'c) host \<Rightarrow> bool" where
  "no_fault h \<longleftrightarrow> (\<forall>op. \<not> h_fault h op)"

lemma load_at_no_fault:
  assumes "no_fault h" and "h_from_json h = from_json cd"
  shows "load_at h dk d = recoverable cd dk d"
  using assms
  by (auto simp: load_at_def fs_try_exists_marker_def marker_on_def template_load_def no_fault_def
      recoverable_def offered_def split: option.splits)

lemma load_dirs_no_fault: "no_fault h \<Longrightarrow> set (load_dirs h dk) = fst ` set dk"
proof -
  assume "no_fault h"
  then have "set (load_dirs h dk) =
      {d \<in> fst ` set dk. fst d = EnvironmentDir} \<union> {d \<in> fst ` set dk. fst d = WarmforkDir}"
    by (simp add: load_dirs_def fs_read_dir_def no_fault_def takeWhile_eq_all_conv [THEN iffD2])
  also have "\<dots> = fst ` set dk" using kind_dir.exhaust by blast
  finally show ?thesis .
qed

lemma recoverable_dom: "recoverable cd dk d = Some t \<Longrightarrow> d \<in> fst ` set dk"
  by (metis (no_types, lifting) bind.bind_lzero map_of_eq_None_iff offered_def option.distinct(1)
      option.simps(4) recoverable_def)

lemma load_no_fault:
  assumes "no_fault h" and "h_from_json h = from_json cd"
    and "load_from_disk h dir em wm w mode rf dk = Inr p'"
  shows "set (all_templates p') = {t. \<exists>d. recoverable cd dk d = Some t}"
proof -
  have "t \<in> set (all_templates p') \<longleftrightarrow> (\<exists>d \<in> fst ` set dk. recoverable cd dk d = Some t)" for t
    using mset_eq_setD [OF load_from_disk_run(1) [OF assms(3)]]
    by (simp add: map_filter_set load_at_no_fault [OF assms(1, 2)] load_dirs_no_fault [OF assms(1)]
        del: bex_simps)
  then show ?thesis unfolding set_eq_iff mem_Collect_eq using recoverable_dom by metis
qed

text \<open>
  C25: a successful \<open>add\<close> is durable. If a template was added under a fresh id (into a
  directory without a stale marker) and the process restarts before it is handed out, the
  reloaded pool holds that template, with all its metadata.
\<close>

theorem add_survives_restart:
  assumes inv: "life_inv cd p lent" and h: "host_ok cd h"
    and codec: "from_json cd (to_json cd t) = Some t"
    and dir: "template_dir t = Some d" and clean: "\<not> marker_on d (disk p)"
    and fresh: "pt_id t \<notin> pool_ids p"
    and add: "add h t p = (Inr (), p1)"
    and h': "no_fault h'" "h_from_json h' = from_json cd"
    and load: "load_from_disk h' dir' em wm w mode rf (disk p1) = Inr p2"
  shows "t \<in> set (all_templates p2)"
proof -
  have wf: "pool_wf p" using inv by (rule life_inv_wf)
  have res: "residue_ok h" and to: "h_to_json h = to_json cd" using h by (simp_all add: host_ok_def)
  show ?thesis
  proof (rule add_spec [OF wf res fresh dir])
    fix e q assume "add h t p = (Inl e, q)" then show ?thesis using add by simp
  next
    fix q dk
    assume save: "template_save h t d (disk q) = (None, dk)"
      and eq: "add h t p = (Inr (), q\<lparr>disk := dk, available := push_template t (available q),
             template_ready := template_ready q + 1\<rparr>)" and red: "reduced p q"
    have "\<not> marker_on d (disk q)" using red clean unfolding reduced_def by blast
    then have "recoverable cd dk d = Some t"
      using save to codec
      by (auto simp: template_save_def recoverable_def offered_def marker_on_def
          split: option.splits if_splits)
    moreover have "disk p1 = dk" using add eq by auto
    ultimately show ?thesis using load_no_fault [OF h' load] by blast
  qed
qed

theorem add_survives_restart_witness:
  "\<exists>p1 p2. add ideal_host (demo_template ''a'' Environment 5) (demo_pool Shared 10) = (Inr (), p1) \<and>
     load_from_disk ideal_host ''/store'' 2 2 10 Shared True (disk p1) = Inr p2 \<and>
     demo_template ''a'' Environment 5 \<in> set (all_templates p2)"
proof -
  let ?t = "demo_template ''a'' Environment 5"
  have inv: "life_inv demo_codec (demo_pool Shared 10) []"
    unfolding demo_pool_def by (rule life_inv_new)
  obtain p1 where p1: "add ideal_host ?t (demo_pool Shared 10) = (Inr (), p1)"
    by (simp add: add_def add_water_level_def add_key_depth_def add_insert_def demo_defs fs_defs
        total_depth_def push_template_def)
  obtain p2 where p2: "load_from_disk ideal_host ''/store'' 2 2 10 Shared True (disk p1) = Inr p2"
    by (simp add: load_from_disk_def Let_def)
  have "template_dir ?t = Some (EnvironmentDir, ''a'')" "\<not> marker_on (EnvironmentDir, ''a'') (disk (demo_pool Shared 10))"
    "pt_id ?t \<notin> pool_ids (demo_pool Shared 10)"
    by (simp_all add: demo_defs marker_on_def)
  from add_survives_restart [OF inv demo_host(1) demo_codec_sel(1) this p1 _ _ p2]
  have "?t \<in> set (all_templates p2)"
    by (simp add: no_fault_def ideal_host_def demo_codec_def)
  with p1 p2 show ?thesis by blast
qed

section \<open>Consumed directories\<close>

lemma gc_orphaned_entry_other: "d \<noteq> d' \<Longrightarrow> hm_get (gc_orphaned_entry h active d' dk) d = hm_get dk d"
  by (simp add: gc_orphaned_entry_def)

lemma gc_orphaned_fold_other:
  "d \<notin> set ds \<Longrightarrow> hm_get (fold (gc_orphaned_entry h active) ds dk) d = hm_get dk d"
  by (induction ds arbitrary: dk) (auto simp: gc_orphaned_entry_other)

lemma gc_orphaned_entry_keep:
  "\<not> marker_on d dk \<or> snd d \<in> set active \<Longrightarrow> gc_orphaned_entry h active d dk = dk"
  by (auto simp: gc_orphaned_entry_def fs_try_exists_marker_def)

lemma gc_orphaned_fold_keep:
  "\<not> marker_on d dk \<or> snd d \<in> set active \<Longrightarrow>
   hm_get (fold (gc_orphaned_entry h active) ds dk) d = hm_get dk d"
proof (induction ds arbitrary: dk)
  case (Cons d' ds)
  have same: "hm_get (gc_orphaned_entry h active d' dk) d = hm_get dk d"
    using Cons.prems gc_orphaned_entry_keep [of d dk active h] gc_orphaned_entry_other [of d d' h active dk]
    by (cases "d = d'") auto
  then have "\<not> marker_on d (gc_orphaned_entry h active d' dk) \<or> snd d \<in> set active"
    using Cons.prems by (simp add: marker_on_def)
  from Cons.IH [OF this] same show ?case by simp
qed simp

lemma gc_orphaned_fold_gone:
  assumes "no_fault h" and "d \<in> set ds" and "marker_on d dk" and "snd d \<notin> set active"
  shows "hm_get (fold (gc_orphaned_entry h active) ds dk) d = None"
proof -
  have stay: "hm_get (fold (gc_orphaned_entry h active) es dk') d = None"
    if "hm_get dk' d = None" for es dk'
    using gc_orphaned_fold_keep [of d dk' active h es] that by (simp add: marker_on_def)
  from split_list_first [OF assms(2)] obtain as bs where ds: "ds = as @ d # bs" "d \<notin> set as" by blast
  let ?dk = "fold (gc_orphaned_entry h active) as dk"
  have g: "hm_get ?dk d = hm_get dk d" by (rule gc_orphaned_fold_other [OF ds(2)])
  then have "marker_on d ?dk" using assms(3) by (simp add: marker_on_def)
  then have "hm_get (gc_orphaned_entry h active d ?dk) d = None"
    using assms(1, 4)
    by (auto simp: gc_orphaned_entry_def fs_try_exists_marker_def no_fault_def fs_remove_dir_all_def
        marker_on_def split: option.splits)
  from stay [OF this, of bs] show ?thesis by (simp add: ds)
qed

text \<open>
  C30: the cleanup after recovery deletes orphans only. Whatever faults occur, it changes no
  directory that lacks the consumed marker or belongs to a recovered sandbox, so no
  available template and no running sandbox loses its snapshot; without faults it deletes
  every consumed directory that no recovered sandbox claims.
\<close>

theorem gc_orphaned_consumed_exact:
  "(\<not> marker_on d (disk p) \<or> snd d \<in> set active \<longrightarrow>
      hm_get (disk (gc_orphaned_consumed h active p)) d = hm_get (disk p) d) \<and>
   (no_fault h \<and> marker_on d (disk p) \<and> snd d \<notin> set active \<longrightarrow>
      hm_get (disk (gc_orphaned_consumed h active p)) d = None) \<and>
   all_templates (gc_orphaned_consumed h active p) = all_templates p"
proof (intro conjI impI)
  let ?pass = "\<lambda>kd dk. fold (gc_orphaned_entry h active) (fs_read_dir h kd (\<lambda>d. fst d = kd) dk) dk"
  have dk: "disk (gc_orphaned_consumed h active p) = ?pass WarmforkDir (?pass EnvironmentDir (disk p))"
    by (simp add: gc_orphaned_consumed_def)
  show "hm_get (disk (gc_orphaned_consumed h active p)) d = hm_get (disk p) d"
    if "\<not> marker_on d (disk p) \<or> snd d \<in> set active"
    using gc_orphaned_fold_keep [OF that] gc_orphaned_fold_keep [of d "?pass EnvironmentDir (disk p)"] that
    by (simp add: dk marker_on_def)
  show "hm_get (disk (gc_orphaned_consumed h active p)) d = None"
    if a: "no_fault h \<and> marker_on d (disk p) \<and> snd d \<notin> set active"
  proof (cases "fst d")
    case EnvironmentDir
    have "d \<in> set (fs_read_dir h EnvironmentDir (\<lambda>d. fst d = EnvironmentDir) (disk p))"
      using a EnvironmentDir
      by (auto simp: fs_read_dir_def no_fault_def takeWhile_eq_all_conv [THEN iffD2] marker_on_def
          split: option.splits dest: map_of_SomeD intro: rev_image_eqI)
    then have "hm_get (?pass EnvironmentDir (disk p)) d = None" using gc_orphaned_fold_gone a by blast
    then show ?thesis
      using gc_orphaned_fold_keep [of d "?pass EnvironmentDir (disk p)" active h]
      by (simp add: dk marker_on_def)
  next
    case WarmforkDir
    then have "d \<notin> set (fs_read_dir h EnvironmentDir (\<lambda>d. fst d = EnvironmentDir) (disk p))"
      by (auto simp: fs_read_dir_def dest: set_takeWhileD)
    then have g: "hm_get (?pass EnvironmentDir (disk p)) d = hm_get (disk p) d"
      by (rule gc_orphaned_fold_other)
    then have m: "marker_on d (?pass EnvironmentDir (disk p))" using a by (simp add: marker_on_def)
    then have "d \<in> set (fs_read_dir h WarmforkDir (\<lambda>d. fst d = WarmforkDir) (?pass EnvironmentDir (disk p)))"
      using a WarmforkDir
      by (auto simp: fs_read_dir_def no_fault_def takeWhile_eq_all_conv [THEN iffD2] marker_on_def
          split: option.splits dest: map_of_SomeD intro: rev_image_eqI)
    then show ?thesis using gc_orphaned_fold_gone a m unfolding dk by blast
  qed
  show "all_templates (gc_orphaned_consumed h active p) = all_templates p"
    by (simp add: gc_orphaned_consumed_def)
qed

theorem gc_orphaned_consumed_exact_witness:
  "let p = (demo_pool Exclusive 5)\<lparr>disk :=
       [((WarmforkDir, ''a''), \<lparr>d_json = None, d_consumed = True\<rparr>),
        ((WarmforkDir, ''b''), \<lparr>d_json = None, d_consumed = True\<rparr>)]\<rparr>;
       p' = gc_orphaned_consumed ideal_host [''b''] p
   in hm_get (disk p') (WarmforkDir, ''a'') = None \<and>
      hm_get (disk p') (WarmforkDir, ''b'') = Some \<lparr>d_json = None, d_consumed = True\<rparr>"
  using gc_orphaned_consumed_exact [of "(WarmforkDir, ''a'')" _ "[''b'']" ideal_host]
    gc_orphaned_consumed_exact [of "(WarmforkDir, ''b'')" _ "[''b'']" ideal_host]
  by (simp add: Let_def marker_on_def no_fault_def)

section \<open>Waiting\<close>



section \<open>Where the code falls short of its comments\<close>

text \<open>
  \<open>load_from_disk\<close> reads a marker it cannot stat as absent: a template that was handed out
  exclusively is offered again after a restart.
\<close>

lemma load_unreadable_marker_reoffers:
  "\<exists>(h :: pooled_template pool_host) dk p. residue_ok h \<and> marker_on (WarmforkDir, ''a'') dk \<and>
     load_from_disk h ''/store'' 2 2 5 Exclusive True dk = Inr p \<and>
     all_templates p = [demo_template ''a'' WarmFork 7]"
proof -
  let ?h = "ideal_host\<lparr>h_fault := (\<lambda>op. op = StatMarker (WarmforkDir, ''a''))\<rparr>
      :: pooled_template pool_host"
  let ?dk = "[((WarmforkDir, ''a''), \<lparr>d_json = Some (demo_template ''a'' WarmFork 7), d_consumed = True\<rparr>)]"
  have "residue_ok ?h" by (simp add: residue_ok_def)
  moreover have "marker_on (WarmforkDir, ''a'') ?dk" by (simp add: marker_on_def)
  moreover have "\<exists>p. load_from_disk ?h ''/store'' 2 2 5 Exclusive True ?dk = Inr p \<and>
      all_templates p = [demo_template ''a'' WarmFork 7]"
    by (simp add: load_from_disk_def Let_def fs_read_dir_def load_entry_def fs_try_exists_marker_def
        template_load_def push_template_def all_templates_def pool_new_def)
  ultimately show ?thesis by blast
qed

text \<open>
  \<open>evict_by_kind\<close> on warm forks in a pool with exclusive leases ignores the use counters: a
  template rebuilt as in use (by sandboxes started under the shared mode) is deleted.
\<close>

lemma evict_by_kind_ignores_pin:
  "\<exists>p'. pinned (ref_template ''a'' (stocked Exclusive 5 [demo_template ''a'' WarmFork 7])) ''a'' \<and>
     evict_by_kind ideal_host WarmFork 0
       (ref_template ''a'' (stocked Exclusive 5 [demo_template ''a'' WarmFork 7])) = (Inr 1, p') \<and>
     all_templates p' = [] \<and> disk p' = []"
  by (simp add: evict_by_kind_def evict_eligible.simps demo_defs ref_template_def fs_defs cnt_inc_def
      pool_retain_def pinned_def)

text \<open>
  When only the sync of the marker fails, \<open>acquire\<close> puts the template back but leaves the
  marker: the pool still offers the template, a restart does not.
\<close>

lemma marker_sync_failure_loses_template:
  "\<exists>h p' q. acquire h (user_key ''k'') (stocked Exclusive 5 [demo_template ''a'' WarmFork 7]) =
       (Inr None, p') \<and>
     all_templates p' = [demo_template ''a'' WarmFork 7] \<and>
     load_from_disk ideal_host ''/store'' 2 2 5 Exclusive True (disk p') = Inr q \<and>
     all_templates q = []"
proof -
  let ?h = "ideal_host\<lparr>h_fault := (\<lambda>op. op = SyncMarker (WarmforkDir, ''a''))\<rparr>"
  obtain p' where "acquire ?h (user_key ''k'') (stocked Exclusive 5 [demo_template ''a'' WarmFork 7]) =
       (Inr None, p')" "all_templates p' = [demo_template ''a'' WarmFork 7]"
    "disk p' = [((WarmforkDir, ''a''), \<lparr>d_json = Some (demo_template ''a'' WarmFork 7), d_consumed = True\<rparr>)]"
    by (simp add: acquire_def consume_template_def fs_defs demo_defs push_template_def)
  moreover have "\<exists>q. load_from_disk ideal_host ''/store'' 2 2 5 Exclusive True (disk p') = Inr q \<and>
      all_templates q = []"
    using calculation(3)
    by (simp add: load_from_disk_def Let_def fs_read_dir_def load_entry_def fs_try_exists_marker_def
        marker_on_def all_templates_def pool_new_def)
  ultimately show ?thesis by blast
qed

end
