(* ===== verification/Continuation_Store.thy ===== *)
theory Continuation_Store
  imports Store_Dir
begin

text \<open>
  The continuation store (\<^verbatim>\<open>vmm/sandbox/src/template/continuation.rs\<close>): one directory per
  workload identity, no state in memory. Empty pod directories hold nothing that any
  operation reads and are not represented.
\<close>

type_synonym 'c cont_disk = "(workload_identity, 'c) store_disk"
type_synonym 'c cont_host = "(workload_identity, string option, 'c) host"

record 'c cont_store =
  cs_store_dir :: string
  cs_disk :: "'c cont_disk"

datatype cont_error =
    NoWorkloadIdentity | CreateEntryFailed | SaveMetadataFailed | CreateStoreFailed
  | DeleteFailed | ReadStoreFailed | ReadPodEntryFailed | ReadGenerationFailed

record cont_lease =
  cl_tmpl :: "pooled_template option"

definition cont_new :: "string \<Rightarrow> 'c cont_disk \<Rightarrow> 'c cont_store" where
  "cont_new base_dir dk = \<lparr>cs_store_dir = base_dir @ ''/continuation'', cs_disk = dk\<rparr>"

definition cont_load_from_disk ::
  "'c cont_host \<Rightarrow> string \<Rightarrow> 'c cont_disk \<Rightarrow> cont_error + 'c cont_store" where
  "cont_load_from_disk h base_dir dk =
     (if h_fault h CreateRoot then Inl CreateStoreFailed else Inr (cont_new base_dir dk))"

text \<open>The path of an entry; in the model of the disk an entry is addressed by its identity.\<close>

text \<open>\<open>Path::join\<close>: an absolute argument replaces the path.\<close>

definition path_join :: "string \<Rightarrow> string \<Rightarrow> string" where
  "path_join p n =
     (if n \<noteq> [] \<and> hd n = CHR ''/'' then n
      else if p = [] \<or> last p = CHR ''/'' then p @ n else p @ ''/'' @ n)"

definition entry_dir :: "'c cont_store \<Rightarrow> workload_identity \<Rightarrow> string" where
  "entry_dir s w = path_join (path_join (cs_store_dir s) (pod_uid w)) (''g'' @ show_nat (generation w))"

definition cont_save ::
  "'c cont_host \<Rightarrow> pooled_template \<Rightarrow> 'c cont_store \<Rightarrow> (cont_error + unit) \<times> 'c cont_store" where
  "cont_save h t s =
     (case pt_workload_identity t of
        None \<Rightarrow> (Inl NoWorkloadIdentity, s)
      | Some w \<Rightarrow>
          (case fs_create_dir_all h w (cs_disk s) of
             (Some _, dk) \<Rightarrow> (Inl CreateEntryFailed, s\<lparr>cs_disk := dk\<rparr>)
           | (None, dk) \<Rightarrow>
               (case template_save h t w dk of
                  (Some _, dk') \<Rightarrow> (Inl SaveMetadataFailed, s\<lparr>cs_disk := dk'\<rparr>)
                | (None, dk') \<Rightarrow> (Inr (), s\<lparr>cs_disk := dk'\<rparr>))))"

definition cont_acquire ::
  "'c cont_host \<Rightarrow> workload_identity \<Rightarrow> 'c cont_store \<Rightarrow> cont_lease option \<times> 'c cont_store" where
  "cont_acquire h w s =
     (if \<not> fs_exists_dir h w (cs_disk s) then (None, s)
      else if (case fs_try_exists_marker h w (cs_disk s) of Inl _ \<Rightarrow> False | Inr b \<Rightarrow> b) then (None, s)
      else (case template_load h w (cs_disk s) of
              None \<Rightarrow> (None, s)
            | Some t \<Rightarrow>
                (if pt_snapshot_type t \<noteq> Continuation then (None, s)
                 else if pt_workload_identity t \<noteq> Some w then (None, s)
                 else (case write_consumed_marker h w (cs_disk s) of
                         (Some _, dk) \<Rightarrow> (None, s\<lparr>cs_disk := dk\<rparr>)
                       | (None, dk) \<Rightarrow> (Some \<lparr>cl_tmpl = Some t\<rparr>, s\<lparr>cs_disk := dk\<rparr>)))))"

text \<open>The pod directories, and the entries of one pod, in the order of the disk.\<close>

definition pods_of :: "'c cont_disk \<Rightarrow> string list" where
  "pods_of dk = remdups (map (\<lambda>(w, _). pod_uid w) dk)"

definition entries_of :: "string \<Rightarrow> 'c cont_disk \<Rightarrow> workload_identity list" where
  "entries_of pod dk = filter (\<lambda>w. pod_uid w = pod) (map fst dk)"

definition cont_list :: "'c cont_host \<Rightarrow> 'c cont_store \<Rightarrow> pooled_template list" where
  "cont_list h s =
     (if h_fault h (ListDir None) then []
      else concat (map (\<lambda>pod.
        if h_fault h (ListDir (Some pod)) then []
        else concat (map (\<lambda>w.
          if (case fs_try_exists_marker h w (cs_disk s) of Inl _ \<Rightarrow> False | Inr b \<Rightarrow> b) then []
          else (case template_load h w (cs_disk s) of Some t \<Rightarrow> [t] | None \<Rightarrow> []))
          (takeWhile (\<lambda>w. \<not> h_fault h (NextEntry w)) (entries_of pod (cs_disk s)))))
        (takeWhile (\<lambda>pod. \<not> h_fault h (NextDir (Some pod))) (pods_of (cs_disk s)))))"

definition cont_delete ::
  "'c cont_host \<Rightarrow> workload_identity \<Rightarrow> 'c cont_store \<Rightarrow> (cont_error + bool) \<times> 'c cont_store" where
  "cont_delete h w s =
     (case fs_remove_dir_all h w (cs_disk s) of
        (None, dk) \<Rightarrow> (Inr True, s\<lparr>cs_disk := dk\<rparr>)
      | (Some NotFound, dk) \<Rightarrow> (Inr False, s\<lparr>cs_disk := dk\<rparr>)
      | (Some IoFault, dk) \<Rightarrow> (Inl DeleteFailed, s\<lparr>cs_disk := dk\<rparr>))"

text \<open>The inner loop of the collector, over the generations of one pod.\<close>

fun cont_gc_entries ::
  "'c cont_host \<Rightarrow> string list \<Rightarrow> workload_identity list \<Rightarrow> nat \<Rightarrow> 'c cont_disk
   \<Rightarrow> (cont_error + nat) \<times> 'c cont_disk" where
  "cont_gc_entries h active [] removed dk = (Inr removed, dk)"
| "cont_gc_entries h active (w # ws) removed dk =
     (if h_fault h (NextEntry w) then (Inl ReadGenerationFailed, dk)
      else if h_fault h (StatMarker w) \<or> \<not> marker_on w dk then cont_gc_entries h active ws removed dk
      else (case template_load h w dk of
              None \<Rightarrow> cont_gc_entries h active ws removed dk
            | Some t \<Rightarrow>
                (if pt_id t \<in> set active then cont_gc_entries h active ws removed dk
                 else (case fs_remove_dir_all h w dk of
                         (None, dk') \<Rightarrow> cont_gc_entries h active ws (removed + 1) dk'
                       | (Some _, dk') \<Rightarrow> cont_gc_entries h active ws removed dk'))))"

fun cont_gc_pods ::
  "'c cont_host \<Rightarrow> string list \<Rightarrow> string list \<Rightarrow> nat \<Rightarrow> 'c cont_disk
   \<Rightarrow> (cont_error + nat) \<times> 'c cont_disk" where
  "cont_gc_pods h active [] removed dk = (Inr removed, dk)"
| "cont_gc_pods h active (pod # pods) removed dk =
     (if h_fault h (NextDir (Some pod)) then (Inl ReadPodEntryFailed, dk)
      else if h_fault h (ListDir (Some pod)) then cont_gc_pods h active pods removed dk
      else (case cont_gc_entries h active (entries_of pod dk) removed dk of
              (Inl e, dk') \<Rightarrow> (Inl e, dk')
            | (Inr n, dk') \<Rightarrow> cont_gc_pods h active pods n dk'))"

definition cont_gc_orphaned_consumed ::
  "'c cont_host \<Rightarrow> string list \<Rightarrow> 'c cont_store \<Rightarrow> (cont_error + nat) \<times> 'c cont_store" where
  "cont_gc_orphaned_consumed h active s =
     (if h_fault h (ListDir None) then (Inl ReadStoreFailed, s)
      else (case cont_gc_pods h active (pods_of (cs_disk s)) 0 (cs_disk s) of
              (r, dk) \<Rightarrow> (r, s\<lparr>cs_disk := dk\<rparr>)))"

text \<open>The scan of \<open>delete_by_template_id\<close>: \<open>None\<close> when it goes on to the next entry.\<close>

fun delete_scan_entries ::
  "'c cont_host \<Rightarrow> string \<Rightarrow> workload_identity list \<Rightarrow> 'c cont_disk
   \<Rightarrow> (cont_error + bool) option \<times> 'c cont_disk" where
  "delete_scan_entries h i [] dk = (None, dk)"
| "delete_scan_entries h i (w # ws) dk =
     (if h_fault h (NextEntry w) then (Some (Inl ReadGenerationFailed), dk)
      else (case template_load h w dk of
              None \<Rightarrow> delete_scan_entries h i ws dk
            | Some t \<Rightarrow>
                (if pt_id t \<noteq> i then delete_scan_entries h i ws dk
                 else (case fs_remove_dir_all h w dk of
                         (None, dk') \<Rightarrow> (Some (Inr True), dk')
                       | (Some NotFound, dk') \<Rightarrow> (Some (Inr False), dk')
                       | (Some IoFault, dk') \<Rightarrow> (Some (Inl DeleteFailed), dk')))))"

fun delete_scan_pods ::
  "'c cont_host \<Rightarrow> string \<Rightarrow> string list \<Rightarrow> 'c cont_disk \<Rightarrow> (cont_error + bool) \<times> 'c cont_disk" where
  "delete_scan_pods h i [] dk = (Inr False, dk)"
| "delete_scan_pods h i (pod # pods) dk =
     (if h_fault h (NextDir (Some pod)) then (Inl ReadPodEntryFailed, dk)
      else if h_fault h (ListDir (Some pod)) then delete_scan_pods h i pods dk
      else (case delete_scan_entries h i (entries_of pod dk) dk of
              (Some r, dk') \<Rightarrow> (r, dk')
            | (None, dk') \<Rightarrow> delete_scan_pods h i pods dk'))"

definition delete_by_template_id ::
  "'c cont_host \<Rightarrow> string \<Rightarrow> 'c cont_store \<Rightarrow> (cont_error + bool) \<times> 'c cont_store" where
  "delete_by_template_id h i s =
     (if h_fault h (ListDir None) then (Inl ReadStoreFailed, s)
      else (case delete_scan_pods h i (pods_of (cs_disk s)) (cs_disk s) of
              (r, dk) \<Rightarrow> (r, s\<lparr>cs_disk := dk\<rparr>)))"

definition cont_lease_complete :: "cont_lease \<Rightarrow> 'c cont_store \<Rightarrow> 'c cont_store" where
  "cont_lease_complete l s = s"

definition cont_lease_fail :: "'c cont_host \<Rightarrow> cont_lease \<Rightarrow> 'c cont_store \<Rightarrow> 'c cont_store" where
  "cont_lease_fail h l s =
     (case cl_tmpl l of
        None \<Rightarrow> s
      | Some t \<Rightarrow>
          (case pt_workload_identity t of
             None \<Rightarrow> s
           | Some w \<Rightarrow> s\<lparr>cs_disk := snd (fs_remove_marker h w (cs_disk s))\<rparr>))"

section \<open>Exclusive acquisition\<close>

text \<open>The continuations on offer, read with the codec \<open>fj\<close>.\<close>

definition cont_offers :: "('c \<Rightarrow> pooled_template option) \<Rightarrow> 'c cont_store \<Rightarrow> pooled_template set" where
  "cont_offers fj s =
     {t. \<exists>w c. offered (cs_disk s) w = Some c \<and> fj c = Some t \<and>
        pt_snapshot_type t = Continuation \<and> pt_workload_identity t = Some w}"

definition cont_request_ok ::
  "('c \<Rightarrow> pooled_template option) \<Rightarrow> workload_identity \<times> 'c cont_host \<Rightarrow> bool" where
  "cont_request_ok fj r \<longleftrightarrow>
     h_from_json (snd r) = fj \<and> (\<forall>w. \<not> h_fault (snd r) (StatMarker w))"

definition cont_take ::
  "workload_identity \<times> 'c cont_host \<Rightarrow> 'c cont_store \<Rightarrow> pooled_template option \<times> 'c cont_store" where
  "cont_take r s = apfst (\<lambda>l. Option.bind l cl_tmpl) (cont_acquire (snd r) (fst r) s)"

lemma cont_acquire_some:
  assumes "cont_acquire h w s = (Some l, s')"
  obtains t where "l = \<lparr>cl_tmpl = Some t\<rparr>" "pt_snapshot_type t = Continuation"
    "pt_workload_identity t = Some w" "template_load h w (cs_disk s) = Some t"
    "write_consumed_marker h w (cs_disk s) = (None, cs_disk s')" "s' = s\<lparr>cs_disk := cs_disk s'\<rparr>"
    "\<not> h_fault h (StatMarker w) \<Longrightarrow> \<not> marker_on w (cs_disk s)"
  using assms
  by (auto simp: cont_acquire_def fs_try_exists_marker_def split: if_splits option.splits prod.splits)

lemma cont_acquire_none:
  assumes "cont_acquire h w s = (None, s')"
  shows "s' = s \<or> s' = s\<lparr>cs_disk := snd (write_consumed_marker h w (cs_disk s))\<rparr>"
  using assms by (auto simp: cont_acquire_def split: if_splits option.splits prod.splits)

lemma template_load_offered:
  "template_load h w dk = Some t \<Longrightarrow> \<not> marker_on w dk \<Longrightarrow>
   \<exists>c. offered dk w = Some c \<and> h_from_json h c = Some t"
  by (auto simp: template_load_def offered_def marker_on_def split: if_splits option.splits)

interpretation cont_excl: exclusive_store cont_take "cont_offers fj" "cont_request_ok fj" "\<lambda>_. True"
  for fj :: "'c \<Rightarrow> pooled_template option"
proof
  fix s s' :: "'c cont_store" and r :: "workload_identity \<times> 'c cont_host" and t
  assume ok: "cont_request_ok fj r"
  obtain w h where r: "r = (w, h)" by force
  have sub: "cont_offers fj (s\<lparr>cs_disk := snd (write_consumed_marker h w (cs_disk s))\<rparr>) \<subseteq> cont_offers fj s"
    by (auto simp: cont_offers_def dest: offered_mark)
  show "t \<in> cont_offers fj s \<and> cont_offers fj s' \<subseteq> cont_offers fj s - {t} \<and> True"
    if "cont_take r s = (Some t, s')"
  proof -
    from that r obtain l where l: "cont_acquire h w s = (Some l, s')" "cl_tmpl l = Some t"
      by (auto simp: cont_take_def bind_eq_Some_conv apfst_def map_prod_def split: prod.splits)
    from l(1) show ?thesis
    proof (rule cont_acquire_some)
      fix t' assume a: "l = \<lparr>cl_tmpl = Some t'\<rparr>" "pt_snapshot_type t' = Continuation"
        "pt_workload_identity t' = Some w" "template_load h w (cs_disk s) = Some t'"
        "write_consumed_marker h w (cs_disk s) = (None, cs_disk s')"
        "s' = s\<lparr>cs_disk := cs_disk s'\<rparr>" "\<not> h_fault h (StatMarker w) \<Longrightarrow> \<not> marker_on w (cs_disk s)"
      have t: "t' = t" using a(1) l(2) by simp
      have "t \<in> cont_offers fj s"
        using template_load_offered [OF a(4)] a(2, 3, 7) ok r t
        by (auto simp: cont_offers_def cont_request_ok_def)
      moreover have "offered (cs_disk s') w = None"
        using offered_marked [of h w "cs_disk s"] a(5) by simp
      then have "t \<notin> cont_offers fj s'" using a(3) t by (auto simp: cont_offers_def)
      moreover have "cont_offers fj s' \<subseteq> cont_offers fj s"
        using sub a(5) by (auto simp: cont_offers_def)
      ultimately show ?thesis by blast
    qed
  qed
  show "cont_offers fj s' \<subseteq> cont_offers fj s \<and> True" if "cont_take r s = (None, s')"
  proof (cases "cont_acquire h w s")
    case (Pair l s1)
    with that r have "s1 = s'" "Option.bind l cl_tmpl = None" by (auto simp: cont_take_def)
    then have "l = None"
      using Pair by (cases l) (auto elim: cont_acquire_some)
    with cont_acquire_none [of h w s s1] Pair sub \<open>s1 = s'\<close> show ?thesis by auto
  qed
qed

text \<open>
  C15: no continuation is handed out twice. Over any sequence of acquisitions of any
  identities, under any I/O faults other than an unreadable marker, the continuations
  handed out are pairwise distinct and each was on offer at the start. The store keeps no
  state in memory, so the sequence may span restarts.
\<close>

theorem continuations_handed_out_once:
  assumes "list_all (cont_request_ok fj) reqs" and "acquire_all cont_take reqs s = (ts, s')"
  shows "distinct ts \<and> set ts \<subseteq> cont_offers fj s \<and> cont_offers fj s' \<subseteq> cont_offers fj s - set ts"
  using cont_excl.acquire_all_distinct [OF _ assms] by simp

definition demo_continuation :: "string \<Rightarrow> nat \<Rightarrow> pooled_template" where
  "demo_continuation uid gen =
     (pooled_template_new 1 (uid @ ''-t'') (from_workload_identity uid gen) ''/s'' ''/p'' ''/k'' 1 64 ''v'' ''c'')
       \<lparr>pt_snapshot_type := Continuation,
        pt_workload_identity := Some \<lparr>pod_uid = uid, generation = gen\<rparr>\<rparr>"

lemma demo_continuation_sel [simp]:
  "pt_snapshot_type (demo_continuation uid gen) = Continuation"
  "pt_workload_identity (demo_continuation uid gen) = Some \<lparr>pod_uid = uid, generation = gen\<rparr>"
  "pt_id (demo_continuation uid gen) = uid @ ''-t''"
  by (simp_all add: demo_continuation_def pooled_template_new_def)

definition demo_cont_store :: "pooled_template cont_store" where
  "demo_cont_store = cont_new ''/base''
     [(\<lparr>pod_uid = ''u'', generation = 1\<rparr>, \<lparr>d_json = Some (demo_continuation ''u'' 1), d_consumed = False\<rparr>)]"

lemmas cont_run_defs = cont_take_def cont_acquire_def fs_exists_dir_def fs_try_exists_marker_def
  marker_on_def template_load_def demo_cont_store_def cont_new_def

theorem continuations_handed_out_once_witness:
  "fst (acquire_all cont_take [(\<lparr>pod_uid = ''u'', generation = 1\<rparr>, ideal_host),
     (\<lparr>pod_uid = ''u'', generation = 1\<rparr>, ideal_host)] demo_cont_store) = [demo_continuation ''u'' 1] \<and>
   cont_offers Some (snd (acquire_all cont_take [(\<lparr>pod_uid = ''u'', generation = 1\<rparr>, ideal_host),
     (\<lparr>pod_uid = ''u'', generation = 1\<rparr>, ideal_host)] demo_cont_store)) \<subseteq>
   cont_offers Some demo_cont_store - {demo_continuation ''u'' 1}"
proof -
  let ?rs = "[(\<lparr>pod_uid = ''u'', generation = 1\<rparr>, ideal_host),
     (\<lparr>pod_uid = ''u'', generation = 1\<rparr>, ideal_host)] ::
     (workload_identity \<times> pooled_template cont_host) list"
  have run: "fst (acquire_all cont_take ?rs demo_cont_store) = [demo_continuation ''u'' 1]"
    by (simp add: cont_run_defs fs_defs)
  obtain ts s' where eq: "acquire_all cont_take ?rs demo_cont_store = (ts, s')" by force
  have "list_all (cont_request_ok Some) ?rs" by (simp add: cont_request_ok_def ideal_host_def)
  from continuations_handed_out_once [OF this eq] run eq show ?thesis by simp
qed

section \<open>Round trips\<close>

text \<open>
  a saved continuation can be restored exactly once, and a failed restore can be
  retried. After saving a continuation under an identity without a consumed marker, an
  acquisition of that identity returns the very template that was saved; a second one is
  refused; and after the first lease has failed the next one returns it again.
\<close>

theorem cont_save_acquire_fail:
  assumes h: "\<And>op. \<not> h_fault h op" and codec: "h_from_json h (h_to_json h t) = Some t"
    and t: "pt_snapshot_type t = Continuation" "pt_workload_identity t = Some w"
    and clean: "\<not> marker_on w (cs_disk s)" and save: "cont_save h t s = (r, s1)"
  shows "r = Inr () \<and>
    (\<exists>s2. cont_acquire h w s1 = (Some \<lparr>cl_tmpl = Some t\<rparr>, s2) \<and>
       cont_acquire h w s2 = (None, s2) \<and>
       (let s3 = cont_lease_fail h \<lparr>cl_tmpl = Some t\<rparr> s2
        in \<exists>s4. cont_acquire h w s3 = (Some \<lparr>cl_tmpl = Some t\<rparr>, s4)))"
proof -
  have "r = Inr () \<and> (\<exists>e. hm_get (cs_disk s1) w = Some e \<and> d_json e = Some (h_to_json h t) \<and>
      \<not> d_consumed e)"
    using save t clean h
    by (cases "hm_get (cs_disk s) w")
      (auto simp: cont_save_def fs_create_dir_all_def template_save_def marker_on_def)
  then obtain e where e: "hm_get (cs_disk s1) w = Some e" "d_json e = Some (h_to_json h t)"
    "\<not> d_consumed e" and r: "r = Inr ()" by blast
  let ?s2 = "s1\<lparr>cs_disk := hm_insert w (e\<lparr>d_consumed := True\<rparr>) (cs_disk s1)\<rparr>"
  have acq: "cont_acquire h w s' = (Some \<lparr>cl_tmpl = Some t\<rparr>,
      s'\<lparr>cs_disk := hm_insert w (e'\<lparr>d_consumed := True\<rparr>) (cs_disk s')\<rparr>)"
    if "hm_get (cs_disk s') w = Some e'" "d_json e' = Some (h_to_json h t)" "\<not> d_consumed e'" for s' e'
    using that h codec t
    by (simp add: cont_acquire_def fs_exists_dir_def fs_try_exists_marker_def marker_on_def
        template_load_def write_consumed_marker_def)
  have "cont_acquire h w ?s2 = (None, ?s2)"
    using h by (simp add: cont_acquire_def fs_exists_dir_def fs_try_exists_marker_def marker_on_def)
  moreover have "hm_get (cs_disk (cont_lease_fail h \<lparr>cl_tmpl = Some t\<rparr> ?s2)) w =
      Some (e\<lparr>d_consumed := False\<rparr>)"
    using h t by (simp add: cont_lease_fail_def fs_remove_marker_def)
  from acq [OF this] e have "\<exists>s4. cont_acquire h w (cont_lease_fail h \<lparr>cl_tmpl = Some t\<rparr> ?s2) =
      (Some \<lparr>cl_tmpl = Some t\<rparr>, s4)" by simp
  ultimately show ?thesis using acq [OF e] r by (auto simp: Let_def)
qed

theorem cont_save_acquire_fail_witness:
  "\<exists>s1 s2. cont_save ideal_host (demo_continuation ''v'' 2) demo_cont_store = (Inr (), s1) \<and>
     cont_acquire ideal_host \<lparr>pod_uid = ''v'', generation = 2\<rparr> s1 =
       (Some \<lparr>cl_tmpl = Some (demo_continuation ''v'' 2)\<rparr>, s2)"
proof -
  let ?t = "demo_continuation ''v'' 2" and ?w = "\<lparr>pod_uid = ''v'', generation = 2\<rparr>"
  obtain r s1 where s1: "cont_save ideal_host ?t demo_cont_store = (r, s1)" by force
  have "\<not> marker_on ?w (cs_disk demo_cont_store)"
    by (simp add: marker_on_def demo_cont_store_def cont_new_def)
  from cont_save_acquire_fail [of ideal_host, OF _ _ _ _ this s1] s1 show ?thesis by auto
qed

section \<open>Garbage collection\<close>

lemma cont_gc_entries_keep:
  assumes "\<not> marker_on d dk \<or> (\<forall>t. template_load h d dk = Some t \<longrightarrow> pt_id t \<in> set active)"
  shows "hm_get (snd (cont_gc_entries h active ws n dk)) d = hm_get dk d"
  using assms
proof (induction ws arbitrary: n dk)
  case (Cons w ws)
  show ?case
  proof (cases "w = d")
    case True
    with Cons show ?thesis by (auto split: option.splits)
  next
    case False
    let ?dk = "snd (fs_remove_dir_all h w dk)"
    have g: "hm_get ?dk d = hm_get dk d" using False by simp
    then have "\<not> marker_on d ?dk \<or> (\<forall>t. template_load h d ?dk = Some t \<longrightarrow> pt_id t \<in> set active)"
      using Cons.prems by (simp add: marker_on_def template_load_def)
    from Cons.IH [OF this] Cons.IH [OF Cons.prems] g show ?thesis
      by (auto split: option.splits prod.splits)
  qed
qed simp

lemma cont_gc_pods_keep:
  assumes "\<not> marker_on d dk \<or> (\<forall>t. template_load h d dk = Some t \<longrightarrow> pt_id t \<in> set active)"
  shows "hm_get (snd (cont_gc_pods h active pods n dk)) d = hm_get dk d"
  using assms
proof (induction pods arbitrary: n dk)
  case (Cons pod pods)
  obtain r dk' where r: "cont_gc_entries h active (entries_of pod dk) n dk = (r, dk')" by force
  have g: "hm_get dk' d = hm_get dk d"
    using cont_gc_entries_keep [OF Cons.prems, of "entries_of pod dk" n] r by simp
  then have "\<not> marker_on d dk' \<or> (\<forall>t. template_load h d dk' = Some t \<longrightarrow> pt_id t \<in> set active)"
    using Cons.prems by (simp add: marker_on_def template_load_def)
  from Cons.IH [OF this] Cons.IH [OF Cons.prems] g r show ?case by (auto split: sum.splits)
qed simp

text \<open>
  C29: the collector of the continuation store never touches an entry that is still on offer,
  nor one whose template a live sandbox uses, whatever I/O faults occur and also when it
  stops half-way with an error.
\<close>

theorem cont_gc_keeps_live:
  assumes "\<not> marker_on w (cs_disk s) \<or>
      (\<forall>t. template_load h w (cs_disk s) = Some t \<longrightarrow> pt_id t \<in> set active)"
  shows "hm_get (cs_disk (snd (cont_gc_orphaned_consumed h active s))) w = hm_get (cs_disk s) w"
  using cont_gc_pods_keep [OF assms, of "pods_of (cs_disk s)" 0]
  by (auto simp: cont_gc_orphaned_consumed_def split: prod.splits)

theorem cont_gc_keeps_live_witness:
  "hm_get (cs_disk (snd (cont_gc_orphaned_consumed ideal_host [] demo_cont_store)))
     \<lparr>pod_uid = ''u'', generation = 1\<rparr> =
   Some \<lparr>d_json = Some (demo_continuation ''u'' 1), d_consumed = False\<rparr>"
  using cont_gc_keeps_live [of "\<lparr>pod_uid = ''u'', generation = 1\<rparr>" demo_cont_store ideal_host "[]"]
  by (simp add: demo_cont_store_def cont_new_def marker_on_def)

section \<open>Addresses\<close>

text \<open>A pod uid without a slash keeps the entry inside the store.\<close>

definition store_prefix :: "'c cont_store \<Rightarrow> string" where
  "store_prefix s =
     (if cs_store_dir s = [] \<or> last (cs_store_dir s) = CHR ''/'' then cs_store_dir s else cs_store_dir s @ ''/'')"

lemma entry_dir_inside:
  assumes "CHR ''/'' \<notin> set (pod_uid w)"
  shows "entry_dir s w =
    store_prefix s @ (if pod_uid w = [] then [] else pod_uid w @ ''/'') @ CHR ''g'' # show_nat (generation w)"
proof -
  have "pod_uid w \<noteq> [] \<Longrightarrow> hd (pod_uid w) \<noteq> CHR ''/'' \<and> last (pod_uid w) \<noteq> CHR ''/''"
    using assms by (metis hd_in_set last_in_set)
  then show ?thesis by (auto simp: entry_dir_def path_join_def store_prefix_def)
qed

text \<open>
  Nothing checks that a pod uid has no slash. An absolute one, or one that climbs with two dots, names a
  directory outside the store, where an entry is read, consumed and deleted all the same.
\<close>

lemma entry_dir_escapes:
  "entry_dir s \<lparr>pod_uid = ''/etc'', generation = 0\<rparr> = ''/etc/g0''"
  by (simp add: entry_dir_def path_join_def show_nat.simps digit_char_def char_of_def bit_0)

text \<open>
  two workload identities share a directory only if they are equal, as long as pod uids
  contain no slash. This is what allows the directory to stand for the identity.
\<close>

theorem entry_dir_injective:
  assumes "CHR ''/'' \<notin> set (pod_uid v)" and "CHR ''/'' \<notin> set (pod_uid w)"
  shows "entry_dir s v = entry_dir s w \<longleftrightarrow> v = w"
proof
  let ?g = "\<lambda>w. CHR ''g'' # show_nat (generation w)"
  assume "entry_dir s v = entry_dir s w"
  then have eq: "(if pod_uid v = [] then [] else pod_uid v @ ''/'') @ ?g v =
      (if pod_uid w = [] then [] else pod_uid w @ ''/'') @ ?g w"
    by (simp add: entry_dir_inside assms)
  have no: "CHR ''/'' \<notin> set (?g w)" for w by (simp add: not_digit_in_show is_digit_def)
  have slash: "CHR ''/'' \<in> set ((if pod_uid w = [] then [] else pod_uid w @ ''/'') @ ?g w) \<longleftrightarrow> pod_uid w \<noteq> []" for w
    using no [of w] by simp
  have "pod_uid v = [] \<longleftrightarrow> pod_uid w = []" using slash [of v] slash [of w] unfolding eq by blast
  then consider "pod_uid v = []" "pod_uid w = []" | "pod_uid v \<noteq> []" "pod_uid w \<noteq> []" by blast
  then have "pod_uid v = pod_uid w \<and> generation v = generation w"
  proof cases
    case 2
    then have "pod_uid v @ CHR ''/'' # ?g v = pod_uid w @ CHR ''/'' # ?g w" using eq by simp
    with append_sep_eq [OF assms] show ?thesis by simp
  qed (use eq in simp)
  then show "v = w" by (cases v; cases w) simp
qed simp

theorem entry_dir_injective_witness:
  "entry_dir demo_cont_store \<lparr>pod_uid = ''u1'', generation = 2\<rparr> \<noteq>
   entry_dir demo_cont_store \<lparr>pod_uid = ''u'', generation = 12\<rparr>"
  using entry_dir_injective [of "\<lparr>pod_uid = ''u1'', generation = 2\<rparr>" "\<lparr>pod_uid = ''u'', generation = 12\<rparr>"]
  by simp

section \<open>Where the code falls short of its comments\<close>

text \<open>
  \<open>delete_by_template_id\<close> is documented to delete a consumed entry, but does not look at the
  marker: it deletes an entry that is still on offer.
\<close>

lemma delete_by_template_id_deletes_unconsumed:
  "\<exists>s'. delete_by_template_id ideal_host ''u-t'' demo_cont_store = (Inr True, s') \<and> cs_disk s' = [] \<and>
     demo_continuation ''u'' 1 \<in> cont_offers Some demo_cont_store"
  by (auto simp: delete_by_template_id_def demo_cont_store_def cont_new_def pods_of_def entries_of_def
      template_load_def fs_remove_dir_all_def cont_offers_def offered_def)

text \<open>
  When only the sync of the marker fails, \<open>acquire\<close> reports that nothing was acquired but
  leaves the marker: the continuation can no longer be acquired, and the next collection
  deletes it although it was never restored.
\<close>

lemma cont_sync_failure_destroys_snapshot:
  "\<exists>h s1 s2. cont_acquire h \<lparr>pod_uid = ''u'', generation = 1\<rparr> demo_cont_store = (None, s1) \<and>
     cont_acquire ideal_host \<lparr>pod_uid = ''u'', generation = 1\<rparr> s1 = (None, s1) \<and>
     cont_gc_orphaned_consumed ideal_host [] s1 = (Inr 1, s2) \<and> cs_disk s2 = []"
proof -
  let ?h = "ideal_host\<lparr>h_fault := (\<lambda>op. op = SyncMarker \<lparr>pod_uid = ''u'', generation = 1\<rparr>)\<rparr>
     :: pooled_template cont_host"
  obtain s1 where s1: "cont_acquire ?h \<lparr>pod_uid = ''u'', generation = 1\<rparr> demo_cont_store = (None, s1)"
    "cs_disk s1 = [(\<lparr>pod_uid = ''u'', generation = 1\<rparr>,
       \<lparr>d_json = Some (demo_continuation ''u'' 1), d_consumed = True\<rparr>)]"
    by (simp add: cont_run_defs fs_defs)
  have "cont_acquire ideal_host \<lparr>pod_uid = ''u'', generation = 1\<rparr> s1 = (None, s1)"
    by (simp add: cont_run_defs fs_defs s1(2))
  moreover have "\<exists>s2. cont_gc_orphaned_consumed ideal_host [] s1 = (Inr 1, s2) \<and> cs_disk s2 = []"
    by (simp add: cont_gc_orphaned_consumed_def pods_of_def entries_of_def s1(2) marker_on_def
        template_load_def fs_remove_dir_all_def)
  ultimately show ?thesis using s1(1) by blast
qed

end
