(* ===== verification/Pool_Races.thy ===== *)
theory Pool_Races
  imports Pool_Properties Continuation_Store
begin

text \<open>
  Interleavings. Each method of the pool holds its mutexes only for short sections and does
  its file I/O between them. Here a step is one such section or one I/O call, and the
  sections of concurrent calls interleave freely. Exclusive acquisition stays exclusive;
  eviction, whose candidates are chosen in one section and deleted later, does not respect
  pins taken in between.
\<close>

section \<open>Steps\<close>

text \<open>
  The templates in the hands of running calls: taken off a queue with the marker still to be
  written, with a failed marker write and still to be put back, handed out, being released.
  \<open>doomed\<close> are the candidates of running evictions, \<open>deleted\<close> those whose directory is gone
  but which are still to be dropped from the queues.
\<close>

record 'c tasks =
  k_pool :: "'c pool"
  k_taken :: "pooled_template list"
  k_back :: "pooled_template list"
  k_lent :: "pooled_template list"
  k_unmarked :: "pooled_template list"
  k_doomed :: "pooled_template list"
  k_deleted :: "pooled_template list"

inductive task_step :: "'c tasks \<Rightarrow> 'c tasks \<Rightarrow> bool" where
  Pop: "hm_get (available (k_pool s)) k = Some q \<Longrightarrow> q \<noteq> [] \<Longrightarrow>
    task_step s (s\<lparr>k_pool := (k_pool s)\<lparr>available := hm_insert k (butlast q) (available (k_pool s))\<rparr>,
      k_taken := last q # k_taken s\<rparr>)"
| PopById: "remove_found i (available (k_pool s)) = Some (t, av) \<Longrightarrow>
    task_step s (s\<lparr>k_pool := (k_pool s)\<lparr>available := av\<rparr>, k_taken := t # k_taken s\<rparr>)"
| MarkDone: "t \<in> set (k_taken s) \<Longrightarrow> template_dir t = Some d \<Longrightarrow>
    write_consumed_marker (h :: 'c pool_host) d (disk (k_pool s)) = (None, dk) \<Longrightarrow>
    task_step s (s\<lparr>k_pool := (k_pool s)\<lparr>disk := dk\<rparr>, k_taken := remove1 t (k_taken s),
      k_lent := t # k_lent s\<rparr>)"
| MarkFailed: "t \<in> set (k_taken s) \<Longrightarrow> template_dir t = Some d \<Longrightarrow>
    write_consumed_marker (h :: 'c pool_host) d (disk (k_pool s)) = (Some e, dk) \<Longrightarrow>
    task_step s (s\<lparr>k_pool := (k_pool s)\<lparr>disk := dk\<rparr>, k_taken := remove1 t (k_taken s),
      k_back := t # k_back s\<rparr>)"
| PutBack: "t \<in> set (k_back s) \<Longrightarrow>
    task_step s (s\<lparr>k_pool := (k_pool s)\<lparr>available := push_template t (available (k_pool s))\<rparr>,
      k_back := remove1 t (k_back s)\<rparr>)"
| ReleaseUnmark: "t \<in> set (k_lent s) \<Longrightarrow> template_dir t = Some d \<Longrightarrow>
    task_step s (s\<lparr>k_pool := (k_pool s)\<lparr>disk := snd (fs_remove_marker (h :: 'c pool_host) d (disk (k_pool s)))\<rparr>,
      k_lent := remove1 t (k_lent s), k_unmarked := t # k_unmarked s\<rparr>)"
| ReleasePush: "t \<in> set (k_unmarked s) \<Longrightarrow>
    task_step s (s\<lparr>k_pool := (k_pool s)\<lparr>available := push_template t (available (k_pool s))\<rparr>,
      k_unmarked := remove1 t (k_unmarked s)\<rparr>)"
| PeekRestore: "task_step s (s\<lparr>k_pool := snd (peek_latest_for_restore k (k_pool s))\<rparr>)"
| PeekRef: "task_step s (s\<lparr>k_pool := snd (peek_with_ref k (k_pool s))\<rparr>)"
| CollectGc: "task_step s (s\<lparr>k_doomed := gc_victims (k_pool s) @ k_doomed s\<rparr>)"
| CollectEvict: "task_step s (s\<lparr>k_doomed := evict_victims (k_pool s) kind n @ k_doomed s\<rparr>)"
| DeleteDir: "t \<in> set (k_doomed s) \<Longrightarrow> template_dir t = Some d \<Longrightarrow>
    fs_remove_dir_all (h :: 'c pool_host) d (disk (k_pool s)) = (e, dk) \<Longrightarrow> e \<noteq> Some IoFault \<Longrightarrow>
    task_step s (s\<lparr>k_pool := (k_pool s)\<lparr>disk := dk\<rparr>, k_doomed := remove1 t (k_doomed s),
      k_deleted := t # k_deleted s\<rparr>)"
| Retain: "t \<in> set (k_deleted s) \<Longrightarrow>
    task_step s (s\<lparr>k_pool := pool_retain (pt_id t) (k_pool s), k_deleted := remove1 t (k_deleted s)\<rparr>)"

inductive_cases task_step_cases: "task_step s s'"

section \<open>Exclusive acquisition under interleaving\<close>

text \<open>Every template is in exactly one place.\<close>

definition placed :: "'c tasks \<Rightarrow> pooled_template list" where
  "placed s = all_templates (k_pool s) @ k_taken s @ k_back s @ k_lent s @ k_unmarked s"

lemma mset_placed_Pop:
  assumes "hm_get (available p) k = Some q" and "q \<noteq> []"
  shows "add_mset (last q) (mset (all_templates (p\<lparr>available := hm_insert k (butlast q) (available p)\<rparr>))) =
    mset (all_templates p)"
proof -
  have "mset q = add_mset (last q) (mset (butlast q))"
    using assms(2) by (metis append_butlast_last_id mset.simps union_mset_add_mset_right
        add.right_neutral mset_append)
  with mset_templates_insert [OF assms(1), of "butlast q"] show ?thesis
    by (simp add: all_templates_def)
qed

lemma all_templates_peek:
  "all_templates (snd (peek_latest_for_restore k p)) = all_templates p"
  "all_templates (snd (peek_with_ref k p)) = all_templates p"
  by (simp_all add: peek_eqs begin_restore_def ref_template_def split: option.splits)

lemma mset_all_push:
  "mset (all_templates (p\<lparr>available := push_template t (available p)\<rparr>)) = add_mset t (mset (all_templates p))"
  by (simp add: all_templates_def)

lemma task_step_placed: "task_step s s' \<Longrightarrow> mset (placed s') \<subseteq># mset (placed s)"
proof (induction rule: task_step.induct)
  case (Pop s k q)
  from mset_placed_Pop [OF this] show ?case
    by (simp add: placed_def)
next
  case (PopById i s t av)
  from remove_found_Some [OF this] show ?case by (simp add: placed_def all_templates_def)
next
  case (Retain t s)
  then show ?case by (simp add: placed_def all_templates_retain)
qed (simp_all add: placed_def all_templates_peek mset_all_push)

text \<open>
  C11: exclusive acquisition is exclusive under any interleaving of concurrent acquisitions,
  releases, peeks and evictions: the ids in the queues and in the hands of callers stay
  pairwise distinct, so no template is handed to two callers, or handed out while a queue
  still offers it.
\<close>

theorem acquire_exclusive_interleaved:
  assumes "task_step\<^sup>*\<^sup>* s s'" and "distinct (map pt_id (placed s))"
  shows "distinct (map pt_id (k_lent s')) \<and>
    (\<forall>t \<in> set (k_lent s'). pt_id t \<notin> pool_ids (k_pool s'))"
proof -
  from assms(1) have "mset (placed s') \<subseteq># mset (placed s)"
    by (induction rule: rtranclp_induct) (auto dest: task_step_placed intro: subset_mset.order_trans)
  then have "mset (map pt_id (placed s')) \<subseteq># mset (map pt_id (placed s))"
    by (metis image_mset_subseteq_mono mset_map)
  from distinct_sub_mset [OF this assms(2)] show ?thesis
    by (auto simp: placed_def pool_ids_def)
qed

definition idle_tasks :: "'c pool \<Rightarrow> 'c tasks" where
  "idle_tasks p = \<lparr>k_pool = p, k_taken = [], k_back = [], k_lent = [], k_unmarked = [],
     k_doomed = [], k_deleted = []\<rparr>"

theorem acquire_exclusive_interleaved_witness:
  "\<exists>s. task_step\<^sup>*\<^sup>* (idle_tasks (stocked Exclusive 5 [demo_template ''a'' WarmFork 7])) s \<and>
     k_lent s = [demo_template ''a'' WarmFork 7] \<and> ''a'' \<notin> pool_ids (k_pool s)"
proof -
  let ?t = "demo_template ''a'' WarmFork 7"
  let ?s0 = "idle_tasks (stocked Exclusive 5 [?t])"
  obtain s1 where s1: "task_step ?s0 s1" "k_taken s1 = [?t]" "k_lent s1 = []"
    "disk (k_pool s1) = [((WarmforkDir, ''a''), \<lparr>d_json = Some ?t, d_consumed = False\<rparr>)]"
    using task_step.Pop [of ?s0 "user_key ''k''" "[?t]"] by (simp add: idle_tasks_def demo_defs)
  obtain s2 where s2: "task_step s1 s2" "k_lent s2 = [?t]"
    using task_step.MarkDone [of ?t s1 "(WarmforkDir, ''a'')" ideal_host] s1
    by (simp add: fs_defs template_dir.simps)
  have reach: "task_step\<^sup>*\<^sup>* ?s0 s2" using s1(1) s2(1) by simp
  have "distinct (map pt_id (placed ?s0))" by (simp add: placed_def idle_tasks_def demo_defs)
  from acquire_exclusive_interleaved [OF reach this] reach s2(2) show ?thesis by auto
qed

section \<open>Races\<close>

text \<open>
  The collector chooses its victims under the locks and deletes them after releasing them. A
  restore that peeks the template in between pins it, is told that it may use it, and loses
  its directory.
\<close>

lemma gc_race_deletes_pinned:
  "\<exists>s. task_step\<^sup>*\<^sup>* (idle_tasks (stocked Shared 0 [demo_template ''a'' Environment 7])) s \<and>
     pinned (k_pool s) ''a'' \<and> hm_get (disk (k_pool s)) (EnvironmentDir, ''a'') = None"
proof -
  let ?t = "demo_template ''a'' Environment 7"
  let ?s0 = "idle_tasks (stocked Shared 0 [?t])"
  obtain s1 where s1: "task_step ?s0 s1" "k_doomed s1 = [?t]" "k_pool s1 = stocked Shared 0 [?t]"
    using task_step.CollectGc [of ?s0]
    by (simp add: idle_tasks_def gc_victims_def gc_eligible_def demo_defs total_depth_def)
  obtain s2 where s2: "task_step s1 s2" "k_doomed s2 = [?t]" "k_pool s2 = begin_restore ''a'' (stocked Shared 0 [?t])"
    using task_step.PeekRestore [of s1 "user_key ''k''"] s1(2, 3)
    by (simp add: peek_eqs latest_def demo_defs)
  obtain s3 where s3: "task_step s2 s3" "pinned (k_pool s3) ''a''"
    "hm_get (disk (k_pool s3)) (EnvironmentDir, ''a'') = None"
    using task_step.DeleteDir [of ?t s2 "(EnvironmentDir, ''a'')" ideal_host] s2(2, 3)
    by (simp add: fs_defs template_dir.simps begin_restore_def demo_defs pinned_def cnt_inc_def)
  have "task_step\<^sup>*\<^sup>* ?s0 s3" using s1(1) s2(1) s3(1) by (meson r_into_rtranclp rtranclp_trans)
  with s3 show ?thesis by blast
qed

text \<open>
  The same window in \<open>evict_by_kind\<close> lets an acquisition in a pool with exclusive leases hand
  out a template whose directory is then deleted.
\<close>

lemma evict_race_deletes_lent:
  "\<exists>s. task_step\<^sup>*\<^sup>* (idle_tasks (stocked Exclusive 5 [demo_template ''a'' WarmFork 7])) s \<and>
     k_lent s = [demo_template ''a'' WarmFork 7] \<and> disk (k_pool s) = []"
proof -
  let ?t = "demo_template ''a'' WarmFork 7"
  let ?s0 = "idle_tasks (stocked Exclusive 5 [?t])"
  obtain s1 where s1: "task_step ?s0 s1" "k_doomed s1 = [?t]" "k_pool s1 = stocked Exclusive 5 [?t]"
    "k_taken s1 = []" "k_lent s1 = []"
    using task_step.CollectEvict [of ?s0 WarmFork 0]
    by (simp add: idle_tasks_def evict_victims_def evict_ok_def evict_eligible.simps demo_defs)
  obtain s2 where s2: "task_step s1 s2" "k_doomed s2 = [?t]" "k_taken s2 = [?t]" "k_lent s2 = []"
    "disk (k_pool s2) = [((WarmforkDir, ''a''), \<lparr>d_json = Some ?t, d_consumed = False\<rparr>)]"
    using task_step.Pop [of s1 "user_key ''k''" "[?t]"] s1(2-) by (simp add: demo_defs)
  obtain s3 where s3: "task_step s2 s3" "k_doomed s3 = [?t]" "k_lent s3 = [?t]"
    "disk (k_pool s3) = [((WarmforkDir, ''a''), \<lparr>d_json = Some ?t, d_consumed = True\<rparr>)]"
    using task_step.MarkDone [of ?t s2 "(WarmforkDir, ''a'')" ideal_host] s2(2-)
    by (simp add: fs_defs template_dir.simps)
  obtain s4 where s4: "task_step s3 s4" "k_lent s4 = [?t]" "disk (k_pool s4) = []"
    using task_step.DeleteDir [of ?t s3 "(WarmforkDir, ''a'')" ideal_host] s3(2-)
    by (simp add: fs_defs template_dir.simps)
  have "task_step\<^sup>*\<^sup>* ?s0 s4"
    using s1(1) s2(1) s3(1) s4(1) by (meson r_into_rtranclp rtranclp_trans)
  with s4 show ?thesis by blast
qed

text \<open>
  \<open>ContinuationStore::acquire\<close> holds no lock at all: it checks for the marker, loads the
  metadata, and then creates the marker with a call that succeeds on an existing file. Two
  concurrent acquisitions of one identity that both pass the check both obtain the lease.
\<close>

definition cont_check :: "'c cont_host \<Rightarrow> workload_identity \<Rightarrow> 'c cont_store \<Rightarrow> pooled_template option" where
  "cont_check h w s =
     (if \<not> fs_exists_dir h w (cs_disk s) then None
      else if (case fs_try_exists_marker h w (cs_disk s) of Inl _ \<Rightarrow> False | Inr b \<Rightarrow> b) then None
      else (case template_load h w (cs_disk s) of
              None \<Rightarrow> None
            | Some t \<Rightarrow>
                (if pt_snapshot_type t \<noteq> Continuation \<or> pt_workload_identity t \<noteq> Some w then None
                 else Some t)))"

definition cont_mark ::
  "'c cont_host \<Rightarrow> workload_identity \<Rightarrow> pooled_template \<Rightarrow> 'c cont_store \<Rightarrow> cont_lease option \<times> 'c cont_store" where
  "cont_mark h w t s =
     (case write_consumed_marker h w (cs_disk s) of
        (Some _, dk) \<Rightarrow> (None, s\<lparr>cs_disk := dk\<rparr>)
      | (None, dk) \<Rightarrow> (Some \<lparr>cl_tmpl = Some t\<rparr>, s\<lparr>cs_disk := dk\<rparr>))"

lemma cont_acquire_check_mark:
  "cont_acquire h w s = (case cont_check h w s of None \<Rightarrow> (None, s) | Some t \<Rightarrow> cont_mark h w t s)"
  by (simp add: cont_acquire_def cont_check_def cont_mark_def split: option.splits)

lemma cont_acquire_race:
  "\<exists>t s1 s2. cont_check ideal_host \<lparr>pod_uid = ''u'', generation = 1\<rparr> demo_cont_store = Some t \<and>
     cont_mark ideal_host \<lparr>pod_uid = ''u'', generation = 1\<rparr> t demo_cont_store = (Some \<lparr>cl_tmpl = Some t\<rparr>, s1) \<and>
     cont_mark ideal_host \<lparr>pod_uid = ''u'', generation = 1\<rparr> t s1 = (Some \<lparr>cl_tmpl = Some t\<rparr>, s2)"
  by (simp add: cont_check_def cont_mark_def cont_run_defs fs_defs)

end
