(* ===== verification/Guest_File.thy ===== *)
theory Guest_File
  imports Prelude
begin

text \<open>
  Pushing files into the guest (\<^verbatim>\<open>vmm/sandbox/src/storage/guest_file.rs\<close>): quoting for the guest
  shell, validation and joining of guest paths, the scan of a host directory, and the requests
  sent to the guest agent. A request that the guest agent refuses is a value of the oracle
  \<open>gx\<close>; the requests that were sent are returned as a trace.
\<close>

section \<open>Paths of the standard library\<close>

datatype component = RootDir | CurDir | ParentDir | Normal string

fun comp_of :: "string \<Rightarrow> component list" where
  "comp_of w = (if w = [] \<or> w = ''.'' then [] else if w = ''..'' then [ParentDir] else [Normal w])"

text \<open>\<open>Path::components\<close>: repeated separators and inner dots vanish, a leading dot stays.\<close>

definition path_components :: "string \<Rightarrow> component list" where
  "path_components s =
     (if s = [] then []
      else if hd s = CHR ''/'' then RootDir # concat (map comp_of (split_on (CHR ''/'') s))
      else (if hd (split_on (CHR ''/'') s) = ''.'' then [CurDir] else []) @
           concat (map comp_of (split_on (CHR ''/'') s)))"

text \<open>
  \<open>Path::parent\<close> of a path whose components are separated by single slashes, as every
  validated guest path is.
\<close>

definition path_parent :: "string \<Rightarrow> string option" where
  "path_parent s =
     (let ws = split_on (CHR ''/'') s in
      if s = [] \<or> s = ''/'' then None
      else if butlast ws = [[]] then Some ''/''
      else Some (join_with ''/'' (butlast ws)))"

text \<open>\<open>PathBuf::join\<close> with the name of a directory entry\<close>

definition path_push :: "string \<Rightarrow> string \<Rightarrow> string" where
  "path_push p n = (if p = [] \<or> last p = CHR ''/'' then p @ n else p @ ''/'' @ n)"

text \<open>\<open>s.trim_end_matches(c)\<close>\<close>

definition trim_end_matches :: "char \<Rightarrow> string \<Rightarrow> string" where
  "trim_end_matches c s = rev (dropWhile (\<lambda>x. x = c) (rev s))"

section \<open>Quoting and validation\<close>

datatype gf_error =
    EmptyGuestPath
  | EmptyComponent
  | UnsafeComponent
  | UnsafeCharacters
  | PathSeparator
  | ExecFailed
  | SymlinkNotSupported string
  | ReadFailed string
  | ReadDirFailed string
  | SpecialFile string

definition shell_quote :: "string \<Rightarrow> string" where
  "shell_quote s =
     [CHR 0x27] @ replace_char (CHR 0x27) [CHR 0x27, CHR 0x5C, CHR 0x27, CHR 0x27] s @ [CHR 0x27]"

definition safe_char :: "char \<Rightarrow> bool" where
  "safe_char c \<longleftrightarrow> is_alpha c \<or> is_digit c \<or> c \<in> set ''_.:-''"

definition validate_guest_component :: "string \<Rightarrow> gf_error + unit" where
  "validate_guest_component w =
     (if w = [] \<or> w = ''.'' \<or> w = ''..'' then Inl UnsafeComponent
      else if \<not> list_all safe_char w then Inl UnsafeCharacters
      else Inr ())"

fun validate_raw_from :: "bool \<Rightarrow> nat \<Rightarrow> string list \<Rightarrow> gf_error + unit" where
  "validate_raw_from rooted i [] = Inr ()"
| "validate_raw_from rooted i (w # ws) =
     (if w = [] then (if rooted \<and> i = 0 then validate_raw_from rooted (i + 1) ws else Inl EmptyComponent)
      else if w = ''.'' \<or> w = ''..'' then Inl UnsafeComponent
      else validate_raw_from rooted (i + 1) ws)"

definition validate_raw_components :: "string \<Rightarrow> bool \<Rightarrow> gf_error + unit" where
  "validate_raw_components path allow_absolute =
     validate_raw_from (allow_absolute \<and> starts_with ''/'' path) 0 (split_on (CHR ''/'') path)"

fun validate_components :: "bool \<Rightarrow> component list \<Rightarrow> gf_error + unit" where
  "validate_components root_ok [] = Inr ()"
| "validate_components root_ok (Normal w # cs) =
     (case validate_guest_component w of Inl e \<Rightarrow> Inl e | Inr _ \<Rightarrow> validate_components root_ok cs)"
| "validate_components root_ok (RootDir # cs) =
     (if root_ok then validate_components root_ok cs else Inl UnsafeComponent)"
| "validate_components root_ok (CurDir # cs) = Inl UnsafeComponent"
| "validate_components root_ok (ParentDir # cs) = Inl UnsafeComponent"

definition validate_guest_path :: "string \<Rightarrow> gf_error + unit" where
  "validate_guest_path path =
     (if path = [] then Inl EmptyGuestPath
      else (case validate_raw_components path True of
              Inl e \<Rightarrow> Inl e
            | Inr _ \<Rightarrow> validate_components True (path_components path)))"

definition validate_relative_guest_path :: "string \<Rightarrow> gf_error + unit" where
  "validate_relative_guest_path path =
     (case validate_raw_components path False of
        Inl e \<Rightarrow> Inl e
      | Inr _ \<Rightarrow> validate_components False (path_components path))"

fun push_components :: "component list \<Rightarrow> string \<Rightarrow> string" where
  "push_components [] path = path"
| "push_components (Normal w # cs) path = push_components cs (path @ ''/'' @ w)"
| "push_components (_ # cs) path = push_components cs path"

definition join_guest_path :: "string \<Rightarrow> string \<Rightarrow> gf_error + string" where
  "join_guest_path base rel =
     (case validate_guest_path base of
        Inl e \<Rightarrow> Inl e
      | Inr _ \<Rightarrow>
          (case validate_relative_guest_path rel of
             Inl e \<Rightarrow> Inl e
           | Inr _ \<Rightarrow> Inr (push_components (path_components rel) (trim_end_matches (CHR ''/'') base))))"

definition join_guest_component :: "string \<Rightarrow> string \<Rightarrow> gf_error + string" where
  "join_guest_component base w =
     (case validate_guest_path base of
        Inl e \<Rightarrow> Inl e
      | Inr _ \<Rightarrow>
          (if CHR ''/'' \<in> set w \<or> CHR 0x5C \<in> set w then Inl PathSeparator
           else (case validate_guest_component w of
                   Inl e \<Rightarrow> Inl e
                 | Inr _ \<Rightarrow> Inr (trim_end_matches (CHR ''/'') base @ ''/'' @ w))))"

section \<open>Requests to the guest\<close>

record guest_request =
  gq_command :: string
  gq_stdin :: string

fun show_oct :: "nat \<Rightarrow> string" where
  "show_oct n = (if n < 8 then [digit_char n] else show_oct (n div 8) @ [digit_char (n mod 8)])"

declare show_oct.simps [simp del]

type_synonym trace = "guest_request list"

definition exec_request :: "(guest_request \<Rightarrow> bool) \<Rightarrow> guest_request \<Rightarrow> trace \<Rightarrow> (gf_error + unit) \<times> trace" where
  "exec_request gx q tr = ((if gx q then Inr () else Inl ExecFailed), tr @ [q])"

definition exec :: "(guest_request \<Rightarrow> bool) \<Rightarrow> string \<Rightarrow> trace \<Rightarrow> (gf_error + unit) \<times> trace" where
  "exec gx command tr = exec_request gx \<lparr>gq_command = command, gq_stdin = []\<rparr> tr"

definition ensure_dir :: "(guest_request \<Rightarrow> bool) \<Rightarrow> string \<Rightarrow> trace \<Rightarrow> (gf_error + unit) \<times> trace" where
  "ensure_dir gx dest_dir tr =
     (case validate_guest_path dest_dir of
        Inl e \<Rightarrow> (Inl e, tr)
      | Inr _ \<Rightarrow> exec gx (''mkdir -p '' @ shell_quote dest_dir) tr)"

definition push_command :: "string \<Rightarrow> string \<Rightarrow> nat \<Rightarrow> string" where
  "push_command parent dest mode =
     ''mkdir -p '' @ shell_quote parent @ '' && cat > '' @ shell_quote dest @ '' && chmod '' @
     show_oct mode @ '' '' @ shell_quote dest"

definition push_file ::
  "(guest_request \<Rightarrow> bool) \<Rightarrow> string \<Rightarrow> string \<Rightarrow> nat \<Rightarrow> trace \<Rightarrow> (gf_error + unit) \<times> trace" where
  "push_file gx dest content mode tr =
     (case validate_guest_path dest of
        Inl e \<Rightarrow> (Inl e, tr)
      | Inr _ \<Rightarrow>
          (let parent = (case path_parent dest of Some p \<Rightarrow> p | None \<Rightarrow> ''/tmp'') in
           case validate_guest_path parent of
             Inl e \<Rightarrow> (Inl e, tr)
           | Inr _ \<Rightarrow>
               exec_request gx \<lparr>gq_command = push_command parent dest mode, gq_stdin = content\<rparr> tr))"

section \<open>Scanning a directory\<close>

text \<open>
  The host directory as a tree; \<open>rd\<close> tells which paths cannot be listed or examined.
  The loop keeps a stack of directories still to list. A path relative to the root is carried
  along instead of being recomputed by \<open>strip_prefix\<close>.
\<close>

datatype fs_node =
    FileNode (fn_mode: nat) (fn_content: string)
  | DirNode "(string \<times> fs_node) list"
  | SymlinkNode
  | SpecialNode

record scanned_dir =
  file_count :: nat
  total_bytes :: nat
  sc_dirs :: "(string \<times> string) list"
  sc_files :: "(string \<times> string \<times> nat) list"
  sc_symlinks :: "string list"

type_synonym pending = "string \<times> string \<times> (string \<times> fs_node) list"

definition rel_push :: "string \<Rightarrow> string \<Rightarrow> string" where
  "rel_push rel n = (if rel = [] then n else rel @ ''/'' @ n)"

fun scan_entries ::
  "(string \<Rightarrow> bool) \<Rightarrow> string \<Rightarrow> string \<Rightarrow> (string \<times> fs_node) list \<Rightarrow> scanned_dir \<Rightarrow> pending list
   \<Rightarrow> gf_error + (scanned_dir \<times> pending list)" where
  "scan_entries rd cur rel [] sc stack = Inr (sc, stack)"
| "scan_entries rd cur rel ((n, x) # es) sc stack =
     (let path = path_push cur n; r = rel_push rel n in
      if rd path then Inl (ReadDirFailed cur)
      else (case x of
              DirNode es' \<Rightarrow>
                scan_entries rd cur rel es (sc\<lparr>sc_dirs := sc_dirs sc @ [(path, r)]\<rparr>) ((path, r, es') # stack)
            | FileNode md content \<Rightarrow>
                scan_entries rd cur rel es
                  (sc\<lparr>file_count := file_count sc + 1, total_bytes := total_bytes sc + length content,
                      sc_files := sc_files sc @ [(path, r, md mod 512)]\<rparr>) stack
            | SymlinkNode \<Rightarrow>
                scan_entries rd cur rel es
                  (sc\<lparr>file_count := file_count sc + 1, sc_symlinks := sc_symlinks sc @ [path]\<rparr>) stack
            | SpecialNode \<Rightarrow> Inl (SpecialFile path)))"

fun node_size :: "fs_node \<Rightarrow> nat" where
  "node_size (DirNode es) = 1 + sum_list (map (\<lambda>(n, x). node_size x) es)"
| "node_size _ = 1"

abbreviation entries_size :: "(string \<times> fs_node) list \<Rightarrow> nat" where
  "entries_size es \<equiv> sum_list (map (\<lambda>(n, x). node_size x) es)"

definition stack_size :: "pending list \<Rightarrow> nat" where
  "stack_size stack = sum_list (map (\<lambda>(cur, rel, es). 1 + entries_size es) stack)"

lemma scan_entries_size:
  "scan_entries rd cur rel es sc stack = Inr (sc', stack') \<Longrightarrow>
   stack_size stack' \<le> stack_size stack + entries_size es"
proof (induction es arbitrary: sc stack)
  case (Cons e es)
  obtain n x where e: "e = (n, x)" by force
  show ?case
  proof (cases x)
    case (DirNode es')
    with Cons.prems Cons.IH e show ?thesis
      by (fastforce simp: Let_def stack_size_def split: if_splits)
  qed (use Cons.prems e in \<open>auto simp: Let_def split: if_splits dest!: Cons.IH\<close>)
qed simp

function scan_loop ::
  "(string \<Rightarrow> bool) \<Rightarrow> pending list \<Rightarrow> scanned_dir \<Rightarrow> gf_error + scanned_dir" where
  "scan_loop rd [] sc = Inr sc"
| "scan_loop rd ((cur, rel, es) # stack) sc =
     (if rd cur then Inl (ReadDirFailed cur)
      else (case scan_entries rd cur rel es sc stack of
              Inl e \<Rightarrow> Inl e
            | Inr (sc', stack') \<Rightarrow> scan_loop rd stack' sc'))"
  by pat_completeness auto

termination
proof (relation "measure (\<lambda>(rd, stack, sc). stack_size stack)")
  fix rd cur rel es stack sc p sc' stack'
  assume "scan_entries rd cur rel es sc stack = Inr p" and "(sc', stack') = p"
  then have "stack_size stack' \<le> stack_size stack + entries_size es"
    by (auto dest: scan_entries_size)
  then show "((rd, stack', sc'), rd, (cur, rel, es) # stack, sc) \<in> measure (\<lambda>(rd, stack, sc). stack_size stack)"
    by (simp add: stack_size_def)
qed simp

definition empty_scan :: scanned_dir where
  "empty_scan = \<lparr>file_count = 0, total_bytes = 0, sc_dirs = [], sc_files = [], sc_symlinks = []\<rparr>"

definition scan_dir :: "(string \<Rightarrow> bool) \<Rightarrow> string \<Rightarrow> (string \<times> fs_node) list \<Rightarrow> gf_error + scanned_dir" where
  "scan_dir rd dir es = scan_loop rd [(dir, [], es)] empty_scan"

section \<open>Injection\<close>

fun inject_dirs ::
  "(guest_request \<Rightarrow> bool) \<Rightarrow> string \<Rightarrow> (string \<times> string) list \<Rightarrow> trace \<Rightarrow> (gf_error + unit) \<times> trace" where
  "inject_dirs gx dest [] tr = (Inr (), tr)"
| "inject_dirs gx dest ((_, rel) # ds) tr =
     (case join_guest_path dest rel of
        Inl e \<Rightarrow> (Inl e, tr)
      | Inr g \<Rightarrow>
          (case ensure_dir gx g tr of
             (Inl e, tr') \<Rightarrow> (Inl e, tr')
           | (Inr _, tr') \<Rightarrow> inject_dirs gx dest ds tr'))"

text \<open>\<open>hr\<close> reads a host file.\<close>

fun inject_files ::
  "(guest_request \<Rightarrow> bool) \<Rightarrow> (string \<Rightarrow> string option) \<Rightarrow> string \<Rightarrow> (string \<times> string \<times> nat) list \<Rightarrow> trace
   \<Rightarrow> (gf_error + unit) \<times> trace" where
  "inject_files gx hr dest [] tr = (Inr (), tr)"
| "inject_files gx hr dest ((host_path, rel, mode) # fs) tr =
     (case join_guest_path dest rel of
        Inl e \<Rightarrow> (Inl e, tr)
      | Inr g \<Rightarrow>
          (case hr host_path of
             None \<Rightarrow> (Inl (ReadFailed host_path), tr)
           | Some content \<Rightarrow>
               (case push_file gx g content mode tr of
                  (Inl e, tr') \<Rightarrow> (Inl e, tr')
                | (Inr _, tr') \<Rightarrow> inject_files gx hr dest fs tr')))"

definition inject_from_scan ::
  "(guest_request \<Rightarrow> bool) \<Rightarrow> (string \<Rightarrow> string option) \<Rightarrow> string \<Rightarrow> scanned_dir \<Rightarrow> trace
   \<Rightarrow> (gf_error + unit) \<times> trace" where
  "inject_from_scan gx hr dest sc tr =
     (case sc_symlinks sc of
        l # _ \<Rightarrow> (Inl (SymlinkNotSupported l), tr)
      | [] \<Rightarrow>
          (case ensure_dir gx dest tr of
             (Inl e, tr1) \<Rightarrow> (Inl e, tr1)
           | (Inr _, tr1) \<Rightarrow>
               (case inject_dirs gx dest (sc_dirs sc) tr1 of
                  (Inl e, tr2) \<Rightarrow> (Inl e, tr2)
                | (Inr _, tr2) \<Rightarrow> inject_files gx hr dest (sc_files sc) tr2)))"

section \<open>Which paths are accepted\<close>

definition safe_component :: "string \<Rightarrow> bool" where
  "safe_component w \<longleftrightarrow> w \<noteq> [] \<and> w \<noteq> ''.'' \<and> w \<noteq> ''..'' \<and> list_all safe_char w"

lemma safe_char_special: "\<not> safe_char (CHR ''/'')" "\<not> safe_char (CHR 0x27)" "\<not> safe_char (CHR 0x5C)"
  by (simp_all add: safe_char_def is_alpha_def is_digit_def Let_def)

lemma safe_component_noslash: "safe_component w \<Longrightarrow> CHR ''/'' \<notin> set w"
  using safe_char_special by (auto simp: safe_component_def list_all_iff)

lemma validate_guest_component_iff: "validate_guest_component w = Inr () \<longleftrightarrow> safe_component w"
  by (simp add: validate_guest_component_def safe_component_def)

lemma validate_raw_from_iff:
  "0 < i \<or> \<not> b \<Longrightarrow> validate_raw_from b i ws = Inr () \<longleftrightarrow> list_all (\<lambda>w. w \<noteq> [] \<and> w \<noteq> ''.'' \<and> w \<noteq> ''..'') ws"
  by (induction b i ws rule: validate_raw_from.induct) auto

lemma validate_components_iff:
  "list_all (\<lambda>w. w \<noteq> [] \<and> w \<noteq> ''.'' \<and> w \<noteq> ''..'') ws \<Longrightarrow>
   validate_components b (concat (map comp_of ws)) = Inr () \<longleftrightarrow> list_all safe_component ws"
proof (induction ws)
  case (Cons w ws)
  then show ?case
    by (cases "validate_guest_component w") (auto simp: validate_guest_component_iff [symmetric])
qed simp

lemma safe_imp_raw:
  "list_all safe_component ws \<Longrightarrow> list_all (\<lambda>w. w \<noteq> [] \<and> w \<noteq> ''.'' \<and> w \<noteq> ''..'') ws"
  by (auto simp: list_all_iff safe_component_def)

lemma unit_sum_cases: "(case r of Inl e \<Rightarrow> Inl e | Inr _ \<Rightarrow> s) = Inr () \<longleftrightarrow> r = Inr () \<and> s = Inr ()"
  by (cases r) auto

text \<open>A rooted, and a relative, path is accepted when all its pieces are.\<close>

lemma validate_rooted:
  "validate_guest_path (CHR ''/'' # q) = Inr () \<longleftrightarrow> list_all safe_component (split_on (CHR ''/'') q)"
  using validate_raw_from_iff [of 1 True "split_on (CHR ''/'') q"]
    validate_components_iff [of "split_on (CHR ''/'') q" True] safe_imp_raw
  by (auto simp: validate_guest_path_def validate_raw_components_def path_components_def unit_sum_cases)

lemma first_piece_head: "s \<noteq> [] \<Longrightarrow> hd s \<noteq> c \<Longrightarrow> hd (split_on c s) \<noteq> []"
  by (cases s) (auto split: list.splits)

lemma validate_unrooted:
  assumes "p \<noteq> []" and "hd p \<noteq> CHR ''/''"
  shows "validate_guest_path p = Inr () \<longleftrightarrow> list_all safe_component (split_on (CHR ''/'') p)"
    and "validate_relative_guest_path p = Inr () \<longleftrightarrow> list_all safe_component (split_on (CHR ''/'') p)"
proof -
  let ?ws = "split_on (CHR ''/'') p"
  have raw: "validate_raw_from False 0 ?ws = Inr () \<longleftrightarrow> list_all (\<lambda>w. w \<noteq> [] \<and> w \<noteq> ''.'' \<and> w \<noteq> ''..'') ?ws"
    by (simp add: validate_raw_from_iff)
  have nodot: "list_all (\<lambda>w. w \<noteq> [] \<and> w \<noteq> ''.'' \<and> w \<noteq> ''..'') ?ws \<Longrightarrow> hd ?ws \<noteq> ''.''"
    using split_on_nonempty [of "CHR ''/''" p] by (cases ?ws) simp_all
  have head: "\<not> starts_with ''/'' p" using assms by (cases p) auto
  have comps: "list_all (\<lambda>w. w \<noteq> [] \<and> w \<noteq> ''.'' \<and> w \<noteq> ''..'') ?ws \<Longrightarrow>
      path_components p = concat (map comp_of ?ws)"
    using assms nodot by (simp add: path_components_def)
  show "validate_guest_path p = Inr () \<longleftrightarrow> list_all safe_component ?ws"
    using assms(1) head comps raw validate_components_iff [of ?ws True] safe_imp_raw [of ?ws]
    by (auto simp: validate_guest_path_def validate_raw_components_def unit_sum_cases)
  show "validate_relative_guest_path p = Inr () \<longleftrightarrow> list_all safe_component ?ws"
    using comps raw validate_components_iff [of ?ws False] safe_imp_raw [of ?ws]
    by (auto simp: validate_relative_guest_path_def validate_raw_components_def unit_sum_cases)
qed

lemma validate_relative_rooted: "p = [] \<or> hd p = CHR ''/'' \<Longrightarrow> validate_relative_guest_path p \<noteq> Inr ()"
  by (cases p) (auto simp: validate_relative_guest_path_def validate_raw_components_def)

lemma split_safe_join:
  "ws \<noteq> [] \<Longrightarrow> list_all safe_component ws \<Longrightarrow> split_on (CHR ''/'') (join_with ''/'' ws) = ws"
  by (rule split_join) (auto simp: list_all_iff dest: safe_component_noslash)

lemma join_safe_head:
  assumes "ws \<noteq> []" and "list_all safe_component ws"
  shows "join_with ''/'' ws \<noteq> []" and "hd (join_with ''/'' ws) \<noteq> CHR ''/''"
proof -
  obtain w vs where ws: "ws = w # vs" using assms by (cases ws) auto
  then have w: "w \<noteq> []" "CHR ''/'' \<notin> set w"
    using assms(2) safe_component_noslash by (auto simp: safe_component_def)
  have "\<exists>t. join_with ''/'' ws = w @ t" using ws by (cases vs) auto
  moreover have "hd w \<noteq> CHR ''/''" using w by (metis hd_in_set)
  ultimately show "join_with ''/'' ws \<noteq> []" and "hd (join_with ''/'' ws) \<noteq> CHR ''/''"
    using w(1) by (auto simp: hd_append)
qed

definition guest_paths :: "string set" where
  "guest_paths = {p. \<exists>ws. ws \<noteq> [] \<and> list_all safe_component ws \<and>
     (p = join_with ''/'' ws \<or> p = CHR ''/'' # join_with ''/'' ws)}"

lemma guest_pathsI:
  assumes "list_all safe_component (split_on (CHR ''/'') q)"
  shows "q \<in> guest_paths" and "CHR ''/'' # q \<in> guest_paths"
  using assms join_split [of "CHR ''/''" q] split_on_nonempty [of "CHR ''/''" q]
  unfolding guest_paths_def mem_Collect_eq by metis+

lemma guest_pathsE:
  assumes "p \<in> guest_paths"
  obtains ws where "ws \<noteq> []" "list_all safe_component ws" "p = join_with ''/'' ws"
  | ws where "ws \<noteq> []" "list_all safe_component ws" "p = CHR ''/'' # join_with ''/'' ws"
  using assms unfolding guest_paths_def by blast

lemma validate_guest_path_iff: "validate_guest_path p = Inr () \<longleftrightarrow> p \<in> guest_paths"
proof
  assume v: "validate_guest_path p = Inr ()"
  then have ne: "p \<noteq> []" unfolding validate_guest_path_def by (metis sum.distinct(1))
  show "p \<in> guest_paths"
  proof (cases "hd p = CHR ''/''")
    case True
    with ne have q: "p = CHR ''/'' # tl p" by (metis list.collapse)
    with v validate_rooted guest_pathsI(2) show ?thesis by metis
  next
    case False
    from validate_unrooted(1) [OF ne this] v guest_pathsI(1) show ?thesis by metis
  qed
next
  assume "p \<in> guest_paths"
  then show "validate_guest_path p = Inr ()"
  proof (cases rule: guest_pathsE)
    case (1 ws)
    with validate_unrooted(1) [OF join_safe_head] split_safe_join show ?thesis by metis
  next
    case (2 ws)
    with validate_rooted split_safe_join show ?thesis by metis
  qed
qed

lemma trim_end_guest_path: "p \<in> guest_paths \<Longrightarrow> trim_end_matches (CHR ''/'') p = p"
proof -
  have last: "last (join_with ''/'' ws) \<noteq> CHR ''/''" if "ws \<noteq> []" "list_all safe_component ws" for ws
  proof -
    have "safe_component (last ws)" using that by (simp add: list_all_iff)
    then have "last ws \<noteq> []" "last (last ws) \<noteq> CHR ''/''"
      using safe_component_noslash [of "last ws"] by (auto simp: safe_component_def dest: last_in_set)
    then show ?thesis using that(1) by (simp add: join_with_last)
  qed
  assume "p \<in> guest_paths"
  then have "p \<noteq> [] \<and> last p \<noteq> CHR ''/''"
    by (cases rule: guest_pathsE) (use last join_safe_head(1) in auto)
  then have "dropWhile (\<lambda>x. x = CHR ''/'') (rev p) = rev p"
    by (simp add: dropWhile_eq_self_iff hd_rev)
  then show ?thesis by (simp add: trim_end_matches_def)
qed

lemma comp_of_safe: "list_all safe_component ws \<Longrightarrow> concat (map comp_of ws) = map Normal ws"
  by (induction ws) (auto simp: safe_component_def)

lemma path_components_safe:
  assumes "ws \<noteq> []" and "list_all safe_component ws"
  shows "path_components (join_with ''/'' ws) = map Normal ws"
    and "path_components (CHR ''/'' # join_with ''/'' ws) = RootDir # map Normal ws"
proof -
  have "hd ws \<noteq> ''.''" using assms by (cases ws) (auto simp: safe_component_def)
  then show "path_components (join_with ''/'' ws) = map Normal ws"
    using join_safe_head [OF assms] split_safe_join [OF assms] comp_of_safe [OF assms(2)]
    by (simp add: path_components_def)
  show "path_components (CHR ''/'' # join_with ''/'' ws) = RootDir # map Normal ws"
    using split_safe_join [OF assms] comp_of_safe [OF assms(2)] by (simp add: path_components_def)
qed

lemma push_components_normal:
  "ws \<noteq> [] \<Longrightarrow> push_components (map Normal ws) path = path @ ''/'' @ join_with ''/'' ws"
proof (induction ws arbitrary: path)
  case (Cons w ws)
  show ?case
  proof (cases ws)
    case (Cons v vs)
    with Cons.IH [of "path @ ''/'' @ w"] show ?thesis by simp
  qed simp
qed simp

lemma validate_relative_iff:
  "validate_relative_guest_path rel = Inr () \<longleftrightarrow>
   (\<exists>ws. ws \<noteq> [] \<and> list_all safe_component ws \<and> rel = join_with ''/'' ws)"
proof
  assume v: "validate_relative_guest_path rel = Inr ()"
  with validate_relative_rooted [of rel] have "rel \<noteq> []" "hd rel \<noteq> CHR ''/''" by auto
  from validate_unrooted(2) [OF this] v join_split [of "CHR ''/''" rel] split_on_nonempty [of "CHR ''/''" rel]
  show "\<exists>ws. ws \<noteq> [] \<and> list_all safe_component ws \<and> rel = join_with ''/'' ws" by metis
next
  assume "\<exists>ws. ws \<noteq> [] \<and> list_all safe_component ws \<and> rel = join_with ''/'' ws"
  then obtain ws where ws: "ws \<noteq> []" "list_all safe_component ws" "rel = join_with ''/'' ws" by blast
  then show "validate_relative_guest_path rel = Inr ()"
    using validate_unrooted(2) [OF join_safe_head [OF ws(1,2)]] split_safe_join [OF ws(1,2)] by simp
qed

lemma join_guest_path_iff:
  "join_guest_path base rel = Inr p \<longleftrightarrow>
   base \<in> guest_paths \<and> validate_relative_guest_path rel = Inr () \<and> p = base @ ''/'' @ rel"
proof (cases "base \<in> guest_paths \<and> validate_relative_guest_path rel = Inr ()")
  case True
  then obtain ws where ws: "ws \<noteq> []" "list_all safe_component ws" "rel = join_with ''/'' ws"
    using validate_relative_iff by blast
  have "validate_guest_path base = Inr ()" using True validate_guest_path_iff by blast
  then have "join_guest_path base rel = Inr (base @ ''/'' @ rel)"
    using True ws trim_end_guest_path [of base]
    by (simp add: join_guest_path_def path_components_safe push_components_normal)
  with True show ?thesis by auto
next
  case False
  then have "validate_guest_path base \<noteq> Inr () \<or> validate_relative_guest_path rel \<noteq> Inr ()"
    using validate_guest_path_iff by blast
  then have "join_guest_path base rel \<noteq> Inr p"
    unfolding join_guest_path_def by (auto split: sum.splits)
  with False show ?thesis by blast
qed

lemma guest_paths_of_safe:
  assumes "ws \<noteq> []" and "list_all safe_component ws"
  shows "join_with ''/'' ws \<in> guest_paths" and "CHR ''/'' # join_with ''/'' ws \<in> guest_paths"
  using assms unfolding guest_paths_def by blast+

lemma guest_paths_join:
  assumes "base \<in> guest_paths" and "ws \<noteq> []" and "list_all safe_component ws"
  shows "base @ ''/'' @ join_with ''/'' ws \<in> guest_paths \<and>
    path_components (base @ ''/'' @ join_with ''/'' ws) = path_components base @ map Normal ws"
  using assms(1)
proof (cases rule: guest_pathsE)
  case (1 vs)
  then have eq: "base @ ''/'' @ join_with ''/'' ws = join_with ''/'' (vs @ ws)"
    using assms(2) join_with_append [of vs ws "''/''"] by simp
  have us: "vs @ ws \<noteq> []" "list_all safe_component (vs @ ws)" using 1 assms by simp_all
  show ?thesis
    unfolding eq using guest_paths_of_safe(1) [OF us] path_components_safe(1) [OF us]
      path_components_safe(1) [OF 1(1,2)] 1(3) by simp
next
  case (2 vs)
  then have eq: "base @ ''/'' @ join_with ''/'' ws = CHR ''/'' # join_with ''/'' (vs @ ws)"
    using assms(2) join_with_append [of vs ws "''/''"] by simp
  have us: "vs @ ws \<noteq> []" "list_all safe_component (vs @ ws)" using 2 assms by simp_all
  show ?thesis
    unfolding eq using guest_paths_of_safe(2) [OF us] path_components_safe(2) [OF us]
      path_components_safe(2) [OF 2(1,2)] 2(3) by simp
qed

lemma join_valid: "join_guest_path base rel = Inr p \<Longrightarrow> validate_guest_path p = Inr ()"
  unfolding join_guest_path_iff validate_relative_iff validate_guest_path_iff
  using guest_paths_join by blast

text \<open>
  C33: A guest path accepted by \<open>join_guest_path\<close> lies strictly beneath its base. It is the base,
  a slash and the relative path; its components are those of the base followed by plain names
  (so no parent-directory step can leave the base); and it is accepted by
  \<open>validate_guest_path\<close> again.
\<close>
theorem join_guest_path_confined:
  assumes "join_guest_path base rel = Inr p"
  shows "p = base @ ''/'' @ rel \<and> validate_guest_path p = Inr () \<and>
    (\<exists>ws. ws \<noteq> [] \<and> list_all safe_component ws \<and>
       path_components p = path_components base @ map Normal ws)"
proof -
  from assms have b: "base \<in> guest_paths" and p: "p = base @ ''/'' @ rel"
    and r: "validate_relative_guest_path rel = Inr ()"
    unfolding join_guest_path_iff by blast+
  from r obtain ws where ws: "ws \<noteq> []" "list_all safe_component ws" "rel = join_with ''/'' ws"
    unfolding validate_relative_iff by blast
  with guest_paths_join [OF b ws(1,2)] p show ?thesis
    unfolding validate_guest_path_iff by blast
qed

theorem join_guest_path_confined_witness:
  "''/run/kuasar/storage1/etc/hosts'' = ''/run/kuasar/storage1'' @ ''/'' @ ''etc/hosts'' \<and>
   validate_guest_path ''/run/kuasar/storage1/etc/hosts'' = Inr ()"
proof -
  have "join_guest_path ''/run/kuasar/storage1'' ''etc/hosts'' = Inr ''/run/kuasar/storage1/etc/hosts''"
    by code_simp
  from join_guest_path_confined [OF this] show ?thesis by blast
qed

section \<open>What the guest shell reads\<close>

text \<open>
  The guest runs a command through its shell. Of the shell we use the quoting rules of POSIX
  (an unquoted backslash keeps the next character, single quotes keep everything up to the next
  single quote) and the splitting of blank-separated words and operators. \<open>spells w v\<close>: the
  source text \<open>w\<close> is one word whose value is \<open>v\<close>.
\<close>

datatype sh_token = Word string | Oper string

definition plain_char :: "char \<Rightarrow> bool" where
  "plain_char c \<longleftrightarrow> safe_char c \<or> c = CHR ''/''"

inductive spells :: "string \<Rightarrow> string \<Rightarrow> bool" where
  Nil: "spells [] []"
| Plain: "plain_char c \<Longrightarrow> spells s v \<Longrightarrow> spells (c # s) (c # v)"
| Quoted: "CHR 0x27 \<notin> set q \<Longrightarrow> spells s v \<Longrightarrow> spells (CHR 0x27 # q @ CHR 0x27 # s) (q @ v)"
| Escaped: "c \<noteq> CHR 0x0A \<Longrightarrow> spells s v \<Longrightarrow> spells (CHR 0x5C # c # s) (c # v)"

definition ends_token :: "string \<Rightarrow> bool" where
  "ends_token r \<longleftrightarrow> r = [] \<or> hd r = CHR '' ''"

definition posix_lex :: "(string \<Rightarrow> sh_token list) \<Rightarrow> bool" where
  "posix_lex sh \<longleftrightarrow>
     sh [] = [] \<and> (\<forall>r. sh (CHR '' '' # r) = sh r) \<and>
     (\<forall>w v r. w \<noteq> [] \<longrightarrow> spells w v \<longrightarrow> ends_token r \<longrightarrow> sh (w @ r) = Word v # sh r) \<and>
     (\<forall>p r. p \<in> {''&&'', ''>''} \<longrightarrow> ends_token r \<longrightarrow> sh (p @ r) = Oper p # sh r)"

lemma spells_plain: "list_all plain_char w \<Longrightarrow> spells w w"
  by (induction w) (auto intro: spells.intros)

lemma spells_quote_tail:
  "CHR 0x27 \<notin> set q \<Longrightarrow>
   spells (CHR 0x27 # q @ replace_char (CHR 0x27) [CHR 0x27, CHR 0x5C, CHR 0x27, CHR 0x27] s @ [CHR 0x27]) (q @ s)"
proof (induction s arbitrary: q)
  case Nil
  then show ?case
    using spells.Quoted [OF _ spells.Nil, of q] by (simp add: replace_char_def)
next
  case (Cons c s)
  show ?case
  proof (cases "c = CHR 0x27")
    case True
    from Cons.IH [of "[]"]
    have "spells (CHR 0x27 # replace_char (CHR 0x27) [CHR 0x27, CHR 0x5C, CHR 0x27, CHR 0x27] s @ [CHR 0x27]) s"
      by simp
    then have "spells (CHR 0x5C # CHR 0x27 # CHR 0x27 #
        replace_char (CHR 0x27) [CHR 0x27, CHR 0x5C, CHR 0x27, CHR 0x27] s @ [CHR 0x27]) (CHR 0x27 # s)"
      by (intro spells.Escaped) simp_all
    from spells.Quoted [OF Cons.prems this] True show ?thesis by (simp add: replace_char_def)
  next
    case False
    with Cons.prems Cons.IH [of "q @ [c]"] show ?thesis by (simp add: replace_char_def)
  qed
qed

lemma spells_shell_quote: "spells (shell_quote s) s"
  using spells_quote_tail [of "[]" s] by (simp add: shell_quote_def)

lemma digit_plain: "n < 10 \<Longrightarrow> plain_char (digit_char n)"
  by (simp add: plain_char_def safe_char_def)

lemma show_oct_plain: "list_all plain_char (show_oct n)"
proof (induction n rule: show_oct.induct)
  case (1 n)
  then show ?case by (subst show_oct.simps) (simp add: digit_plain)
qed

lemma show_oct_nonempty: "show_oct n \<noteq> []"
  by (subst show_oct.simps) simp

lemma posix_lex_simps:
  assumes "posix_lex sh"
  shows "sh [] = []" and "sh (CHR '' '' # r) = sh r"
    and "ends_token r \<Longrightarrow> sh (shell_quote s @ r) = Word s # sh r"
    and "w \<noteq> [] \<Longrightarrow> list_all plain_char w \<Longrightarrow> ends_token r \<Longrightarrow> sh (w @ r) = Word w # sh r"
    and "ends_token r \<Longrightarrow> sh (''&&'' @ r) = Oper ''&&'' # sh r"
    and "ends_token r \<Longrightarrow> sh (''>'' @ r) = Oper ''>'' # sh r"
proof -
  have "shell_quote s \<noteq> []" by (simp add: shell_quote_def)
  then show "ends_token r \<Longrightarrow> sh (shell_quote s @ r) = Word s # sh r"
    using assms spells_shell_quote [of s] unfolding posix_lex_def by blast
qed (use assms spells_plain [of w] in \<open>auto simp: posix_lex_def\<close>)

lemma ends_token_simps [simp]: "ends_token []" "ends_token (CHR '' '' # r)"
  by (simp_all add: ends_token_def)

text \<open>
  C32: Whatever the paths contain (quotes, blanks, substitutions, newlines), a shell that obeys
  the POSIX quoting rules reads the command that pushes a file as exactly its eleven tokens,
  with the parent directory and the destination as single words. Nothing in a path is
  interpreted.
\<close>
theorem push_command_tokens:
  assumes "posix_lex sh"
  shows "sh (push_command parent dest mode) =
    [Word ''mkdir'', Word ''-p'', Word parent, Oper ''&&'', Word ''cat'', Oper ''>'', Word dest,
     Oper ''&&'', Word ''chmod'', Word (show_oct mode), Word dest]"
proof -
  note L = posix_lex_simps [OF assms]
  have word: "sh (w @ CHR '' '' # r) = Word w # sh r" if "w \<noteq> []" "list_all plain_char w" for w r
    using that by (simp add: L)
  have plain: "list_all plain_char ''mkdir''" "list_all plain_char ''-p''" "list_all plain_char ''cat''"
    "list_all plain_char ''chmod''"
    by (simp_all add: plain_char_def safe_char_def is_alpha_def is_digit_def)
  have split: "push_command parent dest mode =
    ''mkdir'' @ CHR '' '' # ''-p'' @ CHR '' '' # shell_quote parent @ CHR '' '' # ''&&'' @ CHR '' '' #
    ''cat'' @ CHR '' '' # ''>'' @ CHR '' '' # shell_quote dest @ CHR '' '' # ''&&'' @ CHR '' '' #
    ''chmod'' @ CHR '' '' # show_oct mode @ CHR '' '' # shell_quote dest @ []"
    by (simp add: push_command_def)
  show ?thesis
    unfolding split
    by (simp only: word plain L ends_token_simps show_oct_plain show_oct_nonempty list.distinct not_False_eq_True)
qed

text \<open>A lexer that obeys the rules, for the witness.\<close>

fun sh_read :: "bool \<Rightarrow> string \<Rightarrow> string \<times> string" where
  "sh_read q [] = ([], [])"
| "sh_read True (c # s) = (if c = CHR 0x27 then sh_read False s else apfst (Cons c) (sh_read True s))"
| "sh_read False (c # s) =
     (if c = CHR 0x27 then sh_read True s
      else if c \<in> set '' &>'' then ([], c # s)
      else if c = CHR 0x5C
      then (case s of [] \<Rightarrow> ([], []) | d # s' \<Rightarrow> apfst (Cons d) (sh_read False s'))
      else apfst (Cons c) (sh_read False s))"

lemma sh_read_length: "length (snd (sh_read q s)) \<le> length s"
proof (induction q s rule: sh_read.induct)
  case (3 c s)
  then show ?case by (cases s) (simp_all add: le_SucI)
qed (simp_all add: le_SucI)

lemma sh_read_shrinks:
  assumes "sh_read False (c # s) = (v, r)" and "c \<notin> set '' &>''" shows "length r \<le> length s"
proof -
  have "length (snd (sh_read q s)) \<le> length s" for q by (rule sh_read_length)
  moreover have "length (snd (sh_read False (tl s))) \<le> length s"
    using sh_read_length [of False "tl s"] by simp
  moreover have "sh_read False (c # s) \<in>
      {sh_read True s, ([], []), apfst (Cons (hd s)) (sh_read False (tl s)), apfst (Cons c) (sh_read False s)}"
    using assms(2) by (simp split: list.splits)
  ultimately have "length (snd (sh_read False (c # s))) \<le> length s" by fastforce
  with assms(1) show ?thesis by simp
qed

function sh_lex :: "string \<Rightarrow> sh_token list" where
  "sh_lex [] = []"
| "sh_lex (c # s) =
     (if c = CHR '' '' then sh_lex s
      else if c = CHR ''&'' then (if starts_with ''&'' s then Oper ''&&'' # sh_lex (drop 1 s)
                                  else Oper ''&'' # sh_lex s)
      else if c = CHR ''>'' then Oper ''>'' # sh_lex s
      else (case sh_read False (c # s) of (v, r) \<Rightarrow> Word v # sh_lex r))"
  by pat_completeness auto

termination
  by (relation "measure length") (auto simp del: sh_read.simps dest!: sh_read_shrinks [OF sym])

lemma sh_read_quoted:
  "CHR 0x27 \<notin> set q \<Longrightarrow> sh_read True (q @ CHR 0x27 # s) = apfst ((@) q) (sh_read False s)"
  by (induction q) (simp_all add: apfst_def map_prod_def split: prod.splits)

lemma plain_char_not_special:
  "plain_char c \<Longrightarrow> c \<noteq> CHR 0x27 \<and> c \<notin> set '' &>'' \<and> c \<noteq> CHR 0x5C"
  by (auto simp: plain_char_def safe_char_def is_alpha_def is_digit_def)

lemma sh_read_spells: "spells w v \<Longrightarrow> ends_token r \<Longrightarrow> sh_read False (w @ r) = (v, r)"
proof (induction rule: spells.induct)
  case Nil
  then show ?case by (cases r) (auto simp: ends_token_def)
next
  case (Plain c s v)
  then show ?case using plain_char_not_special [of c] by simp
qed (simp_all add: sh_read_quoted)

lemma spells_head: "spells w v \<Longrightarrow> w \<noteq> [] \<Longrightarrow> hd w \<notin> set '' &>''"
  by (induction rule: spells.induct) (use plain_char_not_special in auto)

lemma sh_lex_word:
  assumes "w \<noteq> []" and "spells w v" and "ends_token r"
  shows "sh_lex (w @ r) = Word v # sh_lex r"
proof -
  from assms(1) obtain c s where w: "w = c # s" by (cases w) auto
  with spells_head [OF assms(2,1)] have c: "c \<noteq> CHR '' ''" "c \<noteq> CHR ''&''" "c \<noteq> CHR ''>''" by auto
  from sh_read_spells [OF assms(2,3)] w have "sh_read False (c # s @ r) = (v, r)" by simp
  with c w show ?thesis by (simp del: sh_read.simps)
qed

lemma posix_sh_lex: "posix_lex sh_lex"
  unfolding posix_lex_def
proof (intro conjI allI impI)
  fix p r
  assume "p \<in> {''&&'', ''>''}"
  then consider "p = ''&&''" | "p = ''>''" by blast
  then show "sh_lex (p @ r) = Oper p # sh_lex r" by cases simp_all
next
  fix w v r
  assume "w \<noteq> []" "spells w v" "ends_token r"
  then show "sh_lex (w @ r) = Word v # sh_lex r" by (rule sh_lex_word)
qed simp_all

theorem push_command_tokens_witness:
  "sh_lex (push_command ''/run'' (''/run/x'' @ [CHR 0x27] @ ''; reboot'') 420) =
    [Word ''mkdir'', Word ''-p'', Word ''/run'', Oper ''&&'', Word ''cat'', Oper ''>'',
     Word (''/run/x'' @ [CHR 0x27] @ ''; reboot''), Oper ''&&'', Word ''chmod'', Word (show_oct 420),
     Word (''/run/x'' @ [CHR 0x27] @ ''; reboot'')]"
  by (rule push_command_tokens [OF posix_sh_lex])

section \<open>The scan visits the whole tree\<close>

text \<open>All nodes below a directory, with their host path and their relative path.\<close>

function tree_nodes :: "string \<Rightarrow> string \<Rightarrow> (string \<times> fs_node) list \<Rightarrow> (string \<times> string \<times> fs_node) list" where
  "tree_nodes cur rel [] = []"
| "tree_nodes cur rel ((n, x) # es) =
     (path_push cur n, rel_push rel n, x) #
     (case x of DirNode es' \<Rightarrow> tree_nodes (path_push cur n) (rel_push rel n) es' | _ \<Rightarrow> []) @
     tree_nodes cur rel es"
  by pat_completeness auto

termination
proof (relation "measure (\<lambda>(cur, rel, es). entries_size es)")
  fix n and x :: fs_node and es :: "(string \<times> fs_node) list" and cur rel
  have "0 < node_size x" by (cases x) simp_all
  then show "((cur, rel, es), cur, rel, (n, x) # es) \<in> measure (\<lambda>(cur, rel, es). entries_size es)" by simp
qed auto

fun add_node :: "string \<times> string \<times> fs_node \<Rightarrow> scanned_dir \<Rightarrow> scanned_dir" where
  "add_node (path, r, x) sc =
     (case x of
        DirNode _ \<Rightarrow> sc\<lparr>sc_dirs := sc_dirs sc @ [(path, r)]\<rparr>
      | FileNode md content \<Rightarrow>
          sc\<lparr>file_count := file_count sc + 1, total_bytes := total_bytes sc + length content,
             sc_files := sc_files sc @ [(path, r, md mod 512)]\<rparr>
      | SymlinkNode \<Rightarrow> sc\<lparr>file_count := file_count sc + 1, sc_symlinks := sc_symlinks sc @ [path]\<rparr>
      | SpecialNode \<Rightarrow> sc)"

definition stack_nodes :: "pending list \<Rightarrow> (string \<times> string \<times> fs_node) list" where
  "stack_nodes stack = concat (map (\<lambda>(cur, rel, es). tree_nodes cur rel es) stack)"

definition special_free :: "(string \<times> string \<times> fs_node) list \<Rightarrow> bool" where
  "special_free ns \<longleftrightarrow> list_all (\<lambda>(p, r, x). x \<noteq> SpecialNode) ns"

text \<open>Listing one directory moves its nodes from the pending ones to the visited ones.\<close>

lemma scan_entries_nodes:
  "case scan_entries (\<lambda>_. False) cur rel es sc stack of
      Inl e \<Rightarrow> \<exists>p r. (p, r, SpecialNode) \<in> set (tree_nodes cur rel es) \<and> e = SpecialFile p
    | Inr (sc', stack') \<Rightarrow> \<exists>ns. sc' = fold add_node ns sc \<and> special_free ns \<and>
        mset ns + mset (stack_nodes stack') = mset (tree_nodes cur rel es) + mset (stack_nodes stack)"
proof (induction es arbitrary: sc stack)
  case Nil
  show ?case by (auto simp: special_free_def intro!: exI [of _ "[]"])
next
  case (Cons e es)
  obtain n x where e: "e = (n, x)" by force
  let ?p = "path_push cur n" and ?r = "rel_push rel n"
  show ?case
  proof (cases "x = SpecialNode")
    case True
    then show ?thesis using e by auto
  next
    case False
    define stack1 where "stack1 = (case x of DirNode es' \<Rightarrow> (?p, ?r, es') # stack | _ \<Rightarrow> stack)"
    have step: "scan_entries (\<lambda>_. False) cur rel (e # es) sc stack =
        scan_entries (\<lambda>_. False) cur rel es (add_node (?p, ?r, x) sc) stack1"
      using e False by (cases x) (simp_all add: stack1_def Let_def)
    have nodes: "mset (stack_nodes stack1) + {#(?p, ?r, x)#} + mset (tree_nodes cur rel es) =
        mset (tree_nodes cur rel (e # es)) + mset (stack_nodes stack)"
      using e by (cases x) (simp_all add: stack1_def stack_nodes_def)
    show ?thesis
    proof (cases "scan_entries (\<lambda>_. False) cur rel es (add_node (?p, ?r, x) sc) stack1")
      case (Inl err)
      with Cons.IH [of "add_node (?p, ?r, x) sc" stack1] step e show ?thesis by auto
    next
      case (Inr res)
      obtain sc' stack' where res: "res = (sc', stack')" by force
      with Inr Cons.IH [of "add_node (?p, ?r, x) sc" stack1] obtain ns where
        ns: "sc' = fold add_node ns (add_node (?p, ?r, x) sc)" "special_free ns"
          "mset ns + mset (stack_nodes stack') = mset (tree_nodes cur rel es) + mset (stack_nodes stack1)"
        by auto
      have "sc' = fold add_node ((?p, ?r, x) # ns) sc \<and> special_free ((?p, ?r, x) # ns) \<and>
          mset ((?p, ?r, x) # ns) + mset (stack_nodes stack') =
          mset (tree_nodes cur rel (e # es)) + mset (stack_nodes stack)"
        using ns False nodes by (simp add: special_free_def ac_simps)
      then have "\<exists>ks. sc' = fold add_node ks sc \<and> special_free ks \<and> mset ks + mset (stack_nodes stack') =
          mset (tree_nodes cur rel (e # es)) + mset (stack_nodes stack)" by blast
      with Inr res step show ?thesis by (simp del: scan_entries.simps)
    qed
  qed
qed

lemma scan_loop_nodes:
  "case scan_loop (\<lambda>_. False) stack sc of
      Inl e \<Rightarrow> \<exists>p r. (p, r, SpecialNode) \<in> set (stack_nodes stack) \<and> e = SpecialFile p
    | Inr sc' \<Rightarrow> \<exists>ns. sc' = fold add_node ns sc \<and> special_free ns \<and> mset ns = mset (stack_nodes stack)"
proof (induction "\<lambda>_ :: string. False" stack sc rule: scan_loop.induct)
  case (1 sc)
  show ?case by (auto simp: stack_nodes_def special_free_def)
next
  case (2 cur rel es stack sc)
  show ?case
  proof (cases "scan_entries (\<lambda>_. False) cur rel es sc stack")
    case (Inl e)
    with scan_entries_nodes [of cur rel es sc stack] show ?thesis
      by (auto simp: stack_nodes_def)
  next
    case (Inr res)
    obtain sc1 stack1 where res: "res = (sc1, stack1)" by force
    from scan_entries_nodes [of cur rel es sc stack] Inr res obtain ns where
      ns: "sc1 = fold add_node ns sc" "special_free ns"
        "mset ns + mset (stack_nodes stack1) = mset (tree_nodes cur rel es) + mset (stack_nodes stack)"
      by auto
    from ns(3) have all: "mset (stack_nodes ((cur, rel, es) # stack)) = mset ns + mset (stack_nodes stack1)"
      by (simp add: stack_nodes_def)
    then have sub: "set (stack_nodes stack1) \<subseteq> set (stack_nodes ((cur, rel, es) # stack))"
      by (metis set_mset_mset set_mset_union sup.cobounded2)
    have step: "scan_loop (\<lambda>_. False) ((cur, rel, es) # stack) sc = scan_loop (\<lambda>_. False) stack1 sc1"
      using Inr res by simp
    from "2.hyps" [OF _ Inr, of sc1 stack1] res
    have IH: "case scan_loop (\<lambda>_. False) stack1 sc1 of
        Inl e \<Rightarrow> \<exists>p r. (p, r, SpecialNode) \<in> set (stack_nodes stack1) \<and> e = SpecialFile p
      | Inr sc' \<Rightarrow> \<exists>ns. sc' = fold add_node ns sc1 \<and> special_free ns \<and> mset ns = mset (stack_nodes stack1)"
      by simp
    show ?thesis
    proof (cases "scan_loop (\<lambda>_. False) stack1 sc1")
      case (Inl e)
      with IH step sub show ?thesis by (simp del: scan_loop.simps) blast
    next
      case (Inr sc')
      with IH obtain ms where ms: "sc' = fold add_node ms sc1" "special_free ms" "mset ms = mset (stack_nodes stack1)"
        by auto
      have "sc' = fold add_node (ns @ ms) sc \<and> special_free (ns @ ms) \<and>
          mset (ns @ ms) = mset (stack_nodes ((cur, rel, es) # stack))"
        using ms ns all by (simp add: special_free_def)
      then have "\<exists>ks. sc' = fold add_node ks sc \<and> special_free ks \<and>
          mset ks = mset (stack_nodes ((cur, rel, es) # stack))" by blast
      with Inr step show ?thesis by (simp del: scan_loop.simps)
    qed
  qed
qed

fun file_of :: "string \<times> string \<times> fs_node \<Rightarrow> (string \<times> string \<times> nat) list" where
  "file_of (p, r, FileNode md content) = [(p, r, md mod 512)]"
| "file_of _ = []"

fun dir_of :: "string \<times> string \<times> fs_node \<Rightarrow> (string \<times> string) list" where
  "dir_of (p, r, DirNode es) = [(p, r)]"
| "dir_of _ = []"

fun symlink_of :: "string \<times> string \<times> fs_node \<Rightarrow> string list" where
  "symlink_of (p, r, SymlinkNode) = [p]"
| "symlink_of _ = []"

fun bytes_of :: "string \<times> string \<times> fs_node \<Rightarrow> nat" where
  "bytes_of (p, r, FileNode md content) = length content"
| "bytes_of _ = 0"

lemma fold_add_node:
  "sc_files (fold add_node ns sc) = sc_files sc @ concat (map file_of ns)"
  "sc_dirs (fold add_node ns sc) = sc_dirs sc @ concat (map dir_of ns)"
  "sc_symlinks (fold add_node ns sc) = sc_symlinks sc @ concat (map symlink_of ns)"
  "total_bytes (fold add_node ns sc) = total_bytes sc + sum_list (map bytes_of ns)"
  "file_count (fold add_node ns sc) =
     file_count sc + length (concat (map file_of ns)) + length (concat (map symlink_of ns))"
proof (induction ns arbitrary: sc)
  case (Cons x ns)
  obtain p r y where x: "x = (p, r, y)" by (cases x) auto
  { case 1 then show ?case using Cons(1) x by (cases y) simp_all }
  { case 2 then show ?case using Cons(2) x by (cases y) simp_all }
  { case 3 then show ?case using Cons(3) x by (cases y) simp_all }
  { case 4 then show ?case using Cons(4) x by (cases y) simp_all }
  { case 5 then show ?case using Cons(5) x by (cases y) simp_all }
qed simp_all

lemma mset_concat_map: "mset xs = mset ys \<Longrightarrow> mset (concat (map f xs)) = mset (concat (map f ys))"
proof -
  have "mset (concat (map f zs)) = sum_mset (image_mset (mset \<circ> f) (mset zs))" for zs
    by (induction zs) simp_all
  then show "mset xs = mset ys \<Longrightarrow> ?thesis" by simp
qed

lemma sum_list_map_mset: "mset xs = mset ys \<Longrightarrow> sum_list (map f xs) = (sum_list (map f ys) :: nat)"
  by (metis mset_map sum_mset_sum_list)

text \<open>
  C34: On a readable directory the stack-driven scan agrees with the recursive enumeration of the
  tree. It fails exactly when the tree holds a device, socket or pipe, naming one; otherwise the
  directories, files and symbolic links it collects are those of the tree, the file count is
  the number of files and links, and the byte count is the total size of the files.
\<close>
theorem scan_dir_exact:
  "case scan_dir (\<lambda>_. False) dir es of
     Inl e \<Rightarrow> \<exists>p r. (p, r, SpecialNode) \<in> set (tree_nodes dir [] es) \<and> e = SpecialFile p
   | Inr sc \<Rightarrow> special_free (tree_nodes dir [] es) \<and>
       mset (sc_dirs sc) = mset (concat (map dir_of (tree_nodes dir [] es))) \<and>
       mset (sc_files sc) = mset (concat (map file_of (tree_nodes dir [] es))) \<and>
       mset (sc_symlinks sc) = mset (concat (map symlink_of (tree_nodes dir [] es))) \<and>
       file_count sc = length (sc_files sc) + length (sc_symlinks sc) \<and>
       total_bytes sc = sum_list (map bytes_of (tree_nodes dir [] es))"
proof (cases "scan_dir (\<lambda>_. False) dir es")
  case (Inl e)
  then show ?thesis
    using scan_loop_nodes [of "[(dir, [], es)]" empty_scan] by (simp add: scan_dir_def stack_nodes_def)
next
  case (Inr sc)
  then obtain ns where ns: "sc = fold add_node ns empty_scan" "special_free ns"
    "mset ns = mset (tree_nodes dir [] es)"
    using scan_loop_nodes [of "[(dir, [], es)]" empty_scan] by (auto simp: scan_dir_def stack_nodes_def)
  from ns(3) have "set ns = set (tree_nodes dir [] es)" by (metis set_mset_mset)
  with ns(2) have "special_free (tree_nodes dir [] es)" by (simp add: special_free_def list_all_iff)
  with Inr ns(1) show ?thesis
    using mset_concat_map [OF ns(3), of dir_of] mset_concat_map [OF ns(3), of file_of]
      mset_concat_map [OF ns(3), of symlink_of] sum_list_map_mset [OF ns(3), of bytes_of]
    by (simp add: fold_add_node empty_scan_def)
qed

section \<open>Injection of a scanned directory\<close>

definition mkdir_request :: "string \<Rightarrow> guest_request" where
  "mkdir_request d = \<lparr>gq_command = ''mkdir -p '' @ shell_quote d, gq_stdin = []\<rparr>"

definition push_request :: "string \<Rightarrow> string \<Rightarrow> nat \<Rightarrow> guest_request" where
  "push_request dest content mode =
     \<lparr>gq_command = push_command (the (path_parent dest)) dest mode, gq_stdin = content\<rparr>"

lemma ensure_dir_ok: "d \<in> guest_paths \<Longrightarrow> gx (mkdir_request d) \<Longrightarrow> ensure_dir gx d tr = (Inr (), tr @ [mkdir_request d])"
  by (simp add: ensure_dir_def exec_def exec_request_def mkdir_request_def flip: validate_guest_path_iff)

lemma path_parent_join:
  assumes "base \<in> guest_paths" and "ws \<noteq> []" and "list_all safe_component ws"
  shows "\<exists>q \<in> guest_paths. path_parent (base @ ''/'' @ join_with ''/'' ws) = Some q"
  using assms(1)
proof (cases rule: guest_pathsE)
  case (1 vs)
  let ?us = "vs @ ws"
  have us: "?us \<noteq> []" "list_all safe_component ?us" "butlast ?us \<noteq> []" "list_all safe_component (butlast ?us)"
    using 1 assms by (auto simp: list_all_iff butlast_append dest: in_set_butlastD)
  have p: "base @ ''/'' @ join_with ''/'' ws = join_with ''/'' ?us" using 1 assms by (simp add: join_with_append)
  have "butlast ?us \<noteq> [[]]" using us(4) by (auto simp: safe_component_def)
  moreover have "join_with ''/'' ?us \<noteq> ''/''" using join_safe_head [OF us(1,2)] by auto
  ultimately have "path_parent (join_with ''/'' ?us) = Some (join_with ''/'' (butlast ?us))"
    using split_safe_join [OF us(1,2)] join_safe_head(1) [OF us(1,2)] by (simp add: path_parent_def Let_def)
  moreover have "join_with ''/'' (butlast ?us) \<in> guest_paths" using us(3,4) by (rule guest_paths_of_safe)
  ultimately show ?thesis using p by auto
next
  case (2 vs)
  let ?us = "vs @ ws"
  have us: "?us \<noteq> []" "list_all safe_component ?us" "butlast ?us \<noteq> []" "list_all safe_component (butlast ?us)"
    using 2 assms by (auto simp: list_all_iff butlast_append dest: in_set_butlastD)
  have p: "base @ ''/'' @ join_with ''/'' ws = CHR ''/'' # join_with ''/'' ?us"
    using 2 assms by (simp add: join_with_append)
  have "path_parent (CHR ''/'' # join_with ''/'' ?us) = Some (CHR ''/'' # join_with ''/'' (butlast ?us))"
    using split_safe_join [OF us(1,2)] join_safe_head(1) [OF us(1,2)] us(1,3)
    by (simp add: path_parent_def Let_def join_with_Nil_head)
  moreover have "CHR ''/'' # join_with ''/'' (butlast ?us) \<in> guest_paths"
    using us(3,4) by (rule guest_paths_of_safe)
  ultimately show ?thesis using p by auto
qed

lemma push_file_ok:
  assumes "base \<in> guest_paths" and "validate_relative_guest_path rel = Inr ()"
    and "gx (push_request (base @ ''/'' @ rel) content mode)"
  shows "push_file gx (base @ ''/'' @ rel) content mode tr =
    (Inr (), tr @ [push_request (base @ ''/'' @ rel) content mode])"
proof -
  from assms(2) obtain ws where ws: "ws \<noteq> []" "list_all safe_component ws" "rel = join_with ''/'' ws"
    unfolding validate_relative_iff by blast
  from path_parent_join [OF assms(1) ws(1,2)] ws(3)
  obtain q where q: "q \<in> guest_paths" "path_parent (base @ ''/'' @ rel) = Some q" by auto
  have "join_guest_path base rel = Inr (base @ ''/'' @ rel)"
    using assms(1,2) unfolding join_guest_path_iff by simp
  from join_valid [OF this] q assms(3) show ?thesis
    unfolding push_file_def push_request_def validate_guest_path_iff [symmetric]
    by (simp add: exec_request_def Let_def)
qed

lemma inject_dirs_ok:
  assumes "dest \<in> guest_paths" and "list_all (\<lambda>(p, r). validate_relative_guest_path r = Inr ()) ds"
    and "\<forall>q. gx q"
  shows "inject_dirs gx dest ds tr = (Inr (), tr @ map (\<lambda>(p, r). mkdir_request (dest @ ''/'' @ r)) ds)"
  using assms(2)
proof (induction ds arbitrary: tr)
  case (Cons d ds)
  obtain p r where d: "d = (p, r)" by force
  with Cons.prems assms(1) have j: "join_guest_path dest r = Inr (dest @ ''/'' @ r)"
    unfolding join_guest_path_iff by simp
  then have "dest @ ''/'' @ r \<in> guest_paths" using join_valid validate_guest_path_iff by blast
  with ensure_dir_ok [of _ gx tr] assms(3)
  have "ensure_dir gx (dest @ ''/'' @ r) tr = (Inr (), tr @ [mkdir_request (dest @ ''/'' @ r)])" by blast
  with j d Cons show ?case by simp
qed simp

lemma inject_files_ok:
  assumes "dest \<in> guest_paths"
    and "list_all (\<lambda>(p, r, md). validate_relative_guest_path r = Inr () \<and> hr p = Some (content p)) fs"
    and "\<forall>q. gx q"
  shows "inject_files gx hr dest fs tr =
    (Inr (), tr @ map (\<lambda>(p, r, md). push_request (dest @ ''/'' @ r) (content p) md) fs)"
  using assms(2)
proof (induction fs arbitrary: tr)
  case (Cons f fs)
  obtain p r md where f: "f = (p, r, md)" by (cases f) auto
  with Cons.prems assms(1) have j: "join_guest_path dest r = Inr (dest @ ''/'' @ r)"
    unfolding join_guest_path_iff by simp
  from f Cons.prems push_file_ok [OF assms(1), of r gx "content p" md tr] assms(3)
  have "push_file gx (dest @ ''/'' @ r) (content p) md tr =
      (Inr (), tr @ [push_request (dest @ ''/'' @ r) (content p) md])" by simp
  with j f Cons show ?case by simp
qed simp

text \<open>
  Injecting a scanned directory whose relative paths are all acceptable, into a guest that
  accepts every request, creates the destination, then every directory, then writes every
  file, with its content and mode, beneath the destination; no other request is sent. A scan
  that met a symbolic link is rejected before anything reaches the guest.
\<close>
theorem inject_from_scan_requests:
  assumes "dest \<in> guest_paths" and "\<forall>q. gx q"
    and "list_all (\<lambda>(p, r). validate_relative_guest_path r = Inr ()) (sc_dirs sc)"
    and "list_all (\<lambda>(p, r, md). validate_relative_guest_path r = Inr () \<and> hr p = Some (content p)) (sc_files sc)"
  shows "inject_from_scan gx hr dest sc tr =
    (case sc_symlinks sc of
       l # _ \<Rightarrow> (Inl (SymlinkNotSupported l), tr)
     | [] \<Rightarrow> (Inr (), tr @ [mkdir_request dest] @
         map (\<lambda>(p, r). mkdir_request (dest @ ''/'' @ r)) (sc_dirs sc) @
         map (\<lambda>(p, r, md). push_request (dest @ ''/'' @ r) (content p) md) (sc_files sc)))"
proof -
  have "ensure_dir gx dest tr = (Inr (), tr @ [mkdir_request dest])"
    using ensure_dir_ok assms(1,2) by blast
  then show ?thesis
    using inject_dirs_ok [OF assms(1,3,2)] inject_files_ok [OF assms(1,4,2)]
    by (simp add: inject_from_scan_def split: list.split)
qed

definition demo_tree :: "(string \<times> fs_node) list" where
  "demo_tree = [(''conf.d'', DirNode [(''a.conf'', FileNode 33188 ''x'')]), (''app.yaml'', FileNode 33152 ''yy'')]"

theorem inject_from_scan_requests_witness:
  "map_sum id (\<lambda>sc. inject_from_scan (\<lambda>_. True) (\<lambda>p. Some p) ''/run/kuasar/storage3'' sc [])
     (scan_dir (\<lambda>_. False) ''/host/cm'' demo_tree) =
   Inr (Inr (), [mkdir_request ''/run/kuasar/storage3'', mkdir_request ''/run/kuasar/storage3/conf.d'',
     push_request ''/run/kuasar/storage3/app.yaml'' ''/host/cm/app.yaml'' 384,
     push_request ''/run/kuasar/storage3/conf.d/a.conf'' ''/host/cm/conf.d/a.conf'' 420])"
proof -
  let ?sc = "\<lparr>file_count = 2, total_bytes = 3, sc_dirs = [(''/host/cm/conf.d'', ''conf.d'')],
    sc_files = [(''/host/cm/app.yaml'', ''app.yaml'', 384), (''/host/cm/conf.d/a.conf'', ''conf.d/a.conf'', 420)],
    sc_symlinks = []\<rparr>"
  have scan: "scan_dir (\<lambda>_. False) ''/host/cm'' demo_tree = Inr ?sc"
    by (simp add: scan_dir_def demo_tree_def empty_scan_def path_push_def rel_push_def Let_def)
  have "validate_guest_path ''/run/kuasar/storage3'' = Inr ()" by code_simp
  moreover have "list_all (\<lambda>(p, r). validate_relative_guest_path r = Inr ()) (sc_dirs ?sc)" by code_simp
  moreover have "list_all (\<lambda>(p, r, md). validate_relative_guest_path r = Inr () \<and> Some p = Some (id p)) (sc_files ?sc)"
    by code_simp
  ultimately have "inject_from_scan (\<lambda>_. True) (\<lambda>p. Some p) ''/run/kuasar/storage3'' ?sc [] =
      (Inr (), [mkdir_request ''/run/kuasar/storage3''] @
         map (\<lambda>(p, r). mkdir_request (''/run/kuasar/storage3'' @ ''/'' @ r)) (sc_dirs ?sc) @
         map (\<lambda>(p, r, md). push_request (''/run/kuasar/storage3'' @ ''/'' @ r) (id p) md) (sc_files ?sc))"
    using inject_from_scan_requests [of "''/run/kuasar/storage3''" "\<lambda>_. True" ?sc "\<lambda>p. Some p" id "[]"]
    unfolding validate_guest_path_iff by simp
  then show ?thesis unfolding scan by simp
qed

end
