(* ===== verification/Resources.thy ===== *)
theory Resources
  imports Prelude "HOL-Library.Signed_Division"
begin

text \<open>
  Resource limits of a sandbox (\<^verbatim>\<open>vmm/sandbox/src/utils.rs\<close>): merging the limits of the
  containers with the overhead of the sandbox, and the little language of CPU sets. The 64-bit
  fields are words, so the arithmetic wraps as the release build does; CPU numbers are \<open>u32\<close>.
\<close>

section \<open>CPU sets\<close>

type_synonym cpu_range = "nat \<times> nat"

datatype cpuset_error = CpusetFormatError

definition merge_cpuset :: "cpu_range \<Rightarrow> cpu_range \<Rightarrow> cpu_range" where
  "merge_cpuset base delta =
     (let (low, high) = base in
      if snd delta < low then (low, high)
      else if fst delta > high then (low, high)
      else (if fst delta < low then fst delta else low, if snd delta > high then snd delta else high))"

definition cpuset_intersect :: "cpu_range \<Rightarrow> cpu_range \<Rightarrow> bool" where
  "cpuset_intersect c1 c2 = (if snd c2 < fst c1 then False else if fst c2 > snd c1 then False else True)"

definition cpuset_one_part :: "string \<Rightarrow> cpuset_error + cpu_range" where
  "cpuset_one_part cpuset =
     (let parts = split_on (CHR ''-'') cpuset in
      case parse_uint u32_max (trim (parts ! 0)) of
        None \<Rightarrow> Inl CpusetFormatError
      | Some low \<Rightarrow>
          (if length parts = 2
           then (case parse_uint u32_max (trim (parts ! 1)) of
                   None \<Rightarrow> Inl CpusetFormatError
                 | Some high \<Rightarrow> Inr (low, high))
           else Inr (low, low)))"

fun cpuset_parse :: "string list \<Rightarrow> cpuset_error + cpu_range list" where
  "cpuset_parse [] = Inr []"
| "cpuset_parse (ps # pss) =
     (case cpuset_one_part ps of
        Inl e \<Rightarrow> Inl e
      | Inr r \<Rightarrow> (case cpuset_parse pss of Inl e \<Rightarrow> Inl e | Inr rs \<Rightarrow> Inr (r # rs)))"

definition cpuset_parts :: "string \<Rightarrow> cpuset_error + cpu_range list" where
  "cpuset_parts cpuset = (if trim cpuset = [] then Inr [] else cpuset_parse (split_on (CHR '','') cpuset))"

definition cpuset_tostring :: "cpu_range \<Rightarrow> string" where
  "cpuset_tostring r =
     (if fst r = snd r then show_nat (fst r) else show_nat (fst r) @ ''-'' @ show_nat (snd r))"

fun add_missing :: "cpu_range list \<Rightarrow> cpu_range list \<Rightarrow> cpu_range list" where
  "add_missing [] parts = parts"
| "add_missing (r # rs) parts =
     add_missing rs (if list_ex (cpuset_intersect r) parts then parts else parts @ [r])"

definition merge_parts :: "cpu_range list \<Rightarrow> cpu_range list \<Rightarrow> cpu_range list" where
  "merge_parts ps1 ps2 = add_missing ps2 (map (\<lambda>p. fold (\<lambda>d base. merge_cpuset base d) ps2 p) ps1)"

definition merge_cpusets :: "string \<Rightarrow> string \<Rightarrow> cpuset_error + string" where
  "merge_cpusets cpusets1 cpusets2 =
     (case cpuset_parts cpusets1 of
        Inl e \<Rightarrow> Inl e
      | Inr ps1 \<Rightarrow>
          (case cpuset_parts cpusets2 of
             Inl e \<Rightarrow> Inl e
           | Inr ps2 \<Rightarrow> Inr (join_with '','' (map cpuset_tostring (merge_parts ps1 ps2)))))"

section \<open>Limits\<close>

record hugepage_limit =
  hl_page_size :: string
  hl_limit :: "64 word"

record container_resources =
  lr_cpu_period :: "64 word"
  lr_cpu_quota :: "64 word"
  lr_cpu_shares :: "64 word"
  lr_memory_limit_in_bytes :: "64 word"
  lr_oom_score_adj :: "64 word"
  lr_cpuset_cpus :: string
  lr_cpuset_mems :: string
  lr_hugepage_limits :: "hugepage_limit list"
  lr_unified :: "(string, string) hmap"
  lr_memory_swap_limit_in_bytes :: "64 word"

text \<open>\<open>i64\<close> division: truncated, and wrapping on overflow\<close>

definition i64_div :: "64 word \<Rightarrow> 64 word \<Rightarrow> 64 word" where
  "i64_div a b = word_of_int (sint a sdiv sint b)"

fun merge_hugepages :: "hugepage_limit list \<Rightarrow> hugepage_limit list \<Rightarrow> hugepage_limit list" where
  "merge_hugepages [] ls = ls"
| "merge_hugepages (h # hs) ls =
     (let found = False;
          ls' = map (\<lambda>l. if hl_page_size l = hl_page_size h then l\<lparr>hl_limit := hl_limit l + hl_limit h\<rparr> else l) ls
      in merge_hugepages hs (if \<not> found then ls' @ [h] else ls'))"

definition merge_unified :: "(string, string) hmap \<Rightarrow> (string, string) hmap \<Rightarrow> (string, string) hmap" where
  "merge_unified u1 u2 = fold (\<lambda>(k, v) u. if hm_contains u k then u else hm_insert k v u) u2 u1"

definition merge_cpusets_or_first :: "string \<Rightarrow> string \<Rightarrow> string" where
  "merge_cpusets_or_first c1 c2 = (case merge_cpusets c1 c2 of Inr c \<Rightarrow> c | Inl _ \<Rightarrow> c1)"

definition merge_resources :: "container_resources \<Rightarrow> container_resources \<Rightarrow> container_resources" where
  "merge_resources r1 r2 =
     \<lparr>lr_cpu_period = lr_cpu_period r1,
      lr_cpu_quota =
        (if lr_cpu_period r2 \<noteq> 0
         then lr_cpu_quota r1 + i64_div (lr_cpu_quota r2 * lr_cpu_period r1) (lr_cpu_period r2)
         else lr_cpu_quota r1),
      lr_cpu_shares = lr_cpu_shares r1 + lr_cpu_shares r2,
      lr_memory_limit_in_bytes = lr_memory_limit_in_bytes r1 + lr_memory_limit_in_bytes r2,
      lr_oom_score_adj =
        (if lr_oom_score_adj r2 <s lr_oom_score_adj r1 then lr_oom_score_adj r1 else lr_oom_score_adj r2),
      lr_cpuset_cpus = merge_cpusets_or_first (lr_cpuset_cpus r1) (lr_cpuset_cpus r2),
      lr_cpuset_mems = merge_cpusets_or_first (lr_cpuset_mems r1) (lr_cpuset_mems r2),
      lr_hugepage_limits = merge_hugepages (lr_hugepage_limits r2) (lr_hugepage_limits r1),
      lr_unified = merge_unified (lr_unified r1) (lr_unified r2),
      lr_memory_swap_limit_in_bytes = lr_memory_swap_limit_in_bytes r1 + lr_memory_swap_limit_in_bytes r2\<rparr>"

text \<open>The part of the sandbox configuration that carries limits\<close>

record linux_config =
  lc_resources :: "container_resources option"
  lc_overhead :: "container_resources option"

definition get_resources :: "linux_config option \<Rightarrow> container_resources option" where
  "get_resources c = Option.bind c lc_resources"

definition get_overhead_resources :: "linux_config option \<Rightarrow> container_resources option" where
  "get_overhead_resources c = Option.bind c lc_overhead"

definition get_total_resources :: "linux_config option \<Rightarrow> container_resources option" where
  "get_total_resources c =
     Option.bind c (\<lambda>l.
       Option.bind (lc_resources l) (\<lambda>r.
         case lc_overhead l of None \<Rightarrow> Some r | Some ov \<Rightarrow> Some (merge_resources r ov)))"

section \<open>The CPUs of a merged set\<close>

definition cpus :: "cpu_range list \<Rightarrow> nat set" where
  "cpus rs = (\<Union>(a, b) \<in> set rs. {a..b})"

definition cpus_of :: "string \<Rightarrow> nat set" where
  "cpus_of s = (case cpuset_parts s of Inl _ \<Rightarrow> {} | Inr rs \<Rightarrow> cpus rs)"

definition range_ok :: "cpu_range \<Rightarrow> bool" where
  "range_ok r \<longleftrightarrow> fst r \<le> snd r \<and> snd r \<le> u32_max"

fun disjoint_ranges :: "cpu_range list \<Rightarrow> bool" where
  "disjoint_ranges [] = True"
| "disjoint_ranges (r # rs) = (list_all (\<lambda>q. \<not> cpuset_intersect r q) rs \<and> disjoint_ranges rs)"

lemma cpus_simps [simp]: "cpus [] = {}" "cpus (r # rs) = {fst r..snd r} \<union> cpus rs" "cpus (rs @ qs) = cpus rs \<union> cpus qs"
  by (auto simp: cpus_def)

lemma cpuset_intersect_iff:
  "range_ok r \<Longrightarrow> range_ok q \<Longrightarrow> cpuset_intersect r q \<longleftrightarrow> {fst r..snd r} \<inter> {fst q..snd q} \<noteq> {}"
proof -
  assume "range_ok r" "range_ok q"
  then have "{fst r..snd r} \<inter> {fst q..snd q} = {} \<longleftrightarrow> snd r < fst q \<or> snd q < fst r"
    unfolding range_ok_def atLeastatMost_empty_iff Int_atLeastAtMost by auto
  then show ?thesis by (auto simp: cpuset_intersect_def)
qed

lemma merge_cpuset_range:
  assumes "range_ok p" and "range_ok d"
  shows "range_ok (merge_cpuset p d) \<and>
    {fst (merge_cpuset p d)..snd (merge_cpuset p d)} =
      {fst p..snd p} \<union> (if cpuset_intersect d p then {fst d..snd d} else {})"
proof -
  obtain a b c e where "p = (a, b)" "d = (c, e)" by (metis surj_pair)
  with assms show ?thesis
    by (auto simp: merge_cpuset_def cpuset_intersect_def range_ok_def)
qed
abbreviation span :: "cpu_range \<Rightarrow> nat set" where
  "span r \<equiv> {fst r..snd r}"

abbreviation grow :: "cpu_range list \<Rightarrow> cpu_range \<Rightarrow> cpu_range" where
  "grow ds p \<equiv> fold (\<lambda>d base. merge_cpuset base d) ds p"

lemma disjoint_spans:
  "disjoint_ranges (d # ds) \<Longrightarrow> list_all range_ok (d # ds) \<Longrightarrow> e \<in> set ds \<Longrightarrow> span e \<inter> span d = {}"
  using cpuset_intersect_iff [of d e] by (auto simp: list_all_iff)

lemma disjoint_ranges_spans:
  "list_all range_ok ds \<Longrightarrow> disjoint_ranges ds \<Longrightarrow> d \<in> set ds \<Longrightarrow> r \<in> set ds \<Longrightarrow>
   span r \<inter> span d = {} \<or> d = r"
proof (induction ds)
  case (Cons e ds)
  note disj = disjoint_spans [OF Cons.prems(2,1)]
  show ?case
  proof (cases "d = e \<or> r = e")
    case True
    then show ?thesis using disj Cons.prems(3,4) by (auto simp: Int_commute)
  next
    case False
    then show ?thesis using Cons by simp
  qed
qed simp

lemma grow_span:
  assumes "range_ok p" and "list_all range_ok ds" and "disjoint_ranges ds"
  shows "range_ok (grow ds p) \<and> span (grow ds p) = span p \<union> \<Union> (span ` {d \<in> set ds. span d \<inter> span p \<noteq> {}})"
  using assms
proof (induction ds arbitrary: p)
  case (Cons d ds)
  have d: "range_ok d" and ds: "list_all range_ok ds" "disjoint_ranges ds" using Cons.prems by simp_all
  let ?q = "merge_cpuset p d"
  have q: "range_ok ?q" "span ?q = span p \<union> (if span d \<inter> span p \<noteq> {} then span d else {})"
    using merge_cpuset_range [OF Cons.prems(1) d] cpuset_intersect_iff [OF d Cons.prems(1)] by auto
  have same: "{e \<in> set ds. span e \<inter> span ?q \<noteq> {}} = {e \<in> set ds. span e \<inter> span p \<noteq> {}}"
    using disjoint_spans [OF Cons.prems(3,2)] q(2) by (auto simp: Int_Un_distrib split: if_splits)
  from Cons.IH [OF q(1) ds]
  have IH: "range_ok (grow ds ?q)" "span (grow ds ?q) = span ?q \<union> \<Union> (span ` {e \<in> set ds. span e \<inter> span p \<noteq> {}})"
    unfolding same by blast+
  have "{e \<in> set (d # ds). span e \<inter> span p \<noteq> {}} =
      (if span d \<inter> span p \<noteq> {} then {d} else {}) \<union> {e \<in> set ds. span e \<inter> span p \<noteq> {}}" by auto
  with IH q(2) show ?case by (auto split: if_splits)
qed simp

lemma add_missing_cpus:
  assumes "list_all range_ok rs" and "disjoint_ranges rs" and "list_all range_ok parts"
  shows "list_all range_ok (add_missing rs parts) \<and>
    cpus (add_missing rs parts) = cpus parts \<union> \<Union> (span ` {r \<in> set rs. \<forall>p \<in> set parts. span r \<inter> span p = {}})"
  using assms
proof (induction rs arbitrary: parts)
  case (Cons r rs)
  have r: "range_ok r" and rs: "list_all range_ok rs" "disjoint_ranges rs" using Cons.prems by simp_all
  have hit: "list_ex (cpuset_intersect r) parts \<longleftrightarrow> (\<exists>p \<in> set parts. span r \<inter> span p \<noteq> {})"
    using cpuset_intersect_iff [OF r] Cons.prems(3) by (auto simp: list_ex_iff list_all_iff)
  show ?case
  proof (cases "list_ex (cpuset_intersect r) parts")
    case True
    then have "{q \<in> set (r # rs). \<forall>p \<in> set parts. span q \<inter> span p = {}} = {q \<in> set rs. \<forall>p \<in> set parts. span q \<inter> span p = {}}"
      using hit by auto
    with True Cons.IH [OF rs Cons.prems(3)] show ?thesis by simp
  next
    case False
    have "{q \<in> set rs. \<forall>p \<in> set (parts @ [r]). span q \<inter> span p = {}} = {q \<in> set rs. \<forall>p \<in> set parts. span q \<inter> span p = {}}"
      using disjoint_spans [OF Cons.prems(2,1)] by auto
    moreover have "{q \<in> set (r # rs). \<forall>p \<in> set parts. span q \<inter> span p = {}} =
        insert r {q \<in> set rs. \<forall>p \<in> set parts. span q \<inter> span p = {}}"
      using False hit by auto
    ultimately show ?thesis
      using False r Cons.prems(3) Cons.IH [OF rs, of "parts @ [r]"] by auto
  qed
qed simp

lemma merge_parts_cpus:
  assumes "list_all range_ok ps1" and "list_all range_ok ps2" and "disjoint_ranges ps2"
  shows "list_all range_ok (merge_parts ps1 ps2) \<and> cpus (merge_parts ps1 ps2) = cpus ps1 \<union> cpus ps2"
proof -
  let ?P = "map (grow ps2) ps1"
  have g: "range_ok (grow ps2 p)" "span (grow ps2 p) = span p \<union> \<Union> (span ` {d \<in> set ps2. span d \<inter> span p \<noteq> {}})"
    if "p \<in> set ps1" for p
    using grow_span [OF _ assms(2,3)] assms(1) that by (auto simp: list_all_iff)
  have P: "list_all range_ok ?P" using g(1) by (simp add: list_all_iff)
  note A = add_missing_cpus [OF assms(2,3) P]
  have U: "cpus qs = \<Union> (span ` set qs)" for qs by (auto simp: cpus_def)
  have "cpus ?P = (\<Union>p \<in> set ps1. span (grow ps2 p))" by (simp add: U)
  also have "\<dots> = (\<Union>p \<in> set ps1. span p \<union> \<Union> (span ` {d \<in> set ps2. span d \<inter> span p \<noteq> {}}))"
    using g(2) by (intro SUP_cong refl) blast
  finally have cP: "cpus ?P = (\<Union>p \<in> set ps1. span p \<union> \<Union> (span ` {d \<in> set ps2. span d \<inter> span p \<noteq> {}}))" .
  have miss: "span r \<inter> span (grow ps2 p) = {} \<or> span r \<subseteq> cpus ?P" if "p \<in> set ps1" "r \<in> set ps2" for p r
  proof (cases "span r \<inter> span p = {}")
    case True
    have "span r \<inter> span d = {}" if "d \<in> {d \<in> set ps2. span d \<inter> span p \<noteq> {}}" for d
    proof -
      have "d \<in> set ps2" and "d \<noteq> r" using that True by auto
      then show ?thesis using disjoint_ranges_spans [OF assms(2,3)] \<open>r \<in> set ps2\<close> by blast
    qed
    then have "span r \<inter> \<Union> (span ` {d \<in> set ps2. span d \<inter> span p \<noteq> {}}) = {}"
      unfolding Int_UN_distrib UNION_empty_conv by (intro ballI)
    with True show ?thesis unfolding g(2) [OF that(1)] Int_Un_distrib by simp
  next
    case False
    then show ?thesis using that unfolding cP by blast
  qed
  have "cpus (merge_parts ps1 ps2) = cpus ?P \<union> \<Union> (span ` {r \<in> set ps2. \<forall>p \<in> set ?P. span r \<inter> span p = {}})"
    using A unfolding merge_parts_def by blast
  also have "\<dots> = cpus ?P \<union> cpus ps2"
  proof -
    have "span r \<subseteq> cpus ?P \<union> \<Union> (span ` {r \<in> set ps2. \<forall>p \<in> set ?P. span r \<inter> span p = {}})" if "r \<in> set ps2" for r
    proof (cases "\<forall>p \<in> set ?P. span r \<inter> span p = {}")
      case False
      then obtain p where "p \<in> set ps1" "span r \<inter> span (grow ps2 p) \<noteq> {}" unfolding set_map by blast
      with miss that show ?thesis by blast
    qed (use that in blast)
    then show ?thesis unfolding U [of ps2] by blast
  qed
  also have "\<dots> = cpus ps1 \<union> cpus ps2" unfolding cP U [of ps1] U [of ps2] by blast
  finally show ?thesis using A unfolding merge_parts_def by blast
qed

subsection \<open>Printing and parsing\<close>

lemma show_nat_nows: "trim (show_nat n) = show_nat n"
proof (rule trim_notws)
  have "\<not> is_ws c" if "is_digit c" for c using that by (auto simp: is_ws_def is_digit_def)
  then show "show_nat n = [] \<or> (\<not> is_ws (hd (show_nat n)) \<and> \<not> is_ws (last (show_nat n)))"
    using show_nat_digits [of n] by (simp add: list_all_iff)
qed

lemma show_nat_nosep: "CHR ''-'' \<notin> set (show_nat n)" "CHR '','' \<notin> set (show_nat n)"
  by (auto intro!: not_digit_in_show simp: is_digit_def)

lemma cpuset_one_part_tostring: "range_ok r \<Longrightarrow> cpuset_one_part (cpuset_tostring r) = Inr r"
  using split_on_append [OF show_nat_nosep(1), of "fst r" "show_nat (snd r)"] show_nat_nosep(1)
  by (cases r) (auto simp: cpuset_one_part_def cpuset_tostring_def range_ok_def split_on_notin
      show_nat_nows parse_show_nat)

lemma cpuset_parse_tostring: "list_all range_ok rs \<Longrightarrow> cpuset_parse (map cpuset_tostring rs) = Inr rs"
  by (induction rs) (simp_all add: cpuset_one_part_tostring)

lemma trim_hd: "s \<noteq> [] \<Longrightarrow> \<not> is_ws (hd s) \<Longrightarrow> trim s \<noteq> []"
proof -
  assume s: "s \<noteq> []" "\<not> is_ws (hd s)"
  then have "dropWhile is_ws s = s" by (simp add: dropWhile_eq_self_iff)
  moreover have "dropWhile is_ws (rev s) \<noteq> []" using s hd_in_set by (fastforce simp: dropWhile_eq_Nil_conv)
  ultimately show ?thesis by (simp add: trim_def)
qed

lemma cpuset_parts_join:
  assumes "list_all range_ok rs"
  shows "cpuset_parts (join_with '','' (map cpuset_tostring rs)) = Inr rs"
proof (cases rs)
  case Nil
  then show ?thesis by (simp add: cpuset_parts_def trim_def)
next
  case (Cons r rs')
  let ?s = "join_with '','' (map cpuset_tostring rs)"
  have nosep: "CHR '','' \<notin> set (cpuset_tostring q)" for q
    using show_nat_nosep(2) by (auto simp: cpuset_tostring_def)
  then have split: "split_on (CHR '','') ?s = map cpuset_tostring rs"
    using Cons by (intro split_join) auto
  obtain c cs where c: "show_nat (fst r) = c # cs" by (cases "show_nat (fst r)") auto
  then have "is_digit c" using show_nat_digits [of "fst r"] by simp
  then have ws: "\<not> is_ws c" by (auto simp: is_ws_def is_digit_def)
  have "\<exists>t. cpuset_tostring r = c # t" using c by (metis append_Cons cpuset_tostring_def)
  then have "\<exists>t. ?s = c # t" using Cons by (cases rs') auto
  then have "trim ?s \<noteq> []" using ws trim_hd by force
  then show ?thesis using split cpuset_parse_tostring [OF assms] by (simp add: cpuset_parts_def)
qed

lemma is_ws_of_char: "is_ws c \<longleftrightarrow> (of_char c :: nat) \<in> {9, 10, 11, 12, 13, 32}"
proof
  show "is_ws c \<Longrightarrow> (of_char c :: nat) \<in> {9, 10, 11, 12, 13, 32}" by (auto simp: is_ws_def)
  assume "(of_char c :: nat) \<in> {9, 10, 11, 12, 13, 32}"
  moreover have "c = char_of (of_char c :: nat)" by simp
  ultimately have "c \<in> char_of ` {9, 10, 11, 12, 13, 32 :: nat}" by (rule rev_image_eqI)
  then show "is_ws c" by (auto simp: is_ws_def)
qed

lemmas cpuset_run_defs =
  cpuset_parts_def cpuset_one_part_def parse_uint_def dec_val_def digit_val_def is_digit_def
  trim_def is_ws_of_char

text \<open>
  Merging two CPU sets gives the union. When both texts parse to proper ranges and the ranges
  of the second one do not overlap each other, the merged text parses again, to proper ranges,
  and names exactly the CPUs of either text.
\<close>
theorem merge_cpusets_union:
  assumes "cpuset_parts s1 = Inr ps1" and "cpuset_parts s2 = Inr ps2"
    and "list_all range_ok ps1" and "list_all range_ok ps2" and "disjoint_ranges ps2"
  shows "\<exists>s. merge_cpusets s1 s2 = Inr s \<and> cpus_of s = cpus_of s1 \<union> cpus_of s2"
  using merge_parts_cpus [OF assms(3-5)] cpuset_parts_join [of "merge_parts ps1 ps2"] assms(1,2)
  by (simp add: merge_cpusets_def cpus_of_def)

theorem merge_cpusets_union_witness:
  "\<exists>s. merge_cpusets ''0-3,8'' ''2-5,9'' = Inr s \<and> cpus_of s = cpus_of ''0-3,8'' \<union> cpus_of ''2-5,9''"
  by (rule merge_cpusets_union [of _ "[(0, 3), (8, 8)]" _ "[(2, 5), (9, 9)]"])
    (simp_all add: cpuset_run_defs range_ok_def cpuset_intersect_def)

text \<open>
  Without the hypothesis on the second text CPUs can get lost: merging \<open>8-9,6-8\<close> into
  \<open>5-6\<close> grows the first range over 8 after 9 was passed over, and drops CPU 9.
\<close>

lemma merge_cpusets_loses_cpu:
  "merge_cpusets ''5-6'' ''8-9,6-8'' = Inr ''5-8'' \<and> 9 \<in> cpus_of ''8-9,6-8'' \<and> 9 \<notin> cpus_of ''5-8''"
  by (simp add: merge_cpusets_def merge_parts_def merge_cpuset_def cpuset_tostring_def cpus_of_def
      cpuset_run_defs cpuset_intersect_def show_nat.simps digit_char_def char_of_def bit_0)

text \<open>A malformed range with two dashes is read as its first number only.\<close>

lemma cpuset_two_dashes: "cpuset_parts ''0-3-5'' = Inr [(0, 0)]"
  by (simp add: cpuset_run_defs)

section \<open>Merged limits\<close>

text \<open>
  The flag \<open>found\<close> is never set, so the limit of a page size both sides name is added to the
  existing entry and then listed a second time.
\<close>

lemma merge_hugepages_duplicates:
  "merge_hugepages [\<lparr>hl_page_size = ''2MB'', hl_limit = 1\<rparr>] [\<lparr>hl_page_size = ''2MB'', hl_limit = 3\<rparr>] =
   [\<lparr>hl_page_size = ''2MB'', hl_limit = 4\<rparr>, \<lparr>hl_page_size = ''2MB'', hl_limit = 1\<rparr>]"
  by simp

lemma sint_small: "- (2 ^ 63) \<le> i \<Longrightarrow> i < 2 ^ 63 \<Longrightarrow> sint (word_of_int i :: 64 word) = i"
  unfolding sint_sbintrunc' by (rule signed_take_bit_int_eq_self) simp_all

lemma of_int_sint: "word_of_int (sint w) = w" for w :: "64 word"
  by simp

text \<open>
  The CPU quota of the merged limits is the sum of the two bandwidths at the period of the
  first, rounded down: for quotas and periods that are not negative and whose products fit in
  64 bits, the merged quota \<open>q\<close> satisfies \<open>q * p2 \<le> q1 * p2 + q2 * p1 < (q + 1) * p2\<close>.
\<close>
theorem merge_resources_quota:
  assumes "0 < sint (lr_cpu_period r2)" and "0 \<le> sint (lr_cpu_period r1)"
    and "0 \<le> sint (lr_cpu_quota r1)" and "0 \<le> sint (lr_cpu_quota r2)"
    and "sint (lr_cpu_quota r2) * sint (lr_cpu_period r1) < 2 ^ 62" and "sint (lr_cpu_quota r1) < 2 ^ 62"
  shows "let q = sint (lr_cpu_quota (merge_resources r1 r2)); t = sint (lr_cpu_quota r1) * sint (lr_cpu_period r2) +
      sint (lr_cpu_quota r2) * sint (lr_cpu_period r1)
    in q * sint (lr_cpu_period r2) \<le> t \<and> t < (q + 1) * sint (lr_cpu_period r2)"
proof -
  define p1 p2 q1 q2 where "p1 = sint (lr_cpu_period r1)" and "p2 = sint (lr_cpu_period r2)"
    and "q1 = sint (lr_cpu_quota r1)" and "q2 = sint (lr_cpu_quota r2)"
  note D = p1_def p2_def q1_def q2_def
  have H: "0 < p2" "0 \<le> p1" "0 \<le> q1" "0 \<le> q2" "q2 * p1 < 2 ^ 62" "q1 < 2 ^ 62"
    using assms unfolding D by blast+
  have m: "0 \<le> q2 * p1" using H by simp
  have "lr_cpu_quota r2 * lr_cpu_period r1 = word_of_int (q2 * p1)"
    unfolding D by (metis of_int_sint wi_hom_mult)
  then have prod: "sint (lr_cpu_quota r2 * lr_cpu_period r1) = q2 * p1"
    using sint_small [of "q2 * p1"] H m by simp
  have quot: "q2 * p1 sdiv p2 = (q2 * p1) div p2" using H m by (simp add: signed_divide_int_def sgn_if)
  have "(q2 * p1) div p2 \<le> q2 * p1"
    using int_div_le_self [of "q2 * p1" p2] m by (cases "q2 * p1 = 0") auto
  moreover have "0 \<le> (q2 * p1) div p2" using H m by (simp add: pos_imp_zdiv_nonneg_iff)
  ultimately have small: "q1 + (q2 * p1) div p2 < 2 ^ 63" "0 \<le> q1 + (q2 * p1) div p2"
    using H(3,5,6) by auto
  have "lr_cpu_period r2 \<noteq> 0" using H(1) unfolding D by auto
  then have "lr_cpu_quota (merge_resources r1 r2) = lr_cpu_quota r1 + word_of_int ((q2 * p1) div p2)"
    using prod quot by (simp add: merge_resources_def i64_div_def D)
  also have "\<dots> = word_of_int (q1 + (q2 * p1) div p2)" unfolding D by (metis of_int_sint wi_hom_add)
  finally have q: "sint (lr_cpu_quota (merge_resources r1 r2)) = q1 + (q2 * p1) div p2"
    using sint_small [of "q1 + (q2 * p1) div p2"] small by simp
  define n d where "n = q2 * p1" and "d = n div p2"
  have "n = d * p2 + n mod p2" by (simp add: d_def)
  moreover have "0 \<le> n mod p2" "n mod p2 < p2" using H(1) by simp_all
  moreover have "(q1 + d) * p2 = q1 * p2 + d * p2" "(q1 + d + 1) * p2 = q1 * p2 + d * p2 + p2"
    by (simp_all add: algebra_simps)
  ultimately show ?thesis unfolding q Let_def D [symmetric] n_def [symmetric] d_def [symmetric] by linarith
qed

definition demo_resources :: "64 word \<Rightarrow> 64 word \<Rightarrow> container_resources" where
  "demo_resources period quota =
     \<lparr>lr_cpu_period = period, lr_cpu_quota = quota, lr_cpu_shares = 0, lr_memory_limit_in_bytes = 0,
      lr_oom_score_adj = 0, lr_cpuset_cpus = [], lr_cpuset_mems = [], lr_hugepage_limits = [],
      lr_unified = [], lr_memory_swap_limit_in_bytes = 0\<rparr>"

theorem merge_resources_quota_witness:
  "let q = sint (lr_cpu_quota (merge_resources (demo_resources 100000 150000) (demo_resources 30000 10000)))
   in q * 30000 \<le> 150000 * 30000 + 10000 * 100000 \<and> 150000 * 30000 + 10000 * 100000 < (q + 1) * 30000"
  using merge_resources_quota [of "demo_resources 30000 10000" "demo_resources 100000 150000"]
  by (simp add: demo_resources_def)

end
