(* ===== verification/Mounts.thy ===== *)
theory Mounts
  imports Storage
begin

text \<open>
  Mount options and mount tables: \<^verbatim>\<open>vmm/common/src/mount.rs\<close> (option parsing and the sequence of
  mount system calls) and \<^verbatim>\<open>vmm/sandbox/src/storage/mount.rs\<close> (classification of mounts and the
  lookup in \<open>/proc/self/mountinfo\<close>). Mount flags are 64-bit words with the values of the Linux
  ABI. The system calls are a trace; an oracle tells which of them fail.
\<close>

unbundle bit_operations_syntax

section \<open>Mount options\<close>

type_synonym ms_flags = "64 word"

definition MS_RDONLY :: ms_flags where "MS_RDONLY = 0x1"
definition MS_NOSUID :: ms_flags where "MS_NOSUID = 0x2"
definition MS_NODEV :: ms_flags where "MS_NODEV = 0x4"
definition MS_NOEXEC :: ms_flags where "MS_NOEXEC = 0x8"
definition MS_SYNCHRONOUS :: ms_flags where "MS_SYNCHRONOUS = 0x10"
definition MS_REMOUNT :: ms_flags where "MS_REMOUNT = 0x20"
definition MS_MANDLOCK :: ms_flags where "MS_MANDLOCK = 0x40"
definition MS_DIRSYNC :: ms_flags where "MS_DIRSYNC = 0x80"
definition MS_NOATIME :: ms_flags where "MS_NOATIME = 0x400"
definition MS_NODIRATIME :: ms_flags where "MS_NODIRATIME = 0x800"
definition MS_BIND :: ms_flags where "MS_BIND = 0x1000"
definition MS_REC :: ms_flags where "MS_REC = 0x4000"
definition MS_SILENT :: ms_flags where "MS_SILENT = 0x8000"
definition MS_UNBINDABLE :: ms_flags where "MS_UNBINDABLE = 0x20000"
definition MS_PRIVATE :: ms_flags where "MS_PRIVATE = 0x40000"
definition MS_SLAVE :: ms_flags where "MS_SLAVE = 0x80000"
definition MS_SHARED :: ms_flags where "MS_SHARED = 0x100000"
definition MS_RELATIME :: ms_flags where "MS_RELATIME = 0x200000"
definition MS_STRICTATIME :: ms_flags where "MS_STRICTATIME = 0x1000000"

lemmas ms_defs =
  MS_RDONLY_def MS_NOSUID_def MS_NODEV_def MS_NOEXEC_def MS_SYNCHRONOUS_def MS_REMOUNT_def
  MS_MANDLOCK_def MS_DIRSYNC_def MS_NOATIME_def MS_NODIRATIME_def MS_BIND_def MS_REC_def
  MS_SILENT_def MS_UNBINDABLE_def MS_PRIVATE_def MS_SLAVE_def MS_SHARED_def MS_RELATIME_def
  MS_STRICTATIME_def

record mount_flag =
  mf_clear :: bool
  mf_flags :: ms_flags

abbreviation flag_set :: "ms_flags \<Rightarrow> mount_flag" where
  "flag_set f \<equiv> \<lparr>mf_clear = False, mf_flags = f\<rparr>"

abbreviation flag_clear :: "ms_flags \<Rightarrow> mount_flag" where
  "flag_clear f \<equiv> \<lparr>mf_clear = True, mf_flags = f\<rparr>"

definition mount_flags :: "(string, mount_flag) hmap" where
  "mount_flags =
     [(''async'', flag_clear MS_SYNCHRONOUS),
      (''atime'', flag_clear MS_NOATIME),
      (''bind'', flag_set MS_BIND),
      (''defaults'', flag_set 0),
      (''dev'', flag_clear MS_NODEV),
      (''diratime'', flag_clear MS_NODIRATIME),
      (''dirsync'', flag_set MS_DIRSYNC),
      (''exec'', flag_clear MS_NOEXEC),
      (''mand'', flag_set MS_MANDLOCK),
      (''noatime'', flag_set MS_NOATIME),
      (''nodev'', flag_set MS_NODEV),
      (''nodiratime'', flag_set MS_NODIRATIME),
      (''noexec'', flag_set MS_NOEXEC),
      (''nomand'', flag_clear MS_MANDLOCK),
      (''norelatime'', flag_clear MS_RELATIME),
      (''nostrictatime'', flag_clear MS_STRICTATIME),
      (''nosuid'', flag_set MS_NOSUID),
      (''rbind'', flag_set (MS_BIND OR MS_REC)),
      (''relatime'', flag_set MS_RELATIME),
      (''remount'', flag_set MS_REMOUNT),
      (''ro'', flag_set MS_RDONLY),
      (''rw'', flag_clear MS_RDONLY),
      (''strictatime'', flag_set MS_STRICTATIME),
      (''suid'', flag_clear MS_NOSUID),
      (''sync'', flag_set MS_SYNCHRONOUS),
      (''shared'', flag_set MS_SHARED),
      (''rshared'', flag_set (MS_SHARED OR MS_REC)),
      (''slave'', flag_set MS_SLAVE),
      (''rslave'', flag_set (MS_SLAVE OR MS_REC)),
      (''private'', flag_set MS_PRIVATE),
      (''rprivate'', flag_set (MS_PRIVATE OR MS_REC)),
      (''unbindable'', flag_set MS_UNBINDABLE),
      (''runbindable'', flag_set (MS_UNBINDABLE OR MS_REC))]"

definition PROPAGATION_TYPES :: ms_flags where
  "PROPAGATION_TYPES = MS_SHARED OR MS_PRIVATE OR MS_SLAVE OR MS_UNBINDABLE"

definition MS_PROPAGATION :: ms_flags where
  "MS_PROPAGATION = PROPAGATION_TYPES OR MS_REC OR MS_SILENT"

definition MS_BIND_RO :: ms_flags where
  "MS_BIND_RO = MS_BIND OR MS_RDONLY"

fun handle_option :: "string \<Rightarrow> ms_flags \<times> string list \<Rightarrow> ms_flags \<times> string list" where
  "handle_option x (flags, data) =
     (case hm_get mount_flags x of
        Some f \<Rightarrow> ((if mf_clear f then flags AND NOT (mf_flags f) else flags OR mf_flags f), data)
      | None \<Rightarrow> (flags, data @ [x]))"

definition parse_options :: "string list \<Rightarrow> ms_flags \<times> string list" where
  "parse_options options = fold handle_option options (0, [])"

section \<open>Mounting\<close>

record mount_call =
  mc_source :: "string option"
  mc_target :: string
  mc_fstype :: "string option"
  mc_flags :: ms_flags
  mc_data :: "string option"

datatype mount_error =
    OptionTooLong
  | MountFailed
  | PropagationFailed
  | ReadOnlyFailed
  | UnmountFailed

definition MNT_OPTION_MAX_LEN :: nat where
  "MNT_OPTION_MAX_LEN = 4096"

text \<open>A call that is made is appended to the trace, and reports the error given when it fails.\<close>

definition do_mount ::
  "(mount_call \<Rightarrow> bool) \<Rightarrow> mount_error \<Rightarrow> mount_call \<Rightarrow> mount_call list \<Rightarrow> mount_error option \<times> mount_call list" where
  "do_mount ok e c tr = ((if ok c then None else Some e), tr @ [c])"

definition mount_data :: "string list \<Rightarrow> string option" where
  "mount_data data = (if data = [] then None else Some (join_with '','' data))"

definition mount_fs ::
  "(mount_call \<Rightarrow> bool) \<Rightarrow> string option \<Rightarrow> string option \<Rightarrow> string list \<Rightarrow> string
   \<Rightarrow> mount_error option \<times> mount_call list" where
  "mount_fs ok fs_type source options target =
     (let (flags, data) = parse_options options in
      if length (join_with '','' data) > MNT_OPTION_MAX_LEN then (Some OptionTooLong, [])
      else
        (let d = mount_data data;
             oflags = flags AND NOT PROPAGATION_TYPES;
             is_propagation_only = (flags AND NOT MS_PROPAGATION = 0 \<and> source = None \<and> fs_type = None \<and> d = None)
         in
         case (if \<not> is_propagation_only \<and> (flags AND MS_REMOUNT = 0 \<or> d \<noteq> None)
               then do_mount ok MountFailed
                 \<lparr>mc_source = source, mc_target = target, mc_fstype = fs_type, mc_flags = oflags, mc_data = d\<rparr> []
               else (None, [])) of
           (Some e, tr) \<Rightarrow> (Some e, tr)
         | (None, tr) \<Rightarrow>
             (case (if flags AND PROPAGATION_TYPES \<noteq> 0
                    then do_mount ok PropagationFailed
                      \<lparr>mc_source = None, mc_target = target, mc_fstype = None,
                       mc_flags = flags AND MS_PROPAGATION, mc_data = None\<rparr> tr
                    else (None, tr)) of
                (Some e, tr') \<Rightarrow> (Some e, tr')
              | (None, tr') \<Rightarrow>
                  (if oflags AND MS_BIND_RO = MS_BIND_RO
                   then do_mount ok ReadOnlyFailed
                     \<lparr>mc_source = None, mc_target = target, mc_fstype = None,
                      mc_flags = oflags OR MS_REMOUNT, mc_data = None\<rparr> tr'
                   else (None, tr')))))"

definition bind_mount ::
  "(mount_call \<Rightarrow> bool) \<Rightarrow> string \<Rightarrow> string \<Rightarrow> string list \<Rightarrow> mount_error option \<times> mount_call list" where
  "bind_mount ok source target options =
     (let (flags, data) = parse_options options; d = mount_data data in
      case do_mount ok MountFailed
             \<lparr>mc_source = Some source, mc_target = target, mc_fstype = Some ''bind'',
              mc_flags = flags OR MS_BIND, mc_data = d\<rparr> [] of
        (Some e, tr) \<Rightarrow> (Some e, tr)
      | (None, tr) \<Rightarrow>
          (if flags AND MS_RDONLY = MS_RDONLY
           then do_mount ok ReadOnlyFailed
             \<lparr>mc_source = Some source, mc_target = target, mc_fstype = Some ''bind'',
              mc_flags = flags OR MS_BIND OR MS_REMOUNT, mc_data = d\<rparr> tr
           else (None, tr)))"

text \<open>The error number of \<open>umount2\<close>, if any\<close>

datatype errno = ENOENT | EINVAL | OtherErrno

definition unmount :: "errno option \<Rightarrow> mount_error option" where
  "unmount res =
     (case res of
        None \<Rightarrow> None
      | Some e \<Rightarrow> (if e = ENOENT \<or> e = EINVAL then None else Some UnmountFailed))"

section \<open>The mount table\<close>

record mount_info =
  mi_mount_point :: string
  mi_fs_type :: string
  mi_options :: "string list"

datatype mount_info_error = NoSeparator | FormatError | ReadMountInfoFailed

definition DEV_SHM :: string where "DEV_SHM = ''/dev/shm''"

definition is_bind :: "mount \<Rightarrow> bool" where
  "is_bind m \<longleftrightarrow> m_type m = ''bind'' \<and> m_source m \<noteq> []"

definition is_bind_shm :: "mount \<Rightarrow> bool" where
  "is_bind_shm m \<longleftrightarrow> is_bind m \<and> m_destination m = DEV_SHM"

definition is_overlay :: "mount \<Rightarrow> bool" where
  "is_overlay m \<longleftrightarrow> m_type m = ''overlay''"

definition is_parent_or_eq :: "string \<Rightarrow> string \<Rightarrow> bool" where
  "is_parent_or_eq parent child \<longleftrightarrow>
     parent = child \<or> parent = ''/'' \<or>
     (starts_with parent child \<and> length parent < length child \<and> child ! length parent = CHR ''/'')"

text \<open>\<open>content.lines()\<close>\<close>

definition str_lines :: "string \<Rightarrow> string list" where
  "str_lines s =
     (let ls = split_on (CHR 0x0A) s in
      map (\<lambda>l. if l \<noteq> [] \<and> last l = CHR 0x0D then butlast l else l) (if last ls = [] then butlast ls else ls))"

definition find_separator :: "string list \<Rightarrow> nat option" where
  "find_separator fds = List.find (\<lambda>i. fds ! i = ''-'') [6..<length fds]"

definition push_option :: "string \<Rightarrow> string list \<Rightarrow> string list" where
  "push_option x os = (if x \<noteq> [] \<and> x \<notin> set os then os @ [x] else os)"

fun propagation_field :: "string \<Rightarrow> bool \<times> bool \<times> bool \<Rightarrow> bool \<times> bool \<times> bool" where
  "propagation_field f (shared, slave, unbindable) =
     (if starts_with ''shared:'' f \<or> f = ''shared'' then (True, slave, unbindable)
      else if starts_with ''master:'' f \<or> starts_with ''propagate_from:'' f \<or> f = ''slave''
      then (shared, True, unbindable)
      else if f = ''unbindable'' then (shared, slave, True)
      else (shared, slave, unbindable))"

definition propagation_of :: "string list \<Rightarrow> string" where
  "propagation_of fs =
     (case fold propagation_field fs (False, False, False) of
        (shared, slave, unbindable) \<Rightarrow>
          (if shared then ''shared'' else if slave then ''slave''
           else if unbindable then ''unbindable'' else ''private''))"

definition parse_fields :: "string list \<Rightarrow> mount_info_error + mount_info" where
  "parse_fields fds =
     (case find_separator fds of
        None \<Rightarrow> Inl NoSeparator
      | Some sep \<Rightarrow>
          (if length fds < sep + 4 then Inl FormatError
           else Inr \<lparr>mi_mount_point = fds ! 4, mi_fs_type = fds ! (sep + 1),
                     mi_options = fold push_option
                       (split_on (CHR '','') (fds ! 5) @ split_on (CHR '','') (fds ! (sep + 3))) []
                       @ [propagation_of (drop 6 (take sep fds))]\<rparr>))"

fun parse_lines :: "string list \<Rightarrow> string \<Rightarrow> mount_info option \<Rightarrow> mount_info_error + mount_info option" where
  "parse_lines [] mount_point best = Inr best"
| "parse_lines (l # ls) mount_point best =
     (let fds = split_ws l in
      if length fds < 7 then parse_lines ls mount_point best
      else if \<not> is_parent_or_eq (fds ! 4) mount_point then parse_lines ls mount_point best
      else if (case best of None \<Rightarrow> False | Some prev \<Rightarrow> length (fds ! 4) \<le> length (mi_mount_point prev))
      then parse_lines ls mount_point best
      else (case parse_fields fds of
              Inl e \<Rightarrow> Inl e
            | Inr mi \<Rightarrow> parse_lines ls mount_point (Some mi)))"

definition parse_mount_info_content :: "string \<Rightarrow> string \<Rightarrow> mount_info_error + mount_info option" where
  "parse_mount_info_content content mount_point = parse_lines (str_lines content) mount_point None"

text \<open>The content of the mount table is read from the kernel.\<close>

definition get_mount_info :: "string option \<Rightarrow> string \<Rightarrow> mount_info_error + mount_info option" where
  "get_mount_info table mount_point =
     (if mount_point = [] then Inr None
      else (case table of
              None \<Rightarrow> Inl ReadMountInfoFailed
            | Some content \<Rightarrow> parse_mount_info_content content mount_point))"

text \<open>\<open>o.trim_start_matches(p)\<close> removes every leading occurrence of the pattern.\<close>

function trim_start_matches :: "string \<Rightarrow> string \<Rightarrow> string" where
  "trim_start_matches p s =
     (if p \<noteq> [] \<and> starts_with p s then trim_start_matches p (drop (length p) s) else s)"
  by pat_completeness auto

termination
proof (relation "measure (length \<circ> snd)")
  fix p s :: string
  assume "p \<noteq> [] \<and> starts_with p s"
  then have "0 < length p" and "length p \<le> length s"
    by (auto intro: nat_le_linear dest: arg_cong [of _ _ length])
  then have "length s - length p < length s" by linarith
  then show "((p, drop (length p) s), p, s) \<in> measure (length \<circ> snd)" by simp
qed simp

declare trim_start_matches.simps [simp del]

definition extract_lower_dirs :: "string list \<Rightarrow> string option" where
  "extract_lower_dirs options =
     map_option (trim_start_matches ''lowerdir='') (List.find (starts_with ''lowerdir='') options)"

section \<open>Which option decides a flag\<close>

definition touches :: "nat \<Rightarrow> string \<Rightarrow> bool" where
  "touches n x \<longleftrightarrow> (case hm_get mount_flags x of None \<Rightarrow> False | Some f \<Rightarrow> bit (mf_flags f) n)"

definition sets_flags :: "string \<Rightarrow> bool" where
  "sets_flags x \<longleftrightarrow> (case hm_get mount_flags x of None \<Rightarrow> False | Some f \<Rightarrow> \<not> mf_clear f)"

lemma handle_option_bit:
  "bit (fst (handle_option x (flags, data))) n \<longleftrightarrow> (if touches n x then sets_flags x else bit flags n)"
  by (auto simp: touches_def sets_flags_def bit_simps split: option.splits dest: bit_imp_le_length)

lemma fold_handle_option:
  "bit (fst (fold handle_option os (flags, data))) n \<longleftrightarrow>
     (case List.find (touches n) (rev os) of None \<Rightarrow> bit flags n | Some x \<Rightarrow> sets_flags x)"
  "snd (fold handle_option os (flags, data)) = data @ filter (\<lambda>x. hm_get mount_flags x = None) os"
proof (induction os rule: rev_induct)
  case (snoc x os)
  { case 1
    obtain f d where fd: "fold handle_option os (flags, data) = (f, d)" by force
    show ?case using handle_option_bit [of x f d n] snoc(1) fd by simp }
  { case 2
    obtain f d where fd: "fold handle_option os (flags, data) = (f, d)" by force
    show ?case using snoc(2) fd by (simp split: option.split) }
qed simp_all

text \<open>
  Mount options are read left to right and the last one wins: a flag bit is set after parsing
  exactly when some option concerns it and the last such option sets it. The options the table
  does not know are passed on as mount data, in their order.
\<close>
theorem parse_options_last_wins:
  "(bit (fst (parse_options options)) n \<longleftrightarrow>
     (case List.find (touches n) (rev options) of None \<Rightarrow> False | Some x \<Rightarrow> sets_flags x)) \<and>
   snd (parse_options options) = filter (\<lambda>x. hm_get mount_flags x = None) options"
  unfolding parse_options_def by (simp add: fold_handle_option split: option.split)

section \<open>The sequence of mount calls\<close>

text \<open>The kernel rejects a call that mixes a propagation type with other flags.\<close>

definition call_ok :: "mount_call \<Rightarrow> bool" where
  "call_ok c \<longleftrightarrow> mc_flags c AND PROPAGATION_TYPES = 0 \<or> mc_flags c AND NOT MS_PROPAGATION = 0"

lemma propagation_numerals:
  "PROPAGATION_TYPES = 0x1E0000" "MS_PROPAGATION = 0x1EC000" "MS_BIND_RO = 0x1001"
  by (simp_all add: PROPAGATION_TYPES_def MS_PROPAGATION_def MS_BIND_RO_def ms_defs)

lemma and_not_and [simp]: "(w AND NOT v) AND v = 0" "(w AND v) AND NOT v = 0" for w v :: "'a::len word"
  by (rule bit_word_eqI, auto simp: bit_simps)+

lemma remount_keeps_clear: "w AND PROPAGATION_TYPES = 0 \<Longrightarrow> (w OR MS_REMOUNT) AND PROPAGATION_TYPES = 0"
proof -
  have "MS_REMOUNT AND PROPAGATION_TYPES = 0" by (simp add: propagation_numerals ms_defs)
  then show "w AND PROPAGATION_TYPES = 0 \<Longrightarrow> ?thesis" by (simp add: bit.conj_disj_distrib2)
qed

lemma remount_keeps_bind_ro:
  "w AND MS_BIND_RO = MS_BIND_RO \<Longrightarrow> (w OR MS_REMOUNT) AND (MS_BIND_RO OR MS_REMOUNT) = MS_BIND_RO OR MS_REMOUNT"
proof (rule bit_word_eqI)
  fix n
  assume "w AND MS_BIND_RO = MS_BIND_RO"
  then have "bit (w AND MS_BIND_RO) n \<longleftrightarrow> bit MS_BIND_RO n" by simp
  then show "bit ((w OR MS_REMOUNT) AND (MS_BIND_RO OR MS_REMOUNT)) n \<longleftrightarrow> bit (MS_BIND_RO OR MS_REMOUNT) n"
    by (auto simp: bit_simps)
qed

text \<open>
  No call of the mount sequence mixes a propagation type with other flags, whatever the
  options are and wherever the sequence stops. When a read-only bind mount was asked for and all
  calls succeed, the last call remounts the target read-only: a bind mount ignores the flag the
  first time.
\<close>
theorem mount_fs_calls:
  "list_all call_ok (snd (mount_fs ok fs_type source options target)) \<and>
   (fst (mount_fs ok fs_type source options target) = None \<and>
    (fst (parse_options options) AND NOT PROPAGATION_TYPES) AND MS_BIND_RO = MS_BIND_RO \<longrightarrow>
      snd (mount_fs ok fs_type source options target) \<noteq> [] \<and>
      mc_flags (last (snd (mount_fs ok fs_type source options target))) AND (MS_BIND_RO OR MS_REMOUNT) =
        MS_BIND_RO OR MS_REMOUNT)"
proof -
  obtain flags data where fd: "parse_options options = (flags, data)" by force
  show ?thesis
    using remount_keeps_bind_ro [of "flags AND NOT PROPAGATION_TYPES"]
      remount_keeps_clear [of "flags AND NOT PROPAGATION_TYPES"]
    by (simp add: mount_fs_def fd do_mount_def call_ok_def Let_def)
qed

theorem mount_fs_calls_witness:
  "mc_flags (last (snd (mount_fs (\<lambda>_. True) None (Some ''/a'') [''rbind'', ''ro'', ''rslave''] ''/b'')))
     AND (MS_BIND_RO OR MS_REMOUNT) = MS_BIND_RO OR MS_REMOUNT"
proof -
  have flags: "parse_options [''rbind'', ''ro'', ''rslave''] = (0x85001, [])"
    by (simp add: parse_options_def mount_flags_def ms_defs)
  have "fst (mount_fs (\<lambda>_. True) None (Some ''/a'') [''rbind'', ''ro'', ''rslave''] ''/b'') = None"
    by (simp add: mount_fs_def do_mount_def flags Let_def)
  moreover have "(fst (parse_options [''rbind'', ''ro'', ''rslave'']) AND NOT PROPAGATION_TYPES) AND MS_BIND_RO = MS_BIND_RO"
    by (simp add: flags propagation_numerals)
  ultimately show ?thesis
    using mount_fs_calls [of "\<lambda>_. True" None "Some ''/a''" "[''rbind'', ''ro'', ''rslave'']" "''/b''"] by blast
qed

section \<open>The lookup finds the innermost mount\<close>

definition candidate :: "string \<Rightarrow> string \<Rightarrow> bool" where
  "candidate mount_point l \<longleftrightarrow> 7 \<le> length (split_ws l) \<and> is_parent_or_eq (split_ws l ! 4) mount_point"

lemma parse_fields_mount_point: "parse_fields fds = Inr mi \<Longrightarrow> mi_mount_point mi = fds ! 4"
  by (auto simp: parse_fields_def split: option.splits if_splits)

definition best_of :: "string \<Rightarrow> string list \<Rightarrow> mount_info option \<Rightarrow> bool" where
  "best_of mount_point ls best \<longleftrightarrow>
     (case best of
        None \<Rightarrow> list_all (\<lambda>l. \<not> candidate mount_point l) ls
      | Some mi \<Rightarrow>
          list_ex (\<lambda>l. candidate mount_point l \<and> parse_fields (split_ws l) = Inr mi) ls \<and>
          list_all (\<lambda>l. candidate mount_point l \<longrightarrow> length (split_ws l ! 4) \<le> length (mi_mount_point mi)) ls)"

lemma parse_lines_best:
  "parse_lines ls mount_point best = Inr r \<Longrightarrow> best_of mount_point seen best \<Longrightarrow>
   best_of mount_point (seen @ ls) r"
proof (induction ls arbitrary: best seen)
  case (Cons l ls)
  let ?f = "split_ws l"
  consider (skip) "\<not> candidate mount_point l"
    | (worse) mi where "candidate mount_point l" "best = Some mi" "length (?f ! 4) \<le> length (mi_mount_point mi)"
    | (better) "candidate mount_point l" "\<forall>mi. best = Some mi \<longrightarrow> length (mi_mount_point mi) < length (?f ! 4)"
    by (metis not_le option.inject)
  then have "\<exists>b. parse_lines ls mount_point b = Inr r \<and> best_of mount_point (seen @ [l]) b"
  proof cases
    case skip
    with Cons.prems show ?thesis
      by (intro exI [of _ best]) (auto simp: candidate_def Let_def best_of_def split: option.splits if_splits)
  next
    case worse
    with Cons.prems show ?thesis
      by (intro exI [of _ best]) (auto simp: candidate_def Let_def best_of_def)
  next
    case better
    then have "parse_lines (l # ls) mount_point best =
        (case parse_fields ?f of Inl e \<Rightarrow> Inl e | Inr mi \<Rightarrow> parse_lines ls mount_point (Some mi))"
      by (cases best) (auto simp: candidate_def Let_def)
    with Cons.prems obtain mi where mi: "parse_fields ?f = Inr mi" "parse_lines ls mount_point (Some mi) = Inr r"
      by (auto split: sum.splits)
    have "list_all (\<lambda>l'. candidate mount_point l' \<longrightarrow> length (split_ws l' ! 4) \<le> length (?f ! 4)) seen"
      using better(2) Cons.prems(2)
      by (cases best) (auto simp: best_of_def list_all_iff intro: order_trans [OF _ less_imp_le])
    then have "best_of mount_point (seen @ [l]) (Some mi)"
      using better(1) mi(1) by (simp add: best_of_def parse_fields_mount_point [OF mi(1)])
    with mi(2) show ?thesis by blast
  qed
  then obtain b where "parse_lines ls mount_point b = Inr r" "best_of mount_point (seen @ [l]) b" by blast
  from Cons.IH [OF this] show ?case by simp
qed simp

lemma split_on_append_sep: "split_on c (u @ c # v) = split_on c u @ split_on c v"
  by (induction u) (auto split: list.splits)

lemma is_parent_or_eq_iff:
  "is_parent_or_eq p c \<longleftrightarrow> p = c \<or> p = ''/'' \<or>
     (\<exists>ws. ws \<noteq> [] \<and> split_on (CHR ''/'') c = split_on (CHR ''/'') p @ ws)"
proof -
  have "(starts_with p c \<and> length p < length c \<and> c ! length p = CHR ''/'') \<longleftrightarrow> (\<exists>r. c = p @ CHR ''/'' # r)"
    by (metis append_eq_conv_conj append_take_drop_id id_take_nth_drop length_append length_Cons
        less_add_Suc1 nth_append_length add_Suc_right)
  moreover have "(\<exists>r. c = p @ CHR ''/'' # r) \<longleftrightarrow>
      (\<exists>ws. ws \<noteq> [] \<and> split_on (CHR ''/'') c = split_on (CHR ''/'') p @ ws)"
  proof
    assume "\<exists>r. c = p @ CHR ''/'' # r"
    then show "\<exists>ws. ws \<noteq> [] \<and> split_on (CHR ''/'') c = split_on (CHR ''/'') p @ ws"
      using split_on_append_sep split_on_nonempty by blast
  next
    assume "\<exists>ws. ws \<noteq> [] \<and> split_on (CHR ''/'') c = split_on (CHR ''/'') p @ ws"
    then obtain ws where ws: "ws \<noteq> []" "split_on (CHR ''/'') c = split_on (CHR ''/'') p @ ws" by blast
    have "c = join_with ''/'' (split_on (CHR ''/'') p @ ws)" using join_split ws(2) by metis
    also have "\<dots> = p @ CHR ''/'' # join_with ''/'' ws"
      using join_with_append [of "split_on (CHR ''/'') p" ws "''/''"] ws(1) join_split [of "CHR ''/''" p] by simp
    finally show "\<exists>r. c = p @ CHR ''/'' # r" by blast
  qed
  ultimately show ?thesis unfolding is_parent_or_eq_def by blast
qed


definition demo_mountinfo :: string where
  "demo_mountinfo =
     ''21 1 98:0 / / rw shared:1 - ext4 /dev/a rw'' @ [CHR 0x0A] @
     ''36 35 0:77 / /pods/ed rw,nosuid master:7 - tmpfs tmpfs rw,size=64k'' @ [CHR 0x0A]"


end
