(* ===== verification/Sandbox_State.thy ===== *)
theory Sandbox_State
  imports Template_Types Mounts Guest_File
begin

text \<open>
  The state of a sandbox (\<open>KuasarSandbox\<close> in \<^verbatim>\<open>vmm/sandbox/src/sandbox.rs\<close>), its configuration, and
  the interfaces it is generic over (\<^verbatim>\<open>vmm/sandbox/src/vm.rs\<close>): the hypervisor is the record
  \<open>vm_ops\<close> of the methods of the traits \<open>VM\<close>, \<open>Snapshottable\<close> and \<open>Recoverable\<close>, over a state of
  type \<open>'v\<close>; the hooks are functions on the sandbox.
\<close>

section \<open>Errors and enumerations\<close>

datatype sb_error =
    NotFoundError string
  | AlreadyExist string
  | InvalidArgument string
  | OtherError string

datatype memory_restore_mode = Copy | OnDemand | FileBackend | ExternalUffd

definition ascii_lower :: "char \<Rightarrow> char" where
  "ascii_lower c = (let n = (of_char c :: nat) in if 65 \<le> n \<and> n \<le> 90 then char_of (n + 32) else c)"

definition memory_restore_mode_deserialize :: "string \<Rightarrow> memory_restore_mode option" where
  "memory_restore_mode_deserialize s =
     (let l = map ascii_lower s in
      if l = ''copy'' then Some Copy
      else if l = ''ondemand'' then Some OnDemand
      else if l = ''filebackend'' then Some FileBackend
      else if l = ''externaluffd'' then Some ExternalUffd
      else None)"

text \<open>The derived \<open>Serialize\<close> writes the name of the variant.\<close>

fun memory_restore_mode_serialize :: "memory_restore_mode \<Rightarrow> string" where
  "memory_restore_mode_serialize Copy = ''Copy''"
| "memory_restore_mode_serialize OnDemand = ''OnDemand''"
| "memory_restore_mode_serialize FileBackend = ''FileBackend''"
| "memory_restore_mode_serialize ExternalUffd = ''ExternalUffd''"

fun lease_mode_display :: "lease_mode \<Rightarrow> string" where
  "lease_mode_display Shared = ''shared''"
| "lease_mode_display Exclusive = ''exclusive''"

datatype sandbox_status = Created | Running nat | Stopped nat int | Paused

section \<open>Configuration\<close>

record snapshot_config =
  enable_environment_restore :: bool
  enable_warmfork_restore :: bool
  enable_continuation_restore :: bool
  max_concurrent_restores :: nat
  fallback_to_fresh_boot :: bool
  default_memory_restore_mode :: memory_restore_mode

definition snapshot_config_default :: snapshot_config where
  "snapshot_config_default =
     \<lparr>enable_environment_restore = False, enable_warmfork_restore = False,
      enable_continuation_restore = False, max_concurrent_restores = 4,
      fallback_to_fresh_boot = True, default_memory_restore_mode = Copy\<rparr>"

record storage_policy =
  storage_backend :: string
  allow_large_bind_mount :: bool
  enable_reflink_cow :: bool
  block_image_size_overhead_percent :: nat
  small_dir_max_files :: nat
  small_dir_max_bytes :: nat
  overlay_image_fallback_size_mb :: nat
  bind_image_fallback_size_mb :: nat

definition VIRTIO_BLK :: string where "VIRTIO_BLK = ''virtio-blk''"

definition storage_policy_default :: storage_policy where
  "storage_policy_default =
     \<lparr>storage_backend = ''virtiofs'', allow_large_bind_mount = False, enable_reflink_cow = False,
      block_image_size_overhead_percent = 20, small_dir_max_files = 50,
      small_dir_max_bytes = 10 * 1024 * 1024, overlay_image_fallback_size_mb = 64,
      bind_image_fallback_size_mb = 8\<rparr>"

section \<open>Buses and block devices\<close>

datatype bus_type = PCI | PCIE | CCW | SCSI | MMIO | SERIAL | NULL

datatype block_driver = VirtioBlk | VirtioScsi | VirtioMmio

definition block_driver_from :: "string \<Rightarrow> block_driver" where
  "block_driver_from s =
     (if s = ''virtio-blk'' then VirtioBlk
      else if s = ''virtio-scsi'' then VirtioScsi
      else if s = ''virtio-mmio'' then VirtioMmio
      else VirtioBlk)"

fun to_driver_string :: "block_driver \<Rightarrow> string" where
  "to_driver_string VirtioBlk = ''blk''"
| "to_driver_string VirtioMmio = ''mmioblk''"
| "to_driver_string VirtioScsi = ''scsi''"

fun to_bus_type :: "block_driver \<Rightarrow> bus_type" where
  "to_bus_type VirtioBlk = PCI"
| "to_bus_type VirtioMmio = NULL"
| "to_bus_type VirtioScsi = SCSI"

fun from_bus_type :: "bus_type \<Rightarrow> block_driver" where
  "from_bus_type PCI = VirtioBlk"
| "from_bus_type SCSI = VirtioScsi"
| "from_bus_type MMIO = VirtioMmio"
| "from_bus_type _ = VirtioBlk"

record block_device_info =
  bd_id :: string
  bd_path :: string
  bd_read_only :: bool

section \<open>Restoring\<close>

record warm_fork_params =
  wp_task_id :: "string option"
  wp_targets :: "warm_fork_target list"
  wp_prepare_timeout_ms :: nat
  wp_commit_timeout_ms :: nat

record path_overrides =
  po_task_vsock :: string
  po_console_path :: string

text \<open>\<open>Path::file_name\<close>: the last component, if it is a plain name\<close>

definition file_name :: "string \<Rightarrow> string option" where
  "file_name p =
     (case rev (path_components p) of Normal w # _ \<Rightarrow> Some w | _ \<Rightarrow> None)"

definition from_original :: "string \<Rightarrow> string \<Rightarrow> string \<Rightarrow> path_overrides" where
  "from_original new_base_dir original_vsock sandbox_id =
     \<lparr>po_task_vsock = path_push new_base_dir
        (case file_name original_vsock of Some n \<Rightarrow> n | None \<Rightarrow> ''task.vsock''),
      po_console_path = ''/tmp/'' @ sandbox_id @ ''-'' @ ''task.log''\<rparr>"

record restore_source =
  rs_snapshot_dir :: string
  rs_work_dir :: string
  rs_overrides :: path_overrides
  rs_snapshot_type :: snapshot_type
  rs_disk_images :: "disk_image_entry list"
  rs_storages :: "storage list"
  rs_orphan_container_ids :: "string list"
  rs_memory_restore_mode :: memory_restore_mode
  rs_reflink_supported :: bool
  rs_lease_mode :: lease_mode
  rs_warm_fork_params :: "warm_fork_params option"

record restore_metadata =
  rm_template_id :: "string option"
  rm_template_snapshot_type :: "snapshot_type option"
  rm_lease_mode :: "lease_mode option"
  rm_reflink_supported :: "bool option"
  rm_memory_restore_mode :: "memory_restore_mode option"
  rm_orphan_container_ids :: "string list"

definition restore_metadata_default :: restore_metadata where
  "restore_metadata_default =
     \<lparr>rm_template_id = None, rm_template_snapshot_type = None, rm_lease_mode = None,
      rm_reflink_supported = None, rm_memory_restore_mode = None, rm_orphan_container_ids = []\<rparr>"

section \<open>The sandbox\<close>

record kuasar_container =
  kc_id :: string
  kc_io_devices :: "string list"

text \<open>Of the data given by containerd: the annotations of the pod (if it has a configuration) and the netns path.\<close>

record sandbox_data =
  sd_annotations :: "(string, string) hmap option"
  sd_netns :: string
  sd_task_address :: string

text \<open>
  The network, and the connection to the guest agent, are present or not. The last component is
  not a field of the source: it lists the image files in the sandbox's directory on the host.
\<close>

record 'v kuasar_sandbox =
  sb_vm :: 'v
  sb_id :: string
  sb_status :: sandbox_status
  sb_base_dir :: string
  sb_data :: sandbox_data
  sb_containers :: "(string, kuasar_container) hmap"
  sb_storages :: "storage list"
  sb_id_generator :: "32 word"
  sb_network :: bool
  sb_client :: bool
  sb_storage_policy :: storage_policy
  sb_restore :: restore_metadata
  sb_images :: "string list"

definition get_sandbox_shared_path :: "'v kuasar_sandbox \<Rightarrow> string" where
  "get_sandbox_shared_path sb = sb_base_dir sb @ ''/shared''"

definition increment_and_get_id :: "'v kuasar_sandbox \<Rightarrow> 32 word \<times> 'v kuasar_sandbox" where
  "increment_and_get_id sb = (sb_id_generator sb + 1, sb\<lparr>sb_id_generator := sb_id_generator sb + 1\<rparr>)"

definition clear_template_restore_state :: "'v kuasar_sandbox \<Rightarrow> 'v kuasar_sandbox" where
  "clear_template_restore_state sb = sb\<lparr>sb_restore := restore_metadata_default\<rparr>"

section \<open>The hypervisor\<close>

record 'v vm_ops =
  vm_start :: "'v \<Rightarrow> (sb_error + nat) \<times> 'v"
  vm_stop :: "bool \<Rightarrow> 'v \<Rightarrow> sb_error option \<times> 'v"
  vm_hot_attach :: "block_device_info \<Rightarrow> 'v \<Rightarrow> (sb_error + bus_type \<times> string) \<times> 'v"
  vm_hot_detach :: "string \<Rightarrow> 'v \<Rightarrow> sb_error option \<times> 'v"
  vm_hotplug_pending_network :: "'v \<Rightarrow> sb_error option \<times> 'v"
  vm_restore :: "restore_source \<Rightarrow> 'v \<Rightarrow> sb_error option \<times> 'v"
  vm_recover :: "'v \<Rightarrow> sb_error option \<times> 'v"
  vm_pid :: "'v \<Rightarrow> nat option"
  vm_socket_address :: "'v \<Rightarrow> string"

text \<open>The devices in the running machine, as the hypervisor reports them\<close>

definition hotplug_ok :: "'v vm_ops \<Rightarrow> ('v \<Rightarrow> string set) \<Rightarrow> bool" where
  "hotplug_ok vo devs \<longleftrightarrow>
     (\<forall>d v. devs (snd (vm_hot_attach vo d v)) =
        (case fst (vm_hot_attach vo d v) of Inl _ \<Rightarrow> devs v | Inr _ \<Rightarrow> insert (bd_id d) (devs v))) \<and>
     (\<forall>i v. devs (snd (vm_hot_detach vo i v)) =
        (case fst (vm_hot_detach vo i v) of Some _ \<Rightarrow> devs v | None \<Rightarrow> devs v - {i}))"

section \<open>Round trips\<close>

lemma memory_mode_roundtrip:
  "memory_restore_mode_deserialize (memory_restore_mode_serialize m) = Some m"
  by (cases m) (simp_all add: memory_restore_mode_deserialize_def ascii_lower_def Let_def char_of_def bit_0)

text \<open>
  The bus of a memory-mapped block device is not mapped back to its driver.
\<close>

lemma mmio_bus_not_mapped_back: "from_bus_type (to_bus_type VirtioMmio) = VirtioBlk"
  by simp

end
