(* ===== verification/Sandbox_Storage.thy ===== *)
theory Sandbox_Storage
  imports Sandbox_State Store_Dir
begin

text \<open>
  Attaching storage to a sandbox: \<^verbatim>\<open>vmm/sandbox/src/storage/mod.rs\<close>, \<^verbatim>\<open>device_graph.rs\<close>,
  \<^verbatim>\<open>attach.rs\<close> and \<^verbatim>\<open>block_provider.rs\<close>. The outcomes of calls to the host kernel, to external
  tools and to the guest agent are the fields of \<open>host_env\<close>; the hypervisor is the record of its
  operations. An error of the source is returned together with the state reached so far, as the
  source mutates the sandbox in place.
\<close>

section \<open>The host\<close>

datatype file_kind = BlockDevice | RegularFile | Directory | OtherKind

datatype lmeta = LFile nat | LDir "(string \<times> fs_node) list" | LSymlink | LOther

datatype block_fs = Ext4 | Xfs

fun block_fs_as_str :: "block_fs \<Rightarrow> string" where
  "block_fs_as_str Ext4 = ''ext4''"
| "block_fs_as_str Xfs = ''xfs''"

record host_env =
  he_file_type :: "string \<Rightarrow> file_kind option"
  he_fstype :: "string \<Rightarrow> string option"
  he_mountinfo :: "string option"
  he_create :: "string \<Rightarrow> bool"
  he_mount :: "mount_call \<Rightarrow> bool"
  he_mount_rootfs :: "mount \<Rightarrow> string \<Rightarrow> bool"
  he_unmount :: "string \<Rightarrow> errno option"
  he_remove :: "string \<Rightarrow> io_error option"
  he_tree_stats :: "string \<Rightarrow> (nat \<times> nat) option"
  he_make_image :: "string \<Rightarrow> block_fs \<Rightarrow> nat \<Rightarrow> nat \<Rightarrow> bool"
  he_fill_image :: "string \<Rightarrow> string \<Rightarrow> bool"
  he_lmeta :: "string \<Rightarrow> lmeta option"
  he_read :: "string \<Rightarrow> string option"
  he_unreadable :: "string \<Rightarrow> bool"
  he_guest :: "guest_request \<Rightarrow> bool"
  he_adopt :: "string \<Rightarrow> string \<Rightarrow> bool"

definition is_block_device :: "host_env \<Rightarrow> string \<Rightarrow> bool" where
  "is_block_device he path = (case he_file_type he path of Some k \<Rightarrow> k = BlockDevice | None \<Rightarrow> False)"

definition is_regular_file :: "host_env \<Rightarrow> string \<Rightarrow> sb_error + bool" where
  "is_regular_file he path =
     (case he_file_type he path of
        Some k \<Rightarrow> Inr (k = RegularFile)
      | None \<Rightarrow> Inl (OtherError ''get file type''))"

section \<open>Block images\<close>

record block_prepare_request =
  bp_src_dir :: string
  bp_img_path :: string
  bp_fstype :: block_fs
  bp_fallback_size_mb :: nat
  bp_overhead_percent :: nat
  bp_source_identity :: "string option"
  bp_readonly :: bool

record block_artifact =
  ba_path :: string
  ba_fstype :: string
  ba_readonly :: bool
  ba_owned_by_runtime :: bool
  ba_cleanup_path :: "string option"
  ba_source_identity :: "string option"

definition artifact_from_storage :: "storage \<Rightarrow> block_artifact option" where
  "artifact_from_storage st =
     (if \<not> st_owned_by_runtime st then None
      else (case st_cleanup_path st of
              None \<Rightarrow> None
            | Some p \<Rightarrow>
                Some \<lparr>ba_path = p, ba_fstype = st_fstype st, ba_readonly = (''ro'' \<in> set (st_options st)),
                      ba_owned_by_runtime = st_owned_by_runtime st, ba_cleanup_path = Some p,
                      ba_source_identity = st_source_identity st\<rparr>))"

definition u64_mul :: "nat \<Rightarrow> nat \<Rightarrow> nat" where
  "u64_mul a b = (a * b) mod 2 ^ 64"

definition apply_overhead :: "nat \<Rightarrow> nat \<Rightarrow> nat" where
  "apply_overhead base percent = u64_mul base (100 + percent) div 100"

definition ext4_inode_count :: "nat \<Rightarrow> nat \<Rightarrow> nat" where
  "ext4_inode_count entries percent = max (apply_overhead (max entries 1) percent) 1024"

definition remove_image :: "host_env \<Rightarrow> string \<Rightarrow> string list \<Rightarrow> string list" where
  "remove_image he p images = (if he_remove he p = Some IoFault then images else removeAll p images)"

text \<open>A file that was created stays when the following step fails and it cannot be removed.\<close>

definition block_prepare ::
  "host_env \<Rightarrow> block_prepare_request \<Rightarrow> string list \<Rightarrow> (sb_error + block_artifact) \<times> string list" where
  "block_prepare he req images =
     (let stats = he_tree_stats he (bp_src_dir req);
          base = (case stats of Some (mb, _) \<Rightarrow> mb | None \<Rightarrow> bp_fallback_size_mb req);
          inodes = (case stats of Some (_, n) \<Rightarrow> ext4_inode_count n (bp_overhead_percent req) | None \<Rightarrow> 1024);
          size_mb = max (apply_overhead base (bp_overhead_percent req)) (bp_fallback_size_mb req);
          created = List.insert (bp_img_path req) images
      in
      if he_make_image he (bp_img_path req) (bp_fstype req) size_mb inodes
         \<and> he_fill_image he (bp_src_dir req) (bp_img_path req)
      then (Inr \<lparr>ba_path = bp_img_path req, ba_fstype = block_fs_as_str (bp_fstype req),
                 ba_readonly = bp_readonly req, ba_owned_by_runtime = True,
                 ba_cleanup_path = Some (bp_img_path req), ba_source_identity = bp_source_identity req\<rparr>,
            created)
      else (Inl (OtherError ''prepare block image''), remove_image he (bp_img_path req) created))"

definition block_release ::
  "host_env \<Rightarrow> block_artifact \<Rightarrow> string list \<Rightarrow> sb_error option \<times> string list" where
  "block_release he a images =
     (if \<not> ba_owned_by_runtime a then (None, images)
      else (case ba_cleanup_path a of
              None \<Rightarrow> (Some (OtherError ''missing cleanup_path''), images)
            | Some p \<Rightarrow> (None, remove_image he p images)))"

section \<open>Attaching a block image\<close>

record attached_block =
  ab_artifact :: block_artifact
  ab_device_id :: string
  ab_bus_type :: bus_type
  ab_guest_addr :: string

definition block_attach ::
  "'v vm_ops \<Rightarrow> host_env \<Rightarrow> block_artifact \<Rightarrow> string \<Rightarrow> bool \<Rightarrow> 'v kuasar_sandbox
   \<Rightarrow> (sb_error + attached_block) \<times> 'v kuasar_sandbox" where
  "block_attach vo he a device_id read_only sb =
     (case vm_hot_attach vo \<lparr>bd_id = device_id, bd_path = ba_path a, bd_read_only = read_only\<rparr> (sb_vm sb) of
        (Inr (bus, addr), v) \<Rightarrow>
          (Inr \<lparr>ab_artifact = a, ab_device_id = device_id, ab_bus_type = bus, ab_guest_addr = addr\<rparr>, sb\<lparr>sb_vm := v\<rparr>)
      | (Inl e, v) \<Rightarrow> (Inl e, sb\<lparr>sb_vm := v, sb_images := snd (block_release he a (sb_images sb))\<rparr>))"

definition attached_rollback ::
  "'v vm_ops \<Rightarrow> host_env \<Rightarrow> attached_block \<Rightarrow> 'v kuasar_sandbox \<Rightarrow> 'v kuasar_sandbox" where
  "attached_rollback vo he ab sb =
     sb\<lparr>sb_vm := snd (vm_hot_detach vo (ab_device_id ab) (sb_vm sb)),
        sb_images := snd (block_release he (ab_artifact ab) (sb_images sb))\<rparr>"

definition into_storage ::
  "attached_block \<Rightarrow> string \<Rightarrow> string \<Rightarrow> string \<Rightarrow> string list \<Rightarrow> string \<Rightarrow> string option \<Rightarrow> storage" where
  "into_storage ab host_source mount_type storage_id options mount_point lower_dirs =
     \<lparr>st_host_source = host_source, st_type = mount_type, st_id = storage_id,
      st_device_id = Some (ab_device_id ab), st_ref_container = [], st_need_guest_handle = True,
      st_source = ab_guest_addr ab, st_driver = to_driver_string (from_bus_type (ab_bus_type ab)),
      st_driver_options = [], st_fstype = ba_fstype (ab_artifact ab), st_options = options,
      st_mount_point = mount_point, st_lower_dirs = lower_dirs,
      st_cleanup_path = ba_cleanup_path (ab_artifact ab),
      st_owned_by_runtime = ba_owned_by_runtime (ab_artifact ab),
      st_source_identity = ba_source_identity (ab_artifact ab)\<rparr>"

section \<open>Finding storage to reuse\<close>

definition source_identity_for_mount :: "mount \<Rightarrow> string option" where
  "source_identity_for_mount m =
     (case extract_lower_dirs (m_options m) of
        Some lower \<Rightarrow> Some (''overlay:'' @ lower)
      | None \<Rightarrow> (if m_source m \<noteq> [] then Some (m_type m @ '':'' @ m_source m) else None))"

definition storage_matches_mount :: "storage \<Rightarrow> mount \<Rightarrow> bool \<Rightarrow> bool" where
  "storage_matches_mount st m is_rootfs_mount =
     (case (st_source_identity st, source_identity_for_mount m) of
        (Some sid, Some rid) \<Rightarrow> sid = rid \<and> st_type st = m_type m
      | _ \<Rightarrow>
          (if \<not> is_rootfs_mount \<and> is_for_mount st m then True
           else (case (st_lower_dirs st, extract_lower_dirs (m_options m)) of
                   (Some l, Some r) \<Rightarrow> l = r \<and> st_type st = m_type m
                 | _ \<Rightarrow> False)))"

primrec position :: "('a \<Rightarrow> bool) \<Rightarrow> 'a list \<Rightarrow> nat option" where
  "position P [] = None"
| "position P (x # xs) = (if P x then Some 0 else map_option Suc (position P xs))"

definition find_reusable_index :: "storage list \<Rightarrow> mount \<Rightarrow> bool \<Rightarrow> nat option" where
  "find_reusable_index sts m is_rootfs_mount = position (\<lambda>st. storage_matches_mount st m is_rootfs_mount) sts"

definition find_orphan_for_mount ::
  "storage list \<Rightarrow> string list \<Rightarrow> mount \<Rightarrow> bool \<Rightarrow> (string \<times> string) option" where
  "find_orphan_for_mount sts orphans m is_rootfs_mount =
     find_map (\<lambda>st.
         find_map (\<lambda>c. if c \<in> set orphans then Some (c, st_id st) else None) (map fst (st_ref_container st)))
       (filter (\<lambda>st. storage_matches_mount st m is_rootfs_mount) sts)"

definition remap_restored_storage_artifacts :: "'v kuasar_sandbox \<Rightarrow> restore_source \<Rightarrow> storage list" where
  "remap_restored_storage_artifacts sb src =
     map (\<lambda>st. if st_owned_by_runtime st \<and> st_device_id st \<noteq> None
               then st\<lparr>st_cleanup_path := Some (sb_base_dir sb @ ''/'' @ st_id st @ ''.img'')\<rparr> else st)
       (rs_storages src)"

section \<open>The handlers\<close>

definition KUASAR_GUEST_SHARE_DIR :: string where
  "KUASAR_GUEST_SHARE_DIR = ''/run/kuasar/storage/containers/''"

definition KUASAR_STATE_DIR :: string where
  "KUASAR_STATE_DIR = ''/run/kuasar/state''"

definition DRIVER_GUEST_FILE :: string where
  "DRIVER_GUEST_FILE = ''guest-file''"

definition is_propagation_option :: "string \<Rightarrow> bool" where
  "is_propagation_option x \<longleftrightarrow>
     x \<in> {''shared'', ''rshared'', ''slave'', ''rslave'', ''private'', ''rprivate'', ''unbindable'', ''runbindable''}"

definition ro_options :: "mount \<Rightarrow> string list" where
  "ro_options m = (if ''ro'' \<in> set (m_options m) then [''ro''] else [])"

definition push_storage :: "string \<Rightarrow> storage \<Rightarrow> 'v kuasar_sandbox \<Rightarrow> 'v kuasar_sandbox" where
  "push_storage cid st sb = sb\<lparr>sb_storages := sb_storages sb @ [refer cid st]\<rparr>"

definition next_device_id :: "'v kuasar_sandbox \<Rightarrow> string \<times> 'v kuasar_sandbox" where
  "next_device_id sb = (case increment_and_get_id sb of (n, sb') \<Rightarrow> (''blk'' @ show_nat (unat n), sb'))"

definition next_storage_id :: "'v kuasar_sandbox \<Rightarrow> string \<times> 'v kuasar_sandbox" where
  "next_storage_id sb = (case increment_and_get_id sb of (n, sb') \<Rightarrow> (''storage'' @ show_nat (unat n), sb'))"

definition handle_block_device ::
  "'v vm_ops \<Rightarrow> host_env \<Rightarrow> string \<Rightarrow> string \<Rightarrow> mount \<Rightarrow> 'v kuasar_sandbox
   \<Rightarrow> (sb_error + unit) \<times> 'v kuasar_sandbox" where
  "handle_block_device vo he i cid m sb =
     (if m_source m = [] then (Inl (InvalidArgument ''mount source''), sb)
      else
        (case next_device_id sb of (did, sb1) \<Rightarrow>
           (case vm_hot_attach vo
                   \<lparr>bd_id = did, bd_path = m_source m, bd_read_only = (''ro'' \<in> set (m_options m))\<rparr> (sb_vm sb1) of
              (Inl e, v) \<Rightarrow> (Inl e, sb1\<lparr>sb_vm := v\<rparr>)
            | (Inr (bus, addr), v) \<Rightarrow>
                (case he_fstype he (m_source m) of
                   None \<Rightarrow> (Inl (OtherError ''get_fstype''), sb1\<lparr>sb_vm := v\<rparr>)
                 | Some fs \<Rightarrow>
                     (Inr (), push_storage cid
                        \<lparr>st_host_source = m_source m, st_type = m_type m, st_id = i, st_device_id = Some did,
                         st_ref_container = [], st_need_guest_handle = True, st_source = addr,
                         st_driver = to_driver_string (from_bus_type bus), st_driver_options = [],
                         st_fstype = fs, st_options = ro_options m,
                         st_mount_point = KUASAR_GUEST_SHARE_DIR @ i, st_lower_dirs = None,
                         st_cleanup_path = None, st_owned_by_runtime = False,
                         st_source_identity = Some (''block:'' @ m_source m)\<rparr>
                        (sb1\<lparr>sb_vm := v\<rparr>))))))"

text \<open>An entry whose files the host shares with the guest.\<close>

definition shared_storage :: "string \<Rightarrow> mount \<Rightarrow> string \<Rightarrow> string \<Rightarrow> string option \<Rightarrow> string option \<Rightarrow> storage" where
  "shared_storage i m driver mount_point lower sid =
     \<lparr>st_host_source = m_source m, st_type = m_type m, st_id = i, st_device_id = None,
      st_ref_container = [], st_need_guest_handle = False, st_source = [], st_driver = driver,
      st_driver_options = [], st_fstype = ''bind'', st_options = ro_options m,
      st_mount_point = mount_point, st_lower_dirs = lower, st_cleanup_path = None,
      st_owned_by_runtime = False, st_source_identity = sid\<rparr>"

definition handle_bind_mount ::
  "host_env \<Rightarrow> string \<Rightarrow> string \<Rightarrow> mount \<Rightarrow> 'v kuasar_sandbox \<Rightarrow> (sb_error + unit) \<times> 'v kuasar_sandbox" where
  "handle_bind_mount he i cid m sb =
     (if m_source m = [] then (Inl (InvalidArgument ''mount source''), sb)
      else
        (let host_dest = get_sandbox_shared_path sb @ ''/'' @ i;
             dest = (if he_file_type he (m_source m) = Some Directory
                     then (if he_create he host_dest then Inr () else Inl (OtherError ''create''))
                     else (case is_regular_file he (m_source m) of
                             Inl e \<Rightarrow> Inl e
                           | Inr False \<Rightarrow> Inl (InvalidArgument ''not a regular file'')
                           | Inr True \<Rightarrow> (if he_create he host_dest then Inr () else Inl (OtherError ''create''))))
         in
         case dest of
           Inl e \<Rightarrow> (Inl e, sb)
         | Inr _ \<Rightarrow>
             (case fst (bind_mount (he_mount he) (m_source m) host_dest
                          (filter (\<lambda>x. \<not> is_propagation_option x) (m_options m))) of
                Some _ \<Rightarrow> (Inl (OtherError ''bind mount''), sb)
              | None \<Rightarrow>
                  (Inr (), push_storage cid
                     (shared_storage i m [] (KUASAR_STATE_DIR @ ''/'' @ i) None (Some (''bind:'' @ m_source m))) sb))))"

definition handle_overlay_mount ::
  "host_env \<Rightarrow> string \<Rightarrow> string \<Rightarrow> mount \<Rightarrow> 'v kuasar_sandbox \<Rightarrow> (sb_error + unit) \<times> 'v kuasar_sandbox" where
  "handle_overlay_mount he i cid m sb =
     (if m_source m = [] then (Inl (InvalidArgument ''mount source''), sb)
      else
        (let host_dest = get_sandbox_shared_path sb @ ''/'' @ i; lower = extract_lower_dirs (m_options m) in
         if \<not> he_create he host_dest then (Inl (OtherError ''create''), sb)
         else if \<not> he_mount_rootfs he m host_dest then (Inl (OtherError ''mount rootfs''), sb)
         else (Inr (), push_storage cid
                 (shared_storage i m [] (KUASAR_STATE_DIR @ ''/'' @ i) lower (map_option ((@) ''overlay:'') lower)) sb)))"

definition handle_tmpfs_mount ::
  "string \<Rightarrow> string \<Rightarrow> mount \<Rightarrow> mount_info \<Rightarrow> 'v kuasar_sandbox \<Rightarrow> 'v kuasar_sandbox" where
  "handle_tmpfs_mount i cid m mi sb =
     push_storage cid
       \<lparr>st_host_source = m_source m, st_type = m_type m, st_id = i, st_device_id = None,
        st_ref_container = [], st_need_guest_handle = True, st_source = ''tmpfs'',
        st_driver = ''ephemeral'', st_driver_options = [], st_fstype = ''tmpfs'',
        st_options = ro_options m @ filter (\<lambda>x. starts_with ''size='' x \<or> is_propagation_option x) (mi_options mi),
        st_mount_point = KUASAR_GUEST_SHARE_DIR @ i, st_lower_dirs = None,
        st_cleanup_path = None, st_owned_by_runtime = False,
        st_source_identity = Some (''tmpfs:'' @ m_source m)\<rparr> sb"

definition image_fstype :: "'v kuasar_sandbox \<Rightarrow> block_fs" where
  "image_fstype sb =
     (if rm_lease_mode (sb_restore sb) = Some Shared \<and> enable_reflink_cow (sb_storage_policy sb) then Xfs else Ext4)"

definition image_path :: "'v kuasar_sandbox \<Rightarrow> string \<Rightarrow> string" where
  "image_path sb i = sb_base_dir sb @ ''/'' @ i @ ''.img''"

text \<open>The steps both block handlers share after the image is prepared: attach it, record it.\<close>

definition attach_image ::
  "'v vm_ops \<Rightarrow> host_env \<Rightarrow> block_artifact \<Rightarrow> string \<Rightarrow> string \<Rightarrow> mount \<Rightarrow> string option \<Rightarrow> 'v kuasar_sandbox
   \<Rightarrow> (sb_error + unit) \<times> 'v kuasar_sandbox" where
  "attach_image vo he a i cid m lower sb =
     (case next_device_id sb of (did, sb1) \<Rightarrow>
        (case block_attach vo he a did (''ro'' \<in> set (m_options m)) sb1 of
           (Inl e, sb2) \<Rightarrow> (Inl e, sb2)
         | (Inr ab, sb2) \<Rightarrow>
             (Inr (), push_storage cid
                (into_storage ab (m_source m) (m_type m) i (ro_options m) (KUASAR_GUEST_SHARE_DIR @ i) lower) sb2)))"

definition handle_overlay_mount_blk ::
  "'v vm_ops \<Rightarrow> host_env \<Rightarrow> string \<Rightarrow> string \<Rightarrow> mount \<Rightarrow> 'v kuasar_sandbox
   \<Rightarrow> (sb_error + unit) \<times> 'v kuasar_sandbox" where
  "handle_overlay_mount_blk vo he i cid m sb =
     (if m_source m = [] then (Inl (InvalidArgument ''mount source''), sb)
      else
        (let overlay_dir = sb_base_dir sb @ ''/overlay-'' @ i; lower = extract_lower_dirs (m_options m) in
         if \<not> he_create he overlay_dir then (Inl (OtherError ''create''), sb)
         else if \<not> he_mount_rootfs he m overlay_dir then (Inl (OtherError ''mount overlay for blk''), sb)
         else
           (case block_prepare he
                   \<lparr>bp_src_dir = overlay_dir, bp_img_path = image_path sb i, bp_fstype = image_fstype sb,
                    bp_fallback_size_mb = overlay_image_fallback_size_mb (sb_storage_policy sb),
                    bp_overhead_percent = block_image_size_overhead_percent (sb_storage_policy sb),
                    bp_source_identity = map_option ((@) ''overlay:'') lower,
                    bp_readonly = (''ro'' \<in> set (m_options m))\<rparr> (sb_images sb) of
              (Inl e, im) \<Rightarrow> (Inl e, sb\<lparr>sb_images := im\<rparr>)
            | (Inr a, im) \<Rightarrow> attach_image vo he a i cid m lower (sb\<lparr>sb_images := im\<rparr>))))"

definition inject_small_dir ::
  "host_env \<Rightarrow> string \<Rightarrow> string \<Rightarrow> scanned_dir \<Rightarrow> string \<Rightarrow> mount \<Rightarrow> 'v kuasar_sandbox
   \<Rightarrow> (sb_error + unit) \<times> 'v kuasar_sandbox" where
  "inject_small_dir he i cid scan dest m sb =
     (if \<not> sb_client sb then (Inl (OtherError ''client not initialized''), sb)
      else (case fst (inject_from_scan (he_guest he) (he_read he) dest scan []) of
              Inl _ \<Rightarrow> (Inl (OtherError ''inject directory''), sb)
            | Inr _ \<Rightarrow>
                (Inr (), push_storage cid
                   (shared_storage i m DRIVER_GUEST_FILE dest None (Some (''bind:'' @ m_source m))) sb)))"

definition push_single_file ::
  "host_env \<Rightarrow> string \<Rightarrow> string \<Rightarrow> nat \<Rightarrow> mount \<Rightarrow> 'v kuasar_sandbox \<Rightarrow> (sb_error + unit) \<times> 'v kuasar_sandbox" where
  "push_single_file he i cid mode m sb =
     (case he_read he (m_source m) of
        None \<Rightarrow> (Inl (OtherError ''read''), sb)
      | Some content \<Rightarrow>
          (case join_guest_component KUASAR_STATE_DIR i of
             Inl _ \<Rightarrow> (Inl (InvalidArgument ''guest path''), sb)
           | Inr dest \<Rightarrow>
               (if \<not> sb_client sb then (Inl (OtherError ''client not initialized''), sb)
                else (case fst (push_file (he_guest he) dest content (mode mod 512) []) of
                        Inl _ \<Rightarrow> (Inl (OtherError ''push file''), sb)
                      | Inr _ \<Rightarrow>
                          (Inr (), push_storage cid
                             (shared_storage i m DRIVER_GUEST_FILE dest None (Some (''bind:'' @ m_source m))) sb)))))"

definition handle_bind_mount_blk ::
  "'v vm_ops \<Rightarrow> host_env \<Rightarrow> string \<Rightarrow> string \<Rightarrow> mount \<Rightarrow> bool \<Rightarrow> 'v kuasar_sandbox
   \<Rightarrow> (sb_error + unit) \<times> 'v kuasar_sandbox" where
  "handle_bind_mount_blk vo he i cid m is_rootfs_mount sb =
     (if m_source m = [] then (Inl (InvalidArgument ''mount source''), sb)
      else
        (case he_lmeta he (m_source m) of
           None \<Rightarrow> (Inl (OtherError ''stat''), sb)
         | Some LSymlink \<Rightarrow> (Inl (InvalidArgument ''symlink bind mount source''), sb)
         | Some (LFile mode) \<Rightarrow>
             (if is_rootfs_mount then (Inl (InvalidArgument ''rootfs bind mount''), sb)
              else push_single_file he i cid mode m sb)
         | Some (LDir es) \<Rightarrow>
             (case scan_dir (he_unreadable he) (m_source m) es of
                Inl _ \<Rightarrow> (Inl (OtherError ''scan_dir''), sb)
              | Inr scan \<Rightarrow>
                  (if file_count scan \<le> small_dir_max_files (sb_storage_policy sb)
                      \<and> total_bytes scan \<le> small_dir_max_bytes (sb_storage_policy sb)
                   then
                     (if is_rootfs_mount then (Inl (InvalidArgument ''rootfs bind mount''), sb)
                      else (case join_guest_component KUASAR_STATE_DIR i of
                              Inl _ \<Rightarrow> (Inl (InvalidArgument ''guest path''), sb)
                            | Inr dest \<Rightarrow> inject_small_dir he i cid scan dest m sb))
                   else if \<not> allow_large_bind_mount (sb_storage_policy sb)
                   then (Inl (InvalidArgument ''large bind mount''), sb)
                   else
                     (case block_prepare he
                             \<lparr>bp_src_dir = m_source m, bp_img_path = image_path sb i, bp_fstype = image_fstype sb,
                              bp_fallback_size_mb = bind_image_fallback_size_mb (sb_storage_policy sb),
                              bp_overhead_percent = block_image_size_overhead_percent (sb_storage_policy sb),
                              bp_source_identity = Some (''bind:'' @ m_source m),
                              bp_readonly = (''ro'' \<in> set (m_options m))\<rparr> (sb_images sb) of
                        (Inl e, im) \<Rightarrow> (Inl e, sb\<lparr>sb_images := im\<rparr>)
                      | (Inr a, im) \<Rightarrow> attach_image vo he a i cid m None (sb\<lparr>sb_images := im\<rparr>))))
         | Some LOther \<Rightarrow> (Inl (InvalidArgument ''unsupported file type''), sb)))"

section \<open>Attaching and detaching\<close>

definition call_adopt_container :: "host_env \<Rightarrow> string \<Rightarrow> string \<Rightarrow> 'v kuasar_sandbox \<Rightarrow> sb_error option" where
  "call_adopt_container he old_id new_id sb =
     (if \<not> sb_client sb then Some (OtherError ''no sandbox client'')
      else if he_adopt he old_id new_id then None
      else Some (OtherError ''AdoptContainer''))"

definition update_storage :: "nat option \<Rightarrow> (storage \<Rightarrow> storage) \<Rightarrow> 'v kuasar_sandbox \<Rightarrow> 'v kuasar_sandbox" where
  "update_storage idx f sb =
     (case idx of
        None \<Rightarrow> sb
      | Some n \<Rightarrow> sb\<lparr>sb_storages := (sb_storages sb)[n := f (sb_storages sb ! n)]\<rparr>)"

definition attach_by_kind ::
  "'v vm_ops \<Rightarrow> host_env \<Rightarrow> string \<Rightarrow> string \<Rightarrow> mount \<Rightarrow> bool \<Rightarrow> 'v kuasar_sandbox
   \<Rightarrow> (sb_error + unit) \<times> 'v kuasar_sandbox" where
  "attach_by_kind vo he i cid m is_rootfs_mount sb =
     (if is_bind_shm m then (Inr (), sb)
      else if is_bind m then
        (if storage_backend (sb_storage_policy sb) = VIRTIO_BLK
         then handle_bind_mount_blk vo he i cid m is_rootfs_mount sb
         else handle_bind_mount he i cid m sb)
      else if is_overlay m then
        (if storage_backend (sb_storage_policy sb) = VIRTIO_BLK
         then handle_overlay_mount_blk vo he i cid m sb
         else handle_overlay_mount he i cid m sb)
      else (Inr (), sb))"

definition is_empty_dir_tmpfs :: "mount_info \<Rightarrow> bool" where
  "is_empty_dir_tmpfs mi \<longleftrightarrow> mi_fs_type mi = ''tmpfs'' \<and> str_contains ''kubernetes.io~empty-dir'' (mi_mount_point mi)"

definition attach_new_storage ::
  "'v vm_ops \<Rightarrow> host_env \<Rightarrow> string \<Rightarrow> mount \<Rightarrow> bool \<Rightarrow> 'v kuasar_sandbox
   \<Rightarrow> (sb_error + unit) \<times> 'v kuasar_sandbox" where
  "attach_new_storage vo he cid m is_rootfs_mount sb0 =
     (case next_storage_id sb0 of (i, sb) \<Rightarrow>
        (if is_block_device he (m_source m) then handle_block_device vo he i cid m sb
         else if str_contains ''kubernetes.io~empty-dir'' (m_source m) then
           (case get_mount_info (he_mountinfo he) (m_source m) of
              Inl _ \<Rightarrow> (Inl (OtherError ''get_mount_info''), sb)
            | Inr (Some mi) \<Rightarrow>
                (if is_empty_dir_tmpfs mi then (Inr (), handle_tmpfs_mount i cid m mi sb)
                 else attach_by_kind vo he i cid m is_rootfs_mount sb)
            | Inr None \<Rightarrow> attach_by_kind vo he i cid m is_rootfs_mount sb)
         else attach_by_kind vo he i cid m is_rootfs_mount sb))"

definition attach_storage ::
  "'v vm_ops \<Rightarrow> host_env \<Rightarrow> string \<Rightarrow> mount \<Rightarrow> bool \<Rightarrow> 'v kuasar_sandbox
   \<Rightarrow> (sb_error + unit) \<times> 'v kuasar_sandbox" where
  "attach_storage vo he cid m is_rootfs_mount sb =
     (let orphans = rm_orphan_container_ids (sb_restore sb);
          reusable = find_reusable_index (sb_storages sb) m is_rootfs_mount
      in
      case (if orphans \<noteq> [] then find_orphan_for_mount (sb_storages sb) orphans m is_rootfs_mount else None) of
        Some (orphan, _) \<Rightarrow>
          (case call_adopt_container he orphan cid sb of
             Some e \<Rightarrow> (Inl (OtherError ''adopt_container''), sb)
           | None \<Rightarrow>
               (let sb' = update_storage reusable (\<lambda>st. refer cid (storage_defer orphan st)) sb in
                (Inr (), sb'\<lparr>sb_restore := (sb_restore sb')\<lparr>rm_orphan_container_ids :=
                   filter (\<lambda>c. c \<noteq> orphan) orphans\<rparr>\<rparr>)))
      | None \<Rightarrow>
          (case reusable of
             Some n \<Rightarrow> (Inr (), update_storage (Some n) (refer cid) sb)
           | None \<Rightarrow> attach_new_storage vo he cid m is_rootfs_mount sb))"

definition detach_storage ::
  "'v vm_ops \<Rightarrow> host_env \<Rightarrow> storage \<Rightarrow> 'v kuasar_sandbox \<Rightarrow> sb_error option \<times> 'v kuasar_sandbox" where
  "detach_storage vo he st sb =
     (case st_device_id st of
        Some did \<Rightarrow>
          (case vm_hot_detach vo did (sb_vm sb) of
             (Some e, v) \<Rightarrow> (Some e, sb\<lparr>sb_vm := v\<rparr>)
           | (None, v) \<Rightarrow>
               (let sb1 = sb\<lparr>sb_vm := v\<rparr> in
                if st_owned_by_runtime st then
                  (case artifact_from_storage st of
                     None \<Rightarrow> (Some (OtherError ''missing cleanup_path''), sb1)
                   | Some a \<Rightarrow> (case block_release he a (sb_images sb1) of (e, im) \<Rightarrow> (e, sb1\<lparr>sb_images := im\<rparr>)))
                else (None, sb1)))
      | None \<Rightarrow>
          (if st_driver st = DRIVER_GUEST_FILE then (None, sb)
           else if st_fstype st = ''bind'' then
             (let mount_point = get_sandbox_shared_path sb @ ''/'' @ st_id st in
              case unmount (he_unmount he mount_point) of
                Some _ \<Rightarrow> (Some (OtherError ''unmount''), sb)
              | None \<Rightarrow>
                  (if he_remove he mount_point = Some IoFault then (Some (OtherError ''remove''), sb) else (None, sb)))
           else (None, sb)))"

fun gc_loop ::
  "'v vm_ops \<Rightarrow> host_env \<Rightarrow> storage list \<Rightarrow> 'v kuasar_sandbox \<Rightarrow> sb_error option \<times> 'v kuasar_sandbox" where
  "gc_loop vo he [] sb = (None, sb)"
| "gc_loop vo he (st # sts) sb =
     (case detach_storage vo he st sb of
        (Some e, sb1) \<Rightarrow> (Some e, sb1)
      | (None, sb1) \<Rightarrow>
          gc_loop vo he sts (sb1\<lparr>sb_storages := filter (\<lambda>x. st_id x \<noteq> st_id st) (sb_storages sb1)\<rparr>))"

definition gc_storages ::
  "'v vm_ops \<Rightarrow> host_env \<Rightarrow> 'v kuasar_sandbox \<Rightarrow> sb_error option \<times> 'v kuasar_sandbox" where
  "gc_storages vo he sb = gc_loop vo he (filter (\<lambda>x. ref_count x = 0) (sb_storages sb)) sb"

definition deference_storage ::
  "'v vm_ops \<Rightarrow> host_env \<Rightarrow> string \<Rightarrow> mount \<Rightarrow> 'v kuasar_sandbox \<Rightarrow> sb_error option \<times> 'v kuasar_sandbox" where
  "deference_storage vo he cid m sb =
     gc_storages vo he
       (update_storage (position (\<lambda>st. is_for_mount st m \<and> hm_contains (st_ref_container st) cid) (sb_storages sb))
          (storage_defer cid) sb)"

definition deference_container_storages ::
  "'v vm_ops \<Rightarrow> host_env \<Rightarrow> string \<Rightarrow> 'v kuasar_sandbox \<Rightarrow> sb_error option \<times> 'v kuasar_sandbox" where
  "deference_container_storages vo he cid sb =
     gc_storages vo he
       (sb\<lparr>sb_storages := map (\<lambda>st. if hm_contains (st_ref_container st) cid then storage_defer cid st else st)
          (sb_storages sb)\<rparr>)"

end
