(* ===== verification/Storage_Inv.thy ===== *)
theory Storage_Inv
  imports Sandbox_Storage
begin

text \<open>
  Correctness of storage attachment: the outcomes an attachment can have, the invariant that ties
  the storage entries of a sandbox to the devices in its machine and the images on its disk, and
  the properties of sharing, release and isolation.
\<close>

section \<open>The invariant\<close>

definition device_ids :: "storage list \<Rightarrow> string list" where
  "device_ids sts = concat (map (\<lambda>st. case st_device_id st of Some d \<Rightarrow> [d] | None \<Rightarrow> []) sts)"

definition numbered :: "string \<Rightarrow> nat \<Rightarrow> string \<Rightarrow> bool" where
  "numbered prefix g i \<longleftrightarrow> (\<exists>n \<le> g. i = prefix @ show_nat n)"

definition owned_ok :: "'v kuasar_sandbox \<Rightarrow> storage \<Rightarrow> bool" where
  "owned_ok sb st \<longleftrightarrow>
     (st_owned_by_runtime st \<longrightarrow>
        st_device_id st \<noteq> None \<and> st_cleanup_path st = Some (image_path sb (st_id st)) \<and>
        image_path sb (st_id st) \<in> set (sb_images sb))"

definition storage_inv :: "('v \<Rightarrow> string set) \<Rightarrow> 'v kuasar_sandbox \<Rightarrow> bool" where
  "storage_inv devs sb \<longleftrightarrow>
     list_all storage_wf (sb_storages sb) \<and>
     distinct (map st_id (sb_storages sb)) \<and> distinct (device_ids (sb_storages sb)) \<and>
     list_all (numbered ''storage'' (unat (sb_id_generator sb))) (map st_id (sb_storages sb)) \<and>
     list_all (numbered ''blk'' (unat (sb_id_generator sb))) (device_ids (sb_storages sb)) \<and>
     set (device_ids (sb_storages sb)) \<subseteq> devs (sb_vm sb) \<and>
     list_all (owned_ok sb) (sb_storages sb)"

text \<open>Devices in the machine, and images on the disk, that no entry accounts for\<close>

definition stray_devices :: "('v \<Rightarrow> string set) \<Rightarrow> 'v kuasar_sandbox \<Rightarrow> string set" where
  "stray_devices devs sb = devs (sb_vm sb) - set (device_ids (sb_storages sb))"

definition owned_images :: "'v kuasar_sandbox \<Rightarrow> string set" where
  "owned_images sb = image_path sb ` st_id ` {st \<in> set (sb_storages sb). st_owned_by_runtime st}"

definition stray_images :: "'v kuasar_sandbox \<Rightarrow> string set" where
  "stray_images sb = set (sb_images sb) - owned_images sb"

lemma device_ids_simps [simp]:
  "device_ids [] = []"
  "device_ids (st # sts) = (case st_device_id st of Some d \<Rightarrow> [d] | None \<Rightarrow> []) @ device_ids sts"
  "device_ids (xs @ ys) = device_ids xs @ device_ids ys"
  by (simp_all add: device_ids_def)

lemma device_ids_mem: "d \<in> set (device_ids sts) \<longleftrightarrow> (\<exists>st \<in> set sts. st_device_id st = Some d)"
  by (induction sts) (auto split: option.splits)

lemma image_path_inj [simp]: "image_path sb i = image_path sb j \<longleftrightarrow> i = j"
  by (simp add: image_path_def)

lemma numbered_mono: "numbered p g i \<Longrightarrow> g \<le> h \<Longrightarrow> numbered p h i"
  by (force simp: numbered_def)

lemma numbered_fresh: "numbered p g (p @ show_nat n) \<Longrightarrow> n \<le> g"
  by (auto simp: numbered_def)

lemma numbered_next: "list_all (numbered p g) xs \<Longrightarrow> g < n \<Longrightarrow> p @ show_nat n \<notin> set xs"
  using numbered_fresh [of p g n] by (auto simp: list_all_iff)

lemma refer_fields [simp]:
  "st_id (refer c st) = st_id st" "st_device_id (refer c st) = st_device_id st"
  "st_owned_by_runtime (refer c st) = st_owned_by_runtime st" "st_cleanup_path (refer c st) = st_cleanup_path st"
  "st_source_identity (refer c st) = st_source_identity st" "st_type (refer c st) = st_type st"
  "st_host_source (refer c st) = st_host_source st" "st_lower_dirs (refer c st) = st_lower_dirs st"
  by (simp_all add: refer_def)

lemma defer_fields [simp]:
  "st_id (storage_defer c st) = st_id st" "st_device_id (storage_defer c st) = st_device_id st"
  "st_owned_by_runtime (storage_defer c st) = st_owned_by_runtime st"
  "st_cleanup_path (storage_defer c st) = st_cleanup_path st"
  by (simp_all add: storage_defer_def)

section \<open>The outcomes of an attachment\<close>

text \<open>
  What a handler can do with a fresh storage id: record an entry without a device, with a device,
  or with a device and an image; do nothing; or fail. A failure leaves the machine and the images
  as they were, except that a block device whose file system cannot be determined stays in the
  machine, and an image that cannot be removed stays on the disk.
\<close>

inductive attach_out ::
  "('v \<Rightarrow> string set) \<Rightarrow> host_env \<Rightarrow> string \<Rightarrow> string \<Rightarrow> mount \<Rightarrow> 'v kuasar_sandbox
   \<Rightarrow> sb_error + unit \<Rightarrow> 'v kuasar_sandbox \<Rightarrow> bool"
  for devs :: "'v \<Rightarrow> string set" and he i cid m sb where
  Skip: "attach_out devs he i cid m sb (Inr ()) sb"
| Fail: "attach_out devs he i cid m sb (Inl e) sb"
| FailImage: "attach_out devs he i cid m sb (Inl e)
    (sb\<lparr>sb_images := remove_image he (image_path sb i) (List.insert (image_path sb i) (sb_images sb))\<rparr>)"
| FailAttach: "devs v = devs (sb_vm sb) \<Longrightarrow>
    attach_out devs he i cid m sb (Inl e) (sb\<lparr>sb_id_generator := sb_id_generator sb + 1, sb_vm := v\<rparr>)"
| FailAttachImage: "devs v = devs (sb_vm sb) \<Longrightarrow>
    attach_out devs he i cid m sb (Inl e)
      (sb\<lparr>sb_id_generator := sb_id_generator sb + 1, sb_vm := v,
          sb_images := remove_image he (image_path sb i) (List.insert (image_path sb i) (sb_images sb))\<rparr>)"
| FailFstype: "he_fstype he (m_source m) = None \<Longrightarrow>
    devs v = insert (''blk'' @ show_nat (unat (sb_id_generator sb + 1))) (devs (sb_vm sb)) \<Longrightarrow>
    attach_out devs he i cid m sb (Inl e) (sb\<lparr>sb_id_generator := sb_id_generator sb + 1, sb_vm := v\<rparr>)"
| Plain: "st_id st = i \<Longrightarrow> st_ref_container st = [] \<Longrightarrow> st_device_id st = None \<Longrightarrow> \<not> st_owned_by_runtime st \<Longrightarrow>
    attach_out devs he i cid m sb (Inr ()) (push_storage cid st sb)"
| Device: "st_id st = i \<Longrightarrow> st_ref_container st = [] \<Longrightarrow>
    st_device_id st = Some (''blk'' @ show_nat (unat (sb_id_generator sb + 1))) \<Longrightarrow>
    devs v = insert (''blk'' @ show_nat (unat (sb_id_generator sb + 1))) (devs (sb_vm sb)) \<Longrightarrow>
    \<not> st_owned_by_runtime st \<Longrightarrow>
    attach_out devs he i cid m sb (Inr ())
      (push_storage cid st (sb\<lparr>sb_id_generator := sb_id_generator sb + 1, sb_vm := v\<rparr>))"
| Image: "st_id st = i \<Longrightarrow> st_ref_container st = [] \<Longrightarrow>
    st_device_id st = Some (''blk'' @ show_nat (unat (sb_id_generator sb + 1))) \<Longrightarrow>
    devs v = insert (''blk'' @ show_nat (unat (sb_id_generator sb + 1))) (devs (sb_vm sb)) \<Longrightarrow>
    st_owned_by_runtime st \<Longrightarrow> st_cleanup_path st = Some (image_path sb i) \<Longrightarrow>
    attach_out devs he i cid m sb (Inr ())
      (push_storage cid st (sb\<lparr>sb_images := List.insert (image_path sb i) (sb_images sb),
         sb_id_generator := sb_id_generator sb + 1, sb_vm := v\<rparr>))"

lemma hotplug_steps:
  assumes "hotplug_ok vo devs"
  shows "devs (snd (vm_hot_attach vo d v)) =
      (case fst (vm_hot_attach vo d v) of Inl _ \<Rightarrow> devs v | Inr _ \<Rightarrow> insert (bd_id d) (devs v))"
    and "devs (snd (vm_hot_detach vo i v)) =
      (case fst (vm_hot_detach vo i v) of Some _ \<Rightarrow> devs v | None \<Rightarrow> devs v - {i})"
  using assms unfolding hotplug_ok_def by blast+

lemma hotplug_attach:
  "hotplug_ok vo devs \<Longrightarrow> vm_hot_attach vo d v = (Inl e, v') \<Longrightarrow> devs v' = devs v"
  "hotplug_ok vo devs \<Longrightarrow> vm_hot_attach vo d v = (Inr r, v') \<Longrightarrow> devs v' = insert (bd_id d) (devs v)"
  using hotplug_steps(1) [of vo devs d v] by simp_all

lemma hotplug_detach:
  "hotplug_ok vo devs \<Longrightarrow> vm_hot_detach vo d v = (Some e, v') \<Longrightarrow> devs v' = devs v"
  "hotplug_ok vo devs \<Longrightarrow> vm_hot_detach vo d v = (None, v') \<Longrightarrow> devs v' = devs v - {d}"
  using hotplug_steps(2) [of vo devs d v] by simp_all

lemma handle_block_device_out:
  assumes "hotplug_ok vo devs" and "handle_block_device vo he i cid m sb = (r, sb')"
  shows "attach_out devs he i cid m sb r sb'"
proof (cases "m_source m = []")
  case True
  then show ?thesis using assms(2) by (auto simp: handle_block_device_def intro: attach_out.Fail)
next
  case False
  let ?g = "sb_id_generator sb + 1"
  let ?d = "\<lparr>bd_id = ''blk'' @ show_nat (unat ?g), bd_path = m_source m, bd_read_only = ''ro'' \<in> set (m_options m)\<rparr>"
  obtain res v where hot: "vm_hot_attach vo ?d (sb_vm sb) = (res, v)" by force
  show ?thesis
  proof (cases res)
    case (Inl e)
    have "r = Inl e \<and> sb' = sb\<lparr>sb_id_generator := ?g, sb_vm := v\<rparr>"
      using assms(2) False hot Inl by (auto simp: handle_block_device_def next_device_id_def increment_and_get_id_def)
    with hotplug_attach(1) [OF assms(1) hot [unfolded Inl]] show ?thesis by (auto intro: attach_out.FailAttach)
  next
    case (Inr ba)
    obtain bus addr where ba: "ba = (bus, addr)" by force
    have devs: "devs v = insert (''blk'' @ show_nat (unat ?g)) (devs (sb_vm sb))"
      using hotplug_attach(2) [OF assms(1) hot [unfolded Inr]] by simp
    show ?thesis
    proof (cases "he_fstype he (m_source m)")
      case None
      then show ?thesis
        using assms(2) False hot Inr ba devs
        by (auto simp: handle_block_device_def next_device_id_def increment_and_get_id_def intro: attach_out.FailFstype)
    next
      case (Some fs)
      then have "\<exists>st. r = Inr () \<and> sb' = push_storage cid st (sb\<lparr>sb_id_generator := ?g, sb_vm := v\<rparr>) \<and>
          st_id st = i \<and> st_ref_container st = [] \<and>
          st_device_id st = Some (''blk'' @ show_nat (unat ?g)) \<and> \<not> st_owned_by_runtime st"
        using assms(2) False hot Inr ba
        by (fastforce simp: handle_block_device_def next_device_id_def increment_and_get_id_def)
      then show ?thesis using devs by (metis attach_out.Device)
    qed
  qed
qed

lemma shared_storage_fields [simp]:
  "st_id (shared_storage i m d p l s) = i" "st_ref_container (shared_storage i m d p l s) = []"
  "st_device_id (shared_storage i m d p l s) = None" "\<not> st_owned_by_runtime (shared_storage i m d p l s)"
  by (simp_all add: shared_storage_def)

lemmas attach_plain = attach_out.Plain [OF shared_storage_fields]

lemma handle_bind_mount_out:
  "handle_bind_mount he i cid m sb = (r, sb') \<Longrightarrow> attach_out devs he i cid m sb r sb'"
  by (auto simp: handle_bind_mount_def Let_def intro: attach_out.Fail attach_plain
      split: if_splits sum.splits option.splits bool.splits)

lemma handle_overlay_mount_out:
  "handle_overlay_mount he i cid m sb = (r, sb') \<Longrightarrow> attach_out devs he i cid m sb r sb'"
  by (auto simp: handle_overlay_mount_def Let_def intro: attach_out.Fail attach_plain split: if_splits)

lemma handle_tmpfs_mount_out: "attach_out devs he i cid m sb (Inr ()) (handle_tmpfs_mount i cid m mi sb)"
  by (simp add: handle_tmpfs_mount_def attach_out.Plain)

lemma prepared_image_out:
  assumes hp: "hotplug_ok vo devs"
    and prep: "block_prepare he req (sb_images sb) = (p, im)" and path: "bp_img_path req = image_path sb i"
    and res: "(case p of Inl e \<Rightarrow> (Inl e, sb\<lparr>sb_images := im\<rparr>)
      | Inr a \<Rightarrow> attach_image vo he a i cid m lower (sb\<lparr>sb_images := im\<rparr>)) = (r, sb')"
  shows "attach_out devs he i cid m sb r sb'"
proof (cases p)
  case (Inl e)
  then have "im = remove_image he (image_path sb i) (List.insert (image_path sb i) (sb_images sb))"
    using prep path by (auto simp: block_prepare_def Let_def split: if_splits)
  with Inl res show ?thesis by (auto intro: attach_out.FailImage)
next
  case (Inr a)
  have a: "ba_owned_by_runtime a" "ba_cleanup_path a = Some (image_path sb i)" "im = List.insert (image_path sb i) (sb_images sb)"
    using prep path Inr by (auto simp: block_prepare_def Let_def split: if_splits)
  let ?g = "sb_id_generator sb + 1"
  let ?d = "\<lparr>bd_id = ''blk'' @ show_nat (unat ?g), bd_path = ba_path a, bd_read_only = ''ro'' \<in> set (m_options m)\<rparr>"
  obtain q v where hot: "vm_hot_attach vo ?d (sb_vm sb) = (q, v)" by force
  show ?thesis
  proof (cases q)
    case (Inl e)
    then have "r = Inl e" "sb' = sb\<lparr>sb_id_generator := ?g, sb_vm := v, sb_images := remove_image he (image_path sb i) im\<rparr>"
      using res \<open>p = Inr a\<close> hot a
      by (auto simp: attach_image_def next_device_id_def increment_and_get_id_def block_attach_def block_release_def)
    with hotplug_attach(1) [OF hp hot [unfolded Inl]] a(3) show ?thesis by (auto intro!: attach_out.FailAttachImage)
  next
    case (Inr ba)
    obtain bus addr where ba: "ba = (bus, addr)" by force
    have devs: "devs v = insert (''blk'' @ show_nat (unat ?g)) (devs (sb_vm sb))"
      using hotplug_attach(2) [OF hp hot [unfolded Inr]] by simp
    define ab where "ab = \<lparr>ab_artifact = a, ab_device_id = ''blk'' @ show_nat (unat ?g), ab_bus_type = bus, ab_guest_addr = addr\<rparr>"
    have sb': "r = Inr ()" "sb' = push_storage cid
        (into_storage ab (m_source m) (m_type m) i (ro_options m) (KUASAR_GUEST_SHARE_DIR @ i) lower)
        (sb\<lparr>sb_images := List.insert (image_path sb i) (sb_images sb), sb_id_generator := ?g, sb_vm := v\<rparr>)"
      using res \<open>p = Inr a\<close> hot Inr ba a(3)
      by (auto simp: attach_image_def next_device_id_def increment_and_get_id_def block_attach_def ab_def)
    show ?thesis unfolding sb' by (rule attach_out.Image [OF _ _ _ devs]) (simp_all add: into_storage_def ab_def a)
  qed
qed

lemma handle_overlay_mount_blk_out:
  assumes "hotplug_ok vo devs" and "handle_overlay_mount_blk vo he i cid m sb = (r, sb')"
  shows "attach_out devs he i cid m sb r sb'"
proof (cases "m_source m = [] \<or> \<not> he_create he (sb_base_dir sb @ ''/overlay-'' @ i) \<or>
    \<not> he_mount_rootfs he m (sb_base_dir sb @ ''/overlay-'' @ i)")
  case True
  then show ?thesis
    using assms(2) by (auto simp: handle_overlay_mount_blk_def Let_def intro: attach_out.Fail split: if_splits)
next
  case False
  let ?req = "\<lparr>bp_src_dir = sb_base_dir sb @ ''/overlay-'' @ i, bp_img_path = image_path sb i,
    bp_fstype = image_fstype sb, bp_fallback_size_mb = overlay_image_fallback_size_mb (sb_storage_policy sb),
    bp_overhead_percent = block_image_size_overhead_percent (sb_storage_policy sb),
    bp_source_identity = map_option ((@) ''overlay:'') (extract_lower_dirs (m_options m)),
    bp_readonly = ''ro'' \<in> set (m_options m)\<rparr>"
  obtain p im where prep: "block_prepare he ?req (sb_images sb) = (p, im)" by force
  from False assms(2) prep
  have "(case p of Inl e \<Rightarrow> (Inl e, sb\<lparr>sb_images := im\<rparr>)
      | Inr a \<Rightarrow> attach_image vo he a i cid m (extract_lower_dirs (m_options m)) (sb\<lparr>sb_images := im\<rparr>)) = (r, sb')"
    by (simp add: handle_overlay_mount_blk_def Let_def split: sum.splits)
  from prepared_image_out [OF assms(1) prep _ this] show ?thesis by simp
qed

lemma push_single_file_out:
  "push_single_file he i cid mode m sb = (r, sb') \<Longrightarrow> attach_out devs he i cid m sb r sb'"
  by (auto simp: push_single_file_def intro: attach_out.Fail attach_plain
      split: if_splits sum.splits option.splits)

lemma inject_small_dir_out:
  "inject_small_dir he i cid scan dest m sb = (r, sb') \<Longrightarrow> attach_out devs he i cid m sb r sb'"
  by (auto simp: inject_small_dir_def intro: attach_out.Fail attach_plain split: if_splits sum.splits)

lemma large_bind_out:
  assumes "hotplug_ok vo devs" and "bp_img_path req = image_path sb i"
    and "(case block_prepare he req (sb_images sb) of
        (Inl e, im) \<Rightarrow> (Inl e, sb\<lparr>sb_images := im\<rparr>)
      | (Inr a, im) \<Rightarrow> attach_image vo he a i cid m None (sb\<lparr>sb_images := im\<rparr>)) = (r, sb')"
  shows "attach_out devs he i cid m sb r sb'"
proof -
  obtain p im where prep: "block_prepare he req (sb_images sb) = (p, im)" by force
  with assms(3) have "(case p of Inl e \<Rightarrow> (Inl e, sb\<lparr>sb_images := im\<rparr>)
      | Inr a \<Rightarrow> attach_image vo he a i cid m None (sb\<lparr>sb_images := im\<rparr>)) = (r, sb')"
    by (simp split: sum.splits)
  from prepared_image_out [OF assms(1) prep assms(2) this] show ?thesis .
qed

lemma handle_bind_mount_blk_out:
  assumes hp: "hotplug_ok vo devs" and res: "handle_bind_mount_blk vo he i cid m rootfs sb = (r, sb')"
  shows "attach_out devs he i cid m sb r sb'"
proof (cases "m_source m = []")
  case True
  then show ?thesis using res by (auto simp: handle_bind_mount_blk_def intro: attach_out.Fail)
next
  case ne: False
  show ?thesis
  proof (cases "he_lmeta he (m_source m)")
    case None
    then show ?thesis using ne res by (auto simp: handle_bind_mount_blk_def intro: attach_out.Fail)
  next
    case (Some k)
    show ?thesis
    proof (cases k)
      case (LDir es)
      show ?thesis
      proof (cases "scan_dir (he_unreadable he) (m_source m) es")
        case (Inl e)
        then show ?thesis using ne Some LDir res by (auto simp: handle_bind_mount_blk_def intro: attach_out.Fail)
      next
        case (Inr scan)
        let ?small = "file_count scan \<le> small_dir_max_files (sb_storage_policy sb) \<and>
          total_bytes scan \<le> small_dir_max_bytes (sb_storage_policy sb)"
        show ?thesis
        proof (cases "?small \<or> \<not> allow_large_bind_mount (sb_storage_policy sb)")
          case True
          then show ?thesis
            using ne Some LDir Inr res unfolding handle_bind_mount_blk_def
            by (auto intro: attach_out.Fail inject_small_dir_out split: if_splits sum.splits)
        next
          case False
          then show ?thesis
            using ne Some LDir Inr res unfolding handle_bind_mount_blk_def
            by (intro large_bind_out [OF hp, rotated]) auto
        qed
      qed
    qed (use ne Some res in \<open>auto simp: handle_bind_mount_blk_def
        intro: attach_out.Fail push_single_file_out split: if_splits\<close>)
  qed
qed

lemma attach_by_kind_out:
  assumes "hotplug_ok vo devs" and "attach_by_kind vo he i cid m rootfs sb = (r, sb')"
  shows "attach_out devs he i cid m sb r sb'"
  using assms(2) unfolding attach_by_kind_def
  by (auto intro: attach_out.Skip handle_bind_mount_blk_out [OF assms(1)] handle_bind_mount_out
      handle_overlay_mount_blk_out [OF assms(1)] handle_overlay_mount_out split: if_splits)

lemma attach_new_storage_out:
  assumes "hotplug_ok vo devs" and "attach_new_storage vo he cid m rootfs sb = (r, sb')"
  shows "attach_out devs he (''storage'' @ show_nat (unat (sb_id_generator sb + 1))) cid m
    (sb\<lparr>sb_id_generator := sb_id_generator sb + 1\<rparr>) r sb'"
  using assms(2) unfolding attach_new_storage_def next_storage_id_def increment_and_get_id_def
  by (auto intro: attach_out.Fail handle_tmpfs_mount_out handle_block_device_out [OF assms(1)]
      attach_by_kind_out [OF assms(1)] split: if_splits sum.splits option.splits)

section \<open>Attachment keeps the invariant\<close>

lemma storage_invI:
  assumes "list_all storage_wf (sb_storages sb)" and "distinct (map st_id (sb_storages sb))"
    and "distinct (device_ids (sb_storages sb))"
    and "list_all (numbered ''storage'' (unat (sb_id_generator sb))) (map st_id (sb_storages sb))"
    and "list_all (numbered ''blk'' (unat (sb_id_generator sb))) (device_ids (sb_storages sb))"
    and "set (device_ids (sb_storages sb)) \<subseteq> devs (sb_vm sb)" and "list_all (owned_ok sb) (sb_storages sb)"
  shows "storage_inv devs sb"
  using assms unfolding storage_inv_def by blast

lemma storage_invD:
  assumes "storage_inv devs sb"
  shows "list_all storage_wf (sb_storages sb)" and "distinct (map st_id (sb_storages sb))"
    and "distinct (device_ids (sb_storages sb))"
    and "list_all (numbered ''storage'' (unat (sb_id_generator sb))) (map st_id (sb_storages sb))"
    and "list_all (numbered ''blk'' (unat (sb_id_generator sb))) (device_ids (sb_storages sb))"
    and "set (device_ids (sb_storages sb)) \<subseteq> devs (sb_vm sb)" and "list_all (owned_ok sb) (sb_storages sb)"
  using assms unfolding storage_inv_def by blast+

text \<open>The next number: no wrap-around, and not in use.\<close>

lemma next_number:
  fixes g :: "32 word"
  assumes "unat g + 1 < 2 ^ 32"
  shows "unat (g + 1) = unat g + 1"
proof -
  from assms have "unat g + unat (1 :: 32 word) < 2 ^ LENGTH(32)" by simp
  then have "unat (g + 1) = unat g + unat (1 :: 32 word)" by (simp only: unat_add_lem)
  then show ?thesis by simp
qed

lemma owned_ok_images:
  "owned_ok sb st \<Longrightarrow> sb_base_dir sb' = sb_base_dir sb \<Longrightarrow> set (sb_images sb) - X \<subseteq> set (sb_images sb') \<Longrightarrow>
   image_path sb (st_id st) \<notin> X \<Longrightarrow> owned_ok sb' st"
  by (auto simp: owned_ok_def image_path_def)

lemma remove_image_keeps:
  "set images - {p} \<subseteq> set (remove_image he p (List.insert p images))"
  "he_remove he p \<noteq> Some IoFault \<Longrightarrow> set (remove_image he p (List.insert p images)) = set images - {p}"
  by (auto simp: remove_image_def)

text \<open>
  A failure, or an attachment that records nothing, keeps the invariant when it only adds devices
  and drops at most the image of the fresh id.
\<close>

lemma storage_inv_frame:
  assumes inv: "storage_inv devs sb" and same: "sb_storages sb' = sb_storages sb" "sb_base_dir sb' = sb_base_dir sb"
    and gen: "unat (sb_id_generator sb) \<le> unat (sb_id_generator sb')"
    and devs: "devs (sb_vm sb) \<subseteq> devs (sb_vm sb')"
    and images: "set (sb_images sb) - {image_path sb i} \<subseteq> set (sb_images sb')"
    and fresh: "i \<notin> set (map st_id (sb_storages sb))"
  shows "storage_inv devs sb'"
proof (rule storage_invI)
  note I = storage_invD [OF inv]
  show "list_all (numbered ''storage'' (unat (sb_id_generator sb'))) (map st_id (sb_storages sb'))"
    using I(4) numbered_mono [OF _ gen] by (auto simp: same list_all_iff)
  show "list_all (numbered ''blk'' (unat (sb_id_generator sb'))) (device_ids (sb_storages sb'))"
    using I(5) numbered_mono [OF _ gen] by (auto simp: same list_all_iff)
  show "list_all (owned_ok sb') (sb_storages sb')"
    unfolding same list_all_iff
  proof
    fix st assume "st \<in> set (sb_storages sb)"
    then have "owned_ok sb st" "st_id st \<noteq> i" using I(7) fresh by (auto simp: list_all_iff)
    then show "owned_ok sb' st" using owned_ok_images [OF _ same(2) images] by simp
  qed
qed (use storage_invD [OF inv] devs in \<open>auto simp: same\<close>)

lemma storage_inv_push:
  assumes inv: "storage_inv devs sb" and fresh: "st_id st \<notin> set (map st_id (sb_storages sb))"
    and num: "numbered ''storage'' (unat (sb_id_generator sb)) (st_id st)" and ref: "st_ref_container st = []"
    and dev: "\<And>d. st_device_id st = Some d \<Longrightarrow> d \<notin> set (device_ids (sb_storages sb)) \<and> d \<in> devs (sb_vm sb) \<and>
      numbered ''blk'' (unat (sb_id_generator sb)) d"
    and own: "owned_ok sb st"
  shows "storage_inv devs (push_storage cid st sb)"
proof (rule storage_invI)
  note I = storage_invD [OF inv]
  let ?sb = "push_storage cid st sb"
  have sts: "sb_storages ?sb = sb_storages sb @ [refer cid st]" by (simp add: push_storage_def)
  have wf: "storage_wf st" using ref by (simp add: storage_wf_def)
  have ids: "device_ids (sb_storages ?sb) = device_ids (sb_storages sb) @ (case st_device_id st of Some d \<Rightarrow> [d] | None \<Rightarrow> [])"
    by (simp add: sts)
  show "list_all storage_wf (sb_storages ?sb)" using I(1) storage_wf_refer [OF wf] by (simp add: sts)
  show "distinct (map st_id (sb_storages ?sb))" using I(2) fresh by (simp add: sts)
  show "distinct (device_ids (sb_storages ?sb))" unfolding ids using I(3) dev by (auto split: option.splits)
  show "list_all (numbered ''storage'' (unat (sb_id_generator ?sb))) (map st_id (sb_storages ?sb))"
    using I(4) num by (simp add: push_storage_def)
  show "list_all (numbered ''blk'' (unat (sb_id_generator ?sb))) (device_ids (sb_storages ?sb))"
    unfolding ids using I(5) dev by (auto simp: push_storage_def split: option.splits)
  show "set (device_ids (sb_storages ?sb)) \<subseteq> devs (sb_vm ?sb)"
    unfolding ids using I(6) dev by (auto simp: push_storage_def split: option.splits)
  have "owned_ok ?sb x = owned_ok sb x" "owned_ok ?sb (refer cid x) = owned_ok sb x" for x
    by (simp_all add: owned_ok_def push_storage_def image_path_def)
  with I(7) own show "list_all (owned_ok ?sb) (sb_storages ?sb)" by (simp add: sts list_all_iff)
qed

lemma attach_out_inv:
  assumes out: "attach_out devs he i cid m sb r sb'" and inv: "storage_inv devs sb"
    and i: "i \<notin> set (map st_id (sb_storages sb))" "numbered ''storage'' (unat (sb_id_generator sb)) i"
    and room: "unat (sb_id_generator sb) + 1 < 2 ^ 32"
  shows "storage_inv devs sb'"
proof -
  note nn = next_number [OF room]
  let ?b = "''blk'' @ show_nat (unat (sb_id_generator sb + 1))"
  have b: "?b \<notin> set (device_ids (sb_storages sb))"
    by (rule numbered_next [OF storage_invD(5) [OF inv]]) (use nn in simp)
  have nb: "numbered ''blk'' (unat (sb_id_generator sb + 1)) ?b" by (auto simp: numbered_def)
  have ni: "numbered ''storage'' (unat (sb_id_generator sb + 1)) i" using numbered_mono [OF i(2)] nn by simp
  note frame = storage_inv_frame [OF inv, where i = i, OF _ _ _ _ _ i(1)]
  from out show ?thesis
  proof cases
    case (Plain st)
    then show ?thesis using storage_inv_push [OF inv, of st cid] i by (simp add: owned_ok_def)
  next
    case (Device st v)
    have "storage_inv devs (sb\<lparr>sb_id_generator := sb_id_generator sb + 1, sb_vm := v\<rparr>)"
      by (rule frame) (use Device nn in auto)
    from storage_inv_push [OF this, of st cid] Device i b nb ni show ?thesis by (simp add: owned_ok_def)
  next
    case (Image st v)
    have "storage_inv devs (sb\<lparr>sb_images := List.insert (image_path sb i) (sb_images sb),
        sb_id_generator := sb_id_generator sb + 1, sb_vm := v\<rparr>)"
      by (rule frame) (use Image nn in auto)
    from storage_inv_push [OF this, of st cid] Image i b nb ni show ?thesis
      by (simp add: owned_ok_def image_path_def)
  next
    case (FailImage e)
    show ?thesis unfolding FailImage by (rule frame) (use remove_image_keeps(1) in auto)
  next
    case (FailAttach v e)
    show ?thesis unfolding FailAttach by (rule frame) (use FailAttach nn in auto)
  next
    case (FailAttachImage v e)
    show ?thesis unfolding FailAttachImage by (rule frame) (use FailAttachImage nn remove_image_keeps(1) in auto)
  next
    case (FailFstype v e)
    show ?thesis unfolding FailFstype by (rule frame) (use FailFstype nn in auto)
  qed (use inv in simp_all)
qed

section \<open>Reference counting keeps the invariant\<close>

definition same_entry :: "storage \<Rightarrow> storage \<Rightarrow> bool" where
  "same_entry a b \<longleftrightarrow>
     st_id b = st_id a \<and> st_device_id b = st_device_id a \<and> st_owned_by_runtime b = st_owned_by_runtime a \<and>
     st_cleanup_path b = st_cleanup_path a \<and> (storage_wf a \<longrightarrow> storage_wf b)"

lemma same_entry_refl [simp]: "same_entry a a"
  by (simp add: same_entry_def)

lemma same_entry_refs [simp]: "same_entry a (refer c a)" "same_entry a (storage_defer c a)"
  "same_entry a (refer c (storage_defer d a))"
  by (simp_all add: same_entry_def storage_wf_refer storage_wf_defer)

lemma same_entries_update: "list_all2 same_entry xs ys \<Longrightarrow> same_entry (ys ! n) y \<Longrightarrow> list_all2 same_entry xs (ys[n := y])"
  by (cases "n < length ys")
    (auto simp: list_all2_conv_all_nth nth_list_update same_entry_def)

lemma same_entries:
  assumes "list_all2 same_entry xs ys"
  shows "map st_id ys = map st_id xs" and "device_ids ys = device_ids xs"
    and "list_all storage_wf xs \<Longrightarrow> list_all storage_wf ys"
    and "list_all (owned_ok sb) xs \<Longrightarrow> list_all (owned_ok sb) ys"
    and "image_path sb ` st_id ` {st \<in> set ys. st_owned_by_runtime st} =
         image_path sb ` st_id ` {st \<in> set xs. st_owned_by_runtime st}"
proof -
  show "map st_id ys = map st_id xs" and "device_ids ys = device_ids xs"
    and "list_all storage_wf xs \<Longrightarrow> list_all storage_wf ys"
    and "list_all (owned_ok sb) xs \<Longrightarrow> list_all (owned_ok sb) ys"
    using assms by (induction rule: list_all2_induct) (auto simp: same_entry_def owned_ok_def)
  have "st_id ` {st \<in> set ys. st_owned_by_runtime st} = st_id ` {st \<in> set xs. st_owned_by_runtime st}"
    using assms
  proof (induction rule: list_all2_induct)
    case (Cons x xs y ys)
    have split: "st_id ` {st \<in> set (z # zs). st_owned_by_runtime st} =
        (if st_owned_by_runtime z then {st_id z} else {}) \<union> st_id ` {st \<in> set zs. st_owned_by_runtime st}" for z zs
      by auto
    from Cons show ?case unfolding split by (simp add: same_entry_def)
  qed simp
  then show "image_path sb ` st_id ` {st \<in> set ys. st_owned_by_runtime st} =
         image_path sb ` st_id ` {st \<in> set xs. st_owned_by_runtime st}" by simp
qed

lemma image_path_cong: "sb_base_dir sb' = sb_base_dir sb \<Longrightarrow> image_path sb' = image_path sb"
  by (simp add: image_path_def fun_eq_iff)

lemma storage_inv_refs:
  assumes "storage_inv devs sb" and "list_all2 same_entry (sb_storages sb) (sb_storages sb')"
    and "sb_vm sb' = sb_vm sb" "sb_images sb' = sb_images sb" "sb_base_dir sb' = sb_base_dir sb"
    "sb_id_generator sb' = sb_id_generator sb"
  shows "storage_inv devs sb'" and "stray_devices devs sb' = stray_devices devs sb"
    and "stray_images sb' = stray_images sb"
proof -
  note S = same_entries [OF assms(2)]
  have "owned_ok sb' = owned_ok sb"
    by (simp add: owned_ok_def fun_eq_iff assms(4) image_path_cong [OF assms(5)])
  then show "storage_inv devs sb'"
    using assms(1) S(1,2) S(3) S(4) [of sb] by (simp add: storage_inv_def assms)
  show "stray_devices devs sb' = stray_devices devs sb" by (simp add: stray_devices_def S(2) assms)
  show "stray_images sb' = stray_images sb"
    using S(5) [of sb] by (simp add: stray_images_def owned_images_def assms image_path_cong [OF assms(5)])
qed

lemma update_storage_fields [simp]:
  "sb_vm (update_storage n f sb) = sb_vm sb" "sb_images (update_storage n f sb) = sb_images sb"
  "sb_base_dir (update_storage n f sb) = sb_base_dir sb" "sb_id_generator (update_storage n f sb) = sb_id_generator sb"
  "sb_restore (update_storage n f sb) = sb_restore sb"
  by (simp_all add: update_storage_def split: option.splits)

lemma update_storage_same:
  "(\<And>st. same_entry st (f st)) \<Longrightarrow> list_all2 same_entry (sb_storages sb) (sb_storages (update_storage n f sb))"
  by (auto simp: update_storage_def same_entries_update list.rel_refl split: option.splits)

section \<open>Collection keeps the invariant\<close>

definition drop_storage :: "string \<Rightarrow> 'v kuasar_sandbox \<Rightarrow> 'v kuasar_sandbox" where
  "drop_storage i sb = sb\<lparr>sb_storages := filter (\<lambda>x. st_id x \<noteq> i) (sb_storages sb)\<rparr>"

text \<open>
  What detaching an entry of the sandbox does: on failure nothing; otherwise its device leaves the
  machine and the image it owns leaves the disk, unless the removal fails.
\<close>

lemma detach_storage_cases:
  assumes "hotplug_ok vo devs" and "storage_inv devs sb" and "st \<in> set (sb_storages sb)"
    and "detach_storage vo he st sb = (r, sb')"
  obtains (Failed) e v where "r = Some e" "sb' = sb\<lparr>sb_vm := v\<rparr>" "devs v = devs (sb_vm sb)"
  | (Plain) "r = None" "sb' = sb" "st_device_id st = None" "\<not> st_owned_by_runtime st"
  | (Device) d v where "r = None" "sb' = sb\<lparr>sb_vm := v\<rparr>" "st_device_id st = Some d" "devs v = devs (sb_vm sb) - {d}"
      "\<not> st_owned_by_runtime st"
  | (Image) d v where "r = None" "st_device_id st = Some d" "devs v = devs (sb_vm sb) - {d}" "st_owned_by_runtime st"
      "sb' = sb\<lparr>sb_vm := v, sb_images := remove_image he (image_path sb (st_id st)) (sb_images sb)\<rparr>"
proof (cases "st_device_id st")
  case None
  have "\<not> st_owned_by_runtime st"
    using storage_invD(7) [OF assms(2)] assms(3) None by (auto simp: list_all_iff owned_ok_def)
  moreover have "sb' = sb"
    using assms(4) None by (auto simp: detach_storage_def Let_def split: if_splits option.splits)
  ultimately show thesis using None Plain Failed [of _ "sb_vm sb"] by (cases r) simp_all
next
  case (Some d)
  have own: "st_owned_by_runtime st \<Longrightarrow> st_cleanup_path st = Some (image_path sb (st_id st))"
    using storage_invD(7) [OF assms(2)] assms(3) by (auto simp: list_all_iff owned_ok_def)
  obtain r1 v where h: "vm_hot_detach vo d (sb_vm sb) = (r1, v)" by force
  show thesis
  proof (cases r1)
    case (Some e)
    then have "r = Some e" "sb' = sb\<lparr>sb_vm := v\<rparr>"
      using assms(4) \<open>st_device_id st = Some d\<close> h by (simp_all add: detach_storage_def)
    moreover have "devs v = devs (sb_vm sb)" using h Some hotplug_detach(1) [OF assms(1)] by simp
    ultimately show thesis by (rule Failed)
  next
    case None
    then have v: "devs v = devs (sb_vm sb) - {d}" using h hotplug_detach(2) [OF assms(1)] by simp
    show thesis
    proof (cases "st_owned_by_runtime st")
      case True
      have "r = None" "sb' = sb\<lparr>sb_vm := v, sb_images := remove_image he (image_path sb (st_id st)) (sb_images sb)\<rparr>"
        using assms(4) \<open>st_device_id st = Some d\<close> h None own [OF True] True
        by (simp_all add: detach_storage_def Let_def artifact_from_storage_def block_release_def)
      then show thesis using Image [of d v] \<open>st_device_id st = Some d\<close> v True by simp
    next
      case False
      have "r = None" "sb' = sb\<lparr>sb_vm := v\<rparr>"
        using assms(4) \<open>st_device_id st = Some d\<close> h None False by (simp_all add: detach_storage_def Let_def)
      then show thesis using Device [of v d] \<open>st_device_id st = Some d\<close> v False by simp
    qed
  qed
qed

lemma device_ids_filter:
  "distinct (device_ids sts) \<Longrightarrow> distinct (map st_id sts) \<Longrightarrow> st \<in> set sts \<Longrightarrow>
   set (device_ids (filter (\<lambda>x. st_id x \<noteq> st_id st) sts)) = set (device_ids sts) - set_option (st_device_id st)"
proof (induction sts)
  case (Cons a sts)
  show ?case
  proof (cases "st = a")
    case True
    then have "filter (\<lambda>x. st_id x \<noteq> st_id st) sts = sts" using Cons.prems(2)
      by (intro filter_True) (auto intro: rev_image_eqI)
    then show ?thesis using True Cons.prems(1) by (auto split: option.splits)
  next
    case False
    then have "st \<in> set sts" using Cons.prems(3) by simp
    moreover from this have "st_id a \<noteq> st_id st" using Cons.prems(2) by auto
    moreover from \<open>st \<in> set sts\<close> have "st_device_id a \<noteq> None \<Longrightarrow> st_device_id a \<noteq> st_device_id st"
      using Cons.prems(1) by (auto simp: device_ids_mem split: option.splits)
    ultimately show ?thesis using Cons by (auto split: option.splits)
  qed
qed simp

lemma distinct_device_ids_filter: "distinct (device_ids sts) \<Longrightarrow> distinct (device_ids (filter P sts))"
  by (induction sts) (auto simp: device_ids_mem split: option.splits)

lemma drop_storage_inv:
  assumes inv: "storage_inv devs sb" and st: "st \<in> set (sb_storages sb)"
    and dev: "devs v = devs (sb_vm sb) - set_option (st_device_id st)"
    and im: "set (sb_images sb) - {image_path sb (st_id st)} \<subseteq> set im"
  shows "storage_inv devs (drop_storage (st_id st) (sb\<lparr>sb_vm := v, sb_images := im\<rparr>))"
proof (rule storage_invI)
  let ?sb = "drop_storage (st_id st) (sb\<lparr>sb_vm := v, sb_images := im\<rparr>)"
  note I = storage_invD [OF inv]
  have sts: "sb_storages ?sb = filter (\<lambda>x. st_id x \<noteq> st_id st) (sb_storages sb)" by (simp add: drop_storage_def)
  note ids = device_ids_filter [OF I(3,2) st]
  show "list_all storage_wf (sb_storages ?sb)" using I(1) by (simp add: sts list_all_iff)
  show "distinct (map st_id (sb_storages ?sb))" using I(2) by (simp add: sts distinct_map_filter)
  show "distinct (device_ids (sb_storages ?sb))" unfolding sts by (rule distinct_device_ids_filter [OF I(3)])
  show "list_all (numbered ''storage'' (unat (sb_id_generator ?sb))) (map st_id (sb_storages ?sb))"
    using I(4) by (simp add: drop_storage_def list_all_iff)
  show "list_all (numbered ''blk'' (unat (sb_id_generator ?sb))) (device_ids (sb_storages ?sb))"
    unfolding sts list_all_iff ids using I(5) by (simp add: drop_storage_def list_all_iff)
  show "set (device_ids (sb_storages ?sb)) \<subseteq> devs (sb_vm ?sb)"
    unfolding sts ids using I(6) dev by (auto simp: drop_storage_def)
  show "list_all (owned_ok ?sb) (sb_storages ?sb)"
    unfolding sts list_all_iff
  proof
    fix x assume "x \<in> set (filter (\<lambda>x. st_id x \<noteq> st_id st) (sb_storages sb))"
    then have "owned_ok sb x" "st_id x \<noteq> st_id st" using I(7) by (auto simp: list_all_iff)
    then show "owned_ok ?sb x"
      using owned_ok_images [of sb x ?sb "{image_path sb (st_id st)}"] im by (simp add: drop_storage_def)
  qed
qed

lemma detach_storage_inv:
  assumes "hotplug_ok vo devs" and "storage_inv devs sb" and "st \<in> set (sb_storages sb)"
    and "detach_storage vo he st sb = (None, sb')"
  shows "storage_inv devs (drop_storage (st_id st) sb')"
    and "sb_storages sb' = sb_storages sb" and "sb_id_generator sb' = sb_id_generator sb"
    and "devs (sb_vm sb') = devs (sb_vm sb) - set_option (st_device_id st)"
proof -
  have "storage_inv devs (drop_storage (st_id st) sb') \<and> sb_storages sb' = sb_storages sb \<and>
      sb_id_generator sb' = sb_id_generator sb \<and> devs (sb_vm sb') = devs (sb_vm sb) - set_option (st_device_id st)"
  proof (cases rule: detach_storage_cases [OF assms])
    case 1
    then show ?thesis by simp
  next
    case 2
    then show ?thesis using drop_storage_inv [OF assms(2,3), of "sb_vm sb" "sb_images sb"] by simp
  next
    case (3 d v)
    then show ?thesis using drop_storage_inv [OF assms(2,3), of v "sb_images sb"] by auto
  next
    case (4 d v)
    then show ?thesis
      using drop_storage_inv [OF assms(2,3), of v "remove_image he (image_path sb (st_id st)) (sb_images sb)"]
      by (auto simp: remove_image_def)
  qed
  then show "storage_inv devs (drop_storage (st_id st) sb')" and "sb_storages sb' = sb_storages sb"
    and "sb_id_generator sb' = sb_id_generator sb"
    and "devs (sb_vm sb') = devs (sb_vm sb) - set_option (st_device_id st)" by simp_all
qed

text \<open>A host on which files can be removed.\<close>

definition removes :: "host_env \<Rightarrow> bool" where
  "removes he \<longleftrightarrow> (\<forall>p. he_remove he p \<noteq> Some IoFault)"

lemma remove_image_set: "removes he \<Longrightarrow> set (remove_image he p im) = set im - {p}"
  by (simp add: remove_image_def removes_def)

lemma owned_images_drop:
  "owned_images (drop_storage i sb) = owned_images sb - {image_path sb i}"
  by (auto simp: owned_images_def drop_storage_def image_path_def)

lemma owned_images_vm [simp]:
  "owned_images (sb\<lparr>sb_vm := v\<rparr>) = owned_images sb" "owned_images (sb\<lparr>sb_images := im\<rparr>) = owned_images sb"
  "owned_images (sb\<lparr>sb_id_generator := g\<rparr>) = owned_images sb"
  by (simp_all add: owned_images_def image_path_def)

lemma image_path_upd [simp]:
  "image_path (sb\<lparr>sb_vm := v\<rparr>) = image_path sb" "image_path (sb\<lparr>sb_images := im\<rparr>) = image_path sb"
  "image_path (sb\<lparr>sb_id_generator := g\<rparr>) = image_path sb"
  by (simp_all add: image_path_def fun_eq_iff)

lemma owned_images_unowned:
  "distinct (map st_id (sb_storages sb)) \<Longrightarrow> st \<in> set (sb_storages sb) \<Longrightarrow> \<not> st_owned_by_runtime st \<Longrightarrow>
   image_path sb (st_id st) \<notin> owned_images sb"
  by (auto simp: owned_images_def distinct_map inj_on_def)

lemma drop_storage_strays:
  assumes inv: "storage_inv devs sb" and st: "st \<in> set (sb_storages sb)"
    and dev: "devs v = devs (sb_vm sb) - set_option (st_device_id st)"
  shows "stray_devices devs (drop_storage (st_id st) (sb\<lparr>sb_vm := v, sb_images := im\<rparr>)) \<subseteq> stray_devices devs sb"
    and "set im \<subseteq> set (sb_images sb) \<Longrightarrow> (st_owned_by_runtime st \<Longrightarrow> image_path sb (st_id st) \<notin> set im) \<Longrightarrow>
      stray_images (drop_storage (st_id st) (sb\<lparr>sb_vm := v, sb_images := im\<rparr>)) \<subseteq> stray_images sb"
proof -
  note I = storage_invD [OF inv]
  let ?sb = "drop_storage (st_id st) (sb\<lparr>sb_vm := v, sb_images := im\<rparr>)"
  have "set (device_ids (sb_storages ?sb)) = set (device_ids (sb_storages sb)) - set_option (st_device_id st)"
    using device_ids_filter [OF I(3,2) st] by (simp add: drop_storage_def)
  moreover have "sb_vm ?sb = v" by (simp add: drop_storage_def)
  ultimately show "stray_devices devs ?sb \<subseteq> stray_devices devs sb" using dev by (auto simp: stray_devices_def)
  assume "set im \<subseteq> set (sb_images sb)" and "st_owned_by_runtime st \<Longrightarrow> image_path sb (st_id st) \<notin> set im"
  moreover have "owned_images ?sb = owned_images sb - {image_path sb (st_id st)}" by (simp add: owned_images_drop)
  moreover have "sb_images ?sb = im" by (simp add: drop_storage_def)
  ultimately show "stray_images ?sb \<subseteq> stray_images sb"
    using owned_images_unowned [OF I(2) st] by (auto simp: stray_images_def)
qed

lemma detach_storage_strays:
  assumes "hotplug_ok vo devs" and "storage_inv devs sb" and "st \<in> set (sb_storages sb)"
    and "detach_storage vo he st sb = (None, sb')"
  shows "stray_devices devs (drop_storage (st_id st) sb') \<subseteq> stray_devices devs sb"
    and "removes he \<Longrightarrow> stray_images (drop_storage (st_id st) sb') \<subseteq> stray_images sb"
proof -
  note D = drop_storage_strays [OF assms(2,3)]
  have "stray_devices devs (drop_storage (st_id st) sb') \<subseteq> stray_devices devs sb \<and>
      (removes he \<longrightarrow> stray_images (drop_storage (st_id st) sb') \<subseteq> stray_images sb)"
  proof (cases rule: detach_storage_cases [OF assms])
    case 1
    then show ?thesis by simp
  next
    case 2
    then show ?thesis using D [of "sb_vm sb" "sb_images sb"] by simp
  next
    case (3 d v)
    then show ?thesis using D [of v "sb_images sb"] by simp
  next
    case (4 d v)
    then show ?thesis using D [of v "remove_image he (image_path sb (st_id st)) (sb_images sb)"]
      by (simp add: remove_image_set)
  qed
  then show "stray_devices devs (drop_storage (st_id st) sb') \<subseteq> stray_devices devs sb"
    and "removes he \<Longrightarrow> stray_images (drop_storage (st_id st) sb') \<subseteq> stray_images sb" by simp_all
qed

text \<open>
  Collecting entries of the sandbox keeps the invariant and adds no stray device; without a fault
  exactly the given entries disappear.
\<close>

lemma gc_loop_keeps:
  assumes vo: "hotplug_ok vo devs"
  shows "storage_inv devs sb \<Longrightarrow> distinct (map st_id dead) \<Longrightarrow> set dead \<subseteq> set (sb_storages sb) \<Longrightarrow>
    gc_loop vo he dead sb = (r, sb') \<Longrightarrow>
    storage_inv devs sb' \<and> sb_id_generator sb' = sb_id_generator sb \<and>
    stray_devices devs sb' \<subseteq> stray_devices devs sb \<and> (removes he \<longrightarrow> stray_images sb' \<subseteq> stray_images sb) \<and>
    (r = None \<longrightarrow> sb_storages sb' = filter (\<lambda>x. st_id x \<notin> st_id ` set dead) (sb_storages sb) \<and>
       devs (sb_vm sb') = devs (sb_vm sb) - set (device_ids dead))"
proof (induction dead arbitrary: sb)
  case (Cons st dead)
  have st: "st \<in> set (sb_storages sb)" using Cons.prems(3) by simp
  obtain r1 sb1 where d: "detach_storage vo he st sb = (r1, sb1)" by force
  show ?case
  proof (cases r1)
    case (Some e)
    then have r: "r = Some e" "sb' = sb1" using Cons.prems(4) d by simp_all
    obtain v where "sb1 = sb\<lparr>sb_vm := v\<rparr>" "devs v = devs (sb_vm sb)"
      using d Some by (cases rule: detach_storage_cases [OF vo Cons.prems(1) st d]) auto
    then show ?thesis using Cons.prems(1) r
      by (simp add: storage_inv_def stray_devices_def stray_images_def owned_ok_def [abs_def])
  next
    case None
    let ?sb = "drop_storage (st_id st) sb1"
    note D = detach_storage_inv [OF vo Cons.prems(1) st d [unfolded None]]
    note S = detach_storage_strays [OF vo Cons.prems(1) st d [unfolded None]]
    have sts: "sb_storages ?sb = filter (\<lambda>x. st_id x \<noteq> st_id st) (sb_storages sb)" by (simp add: drop_storage_def D)
    have sub: "set dead \<subseteq> set (sb_storages ?sb)" using Cons.prems(2,3) by (auto simp: sts intro: rev_image_eqI)
    have run: "gc_loop vo he dead ?sb = (r, sb')" using Cons.prems(4) d None by (simp add: drop_storage_def)
    have gen: "sb_id_generator ?sb = sb_id_generator sb" by (simp add: drop_storage_def D)
    have dv: "devs (sb_vm ?sb) = devs (sb_vm sb) - set_option (st_device_id st)" by (simp add: drop_storage_def D)
    have "distinct (map st_id dead)" using Cons.prems(2) by simp
    from Cons.IH [OF D(1) this sub run] S show ?thesis unfolding gen sts dv by (auto simp: conj_commute split: option.splits)
  qed
qed simp

section \<open>Every operation keeps the invariant\<close>

definition keeps_storage ::
  "('v \<Rightarrow> string set) \<Rightarrow> bool \<Rightarrow> 'v kuasar_sandbox \<Rightarrow> 'v kuasar_sandbox \<Rightarrow> bool" where
  "keeps_storage devs clean sb sb' \<longleftrightarrow>
     storage_inv devs sb' \<and> unat (sb_id_generator sb') \<le> unat (sb_id_generator sb) + 2 \<and>
     (clean \<longrightarrow> stray_devices devs sb' \<subseteq> stray_devices devs sb \<and> stray_images sb' \<subseteq> stray_images sb)"

lemma gc_storages_keeps:
  assumes "hotplug_ok vo devs" and "storage_inv devs sb" and "gc_storages vo he sb = (r, sb')"
  shows "keeps_storage devs (removes he) sb sb'"
    and "r = None \<Longrightarrow> sb_storages sb' = filter (\<lambda>x. ref_count x \<noteq> 0) (sb_storages sb)"
    and "r = None \<Longrightarrow>
      devs (sb_vm sb') = devs (sb_vm sb) - set (device_ids (filter (\<lambda>x. ref_count x = 0) (sb_storages sb)))"
proof -
  let ?dead = "filter (\<lambda>x. ref_count x = 0) (sb_storages sb)"
  note d = storage_invD(2) [OF assms(2)]
  have "distinct (map st_id ?dead)" using d by (simp add: distinct_map_filter)
  from gc_loop_keeps [OF assms(1,2) this _ assms(3) [unfolded gc_storages_def]]
  have *: "storage_inv devs sb' \<and> sb_id_generator sb' = sb_id_generator sb \<and>
    stray_devices devs sb' \<subseteq> stray_devices devs sb \<and> (removes he \<longrightarrow> stray_images sb' \<subseteq> stray_images sb) \<and>
    (r = None \<longrightarrow> sb_storages sb' = filter (\<lambda>x. st_id x \<notin> st_id ` set ?dead) (sb_storages sb) \<and>
       devs (sb_vm sb') = devs (sb_vm sb) - set (device_ids ?dead))" by auto
  then show "keeps_storage devs (removes he) sb sb'"
    and "r = None \<Longrightarrow> devs (sb_vm sb') = devs (sb_vm sb) - set (device_ids ?dead)"
    by (simp_all add: keeps_storage_def)
  have "st_id x \<notin> st_id ` set ?dead \<longleftrightarrow> ref_count x \<noteq> 0" if "x \<in> set (sb_storages sb)" for x
    using d that by (auto simp: distinct_map inj_on_def)
  then show "r = None \<Longrightarrow> sb_storages sb' = filter (\<lambda>x. ref_count x \<noteq> 0) (sb_storages sb)"
    using * by (auto intro: filter_cong)
qed

lemma keeps_storage_refs:
  assumes "storage_inv devs sb" and "list_all2 same_entry (sb_storages sb) (sb_storages sb1)"
    and "sb_vm sb1 = sb_vm sb" "sb_images sb1 = sb_images sb" "sb_base_dir sb1 = sb_base_dir sb"
    "sb_id_generator sb1 = sb_id_generator sb"
  shows "keeps_storage devs c sb1 sb2 \<Longrightarrow> keeps_storage devs c sb sb2" and "keeps_storage devs c sb sb1"
  using storage_inv_refs [OF assms] assms(6) by (simp_all add: keeps_storage_def)

lemma deference_storage_keeps:
  assumes "hotplug_ok vo devs" and "storage_inv devs sb"
  shows "keeps_storage devs (removes he) sb (snd (deference_storage vo he cid m sb))"
proof -
  let ?sb = "update_storage (position (\<lambda>st. is_for_mount st m \<and> hm_contains (st_ref_container st) cid) (sb_storages sb))
    (storage_defer cid) sb"
  have same: "list_all2 same_entry (sb_storages sb) (sb_storages ?sb)" by (rule update_storage_same) simp
  note R = storage_inv_refs [OF assms(2) same] keeps_storage_refs [OF assms(2) same]
  have "storage_inv devs ?sb" by (rule R(1)) simp_all
  then have "keeps_storage devs (removes he) ?sb (snd (gc_storages vo he ?sb))"
    by (rule gc_storages_keeps(1) [OF assms(1)]) (rule surjective_pairing)
  then show ?thesis unfolding deference_storage_def by (intro R(4)) simp_all
qed

lemma defer_container_same:
  "list_all2 same_entry sts (map (\<lambda>st. if hm_contains (st_ref_container st) cid then storage_defer cid st else st) sts)"
  by (simp add: list_all2_map2 list.rel_refl)

lemma deference_container_storages_keeps:
  assumes "hotplug_ok vo devs" and "storage_inv devs sb"
  shows "keeps_storage devs (removes he) sb (snd (deference_container_storages vo he cid sb))"
proof -
  let ?sb = "sb\<lparr>sb_storages := map (\<lambda>st. if hm_contains (st_ref_container st) cid then storage_defer cid st else st)
    (sb_storages sb)\<rparr>"
  have same: "list_all2 same_entry (sb_storages sb) (sb_storages ?sb)" using defer_container_same by simp
  note R = storage_inv_refs [OF assms(2) same] keeps_storage_refs [OF assms(2) same]
  have "storage_inv devs ?sb" by (rule R(1)) simp_all
  then have "keeps_storage devs (removes he) ?sb (snd (gc_storages vo he ?sb))"
    by (rule gc_storages_keeps(1) [OF assms(1)]) (rule surjective_pairing)
  then show ?thesis unfolding deference_container_storages_def by (intro R(4)) simp_all
qed

lemma push_storage_strays:
  "stray_devices devs (push_storage cid st sb) = stray_devices devs sb - set_option (st_device_id st)"
  "stray_images (push_storage cid st sb) =
     stray_images sb - (if st_owned_by_runtime st then {image_path sb (st_id st)} else {})"
proof -
  show "stray_devices devs (push_storage cid st sb) = stray_devices devs sb - set_option (st_device_id st)"
    by (cases "st_device_id st") (auto simp: stray_devices_def push_storage_def)
  have "{x \<in> set (sb_storages sb @ [refer cid st]). st_owned_by_runtime x} =
      {x \<in> set (sb_storages sb). st_owned_by_runtime x} \<union> (if st_owned_by_runtime st then {refer cid st} else {})"
    by auto
  moreover have "image_path (push_storage cid st sb) = image_path sb"
    by (rule image_path_cong) (simp add: push_storage_def)
  ultimately have "owned_images (push_storage cid st sb) =
      owned_images sb \<union> (if st_owned_by_runtime st then {image_path sb (st_id st)} else {})"
    by (simp add: owned_images_def push_storage_def image_Un)
  then show "stray_images (push_storage cid st sb) =
     stray_images sb - (if st_owned_by_runtime st then {image_path sb (st_id st)} else {})"
    by (auto simp: stray_images_def push_storage_def)
qed

lemma stray_upd [simp]:
  "stray_devices devs (sb\<lparr>sb_id_generator := g\<rparr>) = stray_devices devs sb"
  "stray_devices devs (sb\<lparr>sb_images := im\<rparr>) = stray_devices devs sb"
  "stray_devices devs (sb\<lparr>sb_vm := v\<rparr>) = devs v - set (device_ids (sb_storages sb))"
  "stray_images (sb\<lparr>sb_id_generator := g\<rparr>) = stray_images sb"
  "stray_images (sb\<lparr>sb_vm := v\<rparr>) = stray_images sb"
  "stray_images (sb\<lparr>sb_images := im\<rparr>) = set im - owned_images sb"
  by (simp_all add: stray_devices_def stray_images_def)

lemma attach_out_strays:
  assumes "attach_out devs he i cid m sb r sb'" and "removes he" and "he_fstype he (m_source m) \<noteq> None"
  shows "stray_devices devs sb' \<subseteq> stray_devices devs sb" and "stray_images sb' \<subseteq> stray_images sb"
proof -
  have "stray_devices devs sb' \<subseteq> stray_devices devs sb \<and> stray_images sb' \<subseteq> stray_images sb"
    using assms
  proof cases
    case (Plain st)
    then show ?thesis by (simp add: push_storage_strays)
  next
    case (Device st v)
    then show ?thesis by (simp add: push_storage_strays) (auto simp: stray_devices_def)
  next
    case (Image st v)
    then show ?thesis by (simp add: push_storage_strays) (auto simp: stray_devices_def stray_images_def)
  next
    case (FailImage e)
    then show ?thesis by (auto simp: remove_image_set [OF assms(2)] stray_images_def)
  next
    case (FailAttachImage v e)
    then show ?thesis by (auto simp: remove_image_set [OF assms(2)] stray_images_def stray_devices_def)
  qed (auto simp: stray_devices_def)
  then show "stray_devices devs sb' \<subseteq> stray_devices devs sb" and "stray_images sb' \<subseteq> stray_images sb" by simp_all
qed

lemma attach_out_generator:
  "attach_out devs he i cid m sb r sb' \<Longrightarrow> unat (sb_id_generator sb) + 1 < 2 ^ 32 \<Longrightarrow>
   unat (sb_id_generator sb') \<le> unat (sb_id_generator sb) + 1"
  by (induction rule: attach_out.induct) (simp_all add: next_number push_storage_def)

lemma attach_new_storage_keeps:
  assumes vo: "hotplug_ok vo devs" and inv: "storage_inv devs sb" and room: "unat (sb_id_generator sb) + 2 < 2 ^ 32"
  shows "keeps_storage devs (removes he \<and> he_fstype he (m_source m) \<noteq> None) sb
    (snd (attach_new_storage vo he cid m rootfs sb))"
proof -
  let ?sb = "sb\<lparr>sb_id_generator := sb_id_generator sb + 1\<rparr>"
  let ?i = "''storage'' @ show_nat (unat (sb_id_generator sb + 1))"
  obtain r sb' where run: "attach_new_storage vo he cid m rootfs sb = (r, sb')" by force
  note out = attach_new_storage_out [OF vo run]
  have nn: "unat (sb_id_generator sb + 1) = unat (sb_id_generator sb) + 1" using room by (intro next_number) simp
  have new: "?i \<notin> set (map st_id (sb_storages sb))"
    by (rule numbered_next [OF storage_invD(4) [OF inv]]) (use nn in simp)
  have inv1: "storage_inv devs ?sb"
    by (rule storage_inv_frame [OF inv, where i = ?i, OF _ _ _ _ _ new]) (use nn in auto)
  have num: "numbered ''storage'' (unat (sb_id_generator ?sb)) ?i" by (auto simp: numbered_def)
  have "storage_inv devs sb'" by (rule attach_out_inv [OF out inv1 _ num]) (use new room nn in auto)
  moreover have "unat (sb_id_generator sb') \<le> unat (sb_id_generator sb) + 2"
    using attach_out_generator [OF out] room nn by simp
  ultimately show ?thesis using attach_out_strays [OF out] by (simp add: keeps_storage_def run)
qed

lemma attach_storage_keeps:
  assumes vo: "hotplug_ok vo devs" and inv: "storage_inv devs sb" and room: "unat (sb_id_generator sb) + 2 < 2 ^ 32"
  shows "keeps_storage devs (removes he \<and> he_fstype he (m_source m) \<noteq> None) sb
    (snd (attach_storage vo he cid m rootfs sb))"
proof -
  let ?clean = "removes he \<and> he_fstype he (m_source m) \<noteq> None"
  have ref: "keeps_storage devs ?clean sb (update_storage (Some n) (refer cid) sb)" for n
    by (rule keeps_storage_refs(2) [OF inv update_storage_same]) simp_all
  have adopt: "keeps_storage devs ?clean sb
      (update_storage idx (\<lambda>st. refer cid (storage_defer o1 st)) sb\<lparr>sb_restore := rm\<rparr>)" for idx o1 rm
    using update_storage_same [of "\<lambda>st. refer cid (storage_defer o1 st)" sb idx]
    by (intro keeps_storage_refs(2) [OF inv]) simp_all
  have "keeps_storage devs ?clean sb sb" using inv by (simp add: keeps_storage_def)
  then show ?thesis using ref adopt attach_new_storage_keeps [OF vo inv room]
    unfolding attach_storage_def Let_def by (simp split: option.split prod.split)
qed

datatype storage_op =
    AttachStorage host_env string mount bool
  | DeferenceStorage host_env string mount
  | DeferenceContainer host_env string

definition storage_step :: "'v vm_ops \<Rightarrow> storage_op \<Rightarrow> 'v kuasar_sandbox \<Rightarrow> 'v kuasar_sandbox" where
  "storage_step vo op sb =
     (case op of
        AttachStorage he cid m rootfs \<Rightarrow> snd (attach_storage vo he cid m rootfs sb)
      | DeferenceStorage he cid m \<Rightarrow> snd (deference_storage vo he cid m sb)
      | DeferenceContainer he cid \<Rightarrow> snd (deference_container_storages vo he cid sb))"

fun op_clean :: "storage_op \<Rightarrow> bool" where
  "op_clean (AttachStorage he cid m rootfs) \<longleftrightarrow> removes he \<and> he_fstype he (m_source m) \<noteq> None"
| "op_clean (DeferenceStorage he cid m) \<longleftrightarrow> removes he"
| "op_clean (DeferenceContainer he cid) \<longleftrightarrow> removes he"

definition storage_run :: "'v vm_ops \<Rightarrow> storage_op list \<Rightarrow> 'v kuasar_sandbox \<Rightarrow> 'v kuasar_sandbox" where
  "storage_run vo ops sb = fold (storage_step vo) ops sb"

lemma storage_step_keeps:
  assumes "hotplug_ok vo devs" and "storage_inv devs sb" and "unat (sb_id_generator sb) + 2 < 2 ^ 32"
  shows "keeps_storage devs (op_clean op) sb (storage_step vo op sb)"
  using attach_storage_keeps [OF assms] deference_storage_keeps [OF assms(1,2)]
    deference_container_storages_keeps [OF assms(1,2)]
  by (cases op) (simp_all only: storage_step_def storage_op.case op_clean.simps)

lemma storage_run_keeps:
  assumes vo: "hotplug_ok vo devs"
  shows "storage_inv devs sb \<Longrightarrow> unat (sb_id_generator sb) + 2 * length ops < 2 ^ 32 \<Longrightarrow>
    storage_inv devs (storage_run vo ops sb) \<and>
    (list_all op_clean ops \<longrightarrow>
       stray_devices devs (storage_run vo ops sb) \<subseteq> stray_devices devs sb \<and>
       stray_images (storage_run vo ops sb) \<subseteq> stray_images sb)"
proof (induction ops arbitrary: sb)
  case (Cons op ops)
  have K: "keeps_storage devs (op_clean op) sb (storage_step vo op sb)"
    by (rule storage_step_keeps [OF vo Cons.prems(1)]) (use Cons.prems(2) in simp)
  then have "storage_inv devs (storage_step vo op sb)"
    and "unat (sb_id_generator (storage_step vo op sb)) + 2 * length ops < 2 ^ 32"
    using Cons.prems(2) by (simp_all add: keeps_storage_def)
  from Cons.IH [OF this] K show ?case unfolding storage_run_def keeps_storage_def by auto
qed (simp add: storage_run_def)

section \<open>Release\<close>

lemma ref_count_defer_other:
  assumes "storage_wf st"
  shows "ref_count (storage_defer cid st) \<noteq> 0 \<longleftrightarrow> list_ex (\<lambda>c. c \<noteq> cid) (map fst (st_ref_container st))"
proof -
  have "ref_count (storage_defer cid st) = 0 \<longleftrightarrow> hm_remove cid (st_ref_container st) = []"
    using ref_count_zero [OF storage_wf_defer [OF assms]] by (simp add: storage_defer_def)
  also have "\<dots> \<longleftrightarrow> (\<forall>c \<in> set (map fst (st_ref_container st)). c = cid)"
    by (auto simp: AList.delete_eq filter_empty_conv)
  finally show ?thesis by (auto simp: list_ex_iff)
qed

lemma storage_defer_absent:
  "\<not> hm_contains (st_ref_container st) cid \<Longrightarrow> storage_defer cid st = st"
  by (simp add: storage_defer_def delete_id map_of_eq_None_iff)

lemma defer_container_map:
  "map (\<lambda>st. if hm_contains (st_ref_container st) cid then storage_defer cid st else st) sts = map (storage_defer cid) sts"
  using storage_defer_absent by (intro map_cong) auto

lemma device_ids_defer: "device_ids (map (storage_defer cid) sts) = device_ids sts"
  by (induction sts) auto

lemma deference_container_storages_result:
  assumes "hotplug_ok vo devs" and inv: "storage_inv devs sb"
    and "deference_container_storages vo he cid sb = (None, sb')"
  shows "sb_storages sb' =
      map (storage_defer cid) (filter (\<lambda>st. list_ex (\<lambda>c. c \<noteq> cid) (map fst (st_ref_container st))) (sb_storages sb))"
    and "devs (sb_vm sb') = devs (sb_vm sb) -
      set (device_ids (filter (\<lambda>st. \<not> list_ex (\<lambda>c. c \<noteq> cid) (map fst (st_ref_container st))) (sb_storages sb)))"
proof -
  let ?sb = "sb\<lparr>sb_storages := map (storage_defer cid) (sb_storages sb)\<rparr>"
  let ?other = "\<lambda>st. list_ex (\<lambda>c. c \<noteq> cid) (map fst (st_ref_container st))"
  have gc: "gc_storages vo he ?sb = (None, sb')"
    using assms(3) by (simp only: deference_container_storages_def defer_container_map)
  have same: "list_all2 same_entry (sb_storages sb) (sb_storages ?sb)" by (simp add: list_all2_map2 list.rel_refl)
  have "storage_inv devs ?sb" by (rule storage_inv_refs(1) [OF inv same]) simp_all
  note G = gc_storages_keeps [OF assms(1) this gc]
  have wf: "storage_wf st" if "st \<in> set (sb_storages sb)" for st
    using storage_invD(1) [OF inv] that by (simp add: list_all_iff)
  have "ref_count (storage_defer cid x) = 0 \<longleftrightarrow> \<not> ?other x" if "x \<in> set (sb_storages sb)" for x
    using ref_count_defer_other [OF wf [OF that], of cid] by blast
  then have dead: "filter (\<lambda>x. 0 < ref_count (storage_defer cid x)) (sb_storages sb) = filter ?other (sb_storages sb)"
    "filter (\<lambda>x. ref_count (storage_defer cid x) = 0) (sb_storages sb) = filter (\<lambda>st. \<not> ?other st) (sb_storages sb)"
    by (auto intro!: filter_cong simp: neq0_conv [symmetric] simp del: neq0_conv)
  show "sb_storages sb' = map (storage_defer cid) (filter ?other (sb_storages sb))"
    using G(2) by (simp add: filter_map comp_def dead(1) del: map_map)
  show "devs (sb_vm sb') = devs (sb_vm sb) - set (device_ids (filter (\<lambda>st. \<not> ?other st) (sb_storages sb)))"
    using G(3) by (simp add: filter_map comp_def dead(2) device_ids_defer)
qed

section \<open>Sharing\<close>

text \<open>
  An entry that an attachment of a mount may reuse is the first that matches it; sharing it makes
  no call to the machine and leaves everything but its reference count as it was.
\<close>

lemma position_Some:
  "position P xs = Some n \<longleftrightarrow> n < length xs \<and> P (xs ! n) \<and> (\<forall>k < n. \<not> P (xs ! k))"
proof (induction xs arbitrary: n)
  case (Cons x xs)
  then show ?case by (cases n) (auto simp: All_less_Suc2)
qed simp

lemma position_None: "position P xs = None \<longleftrightarrow> list_all (\<lambda>x. \<not> P x) xs"
  by (induction xs) auto

lemma position_append_new: "list_all (\<lambda>x. \<not> P x) xs \<Longrightarrow> P y \<Longrightarrow> position P (xs @ [y]) = Some (length xs)"
  by (induction xs) auto

text \<open>The mounts whose entries are recorded under the identity a later request asks for.\<close>

definition shareable :: "host_env \<Rightarrow> 'v kuasar_sandbox \<Rightarrow> mount \<Rightarrow> bool" where
  "shareable he sb m \<longleftrightarrow>
     m_source m \<noteq> [] \<and> \<not> is_block_device he (m_source m) \<and>
     \<not> str_contains ''kubernetes.io~empty-dir'' (m_source m) \<and>
     (m_type m = ''bind'' \<and> extract_lower_dirs (m_options m) = None \<or>
      m_type m = ''overlay'' \<and> extract_lower_dirs (m_options m) \<noteq> None)"

definition records :: "mount \<Rightarrow> string \<Rightarrow> 'v kuasar_sandbox \<Rightarrow> 'v kuasar_sandbox \<Rightarrow> bool" where
  "records m cid sb sb' \<longleftrightarrow>
     sb_restore sb' = sb_restore sb \<and>
     (sb_storages sb' = sb_storages sb \<or>
      (\<exists>st. sb_storages sb' = sb_storages sb @ [refer cid st] \<and>
            st_source_identity st = source_identity_for_mount m \<and> st_type st = m_type m))"

lemma records_refl: "sb_storages sb' = sb_storages sb \<Longrightarrow> sb_restore sb' = sb_restore sb \<Longrightarrow> records m cid sb sb'"
  by (simp add: records_def)

lemma records_push:
  "sb_storages sb1 = sb_storages sb \<Longrightarrow> sb_restore sb1 = sb_restore sb \<Longrightarrow>
   st_source_identity st = source_identity_for_mount m \<Longrightarrow> st_type st = m_type m \<Longrightarrow>
   records m cid sb (push_storage cid st sb1)"
  by (auto simp: records_def push_storage_def)

lemma attach_image_records:
  assumes "ba_source_identity a = source_identity_for_mount m" and "sb_storages sb1 = sb_storages sb"
    and "sb_restore sb1 = sb_restore sb"
  shows "records m cid sb (snd (attach_image vo he a i cid m lower sb1))"
  using assms
  by (auto simp: attach_image_def next_device_id_def increment_and_get_id_def block_attach_def into_storage_def
      records_refl intro!: records_push split: prod.splits sum.splits)

lemma block_prepare_identity:
  "block_prepare he req im = (Inr a, im') \<Longrightarrow> ba_source_identity a = bp_source_identity req"
  by (auto simp: block_prepare_def Let_def split: if_splits)

lemma source_identity_bind:
  "m_source m \<noteq> [] \<Longrightarrow> m_type m = ''bind'' \<Longrightarrow> extract_lower_dirs (m_options m) = None \<Longrightarrow>
   source_identity_for_mount m = Some (''bind:'' @ m_source m)"
  by (simp add: source_identity_for_mount_def)

lemma handle_bind_mount_records:
  assumes "source_identity_for_mount m = Some (''bind:'' @ m_source m)"
  shows "records m cid sb (snd (handle_bind_mount he i cid m sb))"
proof -
  have "records m cid sb (push_storage cid (shared_storage i m [] p None (Some (''bind:'' @ m_source m))) sb)" for p
    by (rule records_push) (simp_all add: shared_storage_def assms)
  then show ?thesis by (simp add: handle_bind_mount_def Let_def records_refl split: sum.split option.split)
qed

lemma handle_bind_mount_blk_records:
  assumes "source_identity_for_mount m = Some (''bind:'' @ m_source m)"
  shows "records m cid sb (snd (handle_bind_mount_blk vo he i cid m rootfs sb))"
proof -
  have P: "records m cid sb (push_storage cid (shared_storage i m DRIVER_GUEST_FILE p None (Some (''bind:'' @ m_source m))) sb)"
    for p by (rule records_push) (simp_all add: shared_storage_def assms)
  have F: "records m cid sb (snd (push_single_file he i cid mode m sb))" for mode
    using P by (simp add: push_single_file_def records_refl split: sum.split option.split)
  have D: "records m cid sb (snd (inject_small_dir he i cid scan dest m sb))" for scan dest
    using P by (simp add: inject_small_dir_def records_refl split: sum.split)
  have A: "records m cid sb (snd (attach_image vo he a i cid m None (sb\<lparr>sb_images := im\<rparr>)))"
    if "block_prepare he req (sb_images sb) = (Inr a, im)" "bp_source_identity req = Some (''bind:'' @ m_source m)" for req a im
    by (rule attach_image_records) (use that block_prepare_identity assms in fastforce)+
  show ?thesis unfolding handle_bind_mount_blk_def
    using F D A by (auto simp: records_refl split: sum.split option.split lmeta.split prod.split)
qed

lemma handle_overlay_mount_records:
  assumes "extract_lower_dirs (m_options m) = Some lower"
  shows "records m cid sb (snd (handle_overlay_mount he i cid m sb))"
proof -
  have "source_identity_for_mount m = Some (''overlay:'' @ lower)" by (simp add: source_identity_for_mount_def assms)
  then have "records m cid sb (push_storage cid (shared_storage i m [] p l (Some (''overlay:'' @ lower))) sb)" for p l
    by (intro records_push) (simp_all add: shared_storage_def)
  then show ?thesis by (simp add: handle_overlay_mount_def Let_def records_refl assms)
qed

lemma handle_overlay_mount_blk_records:
  assumes "extract_lower_dirs (m_options m) = Some lower"
  shows "records m cid sb (snd (handle_overlay_mount_blk vo he i cid m sb))"
proof -
  have s: "source_identity_for_mount m = Some (''overlay:'' @ lower)" by (simp add: source_identity_for_mount_def assms)
  have A: "records m cid sb (snd (attach_image vo he a i cid m l (sb\<lparr>sb_images := im\<rparr>)))"
    if "block_prepare he req (sb_images sb) = (Inr a, im)" "bp_source_identity req = Some (''overlay:'' @ lower)" for req a im l
    by (rule attach_image_records) (use that block_prepare_identity s in fastforce)+
  show ?thesis unfolding handle_overlay_mount_blk_def Let_def
    using A by (auto simp: records_refl assms split: sum.split prod.split)
qed

lemma attach_new_storage_records:
  assumes "shareable he sb m"
  shows "records m cid sb (snd (attach_new_storage vo he cid m rootfs sb))"
proof -
  let ?sb = "sb\<lparr>sb_id_generator := sb_id_generator sb + 1\<rparr>"
  have "records m cid ?sb (snd (attach_by_kind vo he i cid m rootfs ?sb))" for i
    using assms handle_bind_mount_records [OF source_identity_bind] handle_bind_mount_blk_records [OF source_identity_bind]
      handle_overlay_mount_records handle_overlay_mount_blk_records
    by (auto simp: attach_by_kind_def shareable_def is_bind_def is_overlay_def records_refl)
  then show ?thesis
    using assms by (simp add: attach_new_storage_def next_storage_id_def increment_and_get_id_def shareable_def records_def)
qed

lemma identity_some: "shareable he sb m \<Longrightarrow> source_identity_for_mount m \<noteq> None"
  by (auto simp: shareable_def source_identity_for_mount_def split: option.splits)

lemma matches_refer [simp]: "storage_matches_mount (refer cid st) m rootfs = storage_matches_mount st m rootfs"
  by (simp only: storage_matches_mount_def is_for_mount_def refer_fields)

lemma refer_contains [simp]: "\<exists>n. hm_get (st_ref_container (refer cid st)) cid = Some n"
  using contains_inc [of cid "st_ref_container st" cid] by (simp add: refer_cnt_inc)

lemma attach_storage_reuses:
  "rm_orphan_container_ids (sb_restore sb) = [] \<Longrightarrow> find_reusable_index (sb_storages sb) m rootfs = Some n \<Longrightarrow>
   attach_storage vo he cid m rootfs sb = (Inr (), update_storage (Some n) (refer cid) sb)"
  by (simp add: attach_storage_def)

lemma attach_storage_then_reusable:
  assumes sh: "shareable he sb m" and no: "rm_orphan_container_ids (sb_restore sb) = []"
    and first: "attach_storage vo he cid m rootfs sb = (Inr (), sb1)"
    and new: "sb_storages sb1 \<noteq> sb_storages sb"
  obtains n where "find_reusable_index (sb_storages sb1) m rootfs = Some n" "n < length (sb_storages sb1)"
    "hm_contains (st_ref_container (sb_storages sb1 ! n)) cid" "sb_restore sb1 = sb_restore sb"
proof (cases "find_reusable_index (sb_storages sb) m rootfs")
  case None
  have run: "attach_new_storage vo he cid m rootfs sb = (Inr (), sb1)"
    using first no None by (simp add: attach_storage_def)
  have "records m cid sb sb1" using attach_new_storage_records [OF sh, of cid vo rootfs] run by simp
  with new obtain st where st: "sb_storages sb1 = sb_storages sb @ [refer cid st]"
    "st_source_identity st = source_identity_for_mount m" "st_type st = m_type m" "sb_restore sb1 = sb_restore sb"
    by (auto simp: records_def)
  have "storage_matches_mount (refer cid st) m rootfs"
    using st(2,3) identity_some [OF sh] by (auto simp: storage_matches_mount_def)
  moreover have "list_all (\<lambda>st. \<not> storage_matches_mount st m rootfs) (sb_storages sb)"
    using None by (simp only: find_reusable_index_def position_None)
  ultimately have "find_reusable_index (sb_storages sb1) m rootfs = Some (length (sb_storages sb))"
    unfolding find_reusable_index_def st(1) by (intro position_append_new)
  then show thesis using that st(1,4) by simp
next
  case (Some n)
  then have sb1: "sb1 = update_storage (Some n) (refer cid) sb" using first attach_storage_reuses [OF no Some] by simp
  have n: "n < length (sb_storages sb)" "storage_matches_mount (sb_storages sb ! n) m rootfs"
    "\<And>k. k < n \<Longrightarrow> \<not> storage_matches_mount (sb_storages sb ! k) m rootfs"
    using Some by (auto simp: find_reusable_index_def position_Some)
  then have "find_reusable_index (sb_storages sb1) m rootfs = Some n"
    by (auto simp: find_reusable_index_def position_Some sb1 update_storage_def nth_list_update)
  then show thesis using that n(1) sb1 by (simp add: update_storage_def)
qed

section \<open>A machine and a host to evaluate on\<close>

definition list_vm :: "string list vm_ops" where
  "list_vm = \<lparr>vm_start = \<lambda>v. (Inr 1, v), vm_stop = \<lambda>_ v. (None, v),
     vm_hot_attach = \<lambda>d v. (Inr (PCI, ''/dev/vdb''), bd_id d # v),
     vm_hot_detach = \<lambda>i v. (None, removeAll i v), vm_hotplug_pending_network = \<lambda>v. (None, v),
     vm_restore = \<lambda>_ v. (None, v), vm_recover = \<lambda>v. (None, v), vm_pid = \<lambda>_. Some 1,
     vm_socket_address = \<lambda>_. ''vsock''\<rparr>"

lemma list_vm_ok: "hotplug_ok list_vm set"
  by (auto simp: hotplug_ok_def list_vm_def)

definition easy_host :: host_env where
  "easy_host = \<lparr>he_file_type = \<lambda>p. Some (if starts_with ''/dev/'' p then BlockDevice else Directory),
     he_fstype = \<lambda>_. Some ''ext4'', he_mountinfo = Some [], he_create = \<lambda>_. True, he_mount = \<lambda>_. True,
     he_mount_rootfs = \<lambda>_ _. True, he_unmount = \<lambda>_. None, he_remove = \<lambda>_. None, he_tree_stats = \<lambda>_. None,
     he_make_image = \<lambda>_ _ _ _. True, he_fill_image = \<lambda>_ _. True, he_lmeta = \<lambda>_. Some (LDir []),
     he_read = \<lambda>_. Some [], he_unreadable = \<lambda>_. False, he_guest = \<lambda>_. True, he_adopt = \<lambda>_ _. True\<rparr>"

definition new_sandbox :: "string list kuasar_sandbox" where
  "new_sandbox = \<lparr>sb_vm = [''rootfs''], sb_id = ''s1'', sb_status = Running 1, sb_base_dir = ''/run/s1'',
     sb_data = \<lparr>sd_annotations = None, sd_netns = [], sd_task_address = []\<rparr>, sb_containers = [], sb_storages = [],
     sb_id_generator = 0, sb_network = False, sb_client = True, sb_storage_policy = storage_policy_default,
     sb_restore = restore_metadata_default, sb_images = []\<rparr>"

lemma new_sandbox_inv: "storage_inv set new_sandbox"
  by (simp add: storage_inv_def new_sandbox_def)

definition disk_mount :: mount where
  "disk_mount = \<lparr>m_destination = ''/data'', m_type = ''bind'', m_source = ''/dev/sdb'', m_options = []\<rparr>"

definition dir_mount :: mount where
  "dir_mount = \<lparr>m_destination = ''/data'', m_type = ''bind'', m_source = ''/srv/data'', m_options = [''ro'', ''rshared'']\<rparr>"

lemma easy_host_clean: "removes easy_host" "he_fstype easy_host p \<noteq> None"
  by (simp_all add: removes_def easy_host_def)

lemmas example_defs = list_vm_def easy_host_def new_sandbox_def disk_mount_def dir_mount_def Let_def
  attach_storage_def attach_new_storage_def attach_by_kind_def next_storage_id_def next_device_id_def
  increment_and_get_id_def handle_block_device_def handle_bind_mount_def push_storage_def
  deference_container_storages_def gc_storages_def detach_storage_def storage_step_def storage_run_def
  is_block_device_def find_reusable_index_def find_orphan_for_mount_def ro_options_def
  is_bind_def is_bind_shm_def restore_metadata_default_def shared_storage_def update_storage_def

section \<open>Properties\<close>



text \<open>
  C22: Releasing a container's storage removes exactly the entries no other container refers to, and
  exactly their devices from the machine; every other entry stays, without the container's references.
\<close>

theorem deference_container_storages_exact:
  assumes "hotplug_ok vo devs" and "storage_inv devs sb"
    and "deference_container_storages vo he cid sb = (None, sb')"
  shows "sb_storages sb' = map (storage_defer cid)
      (filter (\<lambda>st. list_ex (\<lambda>c. c \<noteq> cid) (map fst (st_ref_container st))) (sb_storages sb)) \<and>
    devs (sb_vm sb') = devs (sb_vm sb) - set (device_ids
      (filter (\<lambda>st. \<not> list_ex (\<lambda>c. c \<noteq> cid) (map fst (st_ref_container st))) (sb_storages sb)))"
  using deference_container_storages_result [OF assms] by blast

definition attached_sandbox :: "string list kuasar_sandbox" where
  "attached_sandbox = storage_run list_vm [AttachStorage easy_host ''c1'' disk_mount False] new_sandbox"

lemma attached_sandbox_eq:
  "sb_vm attached_sandbox = [''blk2'', ''rootfs'']" "length (sb_storages attached_sandbox) = 1"
  by (simp_all add: attached_sandbox_def example_defs show_nat.simps digit_char_def char_of_def bit_0)

lemma attached_sandbox_inv: "storage_inv set attached_sandbox"
  using storage_run_keeps [OF list_vm_ok new_sandbox_inv, of "[AttachStorage easy_host ''c1'' disk_mount False]"]
  by (simp add: attached_sandbox_def new_sandbox_def)

theorem deference_container_storages_exact_witness:
  "fst (deference_container_storages list_vm easy_host ''c1'' attached_sandbox) = None \<and>
   sb_storages (snd (deference_container_storages list_vm easy_host ''c1'' attached_sandbox)) = [] \<and>
   set (sb_vm (snd (deference_container_storages list_vm easy_host ''c1'' attached_sandbox))) = {''rootfs''}"
proof -
  have run: "deference_container_storages list_vm easy_host ''c1'' attached_sandbox =
      (None, snd (deference_container_storages list_vm easy_host ''c1'' attached_sandbox))"
    by (simp add: attached_sandbox_def example_defs show_nat.simps digit_char_def char_of_def bit_0 refer_def storage_defer_def ref_count_def)
  have "map fst (st_ref_container (hd (sb_storages attached_sandbox))) = [''c1'']"
    "st_device_id (hd (sb_storages attached_sandbox)) = Some ''blk2''"
    by (simp_all add: attached_sandbox_def example_defs show_nat.simps digit_char_def char_of_def bit_0 refer_def)
  then obtain st where st: "sb_storages attached_sandbox = [st]" "map fst (st_ref_container st) = [''c1'']"
    "st_device_id st = Some ''blk2''"
    using attached_sandbox_eq(2) by (auto simp: length_Suc_conv)
  note R = deference_container_storages_exact [OF list_vm_ok attached_sandbox_inv run]
  have "fst (deference_container_storages list_vm easy_host ''c1'' attached_sandbox) = None"
    by (subst run) simp
  with R attached_sandbox_eq(1) st show ?thesis by auto
qed

text \<open>
  Once a bind or overlay mount is attached for one container, attaching it for another makes no call
  to the hypervisor and mounts nothing: it takes one more reference on the entry the first container
  refers to.
\<close>

theorem attach_storage_shares:
  assumes "shareable he sb m" and "rm_orphan_container_ids (sb_restore sb) = []"
    and "attach_storage vo he cid m rootfs sb = (Inr (), sb1)" and "sb_storages sb1 \<noteq> sb_storages sb"
  shows "\<exists>n. n < length (sb_storages sb1) \<and> hm_contains (st_ref_container (sb_storages sb1 ! n)) cid \<and>
    attach_storage vo he' cid' m rootfs sb1 = (Inr (), update_storage (Some n) (refer cid') sb1)"
proof -
  obtain n where "find_reusable_index (sb_storages sb1) m rootfs = Some n" "n < length (sb_storages sb1)"
    "hm_contains (st_ref_container (sb_storages sb1 ! n)) cid" "sb_restore sb1 = sb_restore sb"
    by (rule attach_storage_then_reusable [OF assms])
  with attach_storage_reuses [of sb1 m rootfs n vo he' cid'] assms(2) show ?thesis by auto
qed

lemma bind_mount_done: "fst (bind_mount (\<lambda>_. True) source target options) = None"
  by (simp add: bind_mount_def do_mount_def Let_def split: prod.split)

theorem attach_storage_shares_witness:
  "shareable easy_host new_sandbox dir_mount \<and>
   attach_storage list_vm easy_host ''c2'' dir_mount False
       (snd (attach_storage list_vm easy_host ''c1'' dir_mount False new_sandbox)) =
     (Inr (), update_storage (Some 0) (refer ''c2'')
       (snd (attach_storage list_vm easy_host ''c1'' dir_mount False new_sandbox)))"
proof -
  let ?first = "attach_storage list_vm easy_host ''c1'' dir_mount False new_sandbox"
  have sh: "shareable easy_host new_sandbox dir_mount"
    by (simp add: shareable_def example_defs extract_lower_dirs_def)
  have no: "rm_orphan_container_ids (sb_restore new_sandbox) = []" by (simp add: example_defs)
  have one: "length (sb_storages (snd ?first)) = 1" and ok: "fst ?first = Inr ()"
    using bind_mount_done by (simp_all add: example_defs VIRTIO_BLK_def storage_policy_default_def DEV_SHM_def)
  have run: "?first = (Inr (), snd ?first)" using ok by (simp add: prod_eq_iff)
  have "sb_storages (snd ?first) \<noteq> sb_storages new_sandbox" using one by (auto simp: new_sandbox_def)
  from attach_storage_shares [OF sh no run this, of easy_host "''c2''"] one sh show ?thesis by auto
qed

section \<open>Entries that are never shared\<close>

text \<open>
  The entries of block devices and of memory-backed empty directories are recorded under an identity
  (\<^verbatim>\<open>block:\<close>, \<^verbatim>\<open>tmpfs:\<close>) that no request asks for: a bind mount of the same source always
  attaches a second device, or a second file system.
\<close>

lemma other_identity_never_matches:
  assumes "m_type m = ''bind''" and "m_source m \<noteq> []" and "extract_lower_dirs (m_options m) = None"
    and "st_source_identity st = Some (''block:'' @ m_source m) \<or> st_source_identity st = Some (''tmpfs:'' @ m_source m)"
  shows "\<not> storage_matches_mount st m rootfs"
  using assms by (auto simp: storage_matches_mount_def source_identity_bind)

text \<open>A block device whose file system cannot be read stays in the machine without an entry.\<close>

lemma block_device_left_attached:
  assumes "m_source m \<noteq> []" and "he_fstype he (m_source m) = None"
    and "vm_hot_attach vo \<lparr>bd_id = ''blk'' @ show_nat (unat (sb_id_generator sb + 1)), bd_path = m_source m,
           bd_read_only = (''ro'' \<in> set (m_options m))\<rparr> (sb_vm sb) = (Inr addr, v)"
  shows "handle_block_device vo he i cid m sb =
    (Inl (OtherError ''get_fstype''), sb\<lparr>sb_id_generator := sb_id_generator sb + 1, sb_vm := v\<rparr>)"
  using assms by (simp add: handle_block_device_def next_device_id_def increment_and_get_id_def split: prod.split)

end
