(* ===== verification/Restore.thy ===== *)
theory Restore
  imports Storage_Inv
begin

text \<open>
  The operations of one sandbox that start, restore and stop its machine: the restore transaction
  (\<^verbatim>\<open>vmm/sandbox/src/restore.rs\<close>) and the methods of \<open>KuasarSandbox\<close> in
  \<^verbatim>\<open>vmm/sandbox/src/sandbox.rs\<close>. The guest agent answers through the record \<open>guest_env\<close>.
\<close>

section \<open>The restore transaction\<close>

datatype restore_phase =
    RestoreVm | InitClient | HotplugNetwork | InjectTask | PushSandboxFiles | SetupSandbox
  | TransferNetworkIdentity | Commit

fun phase_display :: "restore_phase \<Rightarrow> string" where
  "phase_display RestoreVm = ''restore_vm''"
| "phase_display InitClient = ''init_client''"
| "phase_display HotplugNetwork = ''hotplug_network''"
| "phase_display InjectTask = ''inject_task''"
| "phase_display PushSandboxFiles = ''push_sandbox_files''"
| "phase_display SetupSandbox = ''setup_sandbox''"
| "phase_display TransferNetworkIdentity = ''transfer_network_identity''"
| "phase_display Commit = ''commit''"

text \<open>The phases in the order of their declaration, which is the order in which they are entered.\<close>

fun phase_index :: "restore_phase \<Rightarrow> nat" where
  "phase_index RestoreVm = 0"
| "phase_index InitClient = 1"
| "phase_index HotplugNetwork = 2"
| "phase_index InjectTask = 3"
| "phase_index PushSandboxFiles = 4"
| "phase_index SetupSandbox = 5"
| "phase_index TransferNetworkIdentity = 6"
| "phase_index Commit = 7"

lemma phase_index_inj [simp]: "phase_index a = phase_index b \<longleftrightarrow> a = b"
  by (cases a; cases b) simp_all

instantiation restore_phase :: linorder
begin

definition less_eq_restore_phase :: "restore_phase \<Rightarrow> restore_phase \<Rightarrow> bool" where
  "less_eq_restore_phase a b \<longleftrightarrow> phase_index a \<le> phase_index b"

definition less_restore_phase :: "restore_phase \<Rightarrow> restore_phase \<Rightarrow> bool" where
  "less_restore_phase a b \<longleftrightarrow> phase_index a < phase_index b"

instance
  by standard (auto simp: less_eq_restore_phase_def less_restore_phase_def dest: antisym)

end

record restore_transaction =
  rt_sandbox_id :: string
  rt_work_dir :: string
  rt_phase :: restore_phase

definition txn_new :: "string \<Rightarrow> string \<Rightarrow> restore_transaction" where
  "txn_new sandbox_id work_dir = \<lparr>rt_sandbox_id = sandbox_id, rt_work_dir = work_dir, rt_phase = RestoreVm\<rparr>"

fun err_text :: "sb_error \<Rightarrow> string" where
  "err_text (NotFoundError s) = s"
| "err_text (AlreadyExist s) = s"
| "err_text (InvalidArgument s) = s"
| "err_text (OtherError s) = s"

definition txn_fail :: "restore_transaction \<Rightarrow> sb_error \<Rightarrow> sb_error" where
  "txn_fail txn e =
     OtherError (''restore sandbox '' @ rt_sandbox_id txn @ '' failed at phase '' @ phase_display (rt_phase txn) @
       '': '' @ err_text e)"

definition rollback_vm :: "'v vm_ops \<Rightarrow> 'v kuasar_sandbox \<Rightarrow> 'v kuasar_sandbox" where
  "rollback_vm vo sb = sb\<lparr>sb_vm := snd (vm_stop vo True (sb_vm sb))\<rparr>"

section \<open>The guest agent\<close>

record container_task =
  ct_container_id :: string
  ct_socket_path :: string
  ct_task_id :: string
  ct_env_overrides :: "(string, string) hmap"
  ct_context :: string

record inject_result =
  ir_container_id :: string
  ir_started :: bool

text \<open>
  What the guest agent and the network of the host answer: whether a client can be connected, the
  number of interfaces and routes of the sandbox's network, and the outcome of each request.
\<close>

record guest_env =
  ga_connect :: bool
  ga_setup :: bool
  ga_interfaces :: nat
  ga_routes :: nat
  ga_update_interfaces :: bool
  ga_update_routes :: bool
  ga_inject :: "container_task list \<Rightarrow> inject_result list option"

definition init_client ::
  "'v vm_ops \<Rightarrow> guest_env \<Rightarrow> 'v kuasar_sandbox \<Rightarrow> sb_error option \<times> 'v kuasar_sandbox" where
  "init_client vo ga sb =
     (if sb_client sb then (None, sb)
      else if vm_socket_address vo (sb_vm sb) = [] then (Some (OtherError ''VM address is empty''), sb)
      else if ga_connect ga then (None, sb\<lparr>sb_client := True\<rparr>)
      else (Some (OtherError ''connect''), sb))"

definition setup_sandbox :: "guest_env \<Rightarrow> 'v kuasar_sandbox \<Rightarrow> sb_error option" where
  "setup_sandbox ga sb =
     (if sb_client sb \<and> \<not> ga_setup ga then Some (OtherError ''setup_sandbox'') else None)"

definition HOSTNAME_FILENAME :: string where "HOSTNAME_FILENAME = ''hostname''"
definition RESOLV_FILENAME :: string where "RESOLV_FILENAME = ''resolv.conf''"
definition HOSTS_FILENAME :: string where "HOSTS_FILENAME = ''hosts''"
definition ETC_RESOLV :: string where "ETC_RESOLV = ''/etc/resolv.conf''"

text \<open>The three files are pushed concurrently, and every push is completed before the results are looked at.\<close>

definition push_if_read ::
  "host_env \<Rightarrow> 'v kuasar_sandbox \<Rightarrow> string \<Rightarrow> (gf_error + unit)" where
  "push_if_read he sb name =
     (case he_read he (get_sandbox_shared_path sb @ ''/'' @ name) of
        None \<Rightarrow> Inr ()
      | Some content \<Rightarrow> fst (push_file (he_guest he) (KUASAR_STATE_DIR @ ''/'' @ name) content 420 []))"

definition push_resolv :: "host_env \<Rightarrow> 'v kuasar_sandbox \<Rightarrow> (gf_error + unit)" where
  "push_resolv he sb =
     (case he_read he (get_sandbox_shared_path sb @ ''/'' @ RESOLV_FILENAME) of
        None \<Rightarrow> Inr ()
      | Some content \<Rightarrow>
          (let dest = KUASAR_STATE_DIR @ ''/'' @ RESOLV_FILENAME in
           case fst (push_file (he_guest he) dest content 420 []) of
             Inl e \<Rightarrow> Inl e
           | Inr _ \<Rightarrow>
               fst (exec (he_guest he) (''mount --bind '' @ shell_quote dest @ '' '' @ shell_quote ETC_RESOLV) [])))"

definition push_sandbox_files :: "host_env \<Rightarrow> 'v kuasar_sandbox \<Rightarrow> sb_error option" where
  "push_sandbox_files he sb =
     (if \<not> sb_client sb then Some (OtherError ''client not initialized'')
      else (case fst (ensure_dir (he_guest he) KUASAR_STATE_DIR []) of
              Inl _ \<Rightarrow> Some (OtherError ''create kuasar state dir in guest'')
            | Inr _ \<Rightarrow>
                (case (push_if_read he sb HOSTNAME_FILENAME, push_resolv he sb, push_if_read he sb HOSTS_FILENAME) of
                   (Inl _, _, _) \<Rightarrow> Some (OtherError ''push hostname'')
                 | (Inr _, Inl _, _) \<Rightarrow> Some (OtherError ''push resolv'')
                 | (Inr _, Inr _, Inl _) \<Rightarrow> Some (OtherError ''push hosts'')
                 | (Inr _, Inr _, Inr _) \<Rightarrow> None)))"

definition refresh_instance_identity :: "host_env \<Rightarrow> guest_env \<Rightarrow> 'v kuasar_sandbox \<Rightarrow> sb_error option" where
  "refresh_instance_identity he ga sb =
     (case (if storage_backend (sb_storage_policy sb) = VIRTIO_BLK then push_sandbox_files he sb else None) of
        Some e \<Rightarrow> Some e
      | None \<Rightarrow>
          (if sb_network sb \<and> sb_client sb then
             (if ga_interfaces ga \<noteq> 0 \<and> \<not> ga_update_interfaces ga then Some (OtherError ''update_interfaces'')
              else if ga_routes ga \<noteq> 0 \<and> \<not> ga_update_routes ga then Some (OtherError ''update_routes'')
              else None)
           else None))"

section \<open>Injecting the task\<close>

definition container_tasks :: "warm_fork_params \<Rightarrow> container_task list" where
  "container_tasks params =
     map (\<lambda>t. \<lparr>ct_container_id = wt_container_id t, ct_socket_path = wt_socket_path t,
               ct_task_id = (case wp_task_id params of Some i \<Rightarrow> i | None \<Rightarrow> []),
               ct_env_overrides = wt_env_overrides t, ct_context = wt_context t\<rparr>)
       (wp_targets params)"

definition inject_warm_fork_task :: "guest_env \<Rightarrow> warm_fork_params \<Rightarrow> 'v kuasar_sandbox \<Rightarrow> sb_error option" where
  "inject_warm_fork_task ga params sb =
     (let tasks = container_tasks params in
      if \<not> sb_client sb then Some (OtherError ''client not initialized before inject_task'')
      else (case ga_inject ga tasks of
              None \<Rightarrow> Some (OtherError ''inject_task RPC'')
            | Some results \<Rightarrow>
                (if length results \<noteq> length tasks then Some (OtherError ''result count mismatch'')
                 else if set (map ir_container_id results) \<noteq> set (map ct_container_id tasks)
                 then Some (OtherError ''result container_id set mismatch'')
                 else if filter (\<lambda>r. \<not> ir_started r) results \<noteq> [] then Some (OtherError ''inject_task failed'')
                 else None)))"

section \<open>Restoring a sandbox\<close>

type_synonym 'v restore_run = "sb_error option \<times> restore_transaction \<times> 'v kuasar_sandbox"

text \<open>
  The steps of \<open>try_restore\<close>: entering a phase, a step whose failure stops the machine and is reported
  with the phase, and an assignment; after a failure nothing more happens.
\<close>

fun at_phase :: "restore_phase \<Rightarrow> 'v restore_run \<Rightarrow> 'v restore_run" where
  "at_phase ph (None, txn, sb) = (None, txn\<lparr>rt_phase := ph\<rparr>, sb)"
| "at_phase ph (Some e, txn, sb) = (Some e, txn, sb)"

fun guarded ::
  "'v vm_ops \<Rightarrow> ('v kuasar_sandbox \<Rightarrow> sb_error option \<times> 'v kuasar_sandbox) \<Rightarrow> 'v restore_run \<Rightarrow> 'v restore_run" where
  "guarded vo step (None, txn, sb) =
     (case step sb of
        (None, sb') \<Rightarrow> (None, txn, sb')
      | (Some e, sb') \<Rightarrow> (Some (txn_fail txn e), txn, rollback_vm vo sb'))"
| "guarded vo step (Some e, txn, sb) = (Some e, txn, sb)"

fun assign :: "('v kuasar_sandbox \<Rightarrow> 'v kuasar_sandbox) \<Rightarrow> 'v restore_run \<Rightarrow> 'v restore_run" where
  "assign f (None, txn, sb) = (None, txn, f sb)"
| "assign f (Some e, txn, sb) = (Some e, txn, sb)"

definition hotplug_pending_network ::
  "'v vm_ops \<Rightarrow> 'v kuasar_sandbox \<Rightarrow> sb_error option \<times> 'v kuasar_sandbox" where
  "hotplug_pending_network vo sb =
     (case vm_hotplug_pending_network vo (sb_vm sb) of (r, v) \<Rightarrow> (r, sb\<lparr>sb_vm := v\<rparr>))"

definition take_storages :: "restore_source \<Rightarrow> 'v kuasar_sandbox \<Rightarrow> 'v kuasar_sandbox" where
  "take_storages src sb =
     sb\<lparr>sb_storages := remap_restored_storage_artifacts sb src,
        sb_restore := (sb_restore sb)\<lparr>rm_orphan_container_ids := rs_orphan_container_ids src\<rparr>\<rparr>"

definition restore_warm_fork ::
  "'v vm_ops \<Rightarrow> host_env \<Rightarrow> guest_env \<Rightarrow> restore_source \<Rightarrow> 'v restore_run \<Rightarrow> 'v restore_run" where
  "restore_warm_fork vo he ga src run =
     guarded vo (\<lambda>sb. ((case rs_warm_fork_params src of
                          None \<Rightarrow> Some (OtherError ''WarmFork branch reached without warm_fork_params'')
                        | Some params \<Rightarrow> inject_warm_fork_task ga params sb), sb))
       (at_phase InjectTask
         (guarded vo (\<lambda>sb. (refresh_instance_identity he ga sb, sb))
           (assign (take_storages src)
             (guarded vo (hotplug_pending_network vo) (at_phase HotplugNetwork run)))))"

definition restore_continuation :: "restore_source \<Rightarrow> 'v restore_run \<Rightarrow> 'v restore_run" where
  "restore_continuation src run = at_phase TransferNetworkIdentity (assign (take_storages src) run)"

definition restore_environment ::
  "'v vm_ops \<Rightarrow> host_env \<Rightarrow> guest_env \<Rightarrow> 'v kuasar_sandbox \<Rightarrow> 'v restore_run \<Rightarrow> 'v restore_run" where
  "restore_environment vo he ga self run =
     (let run1 = guarded vo (hotplug_pending_network vo) (at_phase HotplugNetwork run);
          run2 = (if storage_backend (sb_storage_policy self) = VIRTIO_BLK
                  then guarded vo (\<lambda>sb. (push_sandbox_files he sb, sb)) (at_phase PushSandboxFiles run1)
                  else run1)
      in guarded vo (\<lambda>sb. (setup_sandbox ga sb, sb)) (at_phase SetupSandbox run2))"

definition restore_steps ::
  "'v vm_ops \<Rightarrow> host_env \<Rightarrow> guest_env \<Rightarrow> restore_source \<Rightarrow> 'v kuasar_sandbox \<Rightarrow> 'v restore_run \<Rightarrow> 'v restore_run" where
  "restore_steps vo he ga src self run0 =
     (let run = guarded vo (init_client vo ga) (at_phase InitClient run0) in
      case rs_snapshot_type src of
        WarmFork \<Rightarrow> restore_warm_fork vo he ga src run
      | Continuation \<Rightarrow> restore_continuation src run
      | Environment \<Rightarrow> restore_environment vo he ga self run)"

definition try_restore ::
  "'v vm_ops \<Rightarrow> host_env \<Rightarrow> guest_env \<Rightarrow> restore_transaction \<Rightarrow> restore_source \<Rightarrow> 'v kuasar_sandbox \<Rightarrow> 'v restore_run" where
  "try_restore vo he ga txn0 src sb =
     (let txn = txn0\<lparr>rt_phase := RestoreVm\<rparr> in
      case vm_restore vo src (sb_vm sb) of
        (Some e, v) \<Rightarrow> (Some (txn_fail txn e), txn, sb\<lparr>sb_vm := v\<rparr>)
      | (None, v) \<Rightarrow>
          (let pid = (case vm_pid vo v of Some p \<Rightarrow> p | None \<Rightarrow> 0) in
           assign (\<lambda>sb. sb\<lparr>sb_status := Running pid\<rparr>)
             (at_phase Commit (restore_steps vo he ga src sb (None, txn, sb\<lparr>sb_vm := v\<rparr>)))))"

definition sandbox_start_from_snapshot ::
  "'v vm_ops \<Rightarrow> host_env \<Rightarrow> guest_env \<Rightarrow> restore_source \<Rightarrow> 'v kuasar_sandbox \<Rightarrow> sb_error option \<times> 'v kuasar_sandbox" where
  "sandbox_start_from_snapshot vo he ga src sb =
     (case try_restore vo he ga (txn_new (sb_id sb) (rs_work_dir src)) src sb of (r, _, sb') \<Rightarrow> (r, sb'))"

section \<open>Starting and stopping\<close>

definition sandbox_start ::
  "'v vm_ops \<Rightarrow> host_env \<Rightarrow> guest_env \<Rightarrow> 'v kuasar_sandbox \<Rightarrow> sb_error option \<times> 'v kuasar_sandbox" where
  "sandbox_start vo he ga sb =
     (case vm_start vo (sb_vm sb) of
        (Inl e, v) \<Rightarrow> (Some e, sb\<lparr>sb_vm := v\<rparr>)
      | (Inr pid, v) \<Rightarrow>
          (case init_client vo ga (sb\<lparr>sb_vm := v\<rparr>) of
             (Some e, sb1) \<Rightarrow> (Some e, rollback_vm vo sb1)
           | (None, sb1) \<Rightarrow>
               (case (if storage_backend (sb_storage_policy sb1) = VIRTIO_BLK then push_sandbox_files he sb1 else None) of
                  Some e \<Rightarrow> (Some e, rollback_vm vo sb1)
                | None \<Rightarrow>
                    (case setup_sandbox ga sb1 of
                       Some e \<Rightarrow> (Some e, rollback_vm vo sb1)
                     | None \<Rightarrow> (None, sb1\<lparr>sb_status := Running pid\<rparr>)))))"

text \<open>
  What a dump does to the \<^verbatim>\<open>sandbox.json\<close> of the sandbox's directory. The file is truncated
  before it is written, so that a write that fails leaves none that can be read back; without the
  directory the dump is skipped.
\<close>

type_synonym 'v dumps = "(string, 'v kuasar_sandbox) hmap"

datatype dump_result = Dumped | DumpSkipped | DumpOpenFailed | DumpWriteFailed

fun dump :: "dump_result \<Rightarrow> 'v kuasar_sandbox \<Rightarrow> 'v dumps \<Rightarrow> sb_error option \<times> 'v dumps" where
  "dump Dumped sb dk = (None, hm_insert (sb_base_dir sb) sb dk)"
| "dump DumpSkipped sb dk = (None, dk)"
| "dump DumpOpenFailed sb dk = (Some (OtherError ''open dump''), dk)"
| "dump DumpWriteFailed sb dk = (Some (OtherError ''write dump''), hm_remove (sb_base_dir sb) dk)"

fun detach_io_devices :: "'v vm_ops \<Rightarrow> string list \<Rightarrow> 'v \<Rightarrow> sb_error option \<times> 'v" where
  "detach_io_devices vo [] v = (None, v)"
| "detach_io_devices vo (d # ds) v =
     (case vm_hot_detach vo d v of
        (Some e, v') \<Rightarrow> (Some e, v')
      | (None, v') \<Rightarrow> detach_io_devices vo ds v')"

definition remove_container ::
  "'v vm_ops \<Rightarrow> host_env \<Rightarrow> dump_result \<Rightarrow> string \<Rightarrow> 'v kuasar_sandbox \<times> 'v dumps
   \<Rightarrow> sb_error option \<times> 'v kuasar_sandbox \<times> 'v dumps" where
  "remove_container vo he dr cid s =
     (case s of (sb, dk) \<Rightarrow>
      (case deference_container_storages vo he cid sb of
         (Some e, sb1) \<Rightarrow> (Some e, sb1, dk)
       | (None, sb1) \<Rightarrow>
           (if he_remove he (get_sandbox_shared_path sb1 @ ''/'' @ cid) = Some IoFault
            then (Some (OtherError ''remove bundle''), sb1, dk)
            else
              (let devices = (case hm_get (sb_containers sb1) cid of None \<Rightarrow> [] | Some c \<Rightarrow> kc_io_devices c);
                   sb2 = sb1\<lparr>sb_containers := hm_remove cid (sb_containers sb1)\<rparr>
               in
               case detach_io_devices vo devices (sb_vm sb2) of
                 (Some e, v) \<Rightarrow> (Some e, sb2\<lparr>sb_vm := v\<rparr>, dk)
               | (None, v) \<Rightarrow>
                   (case dump dr (sb2\<lparr>sb_vm := v\<rparr>) dk of (r, dk') \<Rightarrow> (r, sb2\<lparr>sb_vm := v\<rparr>, dk'))))))"

fun remove_containers ::
  "'v vm_ops \<Rightarrow> host_env \<Rightarrow> dump_result \<Rightarrow> bool \<Rightarrow> string list \<Rightarrow> 'v kuasar_sandbox \<times> 'v dumps
   \<Rightarrow> sb_error option \<times> 'v kuasar_sandbox \<times> 'v dumps" where
  "remove_containers vo he dr force [] s = (None, s)"
| "remove_containers vo he dr force (c # cs) s =
     (case remove_container vo he dr c s of
        (Some e, s') \<Rightarrow> (if force then remove_containers vo he dr force cs s' else (Some e, s'))
      | (None, s') \<Rightarrow> remove_containers vo he dr force cs s')"

definition destroy_network :: "'v kuasar_sandbox \<Rightarrow> 'v kuasar_sandbox" where
  "destroy_network sb = sb\<lparr>sb_network := False\<rparr>"

definition sandbox_stop ::
  "'v vm_ops \<Rightarrow> host_env \<Rightarrow> dump_result \<Rightarrow> bool \<Rightarrow> 'v kuasar_sandbox \<times> 'v dumps
   \<Rightarrow> sb_error option \<times> 'v kuasar_sandbox \<times> 'v dumps" where
  "sandbox_stop vo he dr force0 s =
     (case s of (sb, dk) \<Rightarrow>
      (let proceed = (\<lambda>force.
             (case remove_containers vo he dr force (map fst (sb_containers sb)) (sb, dk) of
                (Some e, s1) \<Rightarrow> (Some e, s1)
              | (None, sb1, dk1) \<Rightarrow>
                  (case vm_stop vo force (sb_vm sb1) of
                     (Some e, v) \<Rightarrow> (Some e, sb1\<lparr>sb_vm := v\<rparr>, dk1)
                   | (None, v) \<Rightarrow> (None, destroy_network (sb1\<lparr>sb_vm := v\<rparr>), dk1))))
       in
       case sb_status sb of
         Created \<Rightarrow> proceed True
       | Running _ \<Rightarrow> proceed force0
       | Stopped _ _ \<Rightarrow> (None, destroy_network sb, dk)
       | Paused \<Rightarrow> (Some (OtherError ''stop in an unexpected status''), sb, dk)))"

section \<open>How a restore ends\<close>

text \<open>
  A run of restore steps after the machine is restored: while it succeeds the status is untouched and
  the phase is the last one entered; once it failed, the machine was stopped by force, and the error
  names the phase.
\<close>

fun run_ok :: "'v vm_ops \<Rightarrow> sandbox_status \<Rightarrow> restore_phase \<Rightarrow> 'v restore_run \<Rightarrow> bool" where
  "run_ok vo st ph (None, txn, sb) \<longleftrightarrow> sb_status sb = st \<and> rt_phase txn = ph"
| "run_ok vo st ph (Some e, txn, sb) \<longleftrightarrow>
     sb_status sb = st \<and> RestoreVm < rt_phase txn \<and> rt_phase txn < Commit \<and>
     (\<exists>v. sb_vm sb = snd (vm_stop vo True v)) \<and> (\<exists>e'. e = txn_fail txn e')"

lemma run_ok_at_phase: "run_ok vo st ph run \<Longrightarrow> run_ok vo st ph' (at_phase ph' run)"
  by (induction ph' run rule: at_phase.induct) simp_all

lemma run_ok_guarded:
  assumes "run_ok vo st ph run" and "RestoreVm < ph" and "ph < Commit"
    and "\<And>sb. sb_status (snd (step sb)) = sb_status sb"
  shows "run_ok vo st ph (guarded vo step run)"
  using assms
proof (induction vo step run rule: guarded.induct)
  case (1 vo step txn sb)
  obtain r sb1 where step: "step sb = (r, sb1)" by force
  have "sb_status sb1 = st" using 1 step by (metis run_ok.simps(1) snd_conv)
  then show ?case using 1 step by (cases r) (auto simp: rollback_vm_def)
qed simp

lemma run_ok_assign:
  "run_ok vo st ph run \<Longrightarrow> (\<And>sb. sb_status (f sb) = sb_status sb) \<Longrightarrow> run_ok vo st ph (assign f run)"
  by (induction f run rule: assign.induct) simp_all

lemma step_status [simp]:
  "sb_status (snd (init_client vo ga sb)) = sb_status sb"
  "sb_status (snd (hotplug_pending_network vo sb)) = sb_status sb"
  "sb_status (take_storages src sb) = sb_status sb"
  by (simp_all add: init_client_def hotplug_pending_network_def take_storages_def split: prod.split)

lemma phase_bounds [simp]:
  "RestoreVm < InitClient" "InitClient < Commit" "RestoreVm < HotplugNetwork" "HotplugNetwork < Commit"
  "RestoreVm < InjectTask" "InjectTask < Commit" "RestoreVm < PushSandboxFiles" "PushSandboxFiles < Commit"
  "RestoreVm < SetupSandbox" "SetupSandbox < Commit" "RestoreVm < TransferNetworkIdentity"
  "TransferNetworkIdentity < Commit"
  by (simp_all add: less_restore_phase_def)

lemma run_ok_step:
  assumes "run_ok vo st ph run" and "RestoreVm < ph'" and "ph' < Commit"
    and "\<And>sb. sb_status (snd (step sb)) = sb_status sb"
  shows "run_ok vo st ph' (guarded vo step (at_phase ph' run))"
  using run_ok_guarded [OF run_ok_at_phase] assms .

lemma restore_arms_ok:
  assumes "run_ok vo st InitClient run"
  shows "run_ok vo st InjectTask (restore_warm_fork vo he ga src run)"
    and "run_ok vo st TransferNetworkIdentity (restore_continuation src run)"
    and "run_ok vo st SetupSandbox (restore_environment vo he ga self run)"
proof -
  have hot: "run_ok vo st HotplugNetwork (guarded vo (hotplug_pending_network vo) (at_phase HotplugNetwork run))"
    by (rule run_ok_step [OF assms]) simp_all
  show "run_ok vo st InjectTask (restore_warm_fork vo he ga src run)" unfolding restore_warm_fork_def
    by (rule run_ok_step [OF run_ok_guarded [OF run_ok_assign [OF hot]]]) simp_all
  show "run_ok vo st TransferNetworkIdentity (restore_continuation src run)" unfolding restore_continuation_def
    by (rule run_ok_at_phase [OF run_ok_assign [OF assms]]) simp
  have files: "run_ok vo st PushSandboxFiles (guarded vo (\<lambda>sb. (push_sandbox_files he sb, sb))
      (at_phase PushSandboxFiles (guarded vo (hotplug_pending_network vo) (at_phase HotplugNetwork run))))"
    by (rule run_ok_step [OF hot]) simp_all
  show "run_ok vo st SetupSandbox (restore_environment vo he ga self run)"
    unfolding restore_environment_def Let_def
    by (cases "storage_backend (sb_storage_policy self) = VIRTIO_BLK")
      (simp_all add: run_ok_step [OF files] run_ok_step [OF hot])
qed

lemma restore_steps_ok:
  assumes "run_ok vo st RestoreVm run"
  shows "\<exists>ph. run_ok vo st ph (restore_steps vo he ga src self run)"
proof -
  have "run_ok vo st InitClient (guarded vo (init_client vo ga) (at_phase InitClient run))"
    by (rule run_ok_step [OF assms]) simp_all
  note arms = restore_arms_ok [OF this]
  show ?thesis unfolding restore_steps_def Let_def using arms
    by (cases "rs_snapshot_type src") (simp_all, blast+)
qed

lemma try_restore_result:
  assumes "try_restore vo he ga txn0 src sb = (r, txn, sb')"
  shows "(r = None \<longrightarrow> rt_phase txn = Commit \<and> (\<exists>pid. sb_status sb' = Running pid)) \<and>
    (\<forall>e. r = Some e \<longrightarrow> sb_status sb' = sb_status sb \<and> rt_phase txn < Commit \<and> (\<exists>e'. e = txn_fail txn e') \<and>
      (RestoreVm < rt_phase txn \<longrightarrow> (\<exists>v. sb_vm sb' = snd (vm_stop vo True v))))"
proof -
  obtain rv v where res: "vm_restore vo src (sb_vm sb) = (rv, v)" by force
  show ?thesis
  proof (cases rv)
    case (Some e0)
    then show ?thesis using assms res by (auto simp: try_restore_def Let_def less_restore_phase_def)
  next
    case None
    obtain r1 txn1 sb1 where run: "restore_steps vo he ga src sb (None, txn0\<lparr>rt_phase := RestoreVm\<rparr>, sb\<lparr>sb_vm := v\<rparr>) =
        (r1, txn1, sb1)" by (metis prod_cases3)
    have "run_ok vo (sb_status sb) RestoreVm (None, txn0\<lparr>rt_phase := RestoreVm\<rparr>, sb\<lparr>sb_vm := v\<rparr>)" by simp
    from restore_steps_ok [OF this, of he ga src sb] obtain ph where "run_ok vo (sb_status sb) ph (r1, txn1, sb1)"
      unfolding run by blast
    moreover have "(r, txn, sb') = assign (\<lambda>sb. sb\<lparr>sb_status := Running (case vm_pid vo v of Some p \<Rightarrow> p | None \<Rightarrow> 0)\<rparr>)
        (at_phase Commit (r1, txn1, sb1))"
      using assms res None by (simp add: try_restore_def Let_def run)
    ultimately show ?thesis by (cases r1) auto
  qed
qed

section \<open>What the operations leave alone\<close>

text \<open>
  The identity of a sandbox, and of its restore metadata the part that says which template it refers
  to and how.
\<close>

definition pin_meta ::
  "'v kuasar_sandbox \<Rightarrow> string option \<times> snapshot_type option \<times> lease_mode option \<times> memory_restore_mode option" where
  "pin_meta sb =
     (rm_template_id (sb_restore sb), rm_template_snapshot_type (sb_restore sb), rm_lease_mode (sb_restore sb),
      rm_memory_restore_mode (sb_restore sb))"

definition same_self :: "'v kuasar_sandbox \<Rightarrow> 'v kuasar_sandbox \<Rightarrow> bool" where
  "same_self a b \<longleftrightarrow> sb_id b = sb_id a \<and> sb_base_dir b = sb_base_dir a \<and> sb_data b = sb_data a \<and> pin_meta b = pin_meta a"

lemma same_self_refl [simp]: "same_self a a"
  by (simp add: same_self_def)

lemma same_self_trans [trans]: "same_self a b \<Longrightarrow> same_self b c \<Longrightarrow> same_self a c"
  by (simp add: same_self_def)

lemma same_self_upd [simp]:
  "same_self a (b\<lparr>sb_vm := v\<rparr>) = same_self a b" "same_self a (b\<lparr>sb_client := c\<rparr>) = same_self a b"
  "same_self a (b\<lparr>sb_status := s\<rparr>) = same_self a b" "same_self a (b\<lparr>sb_network := n\<rparr>) = same_self a b"
  "same_self a (b\<lparr>sb_storages := sts\<rparr>) = same_self a b" "same_self a (b\<lparr>sb_images := im\<rparr>) = same_self a b"
  "same_self a (b\<lparr>sb_containers := cs\<rparr>) = same_self a b" "same_self a (b\<lparr>sb_id_generator := g\<rparr>) = same_self a b"
  by (simp_all add: same_self_def pin_meta_def)

lemma same_self_orphans [simp]:
  "same_self a (b\<lparr>sb_restore := (sb_restore b)\<lparr>rm_orphan_container_ids := os\<rparr>\<rparr>) = same_self a b"
  by (simp add: same_self_def pin_meta_def)

lemma same_self_steps [simp]:
  "same_self sb (rollback_vm vo sb)" "same_self sb (snd (init_client vo ga sb))"
  "same_self sb (snd (hotplug_pending_network vo sb))" "same_self sb (destroy_network sb)"
  by (simp_all add: rollback_vm_def init_client_def hotplug_pending_network_def destroy_network_def split: prod.split)

lemma same_self_take_storages [simp]: "same_self sb (take_storages src sb)"
  by (simp add: take_storages_def same_self_def pin_meta_def)

lemma run_same_at_phase: "same_self a (snd (snd run)) \<Longrightarrow> same_self a (snd (snd (at_phase ph run)))"
  by (induction ph run rule: at_phase.induct) simp_all

lemma run_same_guarded:
  assumes "\<And>sb. same_self sb (snd (step sb))" and "same_self a (snd (snd run))"
  shows "same_self a (snd (snd (guarded vo step run)))"
proof -
  obtain r txn sb where run: "run = (r, txn, sb)" by (metis prod_cases3)
  obtain r1 sb1 where step: "step sb = (r1, sb1)" by force
  have "same_self a sb1" using assms(1) [of sb] assms(2) step run same_self_trans by fastforce
  then have "same_self a (rollback_vm vo sb1)" by (simp add: rollback_vm_def)
  with \<open>same_self a sb1\<close> assms(2) show ?thesis by (cases r; cases r1) (simp_all add: run step)
qed

lemma run_same_assign:
  "(\<And>sb. same_self sb (f sb)) \<Longrightarrow> same_self a (snd (snd run)) \<Longrightarrow> same_self a (snd (snd (assign f run)))"
  by (cases run; cases "fst run") (auto intro: same_self_trans)

lemmas run_same = run_same_at_phase run_same_guarded run_same_assign

lemma try_restore_same: "same_self sb (snd (snd (try_restore vo he ga txn src sb)))"
proof -
  have "same_self sb (snd (snd (restore_steps vo he ga src self run)))" if "same_self sb (snd (snd run))" for self run
    using that
    by (cases "rs_snapshot_type src")
      (simp_all add: restore_steps_def Let_def restore_warm_fork_def restore_continuation_def
        restore_environment_def run_same)
  then show ?thesis
    by (auto simp: try_restore_def Let_def run_same split: prod.split option.split)
qed

lemma sandbox_start_from_snapshot_same:
  "same_self sb (snd (sandbox_start_from_snapshot vo he ga src sb))"
  using try_restore_same [of sb vo he ga "txn_new (sb_id sb) (rs_work_dir src)" src]
  by (auto simp: sandbox_start_from_snapshot_def split: prod.split)

lemma sandbox_start_same: "same_self sb (snd (sandbox_start vo he ga sb))"
proof -
  have "same_self sb (snd (init_client vo ga (sb\<lparr>sb_vm := v\<rparr>)))" for v
    using same_self_steps(2) [of "sb\<lparr>sb_vm := v\<rparr>" vo ga] by (simp add: same_self_def pin_meta_def)
  then show ?thesis
    by (auto simp: sandbox_start_def rollback_vm_def split: prod.split option.split sum.split) (metis snd_conv)+
qed

lemma detach_storage_same: "same_self sb (snd (detach_storage vo he st sb))"
  by (simp add: detach_storage_def Let_def split: option.split prod.split)

lemma gc_loop_same: "same_self a sb \<Longrightarrow> same_self a (snd (gc_loop vo he sts sb))"
proof (induction sts arbitrary: sb)
  case (Cons st sts)
  obtain r sb1 where d: "detach_storage vo he st sb = (r, sb1)" by force
  then have "same_self a sb1" using detach_storage_same [of sb vo he st] Cons.prems same_self_trans by fastforce
  then show ?case using Cons.IH d by (cases r) simp_all
qed simp

lemma deference_container_storages_same: "same_self sb (snd (deference_container_storages vo he cid sb))"
  by (simp add: deference_container_storages_def gc_storages_def gc_loop_same)

lemma remove_container_same: "same_self sb (fst (snd (remove_container vo he dr cid (sb, dk))))"
proof -
  have "same_self sb sb1" if "deference_container_storages vo he cid sb = (r, sb1)" for r sb1
    using deference_container_storages_same [of sb vo he cid] that by simp
  then show ?thesis
    by (auto simp: remove_container_def Let_def split: prod.split option.split)
qed

lemma remove_containers_same: "same_self a sb \<Longrightarrow> same_self a (fst (snd (remove_containers vo he dr force cs (sb, dk))))"
proof (induction cs arbitrary: sb dk)
  case (Cons c cs)
  obtain r sb1 dk1 where d: "remove_container vo he dr c (sb, dk) = (r, sb1, dk1)" by (metis prod_cases3)
  then have "same_self a sb1" using remove_container_same [of sb vo he dr c dk] Cons.prems same_self_trans by fastforce
  then show ?case using Cons.IH d by (cases r; cases force) simp_all
qed simp

lemma sandbox_stop_same: "same_self sb (fst (snd (sandbox_stop vo he dr force (sb, dk))))"
proof -
  have "same_self sb sb1" if "remove_containers vo he dr f (map fst (sb_containers sb)) (sb, dk) = (r, sb1, dk1)"
    for r sb1 dk1 f
    using remove_containers_same [of sb sb vo he dr f "map fst (sb_containers sb)" dk] that by simp
  then show ?thesis
    by (auto simp: sandbox_stop_def Let_def destroy_network_def split: sandbox_status.split prod.split option.split)
qed

section \<open>Properties\<close>


definition demo_guest :: "bool \<Rightarrow> guest_env" where
  "demo_guest inject = \<lparr>ga_connect = True, ga_setup = True, ga_interfaces = 1, ga_routes = 1,
     ga_update_interfaces = True, ga_update_routes = True,
     ga_inject = \<lambda>ts. if inject then Some (map (\<lambda>t. \<lparr>ir_container_id = ct_container_id t, ir_started = True\<rparr>) ts) else None\<rparr>"

definition demo_params :: warm_fork_params where
  "demo_params = \<lparr>wp_task_id = None, wp_targets = [\<lparr>wt_container_name = ''app'', wt_container_id = ''c1'',
     wt_socket_path = ''/run/ready.sock'', wt_env_overrides = [], wt_context = []\<rparr>],
     wp_prepare_timeout_ms = 10000, wp_commit_timeout_ms = 5000\<rparr>"

definition demo_source :: "snapshot_type \<Rightarrow> restore_source" where
  "demo_source ty = \<lparr>rs_snapshot_dir = ''/t/1'', rs_work_dir = ''/run/s1/restore'',
     rs_overrides = \<lparr>po_task_vsock = ''v'', po_console_path = ''c''\<rparr>, rs_snapshot_type = ty, rs_disk_images = [],
     rs_storages = [], rs_orphan_container_ids = [''c1''], rs_memory_restore_mode = Copy, rs_reflink_supported = False,
     rs_lease_mode = Shared, rs_warm_fork_params = Some demo_params\<rparr>"

lemmas restore_defs = try_restore_def restore_steps_def restore_warm_fork_def restore_environment_def
  restore_continuation_def init_client_def setup_sandbox_def hotplug_pending_network_def take_storages_def
  refresh_instance_identity_def inject_warm_fork_task_def container_tasks_def rollback_vm_def txn_new_def
  demo_guest_def demo_params_def demo_source_def list_vm_def new_sandbox_def storage_policy_default_def
  VIRTIO_BLK_def Let_def


section \<open>What a failed restore leaves behind\<close>

text \<open>
  A restore that fails after the client was connected stops the machine but keeps the client. A fresh
  boot of the same sandbox then does not connect again: whether a connection to the new machine could
  be made does not matter to it.
\<close>

lemma init_client_connected: "sb_client sb \<Longrightarrow> init_client vo ga sb = (None, sb)"
  by (simp add: init_client_def)

lemma stale_client_not_reconnected:
  "sb_client sb \<Longrightarrow> sandbox_start vo he (ga\<lparr>ga_connect := c\<rparr>) sb = sandbox_start vo he ga sb"
proof -
  have s: "setup_sandbox (ga\<lparr>ga_connect := c\<rparr>) sb' = setup_sandbox ga sb'" for sb' :: "'a kuasar_sandbox"
    by (simp add: setup_sandbox_def)
  have i: "init_client vo g (sb\<lparr>sb_vm := v\<rparr>) = (None, sb\<lparr>sb_vm := v\<rparr>)" if "sb_client sb" for v g
    using that by (simp add: init_client_connected)
  assume "sb_client sb"
  then show ?thesis by (simp only: sandbox_start_def i s)
qed

text \<open>
  A warm-fork restore that fails while the task is injected leaves the template's storage entries in
  the sandbox, whose machine no longer exists.
\<close>

lemma remap_cong: "sb_base_dir sb' = sb_base_dir sb \<Longrightarrow>
    remap_restored_storage_artifacts sb' src = remap_restored_storage_artifacts sb src"
  by (simp only: remap_restored_storage_artifacts_def)

lemma init_client_result: "init_client vo ga sb = (None, sb') \<Longrightarrow> sb' = sb\<lparr>sb_client := True\<rparr>"
  by (auto simp: init_client_def split: if_splits)

lemma stale_storages_after_failed_inject:
  assumes "rs_snapshot_type src = WarmFork"
    and "try_restore vo he ga txn0 src sb = (Some e, txn, sb')" and "rt_phase txn = InjectTask"
  shows "sb_storages sb' = remap_restored_storage_artifacts sb src \<and> sb_client sb'"
proof -
  obtain v where v: "vm_restore vo src (sb_vm sb) = (None, v)"
    using assms(2,3) by (auto simp: try_restore_def Let_def split: prod.splits option.splits)
  obtain sb1 where c: "init_client vo ga (sb\<lparr>sb_vm := v\<rparr>) = (None, sb1)"
    using assms v by (cases "init_client vo ga (sb\<lparr>sb_vm := v\<rparr>)"; cases "fst (init_client vo ga (sb\<lparr>sb_vm := v\<rparr>))")
      (auto simp: try_restore_def restore_steps_def restore_warm_fork_def Let_def)
  note sb1 = init_client_result [OF c]
  obtain r2 v2 where h: "vm_hotplug_pending_network vo (sb_vm sb1) = (r2, v2)" by force
  have "r2 = None"
    using assms v c h
    by (cases r2) (auto simp: try_restore_def restore_steps_def restore_warm_fork_def hotplug_pending_network_def Let_def)
  define sb3 where "sb3 = take_storages src (sb1\<lparr>sb_vm := v2\<rparr>)"
  have sb3: "sb_storages sb3 = remap_restored_storage_artifacts sb src" "sb_client sb3"
    using remap_cong [of "sb1\<lparr>sb_vm := v2\<rparr>" sb src] by (simp_all add: sb3_def take_storages_def sb1)
  have "refresh_instance_identity he ga sb3 = None"
    using assms v c h \<open>r2 = None\<close>
    by (cases "refresh_instance_identity he ga sb3")
      (auto simp: try_restore_def restore_steps_def restore_warm_fork_def hotplug_pending_network_def Let_def sb3_def)
  then have "sb' = rollback_vm vo sb3"
    using assms v c h \<open>r2 = None\<close>
    by (auto simp: try_restore_def restore_steps_def restore_warm_fork_def hotplug_pending_network_def Let_def sb3_def
        split: option.splits)
  then show ?thesis using sb3 by (simp add: rollback_vm_def)
qed

end
