(* ===== verification/Intent.thy ===== *)
theory Intent
  imports Restore
begin

text \<open>
  What the annotations of a pod ask for (\<^verbatim>\<open>vmm/sandbox/src/sandbox.rs\<close>): the snapshot to restore
  from, and the parameters of a warm fork; and the resolver configuration written for the guest.
\<close>

section \<open>Annotations\<close>

definition SNAPSHOT_TYPE_ANNOTATION :: string where "SNAPSHOT_TYPE_ANNOTATION = ''kuasar.io/snapshot-type''"
definition TEMPLATE_KEY_ANNOTATION :: string where "TEMPLATE_KEY_ANNOTATION = ''kuasar.io/template-key''"
definition TEMPLATE_ID_ANNOTATION :: string where "TEMPLATE_ID_ANNOTATION = ''kuasar.io/template-id''"
definition POD_UID_ANNOTATION :: string where "POD_UID_ANNOTATION = ''kuasar.io/pod-uid''"
definition WORKLOAD_GENERATION_ANNOTATION :: string where
  "WORKLOAD_GENERATION_ANNOTATION = ''kuasar.io/workload-generation''"
definition READINESS_SOCKET_ANNOTATION :: string where
  "READINESS_SOCKET_ANNOTATION = ''kuasar.io/warm-fork-readiness-socket''"
definition WARM_FORK_CONTAINERS_ANNOTATION :: string where
  "WARM_FORK_CONTAINERS_ANNOTATION = ''kuasar.io/warm-fork-containers''"
definition TASK_ID_ANNOTATION :: string where "TASK_ID_ANNOTATION = ''kuasar.io/task-id''"
definition TASK_CONTEXT_ANNOTATION :: string where "TASK_CONTEXT_ANNOTATION = ''kuasar.io/task-context''"
definition TASK_ENV_PREFIX :: string where "TASK_ENV_PREFIX = ''kuasar.io/task-env/''"
definition DEFAULT_READINESS_SOCKET :: string where "DEFAULT_READINESS_SOCKET = ''/run/warmfork-readiness.sock''"

lemmas annotation_defs = SNAPSHOT_TYPE_ANNOTATION_def TEMPLATE_KEY_ANNOTATION_def TEMPLATE_ID_ANNOTATION_def
  POD_UID_ANNOTATION_def WORKLOAD_GENERATION_ANNOTATION_def READINESS_SOCKET_ANNOTATION_def
  WARM_FORK_CONTAINERS_ANNOTATION_def TASK_ID_ANNOTATION_def TASK_CONTEXT_ANNOTATION_def TASK_ENV_PREFIX_def
  DEFAULT_READINESS_SOCKET_def

type_synonym annotations = "(string, string) hmap"

section \<open>The intent of a pod\<close>

record snapshot_intent =
  si_explicit_type :: "snapshot_type option"
  si_cont_identity :: "workload_identity option"
  si_template_id :: "string option"
  si_template_key :: "string option"

definition annotation :: "annotations option \<Rightarrow> string \<Rightarrow> string option" where
  "annotation a k = (case a of None \<Rightarrow> None | Some m \<Rightarrow> hm_get m k)"

definition parse_generation :: "string option \<Rightarrow> sb_error + nat" where
  "parse_generation g =
     (case g of
        None \<Rightarrow> Inr 0
      | Some s \<Rightarrow>
          (case parse_uint (2 ^ 64 - 1) s of
             Some v \<Rightarrow> (if v \<le> 2 ^ 32 - 1 then Inr v else Inl (OtherError ''generation exceeds u32''))
           | None \<Rightarrow> Inl (OtherError ''generation is not a number'')))"

definition intent_identity ::
  "bool \<Rightarrow> annotations option \<Rightarrow> snapshot_type option \<Rightarrow> sb_error + workload_identity option" where
  "intent_identity continuation_enabled a explicit =
     (if explicit = Some Environment \<or> explicit = Some WarmFork \<or> \<not> continuation_enabled then Inr None
      else (case annotation a POD_UID_ANNOTATION of
              None \<Rightarrow> Inr None
            | Some uid \<Rightarrow>
                (case parse_generation (annotation a WORKLOAD_GENERATION_ANNOTATION) of
                   Inl e \<Rightarrow> Inl e
                 | Inr g \<Rightarrow> Inr (Some \<lparr>pod_uid = uid, generation = g\<rparr>))))"

definition intent_of :: "bool \<Rightarrow> annotations option \<Rightarrow> sb_error + snapshot_intent" where
  "intent_of continuation_enabled a =
     (case (case annotation a SNAPSHOT_TYPE_ANNOTATION of
              None \<Rightarrow> Inr None
            | Some v \<Rightarrow>
                (case from_annotation v of
                   None \<Rightarrow> Inl (InvalidArgument ''snapshot-type'')
                 | Some ty \<Rightarrow> Inr (Some ty))) of
        Inl e \<Rightarrow> Inl e
      | Inr explicit \<Rightarrow>
          (let templated = \<not> (explicit = Some Environment \<or> explicit = Some Continuation) in
           case intent_identity continuation_enabled a explicit of
             Inl e \<Rightarrow> Inl e
           | Inr w \<Rightarrow>
               Inr \<lparr>si_explicit_type = explicit, si_cont_identity = w,
                    si_template_id = (if templated then annotation a TEMPLATE_ID_ANNOTATION else None),
                    si_template_key = (if templated then annotation a TEMPLATE_KEY_ANNOTATION else None)\<rparr>))"

section \<open>Parameters of a warm fork\<close>

fun container_names :: "string list \<Rightarrow> string list \<Rightarrow> sb_error + string list" where
  "container_names [] names = Inr names"
| "container_names (raw # rest) names =
     (let name = trim raw in
      if name = [] then Inl (OtherError ''empty container name'')
      else if name \<in> set names then Inl (OtherError ''duplicate container name'')
      else container_names rest (names @ [name]))"

definition parse_warm_fork_container_names :: "annotations \<Rightarrow> sb_error + string list option" where
  "parse_warm_fork_container_names a =
     (case hm_get a WARM_FORK_CONTAINERS_ANNOTATION of
        None \<Rightarrow> Inr None
      | Some v \<Rightarrow>
          (case container_names (split_on (CHR '','') v) [] of
             Inl e \<Rightarrow> Inl e
           | Inr names \<Rightarrow> (if names = [] then Inl (OtherError ''no container names'') else Inr (Some names))))"

definition prefixed :: "string \<Rightarrow> annotations \<Rightarrow> (string \<times> string) list" where
  "prefixed prefix a =
     List.map_filter (\<lambda>(k, v). case strip_prefix prefix k of None \<Rightarrow> None | Some k' \<Rightarrow> Some (k', v)) a"

definition pod_env :: "annotations \<Rightarrow> (string, string) hmap" where
  "pod_env a = fold (\<lambda>(k, v). hm_insert k v) (prefixed TASK_ENV_PREFIX a) []"

definition container_prefix :: "string \<Rightarrow> string" where
  "container_prefix name = ''kuasar.io/container/'' @ name @ ''/''"

definition container_target :: "annotations \<Rightarrow> string \<Rightarrow> string \<Rightarrow> string \<Rightarrow> warm_fork_target" where
  "container_target a pod_socket pod_context name =
     \<lparr>wt_container_name = name, wt_container_id = [],
      wt_socket_path = (case hm_get a (container_prefix name @ ''warm-fork-readiness-socket'') of
                          Some s \<Rightarrow> s | None \<Rightarrow> pod_socket),
      wt_env_overrides = fold (\<lambda>(k, v). hm_insert k v) (prefixed (container_prefix name @ ''task-env/'') a) (pod_env a),
      wt_context = (case hm_get a (container_prefix name @ ''task-context'') of Some c \<Rightarrow> c | None \<Rightarrow> pod_context)\<rparr>"

definition parse_warm_fork_params :: "annotations \<Rightarrow> sb_error + warm_fork_params" where
  "parse_warm_fork_params a =
     (let task_id = (case hm_get a TASK_ID_ANNOTATION of None \<Rightarrow> None | Some s \<Rightarrow> (if s = [] then None else Some s));
          pod_socket = (case hm_get a READINESS_SOCKET_ANNOTATION of Some s \<Rightarrow> s | None \<Rightarrow> DEFAULT_READINESS_SOCKET);
          pod_context = (case hm_get a TASK_CONTEXT_ANNOTATION of Some c \<Rightarrow> c | None \<Rightarrow> [])
      in
      case parse_warm_fork_container_names a of
        Inl e \<Rightarrow> Inl e
      | Inr names \<Rightarrow>
          Inr \<lparr>wp_task_id = task_id,
               wp_targets = (case names of
                   Some ns \<Rightarrow> map (container_target a pod_socket pod_context) ns
                 | None \<Rightarrow> [\<lparr>wt_container_name = [], wt_container_id = [], wt_socket_path = pod_socket,
                            wt_env_overrides = pod_env a, wt_context = pod_context\<rparr>]),
               wp_prepare_timeout_ms = 10000, wp_commit_timeout_ms = 5000\<rparr>)"

text \<open>The container ids recorded in the template, filled into the targets of the same names.\<close>

definition resolve_target :: "warm_fork_target list \<Rightarrow> warm_fork_target \<Rightarrow> warm_fork_target" where
  "resolve_target resolved t =
     (case List.find (\<lambda>rt. wt_container_name rt = wt_container_name t) resolved of
        Some rt \<Rightarrow> t\<lparr>wt_container_id := wt_container_id rt\<rparr>
      | None \<Rightarrow> t)"

definition resolve_params :: "pooled_template \<Rightarrow> warm_fork_params \<Rightarrow> warm_fork_params option" where
  "resolve_params tmpl params =
     (if pt_warm_fork_targets tmpl = [] then Some params
      else if set (map wt_container_name (pt_warm_fork_targets tmpl)) \<noteq> set (map wt_container_name (wp_targets params))
      then None
      else Some (params\<lparr>wp_targets := map (resolve_target (pt_warm_fork_targets tmpl)) (wp_targets params)\<rparr>))"

section \<open>Resolver configuration\<close>

definition parse_dnsoptions :: "string list \<Rightarrow> string list \<Rightarrow> string list \<Rightarrow> string" where
  "parse_dnsoptions servers searches options =
     (if searches \<noteq> [] then ''search '' @ join_with '' '' searches @ [CHR 0x0A] else []) @
     (if servers \<noteq> [] then ''nameserver '' @ join_with (CHR 0x0A # ''nameserver '') servers @ [CHR 0x0A] else []) @
     (if options \<noteq> [] then ''options '' @ join_with '' '' options @ [CHR 0x0A] else [])"

end
