(* ===== verification/Sandboxer.thy ===== *)
theory Sandboxer
  imports Intent Continuation_Store Pool_System
begin

text \<open>
  The sandboxer (\<^verbatim>\<open>vmm/sandbox/src/sandbox.rs\<close>): the sandboxes it knows, the template pool and
  the continuation store it restores from, and the files it keeps of its sandboxes. Each operation is
  the whole handler. What the outside world answers during one attempt to start a sandbox is a record
  \<open>attempt_env\<close>; an operation that tries several ways takes one for each. The last component of the
  state lists the sandboxes that have a control group on the host.
\<close>

section \<open>State\<close>

record ('v, 'c) sandboxer =
  sx_sandboxes :: "(string, 'v kuasar_sandbox) hmap"
  sx_pool :: "'c pool option"
  sx_store :: "'c cont_store option"
  sx_dumps :: "'v dumps"
  sx_cgroups :: "string list"

record factory =
  fa_kernel_path :: string
  fa_image_path :: string
  fa_vcpus :: nat
  fa_memory_mb :: nat
  fa_kernel_params :: string
  fa_storage_policy :: storage_policy

record ('v, 'c) attempt_env =
  ae_he :: host_env
  ae_ga :: guest_env
  ae_pre_start :: "'v kuasar_sandbox \<Rightarrow> sb_error option \<times> 'v kuasar_sandbox"
  ae_post_start :: "'v kuasar_sandbox \<Rightarrow> sb_error option \<times> 'v kuasar_sandbox"
  ae_prepare_network :: "'v kuasar_sandbox \<Rightarrow> sb_error option \<times> 'v kuasar_sandbox"
  ae_cgroup2 :: bool
  ae_cgroup_add :: bool
  ae_dump :: dump_result
  ae_files :: "string \<Rightarrow> bool"
  ae_ph :: "'c pool_host"
  ae_ch :: "'c cont_host"
  ae_turns :: "(bool \<times> 'c pool wake) list"
  ae_ms :: "64 word"

definition put_sandbox :: "string \<Rightarrow> 'v kuasar_sandbox \<Rightarrow> ('v, 'c) sandboxer \<Rightarrow> ('v, 'c) sandboxer" where
  "put_sandbox i sb sx = sx\<lparr>sx_sandboxes := hm_insert i sb (sx_sandboxes sx)\<rparr>"

definition upd_pool :: "('c pool \<Rightarrow> 'c pool) \<Rightarrow> ('v, 'c) sandboxer \<Rightarrow> ('v, 'c) sandboxer" where
  "upd_pool f sx = sx\<lparr>sx_pool := map_option f (sx_pool sx)\<rparr>"

definition upd_store :: "('c cont_store \<Rightarrow> 'c cont_store) \<Rightarrow> ('v, 'c) sandboxer \<Rightarrow> ('v, 'c) sandboxer" where
  "upd_store f sx = sx\<lparr>sx_store := map_option f (sx_store sx)\<rparr>"

definition upd_metrics :: "(template_metrics \<Rightarrow> template_metrics) \<Rightarrow> 'c pool \<Rightarrow> 'c pool" where
  "upd_metrics f p = p\<lparr>metrics := f (metrics p)\<rparr>"

definition add_to_cgroup :: "('v, 'c) attempt_env \<Rightarrow> 'v kuasar_sandbox \<Rightarrow> sb_error option" where
  "add_to_cgroup ae sb =
     (if ae_cgroup2 ae then None
      else (case sb_status sb of
              Running _ \<Rightarrow> (if ae_cgroup_add ae then None else Some (OtherError ''add to cgroup''))
            | _ \<Rightarrow> Some (OtherError ''sandbox status is not Running'')))"

definition apply_pool_settings :: "'c pool option \<Rightarrow> 'v kuasar_sandbox \<Rightarrow> 'v kuasar_sandbox" where
  "apply_pool_settings pool sb =
     (case pool of
        None \<Rightarrow> sb
      | Some p \<Rightarrow>
          sb\<lparr>sb_restore := (sb_restore sb)\<lparr>rm_lease_mode := Some (pool_lease_mode p),
               rm_reflink_supported := Some (reflink_supported p)\<rparr>\<rparr>)"

definition environment_key :: "factory \<Rightarrow> template_key" where
  "environment_key fa =
     from_vm_config (fa_kernel_path fa) (fa_image_path fa) (fa_vcpus fa) (fa_memory_mb fa) (fa_kernel_params fa)
       (storage_backend (fa_storage_policy fa))"

definition any_snapshot_restore_enabled :: "snapshot_config \<Rightarrow> bool" where
  "any_snapshot_restore_enabled c \<longleftrightarrow>
     enable_warmfork_restore c \<or> enable_continuation_restore c \<or> enable_environment_restore c"

definition parse_snapshot_intent ::
  "snapshot_config \<Rightarrow> string \<Rightarrow> ('v, 'c) sandboxer \<Rightarrow> sb_error + snapshot_intent" where
  "parse_snapshot_intent c i sx =
     (case hm_get (sx_sandboxes sx) i of
        None \<Rightarrow> Inl (NotFoundError i)
      | Some sb \<Rightarrow> intent_of (enable_continuation_restore c) (sd_annotations (sb_data sb)))"

section \<open>Restoring from a snapshot\<close>

record snapshot_restore_params =
  sp_snapshot_dir :: string
  sp_template_id :: "string option"
  sp_snapshot_type :: snapshot_type
  sp_id_generator :: "32 word"
  sp_disk_images :: "disk_image_entry list"
  sp_storages :: "storage list"
  sp_orphan_container_ids :: "string list"
  sp_lease_mode :: lease_mode
  sp_reflink_supported :: bool
  sp_original_task_vsock :: string
  sp_warm_fork_params :: "warm_fork_params option"

text \<open>An environment template backs the memory of the sandboxes that do not copy it.\<close>

definition backs_memory :: "'v kuasar_sandbox \<Rightarrow> bool" where
  "backs_memory sb \<longleftrightarrow>
     rm_template_snapshot_type (sb_restore sb) = Some Environment \<and>
     \<not> (rm_memory_restore_mode (sb_restore sb) = Some Copy \<or> rm_memory_restore_mode (sb_restore sb) = None)"

definition rollback_post_restore ::
  "'v vm_ops \<Rightarrow> ('v, 'c) attempt_env \<Rightarrow> bool \<Rightarrow> string \<Rightarrow> sb_error \<Rightarrow> 'v kuasar_sandbox \<Rightarrow> ('v, 'c) sandboxer
   \<Rightarrow> sb_error option \<times> ('v, 'c) sandboxer" where
  "rollback_post_restore vo ae env_non_copy_pinned i e sb sx =
     (let sx1 = (if env_non_copy_pinned
                 then (case rm_template_id (sb_restore sb) of
                         Some tid \<Rightarrow> upd_pool (\<lambda>p. snd (deref (ae_ph ae) tid p)) sx
                       | None \<Rightarrow> sx)
                 else sx)
      in
      case sandbox_stop vo (ae_he ae) (ae_dump ae) True (clear_template_restore_state sb, sx_dumps sx1) of
        (Some _, sb', dk) \<Rightarrow> (Some e, put_sandbox i sb' (sx1\<lparr>sx_dumps := dk\<rparr>))
      | (None, sb', dk) \<Rightarrow> (Some e, put_sandbox i (destroy_network sb') (sx1\<lparr>sx_dumps := dk\<rparr>)))"

definition finish_restore ::
  "'v vm_ops \<Rightarrow> ('v, 'c) attempt_env \<Rightarrow> bool \<Rightarrow> string \<Rightarrow> 'v kuasar_sandbox \<Rightarrow> ('v, 'c) sandboxer
   \<Rightarrow> sb_error option \<times> ('v, 'c) sandboxer" where
  "finish_restore vo ae env_non_copy_pinned i sb sx =
     (case add_to_cgroup ae sb of
        Some e \<Rightarrow> rollback_post_restore vo ae env_non_copy_pinned i e sb sx
      | None \<Rightarrow>
          (case ae_post_start ae sb of
             (Some e, sb1) \<Rightarrow> rollback_post_restore vo ae env_non_copy_pinned i e sb1 sx
           | (None, sb1) \<Rightarrow>
               (case dump (ae_dump ae) sb1 (sx_dumps sx) of
                  (Some e, dk) \<Rightarrow> rollback_post_restore vo ae env_non_copy_pinned i e sb1 (sx\<lparr>sx_dumps := dk\<rparr>)
                | (None, dk) \<Rightarrow> (None, put_sandbox i sb1 (sx\<lparr>sx_dumps := dk\<rparr>)))))"

definition restore_source_of ::
  "snapshot_config \<Rightarrow> snapshot_restore_params \<Rightarrow> 'v kuasar_sandbox \<Rightarrow> restore_source" where
  "restore_source_of c sp sb =
     \<lparr>rs_snapshot_dir = sp_snapshot_dir sp, rs_work_dir = sb_base_dir sb @ ''/restore'',
      rs_overrides = from_original (sb_base_dir sb) (sp_original_task_vsock sp) (sb_id sb),
      rs_snapshot_type = sp_snapshot_type sp, rs_disk_images = sp_disk_images sp, rs_storages = sp_storages sp,
      rs_orphan_container_ids = sp_orphan_container_ids sp,
      rs_memory_restore_mode = default_memory_restore_mode c, rs_reflink_supported = sp_reflink_supported sp,
      rs_lease_mode = sp_lease_mode sp, rs_warm_fork_params = sp_warm_fork_params sp\<rparr>"

definition note_template :: "snapshot_config \<Rightarrow> snapshot_restore_params \<Rightarrow> 'v kuasar_sandbox \<Rightarrow> 'v kuasar_sandbox" where
  "note_template c sp sb =
     sb\<lparr>sb_restore := (sb_restore sb)\<lparr>rm_template_id := sp_template_id sp,
          rm_template_snapshot_type := Some (sp_snapshot_type sp), rm_lease_mode := Some (sp_lease_mode sp),
          rm_reflink_supported := Some (sp_reflink_supported sp),
          rm_memory_restore_mode := Some (default_memory_restore_mode c)\<rparr>\<rparr>"

definition start_from_snapshot ::
  "'v vm_ops \<Rightarrow> snapshot_config \<Rightarrow> ('v, 'c) attempt_env \<Rightarrow> string \<Rightarrow> snapshot_restore_params \<Rightarrow> ('v, 'c) sandboxer
   \<Rightarrow> sb_error option \<times> ('v, 'c) sandboxer" where
  "start_from_snapshot vo c ae i sp sx =
     (case hm_get (sx_sandboxes sx) i of
        None \<Rightarrow> (Some (NotFoundError i), sx)
      | Some sb \<Rightarrow>
          (case ae_pre_start ae sb of
             (Some e, sb1) \<Rightarrow> (Some e, put_sandbox i sb1 sx)
           | (None, sb1) \<Rightarrow>
               (case (if sd_netns (sb_data sb1) \<noteq> [] \<and> sp_snapshot_type sp \<noteq> Continuation
                      then ae_prepare_network ae sb1 else (None, sb1)) of
                  (Some e, sb2) \<Rightarrow> (Some e, put_sandbox i (destroy_network sb2) sx)
                | (None, sb2) \<Rightarrow>
                    (let sb3 = note_template c sp sb2 in
                     case sandbox_start_from_snapshot vo (ae_he ae) (ae_ga ae) (restore_source_of c sp sb3) sb3 of
                       (Some e, sb4) \<Rightarrow>
                         (Some e, put_sandbox i (destroy_network (clear_template_restore_state sb4)) sx)
                     | (None, sb4) \<Rightarrow>
                         (let env_non_copy_pinned = (rm_template_id (sb_restore sb4) \<noteq> None \<and> sx_pool sx \<noteq> None \<and> backs_memory sb4);
                              sx1 = (case rm_template_id (sb_restore sb4) of
                                       Some tid \<Rightarrow> (if env_non_copy_pinned then upd_pool (ref_template tid) sx else sx)
                                     | None \<Rightarrow> sx)
                          in finish_restore vo ae env_non_copy_pinned i (sb4\<lparr>sb_id_generator := sp_id_generator sp\<rparr>) sx1)))))"

section \<open>Restoring from the pool\<close>

definition snapshot_ok :: "('v, 'c) attempt_env \<Rightarrow> pooled_template \<Rightarrow> bool" where
  "snapshot_ok ae t \<longleftrightarrow> ae_files ae (path_push (pt_snapshot_dir t) ''state.json'') \<and> ae_files ae (pt_pmem_path t)"

definition restore_params_of ::
  "pooled_template \<Rightarrow> lease_mode \<Rightarrow> bool \<Rightarrow> warm_fork_params option \<Rightarrow> snapshot_restore_params" where
  "restore_params_of t mode reflink params =
     \<lparr>sp_snapshot_dir = pt_snapshot_dir t, sp_template_id = Some (pt_id t), sp_snapshot_type = pt_snapshot_type t,
      sp_id_generator = of_nat (pt_id_generator t), sp_disk_images = pt_disk_images t, sp_storages = pt_storages t,
      sp_orphan_container_ids = pt_orphan_container_ids t, sp_lease_mode = mode, sp_reflink_supported = reflink,
      sp_original_task_vsock = pt_original_task_vsock t, sp_warm_fork_params = params\<rparr>"

text \<open>The lease is given back, and the miss is recorded.\<close>

definition fail_lease ::
  "('v, 'c) attempt_env \<Rightarrow> template_lease \<Rightarrow> sb_error \<Rightarrow> ('v, 'c) sandboxer \<Rightarrow> sb_error option \<times> ('v, 'c) sandboxer" where
  "fail_lease ae l e sx =
     (Some e, upd_pool (\<lambda>p. upd_metrics record_miss (snd (lease_fail (ae_ph ae) l p))) sx)"

definition complete_lease ::
  "('v, 'c) attempt_env \<Rightarrow> template_lease \<Rightarrow> (template_metrics \<Rightarrow> template_metrics) \<Rightarrow> ('v, 'c) sandboxer
   \<Rightarrow> sb_error option \<times> ('v, 'c) sandboxer" where
  "complete_lease ae l hit sx =
     (None, upd_pool (\<lambda>p. snd (lease_complete (ae_ph ae) l (upd_metrics hit p))) sx)"

definition annotations_of :: "string \<Rightarrow> ('v, 'c) sandboxer \<Rightarrow> annotations" where
  "annotations_of i sx =
     (case hm_get (sx_sandboxes sx) i of
        None \<Rightarrow> []
      | Some sb \<Rightarrow> (case sd_annotations (sb_data sb) of None \<Rightarrow> [] | Some a \<Rightarrow> a))"

definition restore_from_warm_fork_template ::
  "'v vm_ops \<Rightarrow> snapshot_config \<Rightarrow> ('v, 'c) attempt_env \<Rightarrow> string \<Rightarrow> pooled_template \<Rightarrow> template_lease \<Rightarrow> lease_mode
   \<Rightarrow> bool \<Rightarrow> ('v, 'c) sandboxer \<Rightarrow> sb_error option \<times> ('v, 'c) sandboxer" where
  "restore_from_warm_fork_template vo c ae i t l mode reflink sx =
     (if pt_ready_protocol_version t = None then fail_lease ae l (OtherError ''missing ready_protocol_version'') sx
      else if \<not> snapshot_ok ae t then fail_lease ae l (OtherError ''snapshot files missing'') sx
      else (case parse_warm_fork_params (annotations_of i sx) of
              Inl e \<Rightarrow> fail_lease ae l (OtherError ''invalid WarmFork restore annotations'') sx
            | Inr params \<Rightarrow>
                (case resolve_params t params of
                   None \<Rightarrow> fail_lease ae l (OtherError ''container set does not match'') sx
                 | Some params' \<Rightarrow>
                     (case start_from_snapshot vo c ae i (restore_params_of t mode reflink (Some params')) sx of
                        (None, sx') \<Rightarrow> complete_lease ae l (record_warmfork_hit (ae_ms ae)) sx'
                      | (Some e, sx') \<Rightarrow> fail_lease ae l e sx'))))"

definition restore_from_environment_template ::
  "'v vm_ops \<Rightarrow> snapshot_config \<Rightarrow> ('v, 'c) attempt_env \<Rightarrow> string \<Rightarrow> pooled_template \<Rightarrow> template_lease \<Rightarrow> lease_mode
   \<Rightarrow> bool \<Rightarrow> ('v, 'c) sandboxer \<Rightarrow> sb_error option \<times> ('v, 'c) sandboxer" where
  "restore_from_environment_template vo c ae i t l mode reflink sx =
     (if \<not> snapshot_ok ae t then fail_lease ae l (OtherError ''snapshot files missing'') sx
      else (case start_from_snapshot vo c ae i (restore_params_of t mode reflink None) sx of
              (None, sx') \<Rightarrow> complete_lease ae l (record_environment_hit (ae_ms ae)) sx'
            | (Some e, sx') \<Rightarrow> fail_lease ae l e sx'))"

text \<open>What \<open>start_with_template_key\<close> does with the template it acquired.\<close>

definition start_with_acquired ::
  "'v vm_ops \<Rightarrow> snapshot_config \<Rightarrow> ('v, 'c) attempt_env \<Rightarrow> string \<Rightarrow> pooled_template \<Rightarrow> 'c pool \<Rightarrow> ('v, 'c) sandboxer
   \<Rightarrow> sb_error option \<times> ('v, 'c) sandboxer" where
  "start_with_acquired vo c ae i t p sx =
     (case template_lease_new p t of
        Inl _ \<Rightarrow> (Some (OtherError ''unreachable''), sx)
      | Inr l \<Rightarrow>
          (case pt_snapshot_type t of
             Environment \<Rightarrow>
               restore_from_environment_template vo c ae i t l lease_mode_default (reflink_supported p) sx
           | WarmFork \<Rightarrow>
               (if \<not> enable_warmfork_restore c then fail_lease ae l (OtherError ''type is not enabled'') sx
                else restore_from_warm_fork_template vo c ae i t l (pool_lease_mode p) (reflink_supported p) sx)
           | Continuation \<Rightarrow> (Some (OtherError ''unreachable''), sx)))"

definition acquire_or_wait ::
  "('v, 'c) attempt_env \<Rightarrow> template_key \<Rightarrow> 'c pool \<Rightarrow> (pool_error + pooled_template option) \<times> 'c pool" where
  "acquire_or_wait ae k p =
     (case acquire_for_restore (ae_ph ae) k p of
        (Inr None, p1) \<Rightarrow>
          (if in_flight_count_for_key k p1 > 0 then wait_and_acquire_for_restore (ae_ph ae) k (ae_turns ae) p1
           else (Inr None, p1))
      | r \<Rightarrow> r)"

definition start_with_template_key ::
  "'v vm_ops \<Rightarrow> snapshot_config \<Rightarrow> ('v, 'c) attempt_env \<Rightarrow> string \<Rightarrow> template_key \<Rightarrow> ('v, 'c) sandboxer
   \<Rightarrow> sb_error option \<times> ('v, 'c) sandboxer" where
  "start_with_template_key vo c ae i k sx =
     (case sx_pool sx of
        None \<Rightarrow> (Some (OtherError ''template pool not initialized''), sx)
      | Some p \<Rightarrow>
          (case acquire_or_wait ae k p of
             (Inl _, p1) \<Rightarrow> (Some (OtherError ''unreachable''), sx\<lparr>sx_pool := Some p1\<rparr>)
           | (Inr None, p1) \<Rightarrow>
               (Some (OtherError ''template pool miss''), sx\<lparr>sx_pool := Some (upd_metrics record_miss p1)\<rparr>)
           | (Inr (Some t), p1) \<Rightarrow> start_with_acquired vo c ae i t p1 (sx\<lparr>sx_pool := Some p1\<rparr>)))"

text \<open>The failure that gives a lease back without recording a miss.\<close>

definition drop_lease ::
  "('v, 'c) attempt_env \<Rightarrow> template_lease \<Rightarrow> sb_error \<Rightarrow> ('v, 'c) sandboxer \<Rightarrow> sb_error option \<times> ('v, 'c) sandboxer" where
  "drop_lease ae l e sx = (Some e, upd_pool (\<lambda>p. snd (lease_fail (ae_ph ae) l p)) sx)"

definition start_with_template_id ::
  "'v vm_ops \<Rightarrow> snapshot_config \<Rightarrow> ('v, 'c) attempt_env \<Rightarrow> string \<Rightarrow> string \<Rightarrow> string option \<Rightarrow> ('v, 'c) sandboxer
   \<Rightarrow> sb_error option \<times> ('v, 'c) sandboxer" where
  "start_with_template_id vo c ae i tid key sx =
     (case sx_pool sx of
        None \<Rightarrow> (Some (OtherError ''template pool not initialized''), sx)
      | Some p \<Rightarrow>
          (case acquire_by_id_for_restore (ae_ph ae) tid p of
             (Inl _, p1) \<Rightarrow> (Some (OtherError ''unreachable''), sx\<lparr>sx_pool := Some p1\<rparr>)
           | (Inr None, p1) \<Rightarrow> (Some (OtherError ''template not available''), sx\<lparr>sx_pool := Some p1\<rparr>)
           | (Inr (Some t), p1) \<Rightarrow>
               (let sx1 = sx\<lparr>sx_pool := Some p1\<rparr> in
                if pt_snapshot_type t \<noteq> WarmFork then (Some (OtherError ''expected warm_fork''), sx1)
                else (case template_lease_new p1 t of
                        Inl _ \<Rightarrow> (Some (OtherError ''unreachable''), sx1)
                      | Inr l \<Rightarrow>
                          (if (case key of None \<Rightarrow> False | Some k \<Rightarrow> pt_key t \<noteq> user_key k)
                           then drop_lease ae l (OtherError ''key does not match'') sx1
                           else if \<not> enable_warmfork_restore c
                           then fail_lease ae l (OtherError ''WarmFork restore is not enabled'') sx1
                           else restore_from_warm_fork_template vo c ae i t l (pool_lease_mode p1)
                                  (reflink_supported p1) sx1)))))"

section \<open>Restoring from the continuation store\<close>

definition mod_sandbox ::
  "string \<Rightarrow> ('v kuasar_sandbox \<Rightarrow> 'v kuasar_sandbox) \<Rightarrow> ('v, 'c) sandboxer \<Rightarrow> ('v, 'c) sandboxer" where
  "mod_sandbox i f sx =
     (case hm_get (sx_sandboxes sx) i of None \<Rightarrow> sx | Some sb \<Rightarrow> put_sandbox i (f sb) sx)"

definition start_with_continuation_snapshot ::
  "'v vm_ops \<Rightarrow> snapshot_config \<Rightarrow> ('v, 'c) attempt_env \<Rightarrow> string \<Rightarrow> workload_identity \<Rightarrow> ('v, 'c) sandboxer
   \<Rightarrow> sb_error option \<times> ('v, 'c) sandboxer" where
  "start_with_continuation_snapshot vo c ae i w sx =
     (case sx_store sx of
        None \<Rightarrow> (Some (OtherError ''continuation store not initialized''), sx)
      | Some s \<Rightarrow>
          (case cont_acquire (ae_ch ae) w s of
             (None, s1) \<Rightarrow> (Some (OtherError ''no continuation snapshot found''), sx\<lparr>sx_store := Some s1\<rparr>)
           | (Some l, s1) \<Rightarrow>
               (let sx1 = sx\<lparr>sx_store := Some s1\<rparr> in
                case cl_tmpl l of
                  None \<Rightarrow> (Some (OtherError ''lease consumed''), sx1)
                | Some t \<Rightarrow>
                    (let sx2 = mod_sandbox i (\<lambda>sb. sb\<lparr>sb_restore := (sb_restore sb)\<lparr>rm_template_id := Some (pt_id t)\<rparr>\<rparr>) sx1 in
                     if \<not> snapshot_ok ae t
                     then (Some (OtherError ''continuation snapshot files missing''),
                           upd_store (cont_lease_fail (ae_ch ae) l) (mod_sandbox i clear_template_restore_state sx2))
                     else
                       (let reflink = (case sx_pool sx2 of None \<Rightarrow> False | Some p \<Rightarrow> reflink_supported p) in
                        case start_from_snapshot vo c ae i (restore_params_of t Exclusive reflink None) sx2 of
                          (None, sx3) \<Rightarrow> (None, upd_store (cont_lease_complete l) sx3)
                        | (Some e, sx3) \<Rightarrow> (Some e, upd_store (cont_lease_fail (ae_ch ae) l) sx3))))))"

section \<open>The operations of the sandboxer\<close>

definition cold_start ::
  "'v vm_ops \<Rightarrow> ('v, 'c) attempt_env \<Rightarrow> string \<Rightarrow> ('v, 'c) sandboxer \<Rightarrow> sb_error option \<times> ('v, 'c) sandboxer" where
  "cold_start vo ae i sx =
     (case hm_get (sx_sandboxes sx) i of
        None \<Rightarrow> (Some (NotFoundError i), sx)
      | Some sb0 \<Rightarrow>
          (let undo = (\<lambda>e sb dk.
                 (case sandbox_stop vo (ae_he ae) (ae_dump ae) True (sb, dk) of
                    (Some _, sb', dk') \<Rightarrow> (Some e, put_sandbox i sb' (sx\<lparr>sx_dumps := dk'\<rparr>))
                  | (None, sb', dk') \<Rightarrow> (Some e, put_sandbox i (destroy_network sb') (sx\<lparr>sx_dumps := dk'\<rparr>))))
           in
           case ae_pre_start ae (apply_pool_settings (sx_pool sx) sb0) of
             (Some e, sb1) \<Rightarrow> (Some e, put_sandbox i sb1 sx)
           | (None, sb1) \<Rightarrow>
               (case (if sd_netns (sb_data sb1) \<noteq> [] then ae_prepare_network ae sb1 else (None, sb1)) of
                  (Some e, sb2) \<Rightarrow> (Some e, put_sandbox i sb2 sx)
                | (None, sb2) \<Rightarrow>
                    (case sandbox_start vo (ae_he ae) (ae_ga ae) sb2 of
                       (Some e, sb3) \<Rightarrow> (Some e, put_sandbox i (destroy_network sb3) sx)
                     | (None, sb3) \<Rightarrow>
                         (case add_to_cgroup ae sb3 of
                            Some e \<Rightarrow> undo e sb3 (sx_dumps sx)
                          | None \<Rightarrow>
                              (case ae_post_start ae sb3 of
                                 (Some e, sb4) \<Rightarrow> undo e sb4 (sx_dumps sx)
                               | (None, sb4) \<Rightarrow>
                                   (case dump (ae_dump ae) sb4 (sx_dumps sx) of
                                      (Some e, dk) \<Rightarrow> undo e sb4 dk
                                    | (None, dk) \<Rightarrow> (None, put_sandbox i sb4 (sx\<lparr>sx_dumps := dk\<rparr>)))))))))"

definition start_warm_fork ::
  "'v vm_ops \<Rightarrow> snapshot_config \<Rightarrow> ('v, 'c) attempt_env \<Rightarrow> string \<Rightarrow> snapshot_intent \<Rightarrow> ('v, 'c) sandboxer
   \<Rightarrow> sb_error option \<times> ('v, 'c) sandboxer" where
  "start_warm_fork vo c ae i intent sx =
     (case (si_template_id intent, si_template_key intent) of
        (None, None) \<Rightarrow> (Some (OtherError ''warm-fork requires template-key or template-id''), sx)
      | (Some tid, key) \<Rightarrow> start_with_template_id vo c ae i tid key sx
      | (None, Some k) \<Rightarrow> start_with_template_key vo c ae i (user_key k) sx)"

text \<open>
  The environment snapshot, then a fresh boot: the end of \<open>start\<close>, reached when no restore was
  asked for, or when the one that was asked for may be replaced.
\<close>

definition start_fallback ::
  "'v vm_ops \<Rightarrow> snapshot_config \<Rightarrow> factory \<Rightarrow> ('v, 'c) attempt_env \<Rightarrow> ('v, 'c) attempt_env \<Rightarrow> string \<Rightarrow> ('v, 'c) sandboxer
   \<Rightarrow> sb_error option \<times> ('v, 'c) sandboxer" where
  "start_fallback vo c fa ae_env ae_cold i sx =
     (let (r, sx1) =
        (if enable_environment_restore c \<and> sx_pool sx \<noteq> None
         then start_with_template_key vo c ae_env i (environment_key fa) sx
         else (Some (OtherError ''no environment restore''), sx))
      in
      if r = None then (None, sx1)
      else if any_snapshot_restore_enabled c \<and> \<not> fallback_to_fresh_boot c
      then (Some (OtherError ''no matching enabled snapshot''), sx1)
      else cold_start vo ae_cold i sx1)"

definition sandboxer_start ::
  "'v vm_ops \<Rightarrow> snapshot_config \<Rightarrow> factory \<Rightarrow> ('v, 'c) attempt_env \<Rightarrow> ('v, 'c) attempt_env \<Rightarrow> ('v, 'c) attempt_env
   \<Rightarrow> string \<Rightarrow> ('v, 'c) sandboxer \<Rightarrow> sb_error option \<times> ('v, 'c) sandboxer" where
  "sandboxer_start vo c fa ae ae_env ae_cold i sx =
     (if sx_pool sx = None \<and> sx_store sx = None then cold_start vo ae_cold i sx
      else if \<not> (enable_warmfork_restore c \<or> enable_continuation_restore c)
      then start_fallback vo c fa ae_env ae_cold i sx
      else (case parse_snapshot_intent c i sx of
              Inl e \<Rightarrow> (Some e, sx)
            | Inr intent \<Rightarrow>
                (if si_explicit_type intent = Some Continuation then
                   (if \<not> enable_continuation_restore c
                    then (Some (OtherError ''continuation requires enable_continuation_restore''), sx)
                    else (case si_cont_identity intent of
                            None \<Rightarrow> (Some (OtherError ''continuation requires pod-uid''), sx)
                          | Some w \<Rightarrow> start_with_continuation_snapshot vo c ae i w sx))
                 else if si_explicit_type intent = Some WarmFork then
                   (if \<not> enable_warmfork_restore c
                    then (Some (OtherError ''warm-fork requires enable_warmfork_restore''), sx)
                    else start_warm_fork vo c ae i intent sx)
                 else (case si_cont_identity intent of
                         Some w \<Rightarrow> start_with_continuation_snapshot vo c ae i w sx
                       | None \<Rightarrow>
                           (if si_template_id intent \<noteq> None \<or> si_template_key intent \<noteq> None then
                              (case start_warm_fork vo c ae i intent sx of
                                 (None, sx1) \<Rightarrow> (None, sx1)
                               | (Some _, sx1) \<Rightarrow> start_fallback vo c fa ae_env ae_cold i sx1)
                            else start_fallback vo c fa ae_env ae_cold i sx)))))"

definition sandboxer_update ::
  "dump_result \<Rightarrow> string \<Rightarrow> sandbox_data \<Rightarrow> ('v, 'c) sandboxer \<Rightarrow> sb_error option \<times> ('v, 'c) sandboxer" where
  "sandboxer_update dr i d sx =
     (case hm_get (sx_sandboxes sx) i of
        None \<Rightarrow> (Some (NotFoundError i), sx)
      | Some sb \<Rightarrow>
          (let sb' = sb\<lparr>sb_data := d\<rparr> in
           case dump dr sb' (sx_dumps sx) of (r, dk) \<Rightarrow> (r, put_sandbox i sb' (sx\<lparr>sx_dumps := dk\<rparr>))))"

record 'v create_env =
  ce_cgroup2 :: bool
  ce_cgroup_create :: bool
  ce_cgroup_update :: bool
  ce_vm :: "sb_error + 'v"
  ce_sandbox_files :: bool
  ce_post_create :: "'v kuasar_sandbox \<Rightarrow> sb_error option \<times> 'v kuasar_sandbox"
  ce_dump :: dump_result

definition sandboxer_create ::
  "factory \<Rightarrow> 'v create_env \<Rightarrow> string \<Rightarrow> string \<Rightarrow> sandbox_data \<Rightarrow> ('v, 'c) sandboxer
   \<Rightarrow> sb_error option \<times> ('v, 'c) sandboxer" where
  "sandboxer_create fa ce i base_dir d sx =
     (if hm_contains (sx_sandboxes sx) i then (Some (AlreadyExist ''sandbox''), sx)
      else if \<not> ce_cgroup2 ce \<and> \<not> (ce_cgroup_create ce \<and> ce_cgroup_update ce)
      then (Some (OtherError ''create sandbox cgroups''), sx)
      else
        (let sx1 = (if ce_cgroup2 ce then sx else sx\<lparr>sx_cgroups := List.insert i (sx_cgroups sx)\<rparr>) in
         case ce_vm ce of
           Inl e \<Rightarrow> (Some e, sx1)
         | Inr v \<Rightarrow>
             (let sb = \<lparr>sb_vm = v, sb_id = i, sb_status = Created, sb_base_dir = base_dir, sb_data = d,
                        sb_containers = [], sb_storages = [], sb_id_generator = 0, sb_network = False,
                        sb_client = False, sb_storage_policy = fa_storage_policy fa,
                        sb_restore = restore_metadata_default, sb_images = []\<rparr>
              in
              if \<not> ce_sandbox_files ce then (Some (OtherError ''setup_sandbox_files''), sx1)
              else (case ce_post_create ce sb of
                      (Some e, _) \<Rightarrow> (Some e, sx1)
                    | (None, sb1) \<Rightarrow>
                        (case dump (ce_dump ce) sb1 (sx_dumps sx1) of
                           (Some e, dk) \<Rightarrow> (Some e, sx1\<lparr>sx_dumps := dk\<rparr>)
                         | (None, dk) \<Rightarrow> (None, put_sandbox i sb1 (sx1\<lparr>sx_dumps := dk\<rparr>)))))))"

record 'v stop_env =
  se_he :: host_env
  se_pre_stop :: "'v kuasar_sandbox \<Rightarrow> sb_error option \<times> 'v kuasar_sandbox"
  se_post_stop :: "'v kuasar_sandbox \<Rightarrow> sb_error option \<times> 'v kuasar_sandbox"
  se_dump :: dump_result

definition sandboxer_stop ::
  "'v vm_ops \<Rightarrow> 'v stop_env \<Rightarrow> string \<Rightarrow> bool \<Rightarrow> ('v, 'c) sandboxer \<Rightarrow> sb_error option \<times> ('v, 'c) sandboxer" where
  "sandboxer_stop vo se i force sx =
     (case hm_get (sx_sandboxes sx) i of
        None \<Rightarrow> (None, sx)
      | Some sb \<Rightarrow>
          (case se_pre_stop se sb of
             (Some e, sb1) \<Rightarrow> (Some e, put_sandbox i sb1 sx)
           | (None, sb1) \<Rightarrow>
               (case sandbox_stop vo (se_he se) (se_dump se) force (sb1, sx_dumps sx) of
                  (Some e, sb2, dk) \<Rightarrow> (Some e, put_sandbox i sb2 (sx\<lparr>sx_dumps := dk\<rparr>))
                | (None, sb2, dk) \<Rightarrow>
                    (case se_post_stop se sb2 of
                       (Some e, sb3) \<Rightarrow> (Some e, put_sandbox i sb3 (sx\<lparr>sx_dumps := dk\<rparr>))
                     | (None, sb3) \<Rightarrow>
                         (case dump (se_dump se) sb3 dk of (r, dk') \<Rightarrow> (r, put_sandbox i sb3 (sx\<lparr>sx_dumps := dk'\<rparr>)))))))"

record ('v, 'c) delete_env =
  de_he :: host_env
  de_dump :: dump_result
  de_cgroup2 :: bool
  de_cgroup_remove :: bool
  de_cleanup_mounts :: bool
  de_remove_base :: "io_error option"
  de_ph :: "'c pool_host"
  de_ch :: "'c cont_host"

text \<open>What \<open>delete\<close> gives back to the pool or the store for a sandbox that was restored from a template.\<close>

definition release_template ::
  "('v, 'c) delete_env \<Rightarrow> string \<Rightarrow> 'v kuasar_sandbox \<Rightarrow> ('v, 'c) sandboxer \<Rightarrow> ('v, 'c) sandboxer" where
  "release_template de tid sb sx =
     (if sx_pool sx = None then sx
      else (case rm_template_snapshot_type (sb_restore sb) of
              Some Environment \<Rightarrow>
                (if \<not> (rm_memory_restore_mode (sb_restore sb) = Some Copy \<or> rm_memory_restore_mode (sb_restore sb) = None)
                 then upd_pool (\<lambda>p. snd (deref (de_ph de) tid p)) sx else sx)
            | Some WarmFork \<Rightarrow>
                (case rm_lease_mode (sb_restore sb) of
                   Some Exclusive \<Rightarrow> upd_pool (cleanup_consumed (de_ph de) tid) sx
                 | Some Shared \<Rightarrow> upd_pool (\<lambda>p. snd (deref (de_ph de) tid p)) sx
                 | None \<Rightarrow> upd_pool (cleanup_consumed (de_ph de) tid) sx)
            | Some Continuation \<Rightarrow> upd_store (\<lambda>s. snd (delete_by_template_id (de_ch de) tid s)) sx
            | None \<Rightarrow> upd_pool (cleanup_consumed (de_ph de) tid) sx))"

definition sandboxer_delete ::
  "'v vm_ops \<Rightarrow> ('v, 'c) delete_env \<Rightarrow> string \<Rightarrow> ('v, 'c) sandboxer \<Rightarrow> sb_error option \<times> ('v, 'c) sandboxer" where
  "sandboxer_delete vo de i sx =
     (case hm_get (sx_sandboxes sx) i of
        None \<Rightarrow> (None, sx)
      | Some sb \<Rightarrow>
          (case sandbox_stop vo (de_he de) (de_dump de) True (sb, sx_dumps sx) of
             (Some e, sb1, dk) \<Rightarrow> (Some e, put_sandbox i sb1 (sx\<lparr>sx_dumps := dk\<rparr>))
           | (None, sb1, dk) \<Rightarrow>
               (let sx1 = put_sandbox i sb1 (sx\<lparr>sx_dumps := dk\<rparr>) in
                if \<not> de_cgroup2 de \<and> \<not> de_cgroup_remove de then (Some (OtherError ''remove cgroups''), sx1)
                else
                  (let sx2 = (if de_cgroup2 de then sx1 else sx1\<lparr>sx_cgroups := removeAll i (sx_cgroups sx1)\<rparr>) in
                   if \<not> de_cleanup_mounts de then (Some (OtherError ''cleanup_mounts''), sx2)
                   else if de_remove_base de = Some IoFault then (Some (OtherError ''remove base dir''), sx2)
                   else
                     (let sx3 = sx2\<lparr>sx_dumps := hm_remove (sb_base_dir sb1) (sx_dumps sx2)\<rparr>;
                          sx4 = (case rm_template_id (sb_restore sb) of
                                   None \<Rightarrow> sx3
                                 | Some tid \<Rightarrow> release_template de tid sb1 sx3)
                      in (None, sx4\<lparr>sx_sandboxes := hm_remove i (sx_sandboxes sx4)\<rparr>))))))"

text \<open>The monitor of a running machine, when the machine exits.\<close>

definition monitor_exit :: "dump_result \<Rightarrow> nat \<Rightarrow> int \<Rightarrow> string \<Rightarrow> ('v, 'c) sandboxer \<Rightarrow> ('v, 'c) sandboxer" where
  "monitor_exit dr code ts i sx =
     (case hm_get (sx_sandboxes sx) i of
        None \<Rightarrow> sx
      | Some sb \<Rightarrow>
          (let sb' = destroy_network (sb\<lparr>sb_status := Stopped code ts\<rparr>) in
           put_sandbox i sb' (sx\<lparr>sx_dumps := snd (dump dr sb' (sx_dumps sx))\<rparr>)))"

section \<open>Recovery\<close>

text \<open>
  What recovery of one sandbox meets: what deserialisation keeps of the machine, whether the guest
  agent can be reached at once, and whether the control group can be created.
\<close>

record 'v recover_env =
  re_reload :: "'v \<Rightarrow> 'v"
  re_he :: host_env
  re_connect :: bool
  re_cgroup :: bool
  re_dump :: dump_result

definition sandbox_recover ::
  "'v vm_ops \<Rightarrow> 'v recover_env \<Rightarrow> string \<Rightarrow> 'v dumps \<Rightarrow> (sb_error + 'v kuasar_sandbox) \<times> 'v dumps" where
  "sandbox_recover vo re path dk =
     (case hm_get dk path of
        None \<Rightarrow> (Inl (OtherError ''read sandbox.json''), dk)
      | Some sb0 \<Rightarrow>
          (let sb = sb0\<lparr>sb_vm := re_reload re (sb_vm sb0), sb_client := False\<rparr>;
               cgroups = (\<lambda>sb. if re_cgroup re then Inr sb else Inl (OtherError ''create cgroups''))
           in
           case sb_status sb of
             Running _ \<Rightarrow>
               (case vm_recover vo (sb_vm sb) of
                  (Some e, v) \<Rightarrow>
                    (Inl e, snd (snd (sandbox_stop vo (re_he re) (re_dump re) True (sb\<lparr>sb_vm := v\<rparr>, dk))))
                | (None, v) \<Rightarrow>
                    (if vm_socket_address vo v = [] \<or> \<not> re_connect re
                     then (Inl (OtherError ''connect''),
                           snd (snd (sandbox_stop vo (re_he re) (re_dump re) True (sb\<lparr>sb_vm := v\<rparr>, dk))))
                     else (cgroups (sb\<lparr>sb_vm := v, sb_client := True\<rparr>), dk)))
           | _ \<Rightarrow> (cgroups sb, dk)))"

definition recover_entry ::
  "'v vm_ops \<Rightarrow> (string \<Rightarrow> 'v recover_env) \<Rightarrow> string \<Rightarrow> string \<Rightarrow> ('v, 'c) sandboxer \<Rightarrow> ('v, 'c) sandboxer" where
  "recover_entry vo re dir name sx =
     (let path = path_push dir name in
      case sandbox_recover vo (re path) path (sx_dumps sx) of
        (Inr sb, dk) \<Rightarrow> put_sandbox name sb (sx\<lparr>sx_dumps := dk\<rparr>)
      | (Inl _, dk) \<Rightarrow> sx\<lparr>sx_dumps := hm_remove path dk\<rparr>)"

definition shared_pin :: "'v kuasar_sandbox \<Rightarrow> string option" where
  "shared_pin sb =
     (case rm_template_id (sb_restore sb) of
        Some tid \<Rightarrow>
          (if rm_template_snapshot_type (sb_restore sb) = Some WarmFork \<and> rm_lease_mode (sb_restore sb) = Some Shared
           then Some tid else None)
      | None \<Rightarrow> None)"

definition memory_pin :: "'v kuasar_sandbox \<Rightarrow> string option" where
  "memory_pin sb =
     (case rm_template_id (sb_restore sb) of
        Some tid \<Rightarrow> (if backs_memory sb then Some tid else None)
      | None \<Rightarrow> None)"

definition active_template_ids :: "('v, 'c) sandboxer \<Rightarrow> string list" where
  "active_template_ids sx =
     List.map_filter (\<lambda>(_, sb). rm_template_id (sb_restore sb)) (sx_sandboxes sx)"

definition sandboxer_recover ::
  "'v vm_ops \<Rightarrow> (string \<Rightarrow> 'v recover_env) \<Rightarrow> 'c pool_host \<Rightarrow> 'c cont_host \<Rightarrow> string \<Rightarrow> string list \<Rightarrow> ('v, 'c) sandboxer
   \<Rightarrow> ('v, 'c) sandboxer" where
  "sandboxer_recover vo re ph ch dir names sx0 =
     (let sx = fold (recover_entry vo re dir) names sx0 in
      if sx_pool sx = None then sx
      else
        (let active = active_template_ids sx;
             shared = List.map_filter (\<lambda>(_, sb). shared_pin sb) (sx_sandboxes sx);
             backing = List.map_filter (\<lambda>(_, sb). memory_pin sb) (sx_sandboxes sx)
         in upd_store (\<lambda>s. snd (cont_gc_orphaned_consumed ch active s))
              (upd_pool (\<lambda>p. gc_orphaned_consumed ph active (rebuild_active_refs shared backing p)) sx)))"

text \<open>The collection of consumed continuations that runs in the background.\<close>

definition continuation_gc :: "'c cont_host \<Rightarrow> ('v, 'c) sandboxer \<Rightarrow> ('v, 'c) sandboxer" where
  "continuation_gc ch sx = upd_store (\<lambda>s. snd (cont_gc_orphaned_consumed ch (active_template_ids sx) s)) sx"

end
