(* ===== verification/Sandboxer_Inv.thy ===== *)
theory Sandboxer_Inv
  imports Sandboxer Pool_Properties
begin

text \<open>
  The accounts of the sandboxer: for every template, the pool's use counter is the number of sandboxes
  whose memory or disks the template backs plus the shared leases of the restores that are under way.
  The sandboxer is a step relation, so the restores of several sandboxes interleave with each other and
  with the operations of the pool. The accounts give the safety of the live sandboxes.
\<close>

section \<open>Which template a sandbox depends on\<close>

definition pin_of :: "'v kuasar_sandbox \<Rightarrow> string option" where
  "pin_of sb = (case shared_pin sb of Some t \<Rightarrow> Some t | None \<Rightarrow> memory_pin sb)"

definition unrestored :: "'v kuasar_sandbox \<Rightarrow> bool" where
  "unrestored sb \<longleftrightarrow> rm_template_snapshot_type (sb_restore sb) = None"

definition pins :: "('v, 'c) sandboxer \<Rightarrow> string \<Rightarrow> nat" where
  "pins sx tid = length (filter (\<lambda>(_, sb). pin_of sb = Some tid) (sx_sandboxes sx))"

lemmas pin_defs = pin_of_def shared_pin_def memory_pin_def backs_memory_def

lemma pin_of_cong: "pin_meta a = pin_meta b \<Longrightarrow> pin_of a = pin_of b"
  by (simp add: pin_defs pin_meta_def cong: option.case_cong if_cong)

lemma unrestored_cong: "pin_meta a = pin_meta b \<Longrightarrow> unrestored a = unrestored b"
  by (simp add: unrestored_def pin_meta_def)

lemma same_self_pin: "same_self a b \<Longrightarrow> pin_meta b = pin_meta a"
  by (simp add: same_self_def)

lemma unrestored_pin [simp]: "unrestored sb \<Longrightarrow> pin_of sb = None"
  by (simp add: pin_defs unrestored_def split: option.split)

lemma cleared_unrestored [simp]: "unrestored (clear_template_restore_state sb)"
  by (simp add: unrestored_def clear_template_restore_state_def restore_metadata_default_def)

lemma length_filter_update:
  assumes "hm_wf m"
  shows "length (filter P (hm_insert k v m)) = length (filter P (hm_remove k m)) + of_bool (P (k, v))"
proof -
  have "hm_remove k m = m" if "k \<notin> fst ` set m" for m :: "('a, 'b) hmap"
    using that by (induction m) auto
  with assms show ?thesis by (induction m) auto
qed

lemma length_filter_remove:
  assumes "hm_wf m" and "hm_get m k = Some v"
  shows "length (filter P m) = length (filter P (hm_remove k m)) + of_bool (P (k, v))"
proof -
  have "hm_insert k v m = m" using assms by (induction m) (auto split: if_splits)
  with length_filter_update [OF assms(1), of P k v] show ?thesis by simp
qed

text \<open>The sandboxes other than one, and the account of that one.\<close>

definition other_pins :: "string \<Rightarrow> ('v, 'c) sandboxer \<Rightarrow> string \<Rightarrow> nat" where
  "other_pins i sx tid = length (filter (\<lambda>(_, sb). pin_of sb = Some tid) (hm_remove i (sx_sandboxes sx)))"

lemma pins_insert:
  assumes "hm_wf (sx_sandboxes sx)" and "sx_sandboxes sx' = hm_insert i sb (sx_sandboxes sx)"
  shows "pins sx' tid = other_pins i sx tid + of_bool (pin_of sb = Some tid)"
  using length_filter_update [OF assms(1)] by (simp add: pins_def other_pins_def assms(2))

lemma pins_present:
  assumes "hm_wf (sx_sandboxes sx)" and "hm_get (sx_sandboxes sx) i = Some sb"
  shows "pins sx tid = other_pins i sx tid + of_bool (pin_of sb = Some tid)"
  using length_filter_remove [OF assms] by (simp add: pins_def other_pins_def)

lemma pins_absent:
  assumes "hm_get (sx_sandboxes sx) i = None"
  shows "pins sx tid = other_pins i sx tid"
proof -
  have "hm_remove i (sx_sandboxes sx) = sx_sandboxes sx"
    using assms by (simp add: map_of_eq_None_iff)
  then show ?thesis by (simp add: pins_def other_pins_def)
qed

section \<open>Leases under way\<close>

type_synonym leases = "(string \<times> template_lease) list"

definition leased :: "restore_lease_kind \<Rightarrow> leases \<Rightarrow> pooled_template list" where
  "leased k ls = List.map_filter (\<lambda>(_, l). if tl_kind l = k then tl_tmpl l else None) ls"

definition lease_count :: "restore_lease_kind \<Rightarrow> leases \<Rightarrow> string \<Rightarrow> nat" where
  "lease_count k ls tid = length (filter (\<lambda>t. pt_id t = tid) (leased k ls))"

abbreviation lent :: "leases \<Rightarrow> pooled_template list" where
  "lent \<equiv> leased ExclusiveLease"

text \<open>
  The account of the pool against a number of pins for each template and the leases under way. A lease
  was made by the pool in its present mode; an exclusively leased template is not in the pool.
\<close>

definition lease_of :: "lease_mode \<Rightarrow> template_lease \<Rightarrow> bool" where
  "lease_of mode l \<longleftrightarrow>
     (case tl_tmpl l of
        None \<Rightarrow> False
      | Some t \<Rightarrow>
          pt_snapshot_type t \<noteq> Continuation \<and>
          tl_kind l = (if pt_snapshot_type t = Environment then SharedLease
                       else if mode = Shared then SharedRef else ExclusiveLease))"

definition pool_ledger :: "'c pool \<Rightarrow> (string \<Rightarrow> nat) \<Rightarrow> leases \<Rightarrow> bool" where
  "pool_ledger p n ls \<longleftrightarrow>
     pool_wf p \<and> (\<forall>tid. uses_of p tid = n tid + lease_count SharedRef ls tid) \<and>
     (\<forall>tid. lease_count SharedLease ls tid \<le> restores_of p tid) \<and>
     distinct (map pt_id (all_templates p @ lent ls)) \<and> (\<forall>(_, l) \<in> set ls. lease_of (pool_lease_mode p) l)"

definition ledger :: "('v, 'c) sandboxer \<Rightarrow> leases \<Rightarrow> bool" where
  "ledger sx ls \<longleftrightarrow>
     hm_wf (sx_sandboxes sx) \<and>
     (case sx_pool sx of None \<Rightarrow> True | Some p \<Rightarrow> pool_ledger p (pins sx) ls)"

text \<open>A change of the pool that leaves the counters as they are and adds no template.\<close>

definition quiet :: "'c pool \<Rightarrow> 'c pool \<Rightarrow> bool" where
  "quiet p q \<longleftrightarrow>
     pool_wf q \<and> (\<forall>i. uses_of q i = uses_of p i) \<and> (\<forall>i. restores_of q i = restores_of p i) \<and>
     mset (all_templates q) \<subseteq># mset (all_templates p) \<and> pool_lease_mode q = pool_lease_mode p"

lemma distinct_ids_sub:
  assumes "distinct (map pt_id (xs @ zs))" and "mset ys \<subseteq># mset xs"
  shows "distinct (map pt_id (ys @ zs))"
proof -
  have "mset (map pt_id (ys @ zs)) \<subseteq># mset (map pt_id (xs @ zs))"
    using image_mset_subseteq_mono [OF assms(2), of pt_id] by simp
  from distinct_sub_mset [OF this] assms(1) show ?thesis by simp
qed

lemma pool_ledger_quiet:
  assumes "pool_ledger p n ls" and "quiet p q"
  shows "pool_ledger q n ls"
  using assms distinct_ids_sub [of "all_templates p" "lent ls" "all_templates q"]
  by (auto simp: pool_ledger_def quiet_def)

lemma quiet_refl: "pool_wf p \<Longrightarrow> quiet p p"
  by (simp add: quiet_def)

lemma quiet_trans: "quiet p q \<Longrightarrow> quiet q r \<Longrightarrow> quiet p r"
  by (auto simp: quiet_def intro: subset_mset.trans)

lemma quiet_store:
  "pool_wf q \<Longrightarrow> only_store p q \<Longrightarrow> mset (all_templates q) \<subseteq># mset (all_templates p) \<Longrightarrow> quiet p q"
  by (simp add: quiet_def only_store_def uses_of_def restores_of_def)

lemma quiet_reclaim: "pool_wf p \<Longrightarrow> residue_ok h \<Longrightarrow> quiet p (reclaim_step r h p)"
  using reclaim_shrunk [of p h r] by (intro quiet_store) (simp_all add: reclaim_wf reclaim_only_store shrunk_def)

lemma quiet_cleanup: "pool_wf p \<Longrightarrow> quiet p (cleanup_consumed h i p)"
  by (rule quiet_store [OF cleanup_consumed_shrunk(1)])
    (simp_all add: only_store_def cleanup_consumed_def Let_def all_templates_def split: sum.splits bool.splits)

lemma quiet_gc_orphaned: "pool_wf p \<Longrightarrow> quiet p (gc_orphaned_consumed h active p)"
  by (rule quiet_store [OF gc_orphaned_shrunk(1)])
    (simp_all add: only_store_def gc_orphaned_consumed_def all_templates_def)

lemma quiet_metrics: "pool_wf p \<Longrightarrow> quiet p (upd_metrics f p)"
  by (simp add: quiet_def upd_metrics_def uses_of_def restores_of_def pool_wf_def all_templates_def)

lemma lease_mode_run:
  assumes "pool_wf p"
  shows "pool_lease_mode (snd (deref h i p)) = pool_lease_mode p"
    and "pool_lease_mode (snd (end_restore h i p)) = pool_lease_mode p"
proof -
  have u: "cnt_wf (in_use_count p)" "cnt_wf (in_flight_restores p)" using assms by (simp_all add: pool_wf_def)
  have "only_store q (snd (gc_if_needed h q))" if "q = p\<lparr>in_use_count := hm_remove i (in_use_count p)\<rparr>
      \<or> q = p\<lparr>in_flight_restores := hm_remove i (in_flight_restores p)\<rparr>" for q
    using that assms u by (intro gc_only_store) (auto simp: pool_wf_in_use pool_wf_restores cnt_wf_remove)
  then show "pool_lease_mode (snd (deref h i p)) = pool_lease_mode p"
    and "pool_lease_mode (snd (end_restore h i p)) = pool_lease_mode p"
    by (auto simp: deref_def end_restore_def only_store_def split: option.splits)
qed

lemma quiet_unpin:
  assumes "pool_wf p" and "residue_ok h"
  shows "quiet p (snd (deref h i (ref_template i p)))"
proof -
  note wf = ref_template_wf [OF assms(1), of i]
  have "all_templates (ref_template i p) = all_templates p" "pool_lease_mode (ref_template i p) = pool_lease_mode p"
    "in_flight_restores (ref_template i p) = in_flight_restores p"
    by (simp_all add: ref_template_def all_templates_def)
  with deref_run [OF wf, of h i] lease_mode_run(1) [OF wf, of h i] assms(2) show ?thesis
    by (simp add: quiet_def shrunk_def uses_of_ref restores_of_def)
qed

section \<open>Taking and returning leases\<close>

lemma leased_Cons: "leased k ((i, l) # ls) = (if tl_kind l = k \<and> tl_tmpl l \<noteq> None then the (tl_tmpl l) # leased k ls else leased k ls)"
  by (auto simp: leased_def map_filter_simps)

lemma leased_remove1:
  "x \<in> set ls \<Longrightarrow> mset (leased k ls) = mset (leased k [x]) + mset (leased k (remove1 x ls))"
  by (induction ls) (auto simp: leased_def map_filter_simps split: option.splits)

lemma lease_count_remove1:
  assumes "x \<in> set ls"
  shows "lease_count k ls tid = lease_count k [x] tid + lease_count k (remove1 x ls) tid"
  using arg_cong [OF leased_remove1 [OF assms, of k], of "\<lambda>m. size (filter_mset (\<lambda>t. pt_id t = tid) m)"]
  by (simp add: lease_count_def flip: mset_filter)

lemma lease_count_single:
  "tl_tmpl l = Some t \<Longrightarrow> lease_count k [(i, l)] tid = of_bool (tl_kind l = k \<and> pt_id t = tid)"
  by (simp add: lease_count_def leased_def map_filter_simps)

lemma lease_count_Cons:
  "tl_tmpl l = Some t \<Longrightarrow>
   lease_count k ((i, l) # ls) tid = of_bool (tl_kind l = k \<and> pt_id t = tid) + lease_count k ls tid"
  by (simp add: lease_count_def leased_def map_filter_simps)

lemma lease_new_of:
  "template_lease_new p t = Inr l \<Longrightarrow> tl_tmpl l = Some t \<and> lease_of (pool_lease_mode p) l"
  by (cases "pt_snapshot_type t") (auto simp: template_lease_new_def lease_of_def)

lemma acquire_by_id_for_restore_cases:
  assumes wf: "pool_wf p" and acq: "acquire_by_id_for_restore h i p = (Inr (Some t), p1)"
  obtains (env) "pt_snapshot_type t = Environment" "p1 = begin_restore (pt_id t) p"
      "t \<in> set (all_templates p)"
  | (shared) "pt_snapshot_type t = WarmFork" "pool_lease_mode p = Shared"
      "p1 = ref_template (pt_id t) p" "t \<in> set (all_templates p)"
  | (excl) "pt_snapshot_type t = WarmFork" "pool_lease_mode p = Exclusive"
      "took p (Inr (Some t)) p1"
proof -
  from acq obtain u where u: "find_by_id p i = Some u"
    by (auto simp: acquire_by_id_for_restore_def split: option.splits)
  note in_pool = find_by_id_Some [OF u]
  show ?thesis
  proof (cases "pt_snapshot_type u")
    case Environment
    then show ?thesis using acq u env in_pool by (auto simp: acquire_by_id_for_restore_def peek_eqs)
  next
    case WarmFork
    show ?thesis
    proof (cases "pool_lease_mode p")
      case Shared
      then show ?thesis using acq u WarmFork shared in_pool by (auto simp: acquire_by_id_for_restore_def peek_eqs)
    next
      case Exclusive
      then have a: "acquire_by_id h i p = (Inr (Some t), p1)"
        using acq u WarmFork by (simp add: acquire_by_id_for_restore_def)
      then have tk: "took p (Inr (Some t)) p1" using acquire_by_id_took [OF wf, of h i] by simp
      then have "t \<in> set (all_templates p)" by (auto simp: took_def dest: arg_cong [where f = set_mset])
      moreover have "pt_id t = i" using acquire_by_id_id [of h i p t] a by simp
      ultimately have "t = u" using find_by_id_unique [OF wf, of t] u by simp
      with Exclusive WarmFork excl tk show ?thesis by simp
    qed
  next
    case Continuation
    then show ?thesis using acq u by (simp add: acquire_by_id_for_restore_def)
  qed
qed

text \<open>What it takes to take a template, by key or by id.\<close>

definition taken :: "'c pool \<Rightarrow> pooled_template \<Rightarrow> 'c pool \<Rightarrow> bool" where
  "taken p t p1 \<longleftrightarrow>
     pt_snapshot_type t = Environment \<and> p1 = begin_restore (pt_id t) p \<or>
     pt_snapshot_type t = WarmFork \<and> pool_lease_mode p = Shared \<and> p1 = ref_template (pt_id t) p \<or>
     pt_snapshot_type t = WarmFork \<and> pool_lease_mode p = Exclusive \<and> took p (Inr (Some t)) p1"

lemma acquired_taken:
  assumes "pool_wf p"
  shows "acquire_for_restore h k p = (Inr (Some t), p1) \<Longrightarrow> taken p t p1"
    and "acquire_by_id_for_restore h i p = (Inr (Some t), p1) \<Longrightarrow> taken p t p1"
  by (erule acquire_for_restore_cases [OF assms] acquire_by_id_for_restore_cases [OF assms], simp_all add: taken_def)+

lemma pool_ledger_take:
  assumes led: "pool_ledger p n ls" and t: "taken p t p1" and l: "template_lease_new p1 t = Inr l"
  shows "pool_ledger p1 n ((i, l) # ls)"
proof -
  have wf: "pool_wf p" using led by (simp add: pool_ledger_def)
  have lt: "tl_tmpl l = Some t" "lease_of (pool_lease_mode p1) l" using lease_new_of [OF l] by simp_all
  consider (env) "pt_snapshot_type t = Environment" "p1 = begin_restore (pt_id t) p"
    | (shared) "pt_snapshot_type t = WarmFork" "pool_lease_mode p = Shared" "p1 = ref_template (pt_id t) p"
    | (excl) "pt_snapshot_type t = WarmFork" "pool_lease_mode p = Exclusive" "took p (Inr (Some t)) p1"
    using t unfolding taken_def by blast
  then show ?thesis
  proof cases
    case env
    then have k: "tl_kind l = SharedLease" using lt by (simp add: lease_of_def)
    have "in_use_count p1 = in_use_count p" "all_templates p1 = all_templates p" "pool_lease_mode p1 = pool_lease_mode p"
      using env by (simp_all add: begin_restore_def all_templates_def)
    with led lt k env show ?thesis
      by (auto simp: pool_ledger_def begin_restore_wf lease_count_Cons restores_of_begin uses_of_def leased_Cons)
  next
    case shared
    then have k: "tl_kind l = SharedRef" using lt by (simp add: lease_of_def ref_template_def)
    have "in_flight_restores p1 = in_flight_restores p" "all_templates p1 = all_templates p"
      "pool_lease_mode p1 = pool_lease_mode p"
      using shared by (simp_all add: ref_template_def all_templates_def)
    with led lt k shared show ?thesis
      by (auto simp: pool_ledger_def ref_template_wf lease_count_Cons uses_of_ref restores_of_def leased_Cons)
  next
    case excl
    then have os: "only_store p p1" and wf1: "pool_wf p1"
      and m: "mset (all_templates p) = add_mset t (mset (all_templates p1))" by (simp_all add: took_def)
    have k: "tl_kind l = ExclusiveLease" using lt excl os by (simp add: lease_of_def only_store_def)
    have "mset (map pt_id (all_templates p1 @ t # lent ls)) = mset (map pt_id (all_templates p @ lent ls))"
      by (simp add: m)
    then have "distinct (map pt_id (all_templates p1 @ t # lent ls))"
      using led mset_eq_imp_distinct_iff unfolding pool_ledger_def by metis
    with led lt k os wf1 show ?thesis
      by (auto simp: pool_ledger_def lease_count_Cons leased_Cons uses_of_def restores_of_def only_store_def)
  qed
qed

lemma lease_kind_cases:
  assumes "pool_ledger p n ls" and "(i, l) \<in> set ls"
  obtains t where "tl_tmpl l = Some t" "template_dir t \<noteq> None" "tl_kind l = SharedLease"
  | t where "tl_tmpl l = Some t" "template_dir t \<noteq> None" "tl_kind l = SharedRef"
  | t where "tl_tmpl l = Some t" "template_dir t \<noteq> None" "tl_kind l = ExclusiveLease"
proof -
  have "lease_of (pool_lease_mode p) l" using assms by (auto simp: pool_ledger_def)
  then obtain t where "tl_tmpl l = Some t" "template_dir t \<noteq> None"
    by (cases "tl_tmpl l") (auto simp: lease_of_def template_dir.simps split: snapshot_type.splits)
  then show ?thesis using that by (cases "tl_kind l") auto
qed

text \<open>Closing one of the leases under way.\<close>

lemma pool_ledger_close:
  assumes led: "pool_ledger p n ls" and l: "(i, l) \<in> set ls" "tl_tmpl l = Some t"
    and wf: "pool_wf q" and mode: "pool_lease_mode q = pool_lease_mode p"
    and uses: "\<And>tid. uses_of q tid + n tid + of_bool (tl_kind l = SharedRef \<and> pt_id t = tid) = uses_of p tid + n' tid"
    and restores: "\<And>tid. restores_of q tid = restores_of p tid - of_bool (tl_kind l = SharedLease \<and> pt_id t = tid)"
    and stock: "mset (all_templates q @ lent (remove1 (i, l) ls)) \<subseteq># mset (all_templates p @ lent ls)"
  shows "pool_ledger q n' (remove1 (i, l) ls)"
proof -
  have cnt: "lease_count k ls tid = of_bool (tl_kind l = k \<and> pt_id t = tid) + lease_count k (remove1 (i, l) ls) tid" for k tid
    using lease_count_remove1 [OF l(1)] by (simp add: lease_count_single [OF l(2)])
  have "uses_of q tid = n' tid + lease_count SharedRef (remove1 (i, l) ls) tid \<and>
    lease_count SharedLease (remove1 (i, l) ls) tid \<le> restores_of q tid" for tid
  proof -
    have "uses_of p tid = n tid + lease_count SharedRef ls tid" "lease_count SharedLease ls tid \<le> restores_of p tid"
      using led by (simp_all add: pool_ledger_def)
    with uses [of tid] restores [of tid] cnt [of SharedRef tid] cnt [of SharedLease tid] show ?thesis by linarith
  qed
  moreover have "mset (map pt_id (all_templates q @ lent (remove1 (i, l) ls))) \<subseteq># mset (map pt_id (all_templates p @ lent ls))"
    using image_mset_subseteq_mono [OF stock, of pt_id] by simp
  then have "distinct (map pt_id (all_templates q @ lent (remove1 (i, l) ls)))"
    by (rule distinct_sub_mset) (use led in \<open>simp add: pool_ledger_def\<close>)
  moreover have "\<forall>(_, l) \<in> set (remove1 (i, l) ls). lease_of (pool_lease_mode q) l"
    using led mode set_remove1_subset [of "(i, l)" ls] unfolding pool_ledger_def by auto
  ultimately show ?thesis using wf by (simp add: pool_ledger_def)
qed

lemma lent_remove1:
  assumes "(i, l) \<in> set ls" and "tl_tmpl l = Some t"
  shows "mset (lent ls) = (if tl_kind l = ExclusiveLease then {#t#} else {#}) + mset (lent (remove1 (i, l) ls))"
  using leased_remove1 [OF assms(1), of ExclusiveLease] assms(2) by (simp add: leased_def map_filter_simps)

lemma pool_ledger_fail:
  assumes led: "pool_ledger p n ls" and l: "(i, l) \<in> set ls" and h: "residue_ok h"
  shows "pool_ledger (snd (lease_fail h l p)) n (remove1 (i, l) ls)"
proof -
  have wf: "pool_wf p" using led by (simp add: pool_ledger_def)
  show ?thesis
  proof (rule lease_kind_cases [OF led l])
    fix t assume t: "tl_tmpl l = Some t" "tl_kind l = SharedLease"
    note R = end_restore_run [OF wf, of h "pt_id t"] lease_mode_run(2) [OF wf, of h "pt_id t"]
    show ?thesis
      by (rule pool_ledger_close [OF led l t(1)])
        (use R R(5) [OF h] t lent_remove1 [OF l t(1)] in \<open>auto simp: lease_fail_def uses_of_def shrunk_def\<close>)
  next
    fix t assume t: "tl_tmpl l = Some t" "tl_kind l = SharedRef"
    note R = deref_run [OF wf, of h "pt_id t"] lease_mode_run(1) [OF wf, of h "pt_id t"]
    have "0 < uses_of p (pt_id t)"
      using led lease_count_remove1 [OF l, of SharedRef "pt_id t"] t
      by (simp add: pool_ledger_def lease_count_single)
    then show ?thesis
      by (intro pool_ledger_close [OF led l t(1)])
        (use R R(5) [OF h] t lent_remove1 [OF l t(1)] in \<open>auto simp: lease_fail_def restores_of_def shrunk_def\<close>)
  next
    fix t assume t: "tl_tmpl l = Some t" "template_dir t \<noteq> None" "tl_kind l = ExclusiveLease"
    have "mset (map pt_id (all_templates p @ t # lent (remove1 (i, l) ls))) = mset (map pt_id (all_templates p @ lent ls))"
      using lent_remove1 [OF l t(1)] t(3) by simp
    then have "distinct (map pt_id (all_templates p @ t # lent (remove1 (i, l) ls)))"
      using led mset_eq_imp_distinct_iff unfolding pool_ledger_def by metis
    then have fresh: "pt_id t \<notin> pool_ids p" by (auto simp: pool_ids_def)
    obtain d where "template_dir t = Some d" using t(2) by blast
    note R = release_run [OF wf this fresh, of h]
    show ?thesis
      by (rule pool_ledger_close [OF led l t(1)])
        (use R t lent_remove1 [OF l t(1)] in \<open>auto simp: lease_fail_def restores_of_def uses_of_def only_store_def\<close>)
  qed
qed

lemma pool_ledger_complete:
  assumes led: "pool_ledger p n ls" and l: "(i, l) \<in> set ls" and t: "tl_tmpl l = Some t" and h: "residue_ok h"
  shows "pool_ledger (snd (lease_complete h l p)) (\<lambda>tid. n tid + of_bool (tl_kind l = SharedRef \<and> pt_id t = tid))
    (remove1 (i, l) ls)"
proof -
  have wf: "pool_wf p" using led by (simp add: pool_ledger_def)
  note R = end_restore_run [OF wf, of h "pt_id t"] lease_mode_run(2) [OF wf, of h "pt_id t"]
  show ?thesis
    by (rule pool_ledger_close [OF led l t]; cases "tl_kind l")
      (use R R(5) [OF h] t wf lent_remove1 [OF l t] in \<open>auto simp: lease_complete_def uses_of_def shrunk_def\<close>)
qed

section \<open>The outcome of a restore\<close>

text \<open>
  The hooks of a hypervisor and the preparation of the network may change the machine and the data of
  a sandbox, not the record of the template it was restored from.
\<close>

locale sandbox_hook =
  fixes hook :: "'v kuasar_sandbox \<Rightarrow> sb_error option \<times> 'v kuasar_sandbox"
  assumes keeps_meta: "pin_meta (snd (hook sb)) = pin_meta sb"
begin

lemma hook_pin: "hook sb = (r, sb') \<Longrightarrow> pin_of sb' = pin_of sb"
  using keeps_meta [of sb] by (metis pin_of_cong snd_conv)

lemma hook_unrestored: "hook sb = (r, sb') \<Longrightarrow> unrestored sb' = unrestored sb"
  using keeps_meta [of sb] by (metis unrestored_cong snd_conv)

lemma hook_meta: "hook sb = (r, sb') \<Longrightarrow> pin_meta sb' = pin_meta sb"
  using keeps_meta [of sb] by simp

end

definition attempt_ok :: "('v, 'c) attempt_env \<Rightarrow> bool" where
  "attempt_ok ae \<longleftrightarrow>
     sandbox_hook (ae_pre_start ae) \<and> sandbox_hook (ae_post_start ae) \<and> sandbox_hook (ae_prepare_network ae) \<and>
     residue_ok (ae_ph ae)"

text \<open>Every operation on one sandbox leaves the others alone.\<close>

definition only_sandbox :: "string \<Rightarrow> 'v kuasar_sandbox \<Rightarrow> ('v, 'c) sandboxer \<Rightarrow> ('v, 'c) sandboxer \<Rightarrow> bool" where
  "only_sandbox i sb sx sx' \<longleftrightarrow> sx_sandboxes sx' = hm_insert i sb (sx_sandboxes sx) \<and> sx_store sx' = sx_store sx"

lemma put_sandbox_sel [simp]:
  "sx_sandboxes (put_sandbox i sb sx) = hm_insert i sb (sx_sandboxes sx)" "sx_pool (put_sandbox i sb sx) = sx_pool sx"
  "sx_store (put_sandbox i sb sx) = sx_store sx" "sx_dumps (put_sandbox i sb sx) = sx_dumps sx"
  "sx_cgroups (put_sandbox i sb sx) = sx_cgroups sx"
  by (simp_all add: put_sandbox_def)

lemma upd_pool_sel [simp]:
  "sx_sandboxes (upd_pool f sx) = sx_sandboxes sx" "sx_pool (upd_pool f sx) = map_option f (sx_pool sx)"
  "sx_store (upd_pool f sx) = sx_store sx" "sx_dumps (upd_pool f sx) = sx_dumps sx"
  by (simp_all add: upd_pool_def)

lemma upd_store_sel [simp]:
  "sx_sandboxes (upd_store g sx) = sx_sandboxes sx" "sx_pool (upd_store g sx) = sx_pool sx"
  by (simp_all add: upd_store_def)

lemma stop_unrestored:
  "sandbox_stop vo he dr f (sb, dk) = (r, sb', dk') \<Longrightarrow> pin_meta sb' = pin_meta sb"
  using sandbox_stop_same [of sb vo he dr f dk] by (simp add: same_self_def)

lemma destroy_network_meta [simp]: "pin_meta (destroy_network sb) = pin_meta sb"
  using same_self_pin [OF same_self_steps(4)] .

definition unpin :: "'c pool_host \<Rightarrow> string option \<Rightarrow> 'c pool option \<Rightarrow> 'c pool option" where
  "unpin h tid p = (case tid of None \<Rightarrow> p | Some i \<Rightarrow> map_option (\<lambda>p. snd (deref h i p)) p)"

lemma rollback_post_restore_out:
  assumes "rollback_post_restore vo ae b i e sb sx = (r, sx')"
  obtains sb' where "r = Some e" "only_sandbox i sb' sx sx'" "unrestored sb'"
    "sx_pool sx' = (if b then unpin (ae_ph ae) (rm_template_id (sb_restore sb)) (sx_pool sx) else sx_pool sx)"
proof -
  define sx1 where "sx1 = (if b then (case rm_template_id (sb_restore sb) of
      Some tid \<Rightarrow> upd_pool (\<lambda>p. snd (deref (ae_ph ae) tid p)) sx | None \<Rightarrow> sx) else sx)"
  have sx1: "sx_sandboxes sx1 = sx_sandboxes sx" "sx_store sx1 = sx_store sx"
    "sx_pool sx1 = (if b then unpin (ae_ph ae) (rm_template_id (sb_restore sb)) (sx_pool sx) else sx_pool sx)"
    by (simp_all add: sx1_def unpin_def split: option.split)
  obtain r1 sb1 dk1 where st: "sandbox_stop vo (ae_he ae) (ae_dump ae) True
      (clear_template_restore_state sb, sx_dumps sx1) = (r1, sb1, dk1)" by (metis prod_cases3)
  have un: "unrestored sb1" using stop_unrestored [OF st] unrestored_cong cleared_unrestored by metis
  have un': "unrestored (destroy_network sb1)" using un unrestored_cong destroy_network_meta by metis
  show ?thesis
  proof (cases r1)
    case None
    with assms st show ?thesis by (intro that [of "destroy_network sb1"])
      (auto simp: rollback_post_restore_def sx1_def [symmetric] only_sandbox_def sx1 un')
  next
    case (Some e1)
    with assms st show ?thesis by (intro that [of sb1])
      (auto simp: rollback_post_restore_def sx1_def [symmetric] only_sandbox_def sx1 un)
  qed
qed

lemma finish_restore_out:
  assumes ok: "attempt_ok ae" and fin: "finish_restore vo ae b i sb sx = (r, sx')"
  obtains (failed) sb' e where "r = Some e" "only_sandbox i sb' sx sx'" "unrestored sb'"
    "sx_pool sx' = (if b then unpin (ae_ph ae) (rm_template_id (sb_restore sb)) (sx_pool sx) else sx_pool sx)"
  | (started) sb' where "r = None" "only_sandbox i sb' sx sx'" "pin_meta sb' = pin_meta sb" "sx_pool sx' = sx_pool sx"
proof -
  obtain r1 sb1 where ps: "ae_post_start ae sb = (r1, sb1)" by force
  obtain r2 dk2 where d: "dump (ae_dump ae) sb1 (sx_dumps sx) = (r2, dk2)" by force
  have m: "pin_meta sb1 = pin_meta sb" using ok ps sandbox_hook.hook_meta unfolding attempt_ok_def by metis
  then have tid: "rm_template_id (sb_restore sb1) = rm_template_id (sb_restore sb)" by (simp add: pin_meta_def)
  consider (cg) e where "add_to_cgroup ae sb = Some e"
    | (post) e where "add_to_cgroup ae sb = None" "r1 = Some e"
    | (dmp) e where "add_to_cgroup ae sb = None" "r1 = None" "r2 = Some e"
    | (fine) "add_to_cgroup ae sb = None" "r1 = None" "r2 = None"
    by (cases "add_to_cgroup ae sb"; cases r1; cases r2) auto
  then show ?thesis
  proof cases
    case cg
    then have "rollback_post_restore vo ae b i e sb sx = (r, sx')" using fin by (simp add: finish_restore_def)
    then show ?thesis by (rule rollback_post_restore_out) (rule failed)
  next
    case post
    then have "rollback_post_restore vo ae b i e sb1 sx = (r, sx')" using fin ps by (simp add: finish_restore_def)
    then show ?thesis by (rule rollback_post_restore_out) (simp add: failed tid)
  next
    case dmp
    then have "rollback_post_restore vo ae b i e sb1 (sx\<lparr>sx_dumps := dk2\<rparr>) = (r, sx')"
      using fin ps d by (simp add: finish_restore_def)
    then show ?thesis by (rule rollback_post_restore_out) (simp add: failed tid only_sandbox_def)
  next
    case fine
    then show ?thesis using fin ps d m by (intro started [of sb1]) (auto simp: finish_restore_def only_sandbox_def)
  qed
qed

text \<open>The pin that a restore from an environment template takes when the memory is not copied.\<close>

definition pin_taken :: "snapshot_config \<Rightarrow> snapshot_restore_params \<Rightarrow> string option" where
  "pin_taken c sp =
     (if sp_snapshot_type sp = Environment \<and> default_memory_restore_mode c \<noteq> Copy then sp_template_id sp else None)"

definition meta_of ::
  "snapshot_config \<Rightarrow> snapshot_restore_params
   \<Rightarrow> string option \<times> snapshot_type option \<times> lease_mode option \<times> memory_restore_mode option" where
  "meta_of c sp = (sp_template_id sp, Some (sp_snapshot_type sp), Some (sp_lease_mode sp), Some (default_memory_restore_mode c))"

definition pinned_pool :: "string option \<Rightarrow> 'c pool option \<Rightarrow> 'c pool option" where
  "pinned_pool tid p = (case tid of None \<Rightarrow> p | Some i \<Rightarrow> map_option (ref_template i) p)"

lemma start_from_snapshot_out:
  assumes ok: "attempt_ok ae" and sb: "hm_get (sx_sandboxes sx) i = Some sb" and un: "unrestored sb"
    and st: "start_from_snapshot vo c ae i sp sx = (r, sx')"
  obtains (failed) sb' e where "r = Some e" "only_sandbox i sb' sx sx'" "unrestored sb'"
    "sx_pool sx' = sx_pool sx \<or>
     sx_pool sx' = unpin (ae_ph ae) (pin_taken c sp) (pinned_pool (pin_taken c sp) (sx_pool sx))"
  | (started) sb' where "r = None" "only_sandbox i sb' sx sx'" "pin_meta sb' = meta_of c sp"
    "sx_pool sx' = pinned_pool (pin_taken c sp) (sx_pool sx)"
proof -
  obtain r1 sb1 where pre: "ae_pre_start ae sb = (r1, sb1)" by force
  have un1: "unrestored sb1" using ok pre un sandbox_hook.hook_unrestored unfolding attempt_ok_def by metis
  define net where "net = (if sd_netns (sb_data sb1) \<noteq> [] \<and> sp_snapshot_type sp \<noteq> Continuation
                      then ae_prepare_network ae sb1 else (None, sb1))"
  obtain r2 sb2 where net2: "net = (r2, sb2)" by force
  have un2: "unrestored sb2"
    using ok un1 net2 sandbox_hook.hook_unrestored [of "ae_prepare_network ae"] unfolding attempt_ok_def net_def
    by (auto split: if_splits)
  define sb3 where "sb3 = note_template c sp sb2"
  obtain r4 sb4 where res: "sandbox_start_from_snapshot vo (ae_he ae) (ae_ga ae) (restore_source_of c sp sb3) sb3 = (r4, sb4)"
    by force
  have m4: "pin_meta sb4 = meta_of c sp"
    using sandbox_start_from_snapshot_same [of sb3 vo "ae_he ae" "ae_ga ae" "restore_source_of c sp sb3"] res
    by (simp add: same_self_def sb3_def note_template_def pin_meta_def meta_of_def)
  consider (pre) e where "r1 = Some e" | (net) e where "r1 = None" "r2 = Some e"
    | (res) e where "r1 = None" "r2 = None" "r4 = Some e" | (run) "r1 = None" "r2 = None" "r4 = None"
    by (cases r1; cases r2; cases r4) auto
  then show ?thesis
  proof cases
    case pre': pre
    then show ?thesis using st pre un1 by (intro failed [of e sb1]) (auto simp: start_from_snapshot_def sb only_sandbox_def)
  next
    case net': net
    moreover have "unrestored (destroy_network sb2)" using un2 unrestored_cong destroy_network_meta by metis
    ultimately show ?thesis using st pre net2
      by (intro failed [of e "destroy_network sb2"]) (auto simp: start_from_snapshot_def sb only_sandbox_def net_def)
  next
    case res': res
    moreover have "unrestored (destroy_network (clear_template_restore_state sb4))"
      using cleared_unrestored [of sb4] unrestored_cong destroy_network_meta by metis
    ultimately show ?thesis using st pre net2 res
      by (intro failed [of e "destroy_network (clear_template_restore_state sb4)"])
        (auto simp: start_from_snapshot_def sb only_sandbox_def net_def Let_def sb3_def)
  next
    case run
    define b where "b = (rm_template_id (sb_restore sb4) \<noteq> None \<and> sx_pool sx \<noteq> None \<and> backs_memory sb4)"
    define sx1 where "sx1 = (case rm_template_id (sb_restore sb4) of
        Some tid \<Rightarrow> (if b then upd_pool (ref_template tid) sx else sx) | None \<Rightarrow> sx)"
    have tid: "rm_template_id (sb_restore sb4) = sp_template_id sp" "backs_memory sb4 =
        (sp_snapshot_type sp = Environment \<and> default_memory_restore_mode c \<noteq> Copy)"
      using m4 by (simp_all add: pin_meta_def meta_of_def backs_memory_def)
    have sx1: "sx_sandboxes sx1 = sx_sandboxes sx" "sx_store sx1 = sx_store sx"
      "sx_pool sx1 = pinned_pool (pin_taken c sp) (sx_pool sx)"
      by (auto simp: sx1_def b_def tid pinned_pool_def pin_taken_def split: option.splits)
    have undo: "(if b then unpin (ae_ph ae) (sp_template_id sp) (sx_pool sx1) else sx_pool sx1) =
        unpin (ae_ph ae) (pin_taken c sp) (sx_pool sx1)"
      by (auto simp: sx1 b_def tid pinned_pool_def pin_taken_def unpin_def split: option.splits)
    define sb5 where "sb5 = sb4\<lparr>sb_id_generator := sp_id_generator sp\<rparr>"
    have fin: "finish_restore vo ae b i sb5 sx1 = (r, sx')"
      unfolding sx1_def b_def sb5_def
      using st pre net2 res run by (simp add: start_from_snapshot_def sb net_def Let_def sb3_def cong: if_cong option.case_cong)
    have m5: "pin_meta sb5 = meta_of c sp" "rm_template_id (sb_restore sb5) = sp_template_id sp"
      using m4 tid by (simp_all add: pin_meta_def sb5_def)
    from ok fin show ?thesis
    proof (cases rule: finish_restore_out)
      case (failed sb' e)
      then show ?thesis using that(1) [of e sb'] sx1 undo unfolding m5(2) by (simp add: only_sandbox_def)
    next
      case (started sb')
      then show ?thesis using that(2) [of sb'] sx1 m5 by (simp add: only_sandbox_def)
    qed
  qed
qed

section \<open>The accounts over a restore\<close>

lemma ledgerI:
  "hm_wf (sx_sandboxes sx) \<Longrightarrow> (\<And>p. sx_pool sx = Some p \<Longrightarrow> pool_ledger p (pins sx) ls) \<Longrightarrow> ledger sx ls"
  by (simp add: ledger_def split: option.split)

lemma ledgerD:
  "ledger sx ls \<Longrightarrow> hm_wf (sx_sandboxes sx)" "ledger sx ls \<Longrightarrow> sx_pool sx = Some p \<Longrightarrow> pool_ledger p (pins sx) ls"
  "ledger sx ls \<Longrightarrow> sx_pool sx = Some p \<Longrightarrow> pool_wf p"
  by (simp_all add: ledger_def pool_ledger_def)

text \<open>An operation that keeps every pin, and leaves the counters of the pool alone.\<close>

definition quiet_pool :: "'c pool option \<Rightarrow> 'c pool option \<Rightarrow> bool" where
  "quiet_pool po qo \<longleftrightarrow> rel_option (\<lambda>p q. pool_wf p \<longrightarrow> quiet p q) po qo"

lemma quiet_pool_refl [simp]: "quiet_pool po po"
  by (cases po) (simp_all add: quiet_pool_def quiet_refl)

lemma quiet_pool_map: "(\<And>p. pool_wf p \<Longrightarrow> quiet p (f p)) \<Longrightarrow> quiet_pool po (map_option f po)"
  by (cases po) (simp_all add: quiet_pool_def)

lemma ledger_quiet:
  assumes led: "ledger sx ls" and "hm_wf (sx_sandboxes sx')" and pins: "\<And>tid. pins sx' tid = pins sx tid"
    and "quiet_pool (sx_pool sx) (sx_pool sx')"
  shows "ledger sx' ls"
proof (rule ledgerI)
  fix q assume q: "sx_pool sx' = Some q"
  then obtain p where p: "sx_pool sx = Some p" "pool_wf p \<longrightarrow> quiet p q"
    using assms(4) by (cases "sx_pool sx") (auto simp: quiet_pool_def)
  have "pins sx' = pins sx" using pins by blast
  then show "pool_ledger q (pins sx') ls" using pool_ledger_quiet [OF ledgerD(2) [OF led p(1)]] ledgerD(3) [OF led p(1)] p(2) by simp
qed fact

lemma ledger_one:
  assumes led: "ledger sx ls" and "only_sandbox i sb' sx sx'" and "quiet_pool (sx_pool sx) (sx_pool sx')"
    and pin: "case hm_get (sx_sandboxes sx) i of None \<Rightarrow> pin_of sb' = None | Some sb \<Rightarrow> pin_of sb' = pin_of sb"
  shows "ledger sx' ls"
proof (rule ledger_quiet [OF led _ _ assms(3)])
  note wf = ledgerD(1) [OF led]
  show "hm_wf (sx_sandboxes sx')" using assms(2) wf by (simp add: only_sandbox_def)
  show "pins sx' tid = pins sx tid" for tid
  proof -
    have "pins sx' tid = other_pins i sx tid + of_bool (pin_of sb' = Some tid)"
      by (rule pins_insert [OF wf]) (use assms(2) in \<open>simp add: only_sandbox_def\<close>)
    then show ?thesis using pin pins_absent [of sx i tid] pins_present [OF wf, of i _ tid]
      by (cases "hm_get (sx_sandboxes sx) i") simp_all
  qed
qed

lemma pool_ledger_ref:
  assumes "pool_ledger p n ls"
  shows "pool_ledger (ref_template i p) (\<lambda>tid. n tid + of_bool (i = tid)) ls"
proof -
  have "all_templates (ref_template i p) = all_templates p" "pool_lease_mode (ref_template i p) = pool_lease_mode p"
    "restores_of (ref_template i p) = restores_of p"
    by (auto simp: ref_template_def all_templates_def restores_of_def)
  with assms show ?thesis by (auto simp: pool_ledger_def ref_template_wf uses_of_ref)
qed

lemma fail_lease_ledger:
  assumes "ledger sx ls" and "(i, l) \<in> set ls" and "residue_ok (ae_ph ae)"
  shows "ledger (snd (fail_lease ae l e sx)) (remove1 (i, l) ls)" "ledger (snd (drop_lease ae l e sx)) (remove1 (i, l) ls)"
proof -
  have pins: "pins (upd_pool f sx) = pins sx" for f by (simp add: pins_def fun_eq_iff)
  have f: "pool_ledger (snd (lease_fail (ae_ph ae) l p)) (pins sx) (remove1 (i, l) ls)" if "sx_pool sx = Some p" for p
    using pool_ledger_fail [OF ledgerD(2) [OF assms(1) that] assms(2,3)] .
  then have wf: "pool_wf (snd (lease_fail (ae_ph ae) l p))" if "sx_pool sx = Some p" for p
    using that by (auto simp: pool_ledger_def)
  show "ledger (snd (drop_lease ae l e sx)) (remove1 (i, l) ls)"
    by (rule ledgerI) (use assms(1) f ledgerD(1) in \<open>auto simp: drop_lease_def pins\<close>)
  show "ledger (snd (fail_lease ae l e sx)) (remove1 (i, l) ls)"
    by (rule ledgerI) (use assms(1) f ledgerD(1) pool_ledger_quiet [OF f quiet_metrics [OF wf]] in \<open>auto simp: fail_lease_def pins\<close>)
qed

lemma complete_lease_ledger:
  assumes wf: "hm_wf (sx_sandboxes sx)" and led: "\<And>p. sx_pool sx = Some p \<Longrightarrow> pool_ledger p n ls"
    and l: "(i, l) \<in> set ls" "tl_tmpl l = Some t" and h: "residue_ok (ae_ph ae)"
    and pins: "\<And>p tid. sx_pool sx = Some p \<Longrightarrow> pins sx tid = n tid + of_bool (tl_kind l = SharedRef \<and> pt_id t = tid)"
  shows "ledger (snd (complete_lease ae l hit sx)) (remove1 (i, l) ls)"
proof (rule ledgerI)
  let ?sx = "snd (complete_lease ae l hit sx)"
  show "hm_wf (sx_sandboxes ?sx)" using wf by (simp add: complete_lease_def)
  fix q assume "sx_pool ?sx = Some q"
  then obtain p where p: "sx_pool sx = Some p" "q = snd (lease_complete (ae_ph ae) l (upd_metrics hit p))"
    by (auto simp: complete_lease_def)
  have wfp: "pool_wf p" using led [OF p(1)] by (simp add: pool_ledger_def)
  have "pins ?sx = (\<lambda>tid. n tid + of_bool (tl_kind l = SharedRef \<and> pt_id t = tid))"
    using pins [OF p(1)] by (auto simp: complete_lease_def pins_def)
  with pool_ledger_complete [OF pool_ledger_quiet [OF led [OF p(1)] quiet_metrics [OF wfp]] l h, of hit] p(2)
  show "pool_ledger q (pins ?sx) (remove1 (i, l) ls)" by simp
qed

lemma quiet_pool_unpin:
  assumes "residue_ok h"
  shows "quiet_pool po (unpin h tid (pinned_pool tid po))"
  by (cases tid; cases po) (simp_all add: unpin_def pinned_pool_def quiet_pool_def quiet_refl quiet_unpin assms)

lemma pin_of_meta:
  assumes "pin_meta sb = meta_of c (restore_params_of t mode reflink params)"
  shows "pin_of sb =
    (if pt_snapshot_type t = WarmFork \<and> mode = Shared \<or>
        pt_snapshot_type t = Environment \<and> default_memory_restore_mode c \<noteq> Copy then Some (pt_id t) else None)"
  using assms by (auto simp: pin_meta_def meta_of_def restore_params_of_def pin_defs)

lemma restore_ledger:
  assumes led: "ledger sx ls" and l: "(i, l) \<in> set ls" "tl_tmpl l = Some t" and ok: "attempt_ok ae"
    and un: "\<And>sb. hm_get (sx_sandboxes sx) i = Some sb \<Longrightarrow> unrestored sb"
    and mode: "\<And>p. sx_pool sx = Some p \<Longrightarrow> pt_snapshot_type t = WarmFork \<Longrightarrow> mode = pool_lease_mode p"
    and st: "start_from_snapshot vo c ae i (restore_params_of t mode reflink params) sx = (r, sx1)"
  shows "r = Some e \<Longrightarrow> ledger (snd (fail_lease ae l e' sx1)) (remove1 (i, l) ls)"
    and "r = None \<Longrightarrow> ledger (snd (complete_lease ae l hit sx1)) (remove1 (i, l) ls)"
proof -
  have h: "residue_ok (ae_ph ae)" using ok by (simp add: attempt_ok_def)
  note wf = ledgerD(1) [OF led]
  let ?sp = "restore_params_of t mode reflink params"
  show "ledger (snd (fail_lease ae l e' sx1)) (remove1 (i, l) ls)" if "r = Some e"
  proof (rule fail_lease_ledger(1) [OF _ l(1) h])
    show "ledger sx1 ls"
    proof (cases "hm_get (sx_sandboxes sx) i")
      case None
      then show ?thesis using st led by (simp add: start_from_snapshot_def)
    next
      case (Some sb)
      from ok Some un [OF Some] st show ?thesis
      proof (cases rule: start_from_snapshot_out)
        case (failed sb' e2)
        have "quiet_pool (sx_pool sx) (sx_pool sx1)"
          using failed(4) quiet_pool_unpin [OF h] quiet_pool_refl by metis
        then show ?thesis by (rule ledger_one [OF led failed(2)]) (simp add: Some failed(3) un)
      qed (use that in simp)
    qed
  qed
  show "ledger (snd (complete_lease ae l hit sx1)) (remove1 (i, l) ls)" if none: "r = None"
  proof -
    obtain sb where sb: "hm_get (sx_sandboxes sx) i = Some sb" using st none
      by (cases "hm_get (sx_sandboxes sx) i") (auto simp: start_from_snapshot_def)
    from ok sb un [OF sb] st show ?thesis
    proof (cases rule: start_from_snapshot_out)
      case (started sb')
      let ?n = "\<lambda>tid. pins sx tid + of_bool (pin_taken c ?sp = Some tid)"
      show ?thesis
      proof (rule complete_lease_ledger [OF _ _ l h, of _ ?n])
        show "hm_wf (sx_sandboxes sx1)" using started(2) wf by (simp add: only_sandbox_def)
        fix p assume p: "sx_pool sx1 = Some p"
        obtain q where q: "sx_pool sx = Some q" using p started(4)
          by (cases "sx_pool sx") (simp_all add: pinned_pool_def split: option.splits)
        note pl = ledgerD(2) [OF led q]
        show "pool_ledger p ?n ls"
          using p q started(4) pl pool_ledger_ref [OF pl] by (cases "pin_taken c ?sp") (auto simp: pinned_pool_def)
        have lo: "lease_of (pool_lease_mode q) l" using pl l(1) by (auto simp: pool_ledger_def)
        show "pins sx1 tid = ?n tid + of_bool (tl_kind l = SharedRef \<and> pt_id t = tid)" for tid
        proof -
          have "pins sx1 tid = other_pins i sx tid + of_bool (pin_of sb' = Some tid)"
            by (rule pins_insert [OF wf]) (use started(2) in \<open>simp add: only_sandbox_def\<close>)
          moreover have "pins sx tid = other_pins i sx tid" using pins_present [OF wf sb, of tid] un [OF sb] by simp
          moreover have "of_bool (pin_of sb' = Some tid) =
              (of_bool (pin_taken c ?sp = Some tid) + of_bool (tl_kind l = SharedRef \<and> pt_id t = tid) :: nat)"
            using lo mode [OF q] l(2) pin_of_meta [OF started(3)]
            by (cases "pt_snapshot_type t") (auto simp: lease_of_def pin_taken_def restore_params_of_def)
          ultimately show ?thesis by simp
        qed
      qed
    qed (use none in simp)
  qed
qed

section \<open>The accounts over the other operations\<close>

abbreviation idle_sandbox :: "string \<Rightarrow> ('v, 'c) sandboxer \<Rightarrow> bool" where
  "idle_sandbox i sx \<equiv> (case hm_get (sx_sandboxes sx) i of None \<Rightarrow> True | Some sb \<Rightarrow> unrestored sb)"

lemma restore_from_warm_fork_template_ledger:
  assumes "ledger sx ls" and "(i, l) \<in> set ls" and "tl_tmpl l = Some t" and "attempt_ok ae" and "idle_sandbox i sx"
    and "sx_pool sx = Some p"
  shows "ledger (snd (restore_from_warm_fork_template vo c ae i t l (pool_lease_mode p) reflink sx)) (remove1 (i, l) ls)"
proof -
  have h: "residue_ok (ae_ph ae)" using assms(4) by (simp add: attempt_ok_def)
  have un: "unrestored sb" if "hm_get (sx_sandboxes sx) i = Some sb" for sb using assms(5) that by simp
  note fail = fail_lease_ledger(1) [OF assms(1,2) h]
  note restore = restore_ledger [OF assms(1-4) un, where mode = "pool_lease_mode p" and reflink = reflink and vo = vo and c = c]
  show ?thesis
    using fail restore assms(6)
    by (simp add: restore_from_warm_fork_template_def split: sum.split option.split prod.split)
qed

lemma restore_from_environment_template_ledger:
  assumes "ledger sx ls" and "(i, l) \<in> set ls" and "tl_tmpl l = Some t" and "attempt_ok ae" and "idle_sandbox i sx"
    and "pt_snapshot_type t = Environment"
  shows "ledger (snd (restore_from_environment_template vo c ae i t l mode reflink sx)) (remove1 (i, l) ls)"
proof -
  have h: "residue_ok (ae_ph ae)" using assms(4) by (simp add: attempt_ok_def)
  have un: "unrestored sb" if "hm_get (sx_sandboxes sx) i = Some sb" for sb using assms(5) that by simp
  note fail = fail_lease_ledger(1) [OF assms(1,2) h]
  note restore = restore_ledger [OF assms(1-4) un, where mode = mode and reflink = reflink and vo = vo and c = c]
  show ?thesis
    using fail restore assms(6)
    by (simp add: restore_from_environment_template_def split: option.split prod.split)
qed

text \<open>The operations that keep the record of the template of the sandbox they work on.\<close>

lemma ledger_keep:
  assumes "ledger sx ls" and "hm_get (sx_sandboxes sx) i = Some sb" and "only_sandbox i sb' sx sx'"
    and "pin_meta sb' = pin_meta sb" and "sx_pool sx' = sx_pool sx"
  shows "ledger sx' ls"
  using assms pin_of_cong [OF assms(4)] by (intro ledger_one [OF assms(1,3)]) simp_all

lemma ledger_idle:
  assumes "ledger sx ls" and "idle_sandbox i sx" and "only_sandbox i sb' sx sx'" and "unrestored sb'"
    and "sx_pool sx' = sx_pool sx"
  shows "ledger sx' ls"
  using assms by (intro ledger_one [OF assms(1,3)]) (auto split: option.splits)

text \<open>A list of the facts that carry \<^const>\<open>unrestored\<close> through the steps of an operation.\<close>

lemma unrestored_steps:
  assumes "unrestored sb"
  shows "unrestored (apply_pool_settings po sb)" "unrestored (destroy_network sb)"
    and "sandbox_hook f \<Longrightarrow> f sb = (r, sb') \<Longrightarrow> unrestored sb'"
    and "sandbox_start vo he ga sb = (r, sb') \<Longrightarrow> unrestored sb'"
    and "sandbox_stop vo he dr force (sb, dk) = (r, sb', dk') \<Longrightarrow> unrestored sb'"
  using assms sandbox_hook.hook_unrestored unrestored_cong [OF destroy_network_meta]
    unrestored_cong [OF same_self_pin [OF sandbox_start_same]] unrestored_cong [OF stop_unrestored]
  by (simp add: apply_pool_settings_def unrestored_def split: option.split, blast, blast, metis snd_conv, blast)

lemma cold_start_out:
  assumes ok: "attempt_ok ae" and sb: "hm_get (sx_sandboxes sx) i = Some sb0" and un: "unrestored sb0"
  obtains sb' where "only_sandbox i sb' sx (snd (cold_start vo ae i sx))" "unrestored sb'"
    "sx_pool (snd (cold_start vo ae i sx)) = sx_pool sx"
proof -
  have hooks: "sandbox_hook (ae_pre_start ae)" "sandbox_hook (ae_prepare_network ae)" "sandbox_hook (ae_post_start ae)"
    using ok by (simp_all add: attempt_ok_def)
  obtain r1 sb1 where 1: "ae_pre_start ae (apply_pool_settings (sx_pool sx) sb0) = (r1, sb1)" by force
  have u1: "unrestored sb1" using unrestored_steps(1,3) un hooks(1) 1 by blast
  obtain r2 sb2 where 2: "(if sd_netns (sb_data sb1) \<noteq> [] then ae_prepare_network ae sb1 else (None, sb1)) = (r2, sb2)"
    by force
  have u2: "unrestored sb2" using unrestored_steps(3) [OF u1 hooks(2)] 2 u1 by (auto split: if_splits)
  obtain r3 sb3 where 3: "sandbox_start vo (ae_he ae) (ae_ga ae) sb2 = (r3, sb3)" by force
  have u3: "unrestored sb3" using unrestored_steps(4) [OF u2 3] .
  obtain r4 sb4 where 4: "ae_post_start ae sb3 = (r4, sb4)" by force
  have u4: "unrestored sb4" using unrestored_steps(3) [OF u3 hooks(3) 4] .
  obtain r5 dk where 5: "dump (ae_dump ae) sb4 (sx_dumps sx) = (r5, dk)" by force
  define Q where "Q sx' \<longleftrightarrow> (\<exists>sb'. only_sandbox i sb' sx sx' \<and> unrestored sb' \<and> sx_pool sx' = sx_pool sx)" for sx'
  have put: "Q (put_sandbox i sb sx)" "Q (put_sandbox i sb (sx\<lparr>sx_dumps := dk\<rparr>))" if "unrestored sb" for sb dk
    unfolding Q_def by (rule exI [of _ sb], simp add: only_sandbox_def that)+
  have undo: "Q (snd (case sandbox_stop vo (ae_he ae) (ae_dump ae) True (sb, dk) of
      (Some _, sb', dk') \<Rightarrow> (Some e, put_sandbox i sb' (sx\<lparr>sx_dumps := dk'\<rparr>))
    | (None, sb', dk') \<Rightarrow> (Some e, put_sandbox i (destroy_network sb') (sx\<lparr>sx_dumps := dk'\<rparr>))))"
    if u: "unrestored sb" for e :: sb_error and sb dk
    using unrestored_steps(5) [OF u] by (auto simp: put unrestored_steps(2) split: prod.split option.split)
  have "Q (snd (cold_start vo ae i sx))"
    unfolding cold_start_def Let_def
    by (simp add: sb 1 2 3 4 5 put u1 u2 u3 u4 unrestored_steps(2) undo split: option.split split del: if_split)
  then show ?thesis using that unfolding Q_def by blast
qed

lemma cold_start_ledger:
  assumes "ledger sx ls" and "attempt_ok ae" and "idle_sandbox i sx"
  shows "ledger (snd (cold_start vo ae i sx)) ls"
proof (cases "hm_get (sx_sandboxes sx) i")
  case (Some sb)
  from Some assms(3) have "unrestored sb" by simp
  from cold_start_out [OF assms(2) Some this] show ?thesis by (metis ledger_idle [OF assms(1,3)])
qed (use assms in \<open>simp add: cold_start_def\<close>)

lemma start_continuation_ledger:
  assumes led: "ledger sx ls" and ok: "attempt_ok ae" and un: "idle_sandbox i sx" and "pt_snapshot_type t = Continuation"
    and st: "start_from_snapshot vo c ae i (restore_params_of t mode reflink params) sx = (r, sx')"
  shows "ledger sx' ls"
proof (cases "hm_get (sx_sandboxes sx) i")
  case None
  then show ?thesis using st led by (simp add: start_from_snapshot_def)
next
  case (Some sb)
  have no: "pin_taken c (restore_params_of t mode reflink params) = None"
    using assms(4) by (simp add: pin_taken_def restore_params_of_def)
  have u: "unrestored sb" using un Some by simp
  from ok Some u st show ?thesis
  proof (cases rule: start_from_snapshot_out)
    case (failed sb' e)
    then show ?thesis using Some u by (intro ledger_one [OF led failed(2)]) (simp_all add: no unpin_def pinned_pool_def)
  next
    case (started sb')
    have "pin_of sb' = None" using pin_of_meta [OF started(3)] assms(4) by simp
    with started Some u show ?thesis by (intro ledger_one [OF led started(2)]) (simp_all add: no pinned_pool_def)
  qed
qed

lemma ledger_same: "ledger sx ls \<Longrightarrow> sx_sandboxes sx' = sx_sandboxes sx \<Longrightarrow> sx_pool sx' = sx_pool sx \<Longrightarrow> ledger sx' ls"
  by (simp add: ledger_def pins_def [abs_def] split: option.splits)

lemma mod_sandbox_ledger:
  assumes "ledger sx ls" and "idle_sandbox i sx" and "\<And>sb. unrestored sb \<Longrightarrow> unrestored (f sb)"
  shows "ledger (mod_sandbox i f sx) ls" "idle_sandbox i (mod_sandbox i f sx)"
    "sx_pool (mod_sandbox i f sx) = sx_pool sx"
proof -
  show "ledger (mod_sandbox i f sx) ls"
  proof (cases "hm_get (sx_sandboxes sx) i")
    case (Some sb)
    then show ?thesis using assms(2,3)
      by (intro ledger_idle [OF assms(1,2), of "f sb"]) (simp_all add: mod_sandbox_def only_sandbox_def)
  qed (use assms(1) in \<open>simp add: mod_sandbox_def\<close>)
qed (use assms(2,3) in \<open>simp_all add: mod_sandbox_def split: option.splits\<close>)

lemma continuation_ledger:
  assumes led: "ledger sx ls" and ok: "attempt_ok ae" and un: "idle_sandbox i sx"
  shows "ledger (snd (start_with_continuation_snapshot vo c ae i w sx)) ls"
proof (cases "sx_store sx")
  case (Some s)
  obtain lo s1 where acq: "cont_acquire (ae_ch ae) w s = (lo, s1)" by force
  let ?sx1 = "sx\<lparr>sx_store := Some s1\<rparr>"
  have l1: "ledger ?sx1 ls" "idle_sandbox i ?sx1" using ledger_same [OF led, of ?sx1] un by simp_all
  show ?thesis
  proof (cases lo)
    case (Some l)
    then obtain t where t: "cl_tmpl l = Some t" "pt_snapshot_type t = Continuation"
      using acq by (auto simp: cont_acquire_def split: if_splits option.splits prod.splits)
    let ?set = "\<lambda>sb :: 'a kuasar_sandbox. sb\<lparr>sb_restore := (sb_restore sb)\<lparr>rm_template_id := Some (pt_id t)\<rparr>\<rparr>"
    let ?sx2 = "mod_sandbox i ?set ?sx1"
    have "unrestored (?set sb)" if "unrestored sb" for sb using that by (simp add: unrestored_def)
    note l2 = mod_sandbox_ledger [OF l1, of ?set, OF this]
    have "ledger (mod_sandbox i clear_template_restore_state ?sx2) ls"
      by (rule mod_sandbox_ledger(1) [OF l2(1,2)]) simp_all
    note store = ledger_same [OF this] ledger_same [OF start_continuation_ledger [OF l2(1) ok l2(2) t(2)]]
    show ?thesis using Some acq t(1) \<open>sx_store sx = Some s\<close>
      by (auto simp: start_with_continuation_snapshot_def Let_def store split: prod.split option.split)
  qed (use Some acq l1 in \<open>simp add: start_with_continuation_snapshot_def\<close>)
qed (use led in \<open>simp add: start_with_continuation_snapshot_def\<close>)

lemma create_ledger:
  assumes led: "ledger sx ls" and hook: "sandbox_hook (ce_post_create ce)"
  shows "ledger (snd (sandboxer_create fa ce i dir d sx)) ls"
proof -
  have same: "ledger sx' ls" if "sx_sandboxes sx' = sx_sandboxes sx" "sx_pool sx' = sx_pool sx" for sx'
    using ledger_same [OF led that] .
  have put: "ledger (put_sandbox i sb' sx') ls"
    if "hm_get (sx_sandboxes sx) i = None" "sx_sandboxes sx' = sx_sandboxes sx" "sx_pool sx' = sx_pool sx"
      "sx_store sx' = sx_store sx" "unrestored sb'" for sx' sb'
    using that by (intro ledger_idle [OF led, of i sb']) (simp_all add: only_sandbox_def)
  have un: "unrestored sb'" if "ce_post_create ce sb = (r, sb')" "sb_restore sb = restore_metadata_default" for sb sb' r
    using sandbox_hook.hook_unrestored [OF hook that(1)] that(2) by (simp add: unrestored_def restore_metadata_default_def)
  show ?thesis
    unfolding sandboxer_create_def Let_def
    by (auto simp: same put un led split: sum.split prod.split option.split)
qed

lemma update_ledger:
  assumes "ledger sx ls"
  shows "ledger (snd (sandboxer_update dr i d sx)) ls"
proof (cases "hm_get (sx_sandboxes sx) i")
  case (Some sb)
  let ?sb = "sb\<lparr>sb_data := d\<rparr>"
  have "pin_meta ?sb = pin_meta sb" by (simp add: pin_meta_def)
  then show ?thesis using Some
    by (intro ledger_keep [OF assms Some, of ?sb]) (auto simp: sandboxer_update_def Let_def only_sandbox_def split: prod.split)
qed (use assms in \<open>simp add: sandboxer_update_def\<close>)

lemma monitor_ledger:
  assumes "ledger sx ls"
  shows "ledger (monitor_exit dr code ts i sx) ls"
proof (cases "hm_get (sx_sandboxes sx) i")
  case (Some sb)
  let ?sb = "destroy_network (sb\<lparr>sb_status := Stopped code ts\<rparr>)"
  have "pin_meta ?sb = pin_meta sb" by (simp add: pin_meta_def destroy_network_def)
  then show ?thesis using Some
    by (intro ledger_keep [OF assms Some, of ?sb]) (auto simp: monitor_exit_def Let_def only_sandbox_def)
qed (use assms in \<open>simp add: monitor_exit_def\<close>)

lemma stop_ledger:
  assumes led: "ledger sx ls" and hooks: "sandbox_hook (se_pre_stop se)" "sandbox_hook (se_post_stop se)"
  shows "ledger (snd (sandboxer_stop vo se i force sx)) ls"
proof (cases "hm_get (sx_sandboxes sx) i")
  case (Some sb)
  have put: "ledger (put_sandbox i sb' sx') ls"
    if "pin_meta sb' = pin_meta sb" "sx_sandboxes sx' = sx_sandboxes sx" "sx_pool sx' = sx_pool sx"
      "sx_store sx' = sx_store sx" for sb' sx'
    using that by (intro ledger_keep [OF led Some, of sb']) (simp_all add: only_sandbox_def)
  obtain r1 sb1 where 1: "se_pre_stop se sb = (r1, sb1)" by force
  obtain r2 sb2 dk2 where 2: "sandbox_stop vo (se_he se) (se_dump se) force (sb1, sx_dumps sx) = (r2, sb2, dk2)"
    by (metis prod_cases3)
  obtain r3 sb3 where 3: "se_post_stop se sb2 = (r3, sb3)" by force
  have "pin_meta sb1 = pin_meta sb" "pin_meta sb2 = pin_meta sb" "pin_meta sb3 = pin_meta sb"
    using sandbox_hook.hook_meta [OF hooks(1) 1] stop_unrestored [OF 2] sandbox_hook.hook_meta [OF hooks(2) 3] by simp_all
  then show ?thesis by (simp add: sandboxer_stop_def Some 1 2 3 put split: prod.split option.split)
qed (use led in \<open>simp add: sandboxer_stop_def\<close>)

lemma pool_ledger_deref:
  assumes led: "pool_ledger p n ls" and "residue_ok h" and "\<And>tid. n tid = n' tid + of_bool (i = tid)"
  shows "pool_ledger (snd (deref h i p)) n' ls"
proof -
  have wf: "pool_wf p" using led by (simp add: pool_ledger_def)
  note R = deref_run [OF wf, of h i] lease_mode_run(1) [OF wf, of h i]
  have "distinct (map pt_id (all_templates (snd (deref h i p)) @ lent ls))"
    by (rule distinct_ids_sub [of "all_templates p"])
      (use led R(5) [OF assms(2)] in \<open>simp_all add: pool_ledger_def shrunk_def\<close>)
  moreover have "uses_of (snd (deref h i p)) tid = n' tid + lease_count SharedRef ls tid" for tid
    using R(3) [of tid] led assms(3) [of tid] by (auto simp: pool_ledger_def)
  ultimately show ?thesis using led R(1,4,6) by (simp add: pool_ledger_def restores_of_def)
qed

lemma pins_removed:
  assumes "hm_wf (sx_sandboxes sx)" and "hm_get (sx_sandboxes sx) i = Some sb"
    and "sx_sandboxes sx' = hm_remove i (sx_sandboxes sx)"
  shows "pins sx tid = pins sx' tid + of_bool (pin_of sb = Some tid)"
  using pins_present [OF assms(1,2), of tid] by (simp add: pins_def other_pins_def assms(3))

text \<open>
  What is given back for a sandbox that goes away: its pin if it has one, and nothing that is counted
  otherwise. The sandboxer and the service each have a routine that does it.
\<close>

locale template_release =
  fixes release :: "('v, 'c) delete_env \<Rightarrow> string \<Rightarrow> 'v kuasar_sandbox \<Rightarrow> ('v, 'c) sandboxer \<Rightarrow> ('v, 'c) sandboxer"
  assumes same_sandboxes: "sx_sandboxes (release de tid sb sx) = sx_sandboxes sx"
    and unpins: "pin_of sb = Some tid \<Longrightarrow>
      sx_pool (release de tid sb sx) = map_option (\<lambda>p. snd (deref (de_ph de) tid p)) (sx_pool sx)"
    and unpinned: "rm_template_id (sb_restore sb) = Some tid \<Longrightarrow> pin_of sb = None \<Longrightarrow>
      quiet_pool (sx_pool sx) (sx_pool (release de tid sb sx))"
begin

definition released :: "('v, 'c) delete_env \<Rightarrow> 'v kuasar_sandbox \<Rightarrow> ('v, 'c) sandboxer \<Rightarrow> ('v, 'c) sandboxer" where
  "released de sb sx = (case rm_template_id (sb_restore sb) of None \<Rightarrow> sx | Some tid \<Rightarrow> release de tid sb sx)"

lemma released_ledger:
  assumes led: "ledger sx ls" and sb: "hm_get (sx_sandboxes sx) i = Some sb" and h: "residue_ok (de_ph de)"
  shows "ledger ((released de sb sx)\<lparr>sx_sandboxes := hm_remove i (sx_sandboxes sx)\<rparr>) ls" (is "ledger ?sx ls")
proof -
  note wf = ledgerD(1) [OF led]
  have pins: "pins sx t = pins ?sx t + of_bool (pin_of sb = Some t)" for t
    by (rule pins_removed [OF wf sb]) simp
  show ?thesis
  proof (cases "pin_of sb")
    case None
    moreover have "quiet_pool (sx_pool sx) (sx_pool ?sx)"
      using unpinned [OF _ None] by (auto simp: released_def split: option.split)
    ultimately show ?thesis using pins by (intro ledger_quiet [OF led]) (simp_all add: wf)
  next
    case (Some t)
    then have "rm_template_id (sb_restore sb) = Some t" by (auto simp: pin_defs split: option.splits if_splits)
    with unpins [OF Some] have po: "sx_pool ?sx = map_option (\<lambda>p. snd (deref (de_ph de) t p)) (sx_pool sx)"
      by (simp add: released_def)
    show ?thesis
    proof (rule ledgerI)
      show "hm_wf (sx_sandboxes ?sx)" using wf by simp
      fix q assume "sx_pool ?sx = Some q"
      then obtain p where p: "sx_pool sx = Some p" "q = snd (deref (de_ph de) t p)" using po by auto
      show "pool_ledger q (pins ?sx) ls" unfolding p(2)
        by (rule pool_ledger_deref [OF ledgerD(2) [OF led p(1)] h]) (use pins Some in simp)
    qed
  qed
qed

end

lemma pinned_kind:
  "pin_of sb = Some tid \<Longrightarrow> rm_template_snapshot_type (sb_restore sb) = Some Environment \<and> backs_memory sb \<or>
   rm_template_snapshot_type (sb_restore sb) = Some WarmFork \<and> rm_lease_mode (sb_restore sb) = Some Shared"
  by (auto simp: pin_defs split: option.splits if_splits)

interpretation del: template_release release_template
proof
  fix de :: "('v, 'c) delete_env" and tid and sb :: "'v kuasar_sandbox" and sx :: "('v, 'c) sandboxer"
  have clean: "quiet_pool po (map_option (cleanup_consumed (de_ph de) tid) po)" for po
    by (rule quiet_pool_map) (rule quiet_cleanup)
  show "sx_sandboxes (release_template de tid sb sx) = sx_sandboxes sx"
    by (simp add: release_template_def split: option.split snapshot_type.split lease_mode.split)
  show "sx_pool (release_template de tid sb sx) = map_option (\<lambda>p. snd (deref (de_ph de) tid p)) (sx_pool sx)"
    if "pin_of sb = Some tid"
    using pinned_kind [OF that] by (auto simp: release_template_def backs_memory_def)
  show "quiet_pool (sx_pool sx) (sx_pool (release_template de tid sb sx))"
    if "rm_template_id (sb_restore sb) = Some tid" "pin_of sb = None"
  proof (cases "rm_template_snapshot_type (sb_restore sb)")
    case (Some k)
    show ?thesis
      using that Some
      by (cases k; cases "rm_lease_mode (sb_restore sb)")
        (auto simp: release_template_def pin_defs clean split: lease_mode.split if_splits)
  qed (simp add: release_template_def clean)
qed

lemma delete_ledger:
  assumes led: "ledger sx ls" and h: "residue_ok (de_ph de)"
  shows "ledger (snd (sandboxer_delete vo de i sx)) ls"
proof (cases "hm_get (sx_sandboxes sx) i")
  case (Some sb)
  obtain r1 sb1 dk where 1: "sandbox_stop vo (de_he de) (de_dump de) True (sb, sx_dumps sx) = (r1, sb1, dk)"
    by (metis prod_cases3)
  have m: "pin_meta sb1 = pin_meta sb" using stop_unrestored [OF 1] .
  then have tid: "rm_template_id (sb_restore sb) = rm_template_id (sb_restore sb1)" by (simp add: pin_meta_def)
  have put: "ledger sx' ls" if "sx_sandboxes sx' = hm_insert i sb1 (sx_sandboxes sx)" "sx_pool sx' = sx_pool sx" for sx'
    using ledger_same [OF ledger_keep [OF led Some, of sb1 "put_sandbox i sb1 sx"], of sx'] m that
    by (simp add: only_sandbox_def)
  have gone: "ledger (sx5\<lparr>sx_sandboxes := hm_remove i (sx_sandboxes sx5)\<rparr>) ls"
    if sx3: "sx_sandboxes sx3 = hm_insert i sb1 (sx_sandboxes sx)" "sx_pool sx3 = sx_pool sx"
      and sx5: "sx5 = (case rm_template_id (sb_restore sb) of None \<Rightarrow> sx3 | Some tid \<Rightarrow> release_template de tid sb1 sx3)"
    for sx3 sx5
  proof -
    have "sx5 = del.released de sb1 sx3" by (simp add: sx5 del.released_def tid)
    moreover have "sx_sandboxes sx5 = sx_sandboxes sx3" by (simp add: sx5 del.same_sandboxes split: option.split)
    ultimately show ?thesis using del.released_ledger [OF put [OF sx3] _ h, of i sb1] sx3(1) by simp
  qed
  show ?thesis
    unfolding sandboxer_delete_def Let_def
    by (cases r1) (simp_all add: Some 1 put gone [OF _ _ refl])
qed (use led in \<open>simp add: sandboxer_delete_def\<close>)

text \<open>After a restart, recovery restores the accounts from the sandboxes it finds, with no lease under way.\<close>

lemma recover_fold:
  "sx_pool (fold (recover_entry vo re dir) names sx) = sx_pool sx"
  "hm_wf (sx_sandboxes sx) \<Longrightarrow> hm_wf (sx_sandboxes (fold (recover_entry vo re dir) names sx))"
  by (induction names arbitrary: sx) (auto simp: recover_entry_def Let_def split: prod.split sum.split)

lemma recover_ledger:
  assumes "hm_wf (sx_sandboxes sx)" and wf: "\<And>p. sx_pool sx = Some p \<Longrightarrow> pool_wf p"
  shows "ledger (sandboxer_recover vo re ph ch dir names sx) []"
proof -
  let ?sx = "fold (recover_entry vo re dir) names sx"
  let ?sh = "List.map_filter (\<lambda>(_, sb). shared_pin sb) (sx_sandboxes ?sx)"
  let ?me = "List.map_filter (\<lambda>(_, sb). memory_pin sb) (sx_sandboxes ?sx)"
  have counts: "count (mset (List.map_filter (\<lambda>(_, sb). shared_pin sb) m)) tid +
      count (mset (List.map_filter (\<lambda>(_, sb). memory_pin sb) m)) tid =
      length (filter (\<lambda>(_, sb). pin_of sb = Some tid) m)" for m :: "(string, 'a kuasar_sandbox) hmap" and tid
  proof (induction m)
    case (Cons e m)
    have "shared_pin (snd e) = None \<or> memory_pin (snd e) = None"
      by (auto simp: shared_pin_def memory_pin_def backs_memory_def split: option.split)
    with Cons show ?case
      by (cases e; cases "shared_pin (snd e)"; cases "memory_pin (snd e)") (auto simp: map_filter_simps pin_of_def)
  qed (simp add: map_filter_simps)
  show ?thesis
  proof (rule ledgerI)
    show "hm_wf (sx_sandboxes (sandboxer_recover vo re ph ch dir names sx))"
      using recover_fold(2) [OF assms(1)] by (simp add: sandboxer_recover_def Let_def)
    fix q assume q: "sx_pool (sandboxer_recover vo re ph ch dir names sx) = Some q"
    then obtain p where p: "sx_pool sx = Some p"
      "q = gc_orphaned_consumed ph (active_template_ids ?sx) (rebuild_active_refs ?sh ?me p)"
      by (cases "sx_pool sx") (auto simp: sandboxer_recover_def Let_def recover_fold(1))
    have "pins (sandboxer_recover vo re ph ch dir names sx) = pins ?sx"
      by (simp add: sandboxer_recover_def Let_def pins_def [abs_def])
    moreover
    have "pool_ledger (rebuild_active_refs ?sh ?me p) (pins ?sx) []"
      using rebuild_wf [OF wf [OF p(1)]] wf [OF p(1)] counts [of "sx_sandboxes ?sx"]
      by (simp add: pool_ledger_def rebuild_active_refs_def uses_of_def fold_cnt_inc(1) pins_def lease_count_def leased_def
          map_filter_simps pool_wf_def all_templates_def del: fold_append)
    then have "pool_ledger q (pins ?sx) []" unfolding p(2)
      by (rule pool_ledger_quiet) (rule quiet_gc_orphaned [OF rebuild_wf [OF wf [OF p(1)]]])
    ultimately show "pool_ledger q (pins (sandboxer_recover vo re ph ch dir names sx)) []"
      by simp
  qed
qed

end
