(* ===== verification/Sandboxer_System.thy ===== *)
theory Sandboxer_System
  imports Sandboxer_Inv
begin

text \<open>
  The sandboxer as a transition system. A step is one handler of the sandboxer, the taking or the use of
  one lease on behalf of a start, one operation of the pool's own tasks, or a restart with recovery. The
  starts of several sandboxes interleave at the points where they take and use their leases. The accounts
  of \<open>Sandboxer_Inv\<close> are an invariant, and a start of the sandboxer is a run of these steps.
\<close>

section \<open>Steps\<close>

inductive sx_step ::
  "'v vm_ops \<Rightarrow> snapshot_config \<Rightarrow> factory \<Rightarrow> ('v, 'c) sandboxer \<times> leases \<Rightarrow> ('v, 'c) sandboxer \<times> leases \<Rightarrow> bool"
  for vo c fa where
  Take: "sx_pool sx = Some p \<Longrightarrow> acquire_for_restore h k p = (Inr (Some t), p1) \<Longrightarrow>
    template_lease_new p1 t = Inr l \<Longrightarrow> sx_step vo c fa (sx, ls) (sx\<lparr>sx_pool := Some p1\<rparr>, (i, l) # ls)"
| Miss: "sx_pool sx = Some p \<Longrightarrow> acquire_for_restore h k p = (Inr None, p1) \<Longrightarrow>
    sx_step vo c fa (sx, ls) (sx\<lparr>sx_pool := Some p1\<rparr>, ls)"
| TakeById: "sx_pool sx = Some p \<Longrightarrow> acquire_by_id_for_restore h tid p = (Inr (Some t), p1) \<Longrightarrow>
    template_lease_new p1 t = Inr l \<Longrightarrow> sx_step vo c fa (sx, ls) (sx\<lparr>sx_pool := Some p1\<rparr>, (i, l) # ls)"
| MissById: "sx_pool sx = Some p \<Longrightarrow> acquire_by_id_for_restore h tid p = (Inr None, p1) \<Longrightarrow>
    sx_step vo c fa (sx, ls) (sx\<lparr>sx_pool := Some p1\<rparr>, ls)"
| RefuseById: "sx_pool sx = Some p \<Longrightarrow> acquire_by_id_for_restore h tid p = (Inr (Some t), p1) \<Longrightarrow>
    pt_snapshot_type t \<noteq> WarmFork \<Longrightarrow> sx_step vo c fa (sx, ls) (sx\<lparr>sx_pool := Some p1\<rparr>, ls)"
| CountMiss: "sx_step vo c fa (sx, ls) (upd_pool (upd_metrics record_miss) sx, ls)"
| FailLease: "(i, l) \<in> set ls \<Longrightarrow> attempt_ok ae \<Longrightarrow>
    sx_step vo c fa (sx, ls) (snd (fail_lease ae l e sx), remove1 (i, l) ls)"
| DropLease: "(i, l) \<in> set ls \<Longrightarrow> attempt_ok ae \<Longrightarrow>
    sx_step vo c fa (sx, ls) (snd (drop_lease ae l e sx), remove1 (i, l) ls)"
| RestoreWarmFork: "(i, l) \<in> set ls \<Longrightarrow> tl_tmpl l = Some t \<Longrightarrow> attempt_ok ae \<Longrightarrow> idle_sandbox i sx \<Longrightarrow>
    sx_pool sx = Some p \<Longrightarrow>
    sx_step vo c fa (sx, ls)
      (snd (restore_from_warm_fork_template vo c ae i t l (pool_lease_mode p) (reflink_supported p) sx), remove1 (i, l) ls)"
| RestoreEnvironment: "(i, l) \<in> set ls \<Longrightarrow> tl_tmpl l = Some t \<Longrightarrow> attempt_ok ae \<Longrightarrow> idle_sandbox i sx \<Longrightarrow>
    pt_snapshot_type t = Environment \<Longrightarrow>
    sx_step vo c fa (sx, ls)
      (snd (restore_from_environment_template vo c ae i t l mode reflink sx), remove1 (i, l) ls)"
| RestoreContinuation: "attempt_ok ae \<Longrightarrow> idle_sandbox i sx \<Longrightarrow>
    sx_step vo c fa (sx, ls) (snd (start_with_continuation_snapshot vo c ae i w sx), ls)"
| ColdStart: "attempt_ok ae \<Longrightarrow> idle_sandbox i sx \<Longrightarrow> sx_step vo c fa (sx, ls) (snd (cold_start vo ae i sx), ls)"
| Create: "sandbox_hook (ce_post_create ce) \<Longrightarrow>
    sx_step vo c fa (sx, ls) (snd (sandboxer_create fa ce i dir d sx), ls)"
| Update: "sx_step vo c fa (sx, ls) (snd (sandboxer_update dr i d sx), ls)"
| Stop: "sandbox_hook (se_pre_stop se) \<Longrightarrow> sandbox_hook (se_post_stop se) \<Longrightarrow>
    sx_step vo c fa (sx, ls) (snd (sandboxer_stop vo se i force sx), ls)"
| Delete: "residue_ok (de_ph de) \<Longrightarrow> sx_step vo c fa (sx, ls) (snd (sandboxer_delete vo de i sx), ls)"
| Exit: "sx_step vo c fa (sx, ls) (monitor_exit dr code ts i sx, ls)"
| AddTemplate: "residue_ok h \<Longrightarrow> sx_pool sx = Some p \<Longrightarrow> pt_id t \<notin> pool_ids p \<union> pt_id ` set (lent ls) \<Longrightarrow>
    sx_step vo c fa (sx, ls) (sx\<lparr>sx_pool := Some (snd (add h t p))\<rparr>, ls)"
| Reclaim: "residue_ok h \<Longrightarrow> sx_step vo c fa (sx, ls) (upd_pool (reclaim_step r h) sx, ls)"
| BeginRefill: "sx_step vo c fa (sx, ls) (upd_pool (begin_refill k) sx, ls)"
| EndRefill: "sx_step vo c fa (sx, ls) (upd_pool (end_refill k) sx, ls)"
| CollectContinuations: "sx_step vo c fa (sx, ls) (continuation_gc ch sx, ls)"
| Restart: "sx_sandboxes sx0 = [] \<Longrightarrow> sx_dumps sx0 = sx_dumps sx \<Longrightarrow>
    (case sx_pool sx0 of None \<Rightarrow> True | Some p \<Rightarrow> pool_wf p) \<Longrightarrow>
    sx_step vo c fa (sx, ls) (sandboxer_recover vo re ph ch dir names sx0, [])"

inductive_cases sx_step_cases: "sx_step vo c fa s s'"

abbreviation sx_run ::
  "'v vm_ops \<Rightarrow> snapshot_config \<Rightarrow> factory \<Rightarrow> ('v, 'c) sandboxer \<times> leases \<Rightarrow> ('v, 'c) sandboxer \<times> leases \<Rightarrow> bool" where
  "sx_run vo c fa \<equiv> (sx_step vo c fa)\<^sup>*\<^sup>*"

section \<open>The accounts are an invariant\<close>

lemma ledger_pool:
  assumes led: "ledger sx ls" and "\<And>p. sx_pool sx = Some p \<Longrightarrow> pool_ledger p (pins sx) ls \<Longrightarrow> pool_ledger (f p) (pins sx) ls'"
  shows "ledger (upd_pool f sx) ls'"
proof (rule ledgerI)
  fix q assume "sx_pool (upd_pool f sx) = Some q"
  then obtain p where "sx_pool sx = Some p" "q = f p" by auto
  moreover have "pins (upd_pool f sx) = pins sx" by (simp add: pins_def [abs_def])
  ultimately show "pool_ledger q (pins (upd_pool f sx)) ls'" using assms(2) ledgerD(2) [OF led] by simp
qed (use ledgerD(1) [OF led] in simp)

lemma ledger_set_pool:
  assumes led: "ledger sx ls" and p: "sx_pool sx = Some p"
    and "pool_ledger p (pins sx) ls \<Longrightarrow> pool_ledger p1 (pins sx) ls'"
  shows "ledger (sx\<lparr>sx_pool := Some p1\<rparr>) ls'"
proof -
  have "sx\<lparr>sx_pool := Some p1\<rparr> = upd_pool (\<lambda>_. p1) sx" by (simp add: upd_pool_def p)
  moreover have "ledger (upd_pool (\<lambda>_. p1) sx) ls'" by (rule ledger_pool [OF led]) (use assms(3) p in simp)
  ultimately show ?thesis by simp
qed

lemma pool_ledger_add:
  assumes led: "pool_ledger p n ls" and h: "residue_ok h" and fresh: "pt_id t \<notin> pool_ids p \<union> pt_id ` set (lent ls)"
  shows "pool_ledger (snd (add h t p)) n ls"
proof (cases "template_dir t")
  case None
  then show ?thesis using led by (simp add: add_def)
next
  case (Some d)
  have wf: "pool_wf p" using led by (simp add: pool_ledger_def)
  have red: "pool_ledger q n ls" if "reduced p q" for q
    using that by (intro pool_ledger_quiet [OF led] quiet_store) (simp_all add: reduced_def keeps_pinned_def shrunk_def)
  have f: "pt_id t \<notin> pool_ids p" using fresh by simp
  from wf h f Some show ?thesis
  proof (cases rule: add_spec)
    case (failed e p')
    then show ?thesis using red by simp
  next
    case (added p2 dk)
    have wf2: "pool_wf p2" using added(1) reduced_wf by blast
    have f2: "pt_id t \<notin> pool_ids p2" using added(1) f reduced_ids by blast
    have nc: "pt_snapshot_type t \<noteq> Continuation" using Some by (auto simp: template_dir.simps)
    let ?q = "p2\<lparr>disk := dk, available := push_template t (available p2), template_ready := template_ready p2 + 1\<rparr>"
    have "hm_wf dk" using added(2) pool_wf_disk_wf [OF wf2] disk_wf by (metis snd_conv)
    then have "pool_wf (p2\<lparr>disk := dk\<rparr>)" using wf2 by (simp add: pool_wf_disk)
    from pool_wf_push [OF this, of t] f2 nc have "pool_wf ?q" by (simp add: pool_ids_def pool_wf_def all_templates_def)
    moreover have "mset (all_templates ?q) = add_mset t (mset (all_templates p2))" by (simp add: all_templates_def)
    moreover have "distinct (map pt_id ((t # all_templates p2) @ lent ls))"
      using red [OF added(1)] fresh f2 by (auto simp: pool_ledger_def pool_ids_def)
    ultimately have "distinct (map pt_id (all_templates ?q @ lent ls))"
      using distinct_ids_sub [of "t # all_templates p2" "lent ls" "all_templates ?q"] by simp
    then show ?thesis using red [OF added(1)] added(3) \<open>pool_wf ?q\<close>
      by (simp add: pool_ledger_def uses_of_def restores_of_def)
  qed
qed

lemma took_none_quiet: "took p (Inr None) q \<Longrightarrow> quiet p q"
  by (intro quiet_store) (simp_all add: took_def)

lemma miss_quiet:
  assumes "pool_wf p"
  shows "acquire_for_restore h k p = (Inr None, p1) \<Longrightarrow> quiet p p1"
    and "acquire_by_id_for_restore h i p = (Inr None, p1) \<Longrightarrow> quiet p p1"
  using acquire_took [OF assms, of h k] acquire_by_id_took [OF assms, of h i] took_none_quiet quiet_refl [OF assms]
  by (auto simp: acquire_for_restore_def acquire_by_id_for_restore_def peek_eqs
      split: option.splits snapshot_type.splits if_splits)

lemma quiet_refills:
  assumes "pool_wf p"
  shows "quiet p (begin_refill k p)" "quiet p (end_refill k p)"
proof -
  show "quiet p (begin_refill k p)"
    using begin_refill_wf [OF assms, of k]
    by (simp add: quiet_def begin_refill_def uses_of_def restores_of_def all_templates_def)
  show "quiet p (end_refill k p)"
    using end_refill_wf [OF assms, of k]
    by (auto simp: quiet_def end_refill_def uses_of_def restores_of_def all_templates_def split: option.splits if_splits)
qed

lemma pool_ledger_begin_restore: "pool_ledger p n ls \<Longrightarrow> pool_ledger (begin_restore i p) n ls"
proof -
  have "all_templates (begin_restore i p) = all_templates p" "pool_lease_mode (begin_restore i p) = pool_lease_mode p"
    "uses_of (begin_restore i p) = uses_of p"
    by (auto simp: begin_restore_def all_templates_def uses_of_def)
  then show "pool_ledger p n ls \<Longrightarrow> pool_ledger (begin_restore i p) n ls"
    by (auto simp: pool_ledger_def begin_restore_wf restores_of_begin intro: le_SucI)
qed

lemma sx_step_ledger:
  assumes "sx_step vo c fa (sx, ls) (sx', ls')" and led: "ledger sx ls"
  shows "ledger sx' ls'"
proof -
  note pool = ledger_set_pool [OF led] and map = ledger_pool [OF led]
  note wf = ledgerD(3) [OF led]
  have quiet: "ledger (upd_pool f sx) ls" if "\<And>p. pool_wf p \<Longrightarrow> quiet p (f p)" for f
    using that wf by (intro map) (blast intro: pool_ledger_quiet)
  from assms(1) show ?thesis
  proof (cases rule: sx_step.cases)
    case (Take p h k t p1 l i)
    then show ?thesis using pool pool_ledger_take acquired_taken(1) [OF wf] by blast
  next
    case (Miss p h k p1)
    then show ?thesis using pool pool_ledger_quiet miss_quiet(1) [OF wf] by blast
  next
    case (TakeById p h tid t p1 l i)
    then show ?thesis using pool pool_ledger_take acquired_taken(2) [OF wf] by blast
  next
    case (MissById p h tid p1)
    then show ?thesis using pool pool_ledger_quiet miss_quiet(2) [OF wf] by blast
  next
    case (RefuseById p h tid t p1)
    then have "taken p t p1" using acquired_taken(2) [OF wf] by blast
    with RefuseById(5) have "p1 = begin_restore (pt_id t) p" by (auto simp: taken_def)
    with RefuseById show ?thesis using pool pool_ledger_begin_restore by blast
  next
    case CountMiss
    then show ?thesis using quiet quiet_metrics by blast
  next
    case (FailLease i l ae e)
    then show ?thesis using fail_lease_ledger(1) [OF led] by (simp add: attempt_ok_def)
  next
    case (DropLease i l ae e)
    then show ?thesis using fail_lease_ledger(2) [OF led] by (simp add: attempt_ok_def)
  next
    case (RestoreWarmFork i l t ae p)
    then show ?thesis using restore_from_warm_fork_template_ledger [OF led] by simp
  next
    case (RestoreEnvironment i l t ae mode reflink)
    then show ?thesis using restore_from_environment_template_ledger [OF led] by simp
  next
    case (AddTemplate h p t)
    then show ?thesis using pool pool_ledger_add by blast
  next
    case (Reclaim h r)
    then show ?thesis using quiet quiet_reclaim by blast
  next
    case (CollectContinuations ch)
    then show ?thesis using ledger_same [OF led] by (simp add: continuation_gc_def)
  next
    case (Restart sx0 re ph ch dir names)
    then show ?thesis using recover_ledger [of sx0] by (auto split: option.splits)
  next
    case (BeginRefill k)
    then show ?thesis using quiet quiet_refills(1) by blast
  next
    case (EndRefill k)
    then show ?thesis using quiet quiet_refills(2) by blast
  qed (use led in \<open>auto simp: continuation_ledger cold_start_ledger create_ledger update_ledger
      stop_ledger delete_ledger monitor_ledger\<close>)
qed

lemma sx_run_ledger:
  assumes "sx_run vo c fa s s'" and "ledger (fst s) (snd s)"
  shows "ledger (fst s') (snd s')"
  using assms by (induction rule: rtranclp_induct) (auto intro: sx_step_ledger simp: split_paired_all)

definition fresh_sandboxer :: "('v, 'c) sandboxer \<Rightarrow> bool" where
  "fresh_sandboxer sx \<longleftrightarrow>
     sx_sandboxes sx = [] \<and> (case sx_pool sx of None \<Rightarrow> True | Some p \<Rightarrow> pool_wf p \<and> in_use_count p = [])"

lemma fresh_ledger: "fresh_sandboxer sx \<Longrightarrow> ledger sx []"
  by (auto simp: fresh_sandboxer_def ledger_def pool_ledger_def uses_of_def pins_def lease_count_def leased_def
      map_filter_simps pool_wf_def split: option.splits)

lemma pins_pos:
  assumes "hm_get (sx_sandboxes sx) i = Some sb" and "pin_of sb = Some tid"
  shows "0 < pins sx tid"
  using map_of_SomeD [OF assms(1)] assms(2) by (auto simp: pins_def length_greater_0_conv filter_empty_conv)

lemma live_pinned:
  assumes "ledger sx ls" and "sx_pool sx = Some p" and "hm_get (sx_sandboxes sx) i = Some sb" and "pin_of sb = Some tid"
  shows "pinned p tid"
proof -
  have "0 < cnt (in_use_count p) tid"
    using pins_pos [OF assms(3,4)] ledgerD(2) [OF assms(1,2)] by (simp add: pool_ledger_def uses_of_def)
  then show ?thesis using cnt_wf_contains [of "in_use_count p" tid] ledgerD(3) [OF assms(1,2)]
    by (simp add: pinned_def pool_wf_def)
qed

section \<open>A start is a run of steps\<close>

text \<open>While a start waits for a refill, the other tasks take steps of the system.\<close>

definition wakes_ok ::
  "'v vm_ops \<Rightarrow> snapshot_config \<Rightarrow> factory \<Rightarrow> leases \<Rightarrow> ('v, 'c) attempt_env \<Rightarrow> bool" where
  "wakes_ok vo c fa ls ae \<longleftrightarrow>
     (\<forall>(_, w) \<in> set (ae_turns ae). \<forall>f. w = Woken f \<longrightarrow>
        (\<forall>(sx :: ('v, 'c) sandboxer) p. sx_pool sx = Some p \<longrightarrow> sx_run vo c fa (sx, ls) (sx\<lparr>sx_pool := Some (f p)\<rparr>, ls)))"

lemma wait_loop_run:
  assumes "\<forall>(_, w) \<in> set turns. \<forall>f. w = Woken f \<longrightarrow>
      (\<forall>(sx :: ('v, 'c) sandboxer) p. sx_pool sx = Some p \<longrightarrow> sx_run vo c fa (sx, ls) (sx\<lparr>sx_pool := Some (f p)\<rparr>, ls))"
    and "wait_loop (acquire_for_restore h) k turns p = (res, p')"
  shows "\<exists>p0. sx_run vo c fa (sx\<lparr>sx_pool := Some p\<rparr>, ls) (sx\<lparr>sx_pool := Some p0\<rparr>, ls) \<and>
    acquire_for_restore h k p0 = (res, p')"
  using assms
proof (induction turns arbitrary: p)
  case Nil
  have "acquire_for_restore h k p = (res, p')"
    using Nil.prems(2) by (subst (asm) wait_loop.simps) (auto split: prod.splits sum.splits option.splits if_splits)
  then show ?case by blast
next
  case (Cons t turns)
  obtain b w where t: "t = (b, w)" by force
  show ?case
  proof (cases "acquire_for_restore h k p = (res, p')")
    case False
    then obtain p1 f where a: "acquire_for_restore h k p = (Inr None, p1)" and w: "w = Woken f"
      and rest: "wait_loop (acquire_for_restore h) k turns (f p1) = (res, p')"
      using Cons.prems(2) t
      by (subst (asm) wait_loop.simps) (auto split: prod.splits sum.splits option.splits if_splits wake.splits)
    have "sx_run vo c fa (sx\<lparr>sx_pool := Some p\<rparr>, ls) (sx\<lparr>sx_pool := Some p1\<rparr>, ls)"
      using Miss [of "sx\<lparr>sx_pool := Some p\<rparr>" p h k p1 vo c fa ls] a by simp
    also have "sx_run vo c fa (sx\<lparr>sx_pool := Some p1\<rparr>, ls) (sx\<lparr>sx_pool := Some (f p1)\<rparr>, ls)"
    proof -
      have "\<forall>(sx :: ('v, 'c) sandboxer) p. sx_pool sx = Some p \<longrightarrow> sx_run vo c fa (sx, ls) (sx\<lparr>sx_pool := Some (f p)\<rparr>, ls)"
        using Cons.prems(1) t w by simp
      from this [rule_format, of "sx\<lparr>sx_pool := Some p1\<rparr>" p1] show ?thesis by simp
    qed
    finally show ?thesis
      using Cons.IH [OF _ rest] Cons.prems(1) by (meson list.set_intros(2) rtranclp_trans)
  qed blast
qed

lemma start_from_snapshot_idle:
  assumes "attempt_ok ae" and "idle_sandbox i sx" and "start_from_snapshot vo c ae i sp sx = (Some e, sx')"
  shows "idle_sandbox i sx'"
proof (cases "hm_get (sx_sandboxes sx) i")
  case None
  then show ?thesis using assms(3) by (simp add: start_from_snapshot_def)
next
  case (Some sb)
  with assms(2) have "unrestored sb" by simp
  from assms(1) Some this assms(3) show ?thesis
    by (cases rule: start_from_snapshot_out) (simp_all add: only_sandbox_def)
qed

lemma restore_template_idle:
  assumes "attempt_ok ae" and "idle_sandbox i sx"
  shows "restore_from_warm_fork_template vo c ae i t l mode reflink sx = (Some e, sx') \<Longrightarrow> idle_sandbox i sx'"
    and "restore_from_environment_template vo c ae i t l mode reflink sx = (Some e, sx') \<Longrightarrow> idle_sandbox i sx'"
proof -
  have idle: "unrestored sb" if "start_from_snapshot vo c ae i sp sx = (Some e, sx1)" "hm_get (sx_sandboxes sx1) i = Some sb"
    for sp e sx1 sb
    using start_from_snapshot_idle [OF assms that(1)] that(2) by simp
  show "restore_from_warm_fork_template vo c ae i t l mode reflink sx = (Some e, sx') \<Longrightarrow> idle_sandbox i sx'"
    "restore_from_environment_template vo c ae i t l mode reflink sx = (Some e, sx') \<Longrightarrow> idle_sandbox i sx'"
    using assms(2) idle
    by (auto simp: restore_from_warm_fork_template_def restore_from_environment_template_def fail_lease_def
        complete_lease_def split: if_splits sum.splits option.splits prod.splits)
qed

lemma start_with_acquired_run:
  assumes ok: "attempt_ok ae" "idle_sandbox i sx" and p: "sx_pool sx = Some p" and t: "pt_snapshot_type t \<noteq> Continuation"
    and l: "template_lease_new p t = Inr l"
    and st: "start_with_acquired vo c ae i t p sx = (r, sx')"
  shows "sx_run vo c fa (sx, (i, l) # ls) (sx', ls) \<and> (r \<noteq> None \<longrightarrow> idle_sandbox i sx')"
proof -
  have lt: "tl_tmpl l = Some t" using lease_new_of [OF l] by simp
  have rm: "remove1 (i, l) ((i, l) # ls) = ls" by simp
  consider (env) "pt_snapshot_type t = Environment"
      "restore_from_environment_template vo c ae i t l lease_mode_default (reflink_supported p) sx = (r, sx')"
    | (off) "fail_lease ae l (OtherError ''type is not enabled'') sx = (r, sx')"
    | (warm) "restore_from_warm_fork_template vo c ae i t l (pool_lease_mode p) (reflink_supported p) sx = (r, sx')"
    using st t l by (cases "pt_snapshot_type t") (auto simp: start_with_acquired_def split: if_splits)
  then show ?thesis
  proof cases
    case env
    have "sx_step vo c fa (sx, (i, l) # ls) (sx', ls)"
      using RestoreEnvironment [of i l "(i, l) # ls" t ae sx vo c fa lease_mode_default "reflink_supported p"] env ok lt
      by simp
    then show ?thesis using restore_template_idle(2) [OF ok] env by (cases r) auto
  next
    case off
    have "sx_step vo c fa (sx, (i, l) # ls) (sx', ls)"
      using FailLease [of i l "(i, l) # ls" ae vo c fa sx "OtherError ''type is not enabled''"] off ok by simp
    moreover have "sx_sandboxes sx' = sx_sandboxes sx" using off by (auto simp: fail_lease_def)
    ultimately show ?thesis using ok by simp
  next
    case warm
    have "sx_step vo c fa (sx, (i, l) # ls) (sx', ls)"
      using RestoreWarmFork [of i l "(i, l) # ls" t ae sx p vo c fa] warm ok lt p by simp
    then show ?thesis using restore_template_idle(1) [OF ok] warm by (cases r) auto
  qed
qed

lemma taken_kind: "taken p t p1 \<Longrightarrow> pt_snapshot_type t \<noteq> Continuation"
  by (auto simp: taken_def)

lemma lease_exists: "pt_snapshot_type t \<noteq> Continuation \<Longrightarrow> \<exists>l. template_lease_new p t = Inr l"
  by (cases "pt_snapshot_type t") (simp_all add: template_lease_new_def)

lemma acquire_no_panic:
  assumes "pool_wf p"
  shows "fst (acquire_for_restore h k p) \<noteq> Inl e" "fst (acquire_by_id_for_restore h i p) \<noteq> Inl e"
proof -
  have kind: "pt_snapshot_type t \<noteq> Continuation" if "t \<in> set (all_templates p)" for t
    using assms that by (auto simp: pool_wf_def)
  show "fst (acquire_for_restore h k p) \<noteq> Inl e"
    using acquire_took [OF assms, of h k] kind latest_Some [of k p]
    by (auto simp: acquire_for_restore_def peek_eqs took_def split: option.split snapshot_type.split sum.splits)
  show "fst (acquire_by_id_for_restore h i p) \<noteq> Inl e"
    using acquire_by_id_took [OF assms, of h i] kind find_by_id_Some [of p i]
    by (auto simp: acquire_by_id_for_restore_def peek_eqs took_def split: option.split snapshot_type.split sum.splits)
qed

lemma start_key_run:
  assumes led: "ledger sx ls" and ok: "attempt_ok ae" "idle_sandbox i sx" and w: "wakes_ok vo c fa ls ae"
    and st: "start_with_template_key vo c ae i k sx = (r, sx')"
  shows "sx_run vo c fa (sx, ls) (sx', ls) \<and> (r \<noteq> None \<longrightarrow> idle_sandbox i sx')"
proof (cases "sx_pool sx")
  case None
  then show ?thesis using st ok by (auto simp: start_with_template_key_def)
next
  case (Some p)
  obtain res p1 where a: "acquire_or_wait ae k p = (res, p1)" by force
  have "\<exists>p0. sx_run vo c fa (sx, ls) (sx\<lparr>sx_pool := Some p0\<rparr>, ls) \<and> acquire_for_restore (ae_ph ae) k p0 = (res, p1)"
  proof (cases "acquire_for_restore (ae_ph ae) k p = (res, p1)")
    case True
    moreover have "sx\<lparr>sx_pool := Some p\<rparr> = sx" using Some by (cases sx) simp
    ultimately show ?thesis by (intro exI [of _ p]) simp
  next
    case False
    then obtain p2 where "acquire_for_restore (ae_ph ae) k p = (Inr None, p2)"
      "wait_loop (acquire_for_restore (ae_ph ae)) k (ae_turns ae) p2 = (res, p1)"
      using a by (auto simp: acquire_or_wait_def wait_and_acquire_for_restore_def split: prod.splits sum.splits option.splits if_splits)
    with wait_loop_run [OF w [unfolded wakes_ok_def], of "ae_ph ae" k p2 res p1 sx] Miss [OF Some, of "ae_ph ae" k p2 vo c fa ls]
    show ?thesis by (meson converse_rtranclp_into_rtranclp)
  qed
  then obtain p0 where run: "sx_run vo c fa (sx, ls) (sx\<lparr>sx_pool := Some p0\<rparr>, ls)"
    and acq: "acquire_for_restore (ae_ph ae) k p0 = (res, p1)" by blast
  have "ledger (sx\<lparr>sx_pool := Some p0\<rparr>) ls" using sx_run_ledger [OF run] led by simp
  then have wf: "pool_wf p0" by (rule ledgerD(3)) simp
  note go = rtranclp_trans [OF run]
  show ?thesis
  proof (cases res)
    case (Inl e)
    then show ?thesis using acquire_no_panic(1) [OF wf, of "ae_ph ae" k e] acq by simp
  next
    case (Inr to)
    show ?thesis
    proof (cases to)
      case None
      let ?sx1 = "sx\<lparr>sx_pool := Some p1\<rparr>"
      have r: "sx' = upd_pool (upd_metrics record_miss) ?sx1" "r \<noteq> None"
        using st Some a Inr None by (auto simp: start_with_template_key_def upd_pool_def)
      have "sx_step vo c fa (sx\<lparr>sx_pool := Some p0\<rparr>, ls) (?sx1, ls)"
        using Miss [of "sx\<lparr>sx_pool := Some p0\<rparr>" p0 "ae_ph ae" k p1] acq Inr None by simp
      moreover have "sx_step vo c fa (?sx1, ls) (sx', ls)" unfolding r by (rule CountMiss)
      ultimately have "sx_run vo c fa (sx\<lparr>sx_pool := Some p0\<rparr>, ls) (sx', ls)" by simp
      then show ?thesis using go ok r by simp
    next
      case t: (Some t)
      have tk: "taken p0 t p1" using acquired_taken(1) [OF wf] acq Inr t by blast
      then obtain l where l: "template_lease_new p1 t = Inr l" using taken_kind lease_exists by blast
      have "sx_step vo c fa (sx\<lparr>sx_pool := Some p0\<rparr>, ls) (sx\<lparr>sx_pool := Some p1\<rparr>, (i, l) # ls)"
        using Take [of "sx\<lparr>sx_pool := Some p0\<rparr>" p0 "ae_ph ae" k t p1 l] acq Inr t l by simp
      moreover have "start_with_acquired vo c ae i t p1 (sx\<lparr>sx_pool := Some p1\<rparr>) = (r, sx')"
        using st Some a Inr t by (simp add: start_with_template_key_def)
      from start_with_acquired_run [OF ok(1) _ _ taken_kind [OF tk] l this, of fa ls] ok(2)
      have "sx_run vo c fa (sx\<lparr>sx_pool := Some p1\<rparr>, (i, l) # ls) (sx', ls) \<and> (r \<noteq> None \<longrightarrow> idle_sandbox i sx')"
        by simp
      ultimately show ?thesis using go by (meson converse_rtranclp_into_rtranclp)
    qed
  qed
qed

lemma start_id_run:
  assumes led: "ledger sx ls" and ok: "attempt_ok ae" "idle_sandbox i sx"
    and st: "start_with_template_id vo c ae i tid key sx = (r, sx')"
  shows "sx_run vo c fa (sx, ls) (sx', ls) \<and> (r \<noteq> None \<longrightarrow> idle_sandbox i sx')"
proof (cases "sx_pool sx")
  case None
  then show ?thesis using st ok by (auto simp: start_with_template_id_def)
next
  case (Some p)
  note wf = ledgerD(3) [OF led Some]
  obtain res p1 where a: "acquire_by_id_for_restore (ae_ph ae) tid p = (res, p1)" by force
  let ?sx1 = "sx\<lparr>sx_pool := Some p1\<rparr>"
  have ok1: "idle_sandbox i ?sx1" using ok(2) by simp
  consider (panic) e where "res = Inl e" | (miss) "res = Inr None" | (hit) t where "res = Inr (Some t)"
    by (metis option.exhaust sum.exhaust)
  then show ?thesis
  proof cases
    case panic
    then show ?thesis using acquire_no_panic(2) [OF wf, of "ae_ph ae" tid e] a by simp
  next
    case miss
    then show ?thesis using st Some a ok MissById [OF Some, of "ae_ph ae" tid p1 vo c fa ls]
      by (auto simp: start_with_template_id_def)
  next
    case (hit t)
    have tk: "taken p t p1" using acquired_taken(2) [OF wf] a hit by blast
    then obtain l where l: "template_lease_new p1 t = Inr l" using taken_kind lease_exists by blast
    have lt: "tl_tmpl l = Some t" using lease_new_of [OF l] by simp
    let ?ls = "(i, l) # ls"
    have take: "sx_step vo c fa (sx, ls) (?sx1, ?ls)"
      using TakeById [OF Some, of "ae_ph ae" tid t p1 l vo c fa ls i] a hit l by simp
    consider (refuse) "pt_snapshot_type t \<noteq> WarmFork" "sx' = ?sx1"
      | (drop) e where "drop_lease ae l e ?sx1 = (r, sx')" | (off) e where "fail_lease ae l e ?sx1 = (r, sx')"
      | (warm) "restore_from_warm_fork_template vo c ae i t l (pool_lease_mode p1) (reflink_supported p1) ?sx1 = (r, sx')"
      using st Some a hit l by (auto simp: start_with_template_id_def Let_def split: if_splits)
    then show ?thesis
    proof cases
      case refuse
      then show ?thesis using ok1 RefuseById [OF Some, of "ae_ph ae" tid t p1 vo c fa ls] a hit by auto
    next
      case drop
      have "sx_step vo c fa (?sx1, ?ls) (sx', ls)"
        using DropLease [of i l ?ls ae vo c fa ?sx1 e] drop ok by simp
      moreover have "sx_sandboxes sx' = sx_sandboxes sx" using drop by (auto simp: drop_lease_def)
      ultimately show ?thesis using take ok by auto
    next
      case off
      have "sx_step vo c fa (?sx1, ?ls) (sx', ls)"
        using FailLease [of i l ?ls ae vo c fa ?sx1 e] off ok by simp
      moreover have "sx_sandboxes sx' = sx_sandboxes sx" using off by (auto simp: fail_lease_def)
      ultimately show ?thesis using take ok by auto
    next
      case warm
      have "sx_step vo c fa (?sx1, ?ls) (sx', ls)"
        using RestoreWarmFork [of i l ?ls t ae ?sx1 p1 vo c fa] warm ok1 ok lt by simp
      moreover have "r \<noteq> None \<longrightarrow> idle_sandbox i sx'"
        using restore_template_idle(1) [OF ok(1) ok1] warm by (cases r) auto
      ultimately show ?thesis using take by auto
    qed
  qed
qed

lemma start_fallback_run:
  assumes led: "ledger sx ls" and ok: "attempt_ok ae_env" "attempt_ok ae_cold" "idle_sandbox i sx"
    and w: "wakes_ok vo c fa ls ae_env"
  shows "sx_run vo c fa (sx, ls) (snd (start_fallback vo c fa ae_env ae_cold i sx), ls)"
proof -
  obtain r sx1 where e: "(if enable_environment_restore c \<and> sx_pool sx \<noteq> None
      then start_with_template_key vo c ae_env i (environment_key fa) sx
      else (Some (OtherError ''no environment restore''), sx)) = (r, sx1)" by force
  then have run: "sx_run vo c fa (sx, ls) (sx1, ls) \<and> (r \<noteq> None \<longrightarrow> idle_sandbox i sx1)"
    using start_key_run [OF led ok(1,3) w, of "environment_key fa" r sx1] ok(3) by (auto split: if_splits)
  have val: "start_fallback vo c fa ae_env ae_cold i sx =
      (if r = None then (None, sx1)
       else if any_snapshot_restore_enabled c \<and> \<not> fallback_to_fresh_boot c
       then (Some (OtherError ''no matching enabled snapshot''), sx1) else cold_start vo ae_cold i sx1)"
    unfolding start_fallback_def e by simp
  have "sx_step vo c fa (sx1, ls) (snd (cold_start vo ae_cold i sx1), ls)" if "r \<noteq> None"
    by (rule ColdStart) (use ok(2) run that in simp_all)
  then show ?thesis unfolding val using run by (auto intro: rtranclp.rtrancl_into_rtrancl)
qed

lemma sandboxer_start_run:
  assumes led: "ledger sx ls" and ok: "attempt_ok ae" "attempt_ok ae_env" "attempt_ok ae_cold" "idle_sandbox i sx"
    and w: "wakes_ok vo c fa ls ae" "wakes_ok vo c fa ls ae_env"
  shows "sx_run vo c fa (sx, ls) (snd (sandboxer_start vo c fa ae ae_env ae_cold i sx), ls)"
proof -
  have cold: "sx_run vo c fa (sx, ls) (snd (cold_start vo ae_cold i sx), ls)"
    by (intro r_into_rtranclp ColdStart) (use ok in simp_all)
  have cont: "sx_run vo c fa (sx, ls) (snd (start_with_continuation_snapshot vo c ae i wi sx), ls)" for wi
    by (intro r_into_rtranclp RestoreContinuation) (use ok in simp_all)
  note fallback = start_fallback_run [OF led ok(2-4) w(2)]
  have warm: "sx_run vo c fa (sx, ls) (sx1, ls) \<and> (r \<noteq> None \<longrightarrow> idle_sandbox i sx1)"
    if "start_warm_fork vo c ae i intent sx = (r, sx1)" for intent r sx1
    using that ok(4) start_id_run [OF led ok(1,4)] start_key_run [OF led ok(1,4) w(1)]
    by (cases "si_template_id intent"; cases "si_template_key intent") (auto simp: start_warm_fork_def)
  have then_fallback: "sx_run vo c fa (sx, ls) (snd (start_fallback vo c fa ae_env ae_cold i sx1), ls)"
    if "start_warm_fork vo c ae i intent sx = (Some e, sx1)" for intent e sx1
  proof -
    have "ledger sx1 ls" using sx_run_ledger [of vo c fa "(sx, ls)" "(sx1, ls)"] warm [OF that] led by simp
    moreover have "idle_sandbox i sx1" "sx_run vo c fa (sx, ls) (sx1, ls)" using warm [OF that] by simp_all
    ultimately show ?thesis using start_fallback_run [OF _ ok(2,3) _ w(2)] rtranclp_trans by metis
  qed
  show ?thesis
    using cold cont fallback warm then_fallback
    by (auto simp: sandboxer_start_def split: sum.split option.split prod.split)
qed

section \<open>Properties\<close>

definition demo_sandbox :: "string list kuasar_sandbox" where
  "demo_sandbox = new_sandbox\<lparr>sb_restore := restore_metadata_default\<lparr>rm_template_id := Some ''a'',
     rm_template_snapshot_type := Some WarmFork, rm_lease_mode := Some Shared\<rparr>\<rparr>"

definition demo_sandboxer :: "(string list, pooled_template) sandboxer" where
  "demo_sandboxer =
     \<lparr>sx_sandboxes = [], sx_pool = Some (stocked Shared 1 [demo_template ''a'' WarmFork 1]), sx_store = None,
      sx_dumps = [(''/run/s1'', demo_sandbox)], sx_cgroups = []\<rparr>"

definition demo_recover :: "string list recover_env" where
  "demo_recover = \<lparr>re_reload = id, re_he = easy_host, re_connect = True, re_cgroup = True, re_dump = Dumped\<rparr>"

definition recovered :: "(string list, pooled_template) sandboxer" where
  "recovered = sandboxer_recover list_vm (\<lambda>_. demo_recover) ideal_host ideal_host ''/run'' [''s1''] demo_sandboxer"

lemma demo_fresh: "fresh_sandboxer demo_sandboxer"
  using stocked_wf [of "[demo_template ''a'' WarmFork 1]" Shared 1]
  by (simp add: fresh_sandboxer_def demo_sandboxer_def stocked_def demo_pool_def pool_new_def)

lemma recovered_run: "sx_run list_vm c fa (demo_sandboxer, []) (recovered, [])"
  using demo_fresh unfolding recovered_def
  by (intro r_into_rtranclp Restart) (auto simp: fresh_sandboxer_def split: option.splits)

lemma recovered_entry:
  "recover_entry list_vm (\<lambda>_. demo_recover) ''/run'' ''s1'' demo_sandboxer = put_sandbox ''s1'' demo_sandbox demo_sandboxer"
  by (simp add: recover_entry_def sandbox_recover_def demo_recover_def list_vm_def demo_sandboxer_def path_push_def
      demo_sandbox_def new_sandbox_def Let_def)

lemma recovered_sel:
  "hm_get (sx_sandboxes recovered) ''s1'' = Some demo_sandbox"
  "sx_pool recovered = Some (ref_template ''a'' (stocked Shared 1 [demo_template ''a'' WarmFork 1]))"
proof -
  have pin: "shared_pin demo_sandbox = Some ''a''" "memory_pin demo_sandbox = None"
    "rm_template_id (sb_restore demo_sandbox) = Some ''a''"
    by (simp_all add: demo_sandbox_def pin_defs restore_metadata_default_def)
  have sx: "sx_sandboxes demo_sandboxer = []" "sx_pool demo_sandboxer = Some (stocked Shared 1 [demo_template ''a'' WarmFork 1])"
    by (simp_all add: demo_sandboxer_def)
  show "hm_get (sx_sandboxes recovered) ''s1'' = Some demo_sandbox"
    by (simp add: recovered_def sandboxer_recover_def recovered_entry Let_def)
  show "sx_pool recovered = Some (ref_template ''a'' (stocked Shared 1 [demo_template ''a'' WarmFork 1]))"
    by (simp add: recovered_def sandboxer_recover_def recovered_entry Let_def sx pin map_filter_simps active_template_ids_def
        rebuild_active_refs_def ref_template_def gc_orphaned_consumed_def gc_orphaned_entry_def demo_defs fs_defs
        fs_read_dir_def fs_try_exists_marker_def)
qed

definition demo_attempt :: "(string list, pooled_template) attempt_env" where
  "demo_attempt =
     \<lparr>ae_he = easy_host, ae_ga = demo_guest True, ae_pre_start = Pair None, ae_post_start = Pair None,
      ae_prepare_network = Pair None, ae_cgroup2 = True, ae_cgroup_add = True, ae_dump = Dumped, ae_files = \<lambda>_. True,
      ae_ph = ideal_host, ae_ch = ideal_host, ae_turns = [(False, Woken (end_refill (user_key ''k'')))], ae_ms = 5\<rparr>"

definition demo_factory :: factory where
  "demo_factory = \<lparr>fa_kernel_path = ''/k'', fa_image_path = ''/i'', fa_vcpus = 1, fa_memory_mb = 64, fa_kernel_params = [],
     fa_storage_policy = storage_policy_default\<rparr>"

lemma demo_attempt_ok: "attempt_ok demo_attempt"
proof -
  have "sandbox_hook (Pair None :: 'v kuasar_sandbox \<Rightarrow> sb_error option \<times> 'v kuasar_sandbox)"
    by unfold_locales simp
  then show ?thesis by (simp add: attempt_ok_def demo_attempt_def)
qed

lemma demo_wakes_ok: "wakes_ok vo c fa ls demo_attempt"
proof -
  have "sx_run vo c fa (sx, ls) (sx\<lparr>sx_pool := Some (end_refill k p)\<rparr>, ls)" if "sx_pool sx = Some p"
    for sx :: "(string list, pooled_template) sandboxer" and k p
    using EndRefill [of vo c fa sx ls k] that by (auto simp: upd_pool_def)
  then show ?thesis by (simp add: wakes_ok_def demo_attempt_def)
qed



section \<open>A lease that is never returned\<close>

text \<open>
  A start that names an environment template by its id is refused only after the template has been taken
  for a restore, and nothing gives it back: the restore counter stays up, and the template can never be
  evicted, although no restore is under way.
\<close>

lemma template_id_leaks_restore:
  assumes "sx_pool sx = Some p" and "find_by_id p tid = Some t" and "pt_snapshot_type t = Environment"
  shows "\<exists>e. start_with_template_id vo c ae i tid key sx =
    (Some e, sx\<lparr>sx_pool := Some (begin_restore tid p)\<rparr>)"
  using assms by (simp add: start_with_template_id_def acquire_by_id_for_restore_def peek_eqs)

end
