(* ===== verification/Json.thy ===== *)
theory Json
  imports Prelude
begin

text \<open>
  The values of JSON, as \<^verbatim>\<open>serde_json\<close> represents them, and what the program uses of its interface: access
  by field and by pointer, and assignment through both. The fields of an object are distinct.
\<close>

datatype json =
    JNull | JBool bool | JNumber nat | JString string | JArray "json list" | JObject "(string \<times> json) list"

definition jget :: "json \<Rightarrow> string \<Rightarrow> json option" where
  "jget v k = (case v of JObject m \<Rightarrow> hm_get m k | _ \<Rightarrow> None)"

definition jindex :: "json \<Rightarrow> string \<Rightarrow> json" where
  "jindex v k = (case jget v k of None \<Rightarrow> JNull | Some x \<Rightarrow> x)"

definition as_str :: "json \<Rightarrow> string option" where
  "as_str v = (case v of JString s \<Rightarrow> Some s | _ \<Rightarrow> None)"

definition as_u64 :: "json \<Rightarrow> nat option" where
  "as_u64 v = (case v of JNumber n \<Rightarrow> (if n \<le> u64_max then Some n else None) | _ \<Rightarrow> None)"

definition jopt :: "('a \<Rightarrow> json) \<Rightarrow> 'a option \<Rightarrow> json" where
  "jopt f x = (case x of None \<Rightarrow> JNull | Some y \<Rightarrow> f y)"

definition as_array :: "json \<Rightarrow> json list option" where
  "as_array v = (case v of JArray xs \<Rightarrow> Some xs | _ \<Rightarrow> None)"

text \<open>Assignment to a field of an object that has it, and \<open>v["k"] = x\<close>, which adds the field.\<close>

definition jset :: "string \<Rightarrow> json \<Rightarrow> json \<Rightarrow> json" where
  "jset k x v = (case v of JObject m \<Rightarrow> JObject (hm_insert k x m) | _ \<Rightarrow> v)"

text \<open>The value two fields deep, \<open>pointer("/a/b")\<close>, and its assignment.\<close>

definition jpointer :: "string \<Rightarrow> string \<Rightarrow> json \<Rightarrow> json option" where
  "jpointer a b v = Option.bind (jget v a) (\<lambda>x. jget x b)"

definition jpointer_set :: "string \<Rightarrow> string \<Rightarrow> json \<Rightarrow> json \<Rightarrow> json" where
  "jpointer_set a b x v =
     (case jget v a of None \<Rightarrow> v | Some y \<Rightarrow> (case jget y b of None \<Rightarrow> v | Some _ \<Rightarrow> jset a (jset b x y) v))"

lemma jget_jset: "jget v k \<noteq> None \<Longrightarrow> jget (jset k x v) k' = (if k' = k then Some x else jget v k')"
  by (cases v) (auto simp: jget_def jset_def)

lemma jpointer_set_same: "jpointer a b v \<noteq> None \<Longrightarrow> jpointer a b (jpointer_set a b x v) = Some x"
  by (auto simp: jpointer_def jpointer_set_def jget_jset bind_eq_None_conv split: option.splits)

lemma jget_pointer_set: "k \<noteq> a \<Longrightarrow> jget (jpointer_set a b x v) k = jget v k"
  by (auto simp: jpointer_set_def jget_jset split: option.splits)

end
