(* ===== verification/Service.thy ===== *)
theory Service
  imports Sandboxer_System Json
begin

text \<open>
  The management service of the sandboxer (\<^verbatim>\<open>vmm/sandbox/src/service/mod.rs\<close>): the requests that
  arrive on its socket, the handler of each of them over the state of the sandboxer, and the reply. Values
  of JSON are the \<open>Value\<close> of \<^verbatim>\<open>serde_json\<close>; what the outside world answers while a request is served is
  a record \<open>service_env\<close>. The two floating-point rates of the status report are not modelled.
\<close>

section \<open>Requests\<close>

definition is_alnum :: "char \<Rightarrow> bool" where
  "is_alnum c \<longleftrightarrow> is_alpha c \<or> is_digit c"

definition validate_key :: "string \<Rightarrow> string option" where
  "validate_key key =
     (if key = [] \<or> length key > 253 then Some ''key must be 1-253 characters''
      else if \<not> is_alnum (hd key) \<or> \<not> is_alnum (last key)
      then Some ''key must start and end with an alphanumeric character''
      else if \<not> list_all (\<lambda>c. is_alnum c \<or> c = CHR ''-'' \<or> c = CHR ''_'' \<or> c = CHR ''.'') key
      then Some ''key contains invalid characters''
      else None)"

definition validate_id :: "string \<Rightarrow> string option" where
  "validate_id i =
     (if length i < 12 \<or> length i > 64 then Some ''id must be 12-64 characters''
      else if \<not> list_all (\<lambda>c. is_alnum c \<or> c = CHR ''-'' \<or> c = CHR ''_'') i
      then Some ''id contains invalid characters''
      else None)"

definition resolve_sandbox_id :: "(string, 'a) hmap \<Rightarrow> string \<Rightarrow> string + string" where
  "resolve_sandbox_id m i = (if hm_contains m i then Inr i else Inl ''sandbox not found'')"

text \<open>\<open>split_once('-')\<close>: the text before the first dash, and the text after it.\<close>

definition split_once :: "char \<Rightarrow> string \<Rightarrow> (string \<times> string) option" where
  "split_once c s =
     (if c \<in> set s then Some (takeWhile (\<lambda>x. x \<noteq> c) s, tl (dropWhile (\<lambda>x. x \<noteq> c) s)) else None)"

section \<open>Replies\<close>

definition reply_ok :: "(string \<times> json) list \<Rightarrow> json" where
  "reply_ok m = JObject ((''ok'', JBool True) # m)"

definition reply_err :: "string \<Rightarrow> json" where
  "reply_err e = JObject [(''ok'', JBool False), (''error'', JString e)]"

fun sandbox_status_str :: "sandbox_status \<Rightarrow> string" where
  "sandbox_status_str Created = ''created''"
| "sandbox_status_str (Running _) = ''running''"
| "sandbox_status_str (Stopped _ _) = ''stopped''"
| "sandbox_status_str _ = ''unknown''"

fun snapshot_type_str :: "snapshot_type \<Rightarrow> string" where
  "snapshot_type_str Environment = ''environment''"
| "snapshot_type_str WarmFork = ''warm_fork''"
| "snapshot_type_str Continuation = ''continuation''"

fun memory_restore_mode_debug :: "memory_restore_mode \<Rightarrow> string" where
  "memory_restore_mode_debug Copy = ''Copy''"
| "memory_restore_mode_debug OnDemand = ''OnDemand''"
| "memory_restore_mode_debug FileBackend = ''FileBackend''"
| "memory_restore_mode_debug ExternalUffd = ''ExternalUffd''"

definition template_json :: "pooled_template \<Rightarrow> json" where
  "template_json t =
     JObject ([(''template_id'', JString (pt_id t)), (''snapshot_type'', JString (snapshot_type_str (pt_snapshot_type t))),
               (''key'', JString (tk_key (pt_key t))), (''created_at_secs'', JNumber (pt_created_at_secs t)),
               (''snapshot_dir'', JString (pt_snapshot_dir t))] @
              (case pt_workload_identity t of
                 None \<Rightarrow> []
               | Some w \<Rightarrow> [(''pod_uid'', JString (pod_uid w)), (''generation'', JNumber (generation w))]))"

section \<open>The world around a request\<close>

record disk_snapshot =
  ds_storage_id :: string
  ds_device_id :: string
  ds_img_path :: string

record snapshot_meta =
  sm_snapshot_dir :: string
  sm_original_task_vsock :: string
  sm_original_console_path :: string
  sm_disk_images :: "disk_image_entry list"

text \<open>
  The identifiers that are drawn, the clock, the name each container has in its OCI specification, what the
  guest answers to \<open>check_inject_socket\<close>, what a snapshot of a machine yields, whether the control group
  of a sandbox has a parent path, what the creation of a slot meets, and the environments of the parts of
  the sandboxer that a handler goes through.
\<close>

record ('v, 'c) service_env =
  sv_template_id :: string
  sv_sandbox_id :: string
  sv_now :: nat
  sv_container_name :: "string \<Rightarrow> string option"
  sv_check :: "(string \<times> string) list \<Rightarrow> sb_error + bool list"
  sv_snapshot :: "string \<Rightarrow> disk_snapshot list \<Rightarrow> 'v \<Rightarrow> (sb_error + snapshot_meta) \<times> 'v"
  sv_cgroup_parent :: bool
  sv_create_dir :: bool
  sv_create_vm :: "sb_error + 'v"
  sv_files :: bool
  sv_ae :: "('v, 'c) attempt_env"
  sv_de :: "('v, 'c) delete_env"

section \<open>Snapshotting a running sandbox\<close>

definition READY_PROTOCOL_ANNOTATION :: string where
  "READY_PROTOCOL_ANNOTATION = ''kuasar.io/warm-fork-ready-protocol-version''"

definition WARM_FORK_PROTOCOL_V1 :: string where "WARM_FORK_PROTOCOL_V1 = ''1''"

definition check_inject_socket ::
  "('v, 'c) service_env \<Rightarrow> (string \<times> string) list \<Rightarrow> 'v kuasar_sandbox \<Rightarrow> sb_error option" where
  "check_inject_socket sv targets sb =
     (if \<not> sb_client sb then Some (OtherError ''client not initialized'')
      else (case sv_check sv targets of
              Inl e \<Rightarrow> Some (OtherError ''check_inject_socket RPC failed'')
            | Inr oks \<Rightarrow> (if list_all id oks then None else Some (OtherError ''readiness socket check failed''))))"

text \<open>The reverse map from names to containers, and the targets that a list of names stands for.\<close>

definition name_to_cid :: "('v, 'c) service_env \<Rightarrow> 'v kuasar_sandbox \<Rightarrow> (string, string) hmap" where
  "name_to_cid sv sb =
     fold (\<lambda>(cid, _) m. case sv_container_name sv cid of None \<Rightarrow> m | Some n \<Rightarrow> hm_insert n cid m) (sb_containers sb) []"

definition snapshot_target :: "string \<Rightarrow> string \<Rightarrow> string \<Rightarrow> warm_fork_target" where
  "snapshot_target name cid socket =
     \<lparr>wt_container_name = name, wt_container_id = cid, wt_socket_path = socket, wt_env_overrides = [], wt_context = []\<rparr>"

fun named_targets ::
  "annotations option \<Rightarrow> string \<Rightarrow> (string, string) hmap \<Rightarrow> string list \<Rightarrow> sb_error + warm_fork_target list" where
  "named_targets a pod_socket m [] = Inr []"
| "named_targets a pod_socket m (name # names) =
     (let socket = (case annotation a (container_prefix name @ ''warm-fork-readiness-socket'') of
                      Some s \<Rightarrow> s | None \<Rightarrow> pod_socket)
      in
      case hm_get m name of
        None \<Rightarrow> Inl (OtherError ''WarmFork container not found in running sandbox'')
      | Some cid \<Rightarrow>
          (case named_targets a pod_socket m names of
             Inl e \<Rightarrow> Inl e
           | Inr ts \<Rightarrow> Inr (snapshot_target name cid socket # ts)))"

definition warm_fork_snapshot_targets ::
  "('v, 'c) service_env \<Rightarrow> 'v kuasar_sandbox \<Rightarrow> sb_error + warm_fork_target list" where
  "warm_fork_snapshot_targets sv sb =
     (let a = sd_annotations (sb_data sb);
          pod_socket = (case annotation a READINESS_SOCKET_ANNOTATION of Some s \<Rightarrow> s | None \<Rightarrow> DEFAULT_READINESS_SOCKET)
      in
      case (case a of None \<Rightarrow> Inr None | Some m \<Rightarrow> parse_warm_fork_container_names m) of
        Inl e \<Rightarrow> Inl (OtherError ''invalid WarmFork target annotation'')
      | Inr (Some names) \<Rightarrow> named_targets a pod_socket (name_to_cid sv sb) names
      | Inr None \<Rightarrow>
          (case sb_containers sb of
             [(cid, _)] \<Rightarrow> Inr [snapshot_target [] cid pod_socket]
           | [] \<Rightarrow> Inl (OtherError ''no running container found'')
           | _ \<Rightarrow> Inl (OtherError ''single-container mode requires exactly one running container'')))"

text \<open>What a warm-fork snapshot requires before the machine is paused: the protocol, and every target ready.\<close>

definition warm_fork_ready ::
  "('v, 'c) service_env \<Rightarrow> 'v kuasar_sandbox \<Rightarrow> sb_error + string \<times> warm_fork_target list" where
  "warm_fork_ready sv sb =
     (let version = (case annotation (sd_annotations (sb_data sb)) READY_PROTOCOL_ANNOTATION of Some v \<Rightarrow> v | None \<Rightarrow> []) in
      if version \<noteq> WARM_FORK_PROTOCOL_V1 then Inl (OtherError ''ready protocol annotation is required'')
      else (case warm_fork_snapshot_targets sv sb of
              Inl e \<Rightarrow> Inl e
            | Inr ts \<Rightarrow>
                (case check_inject_socket sv (map (\<lambda>t. (wt_container_id t, wt_socket_path t)) ts) sb of
                   Some e \<Rightarrow> Inl (OtherError ''WarmFork ready-check failed before snapshot'')
                 | None \<Rightarrow> Inr (version, ts))))"

text \<open>What the template records of the storages and containers of the sandbox.\<close>

definition orphans_of :: "'v kuasar_sandbox \<Rightarrow> string list" where
  "orphans_of sb =
     fold (\<lambda>i ids. if i \<in> set ids then ids else ids @ [i]) (rm_orphan_container_ids (sb_restore sb))
       (map fst (sb_containers sb))"

definition snapshot_containers_of :: "'v kuasar_sandbox \<Rightarrow> snapshot_container_meta list" where
  "snapshot_containers_of sb =
     concat (map (\<lambda>s. map (\<lambda>(cid, _).
         \<lparr>sc_id = cid, sc_lower_dirs = (case st_lower_dirs s of Some d \<Rightarrow> d | None \<Rightarrow> []), sc_storage_id = st_id s,
          sc_device_id = (case st_device_id s of Some d \<Rightarrow> d | None \<Rightarrow> []),
          sc_img_path = (case st_cleanup_path s of Some d \<Rightarrow> d | None \<Rightarrow> [])\<rparr>) (st_ref_container s))
       (filter (\<lambda>s. st_owned_by_runtime s \<and> st_device_id s \<noteq> None \<and> st_cleanup_path s \<noteq> None) (sb_storages sb)))"

definition disks_of :: "'v kuasar_sandbox \<Rightarrow> disk_snapshot list" where
  "disks_of sb =
     List.map_filter (\<lambda>s. case (st_device_id s, st_cleanup_path s) of
         (Some d, Some p) \<Rightarrow> Some \<lparr>ds_storage_id = st_id s, ds_device_id = d, ds_img_path = p\<rparr>
       | _ \<Rightarrow> None)
       (filter st_owned_by_runtime (sb_storages sb))"

definition template_of_snapshot ::
  "factory \<Rightarrow> nat \<Rightarrow> string \<Rightarrow> string \<Rightarrow> snapshot_type \<Rightarrow> workload_identity option \<Rightarrow> (string \<times> warm_fork_target list) option
   \<Rightarrow> snapshot_meta \<Rightarrow> 'v kuasar_sandbox \<Rightarrow> pooled_template" where
  "template_of_snapshot fa now tid key kind wi ready m sb =
     (let tmpl_key = (case (kind, wi) of
                        (Continuation, Some w) \<Rightarrow> from_workload_identity (pod_uid w) (generation w)
                      | _ \<Rightarrow> user_key key)
      in (pooled_template_new now tid tmpl_key (sm_snapshot_dir m) (fa_image_path fa) (fa_kernel_path fa) (fa_vcpus fa)
            (fa_memory_mb fa) (sm_original_task_vsock m) (sm_original_console_path m))
         \<lparr>pt_snapshot_type := kind, pt_ready_protocol_version := map_option fst ready,
          pt_warm_fork_targets := (case ready of Some (_, ts) \<Rightarrow> ts | None \<Rightarrow> []), pt_workload_identity := wi,
          pt_id_generator := unat (sb_id_generator sb), pt_disk_images := sm_disk_images m, pt_storages := sb_storages sb,
          pt_orphan_container_ids := orphans_of sb, pt_snapshot_containers := snapshot_containers_of sb\<rparr>)"

text \<open>
  The directory of the snapshot, and the state with that directory created. The directory
  \<^verbatim>\<open>snapshot\<close> of an entry exists exactly when the entry does: both are created by one call and
  removed by one call. A fault of \<open>exists\<close> reads as absence.
\<close>

definition make_snapshot_dir ::
  "('v, 'c) service_env \<Rightarrow> string \<Rightarrow> snapshot_type \<Rightarrow> workload_identity option \<Rightarrow> ('v, 'c) sandboxer
   \<Rightarrow> (sb_error + string) \<times> ('v, 'c) sandboxer" where
  "make_snapshot_dir sv tid kind wi sx =
     (if kind = Continuation then
        (case (wi, sx_store sx) of
           (None, _) \<Rightarrow> (Inl (OtherError ''continuation requires workload_identity''), sx)
         | (_, None) \<Rightarrow> (Inl (OtherError ''continuation store not configured''), sx)
         | (Some w, Some s) \<Rightarrow>
             (if fs_exists_dir (ae_ch (sv_ae sv)) w (cs_disk s)
              then (Inl (OtherError ''continuation snapshot already exists''), sx)
              else (case fs_create_dir_all (ae_ch (sv_ae sv)) w (cs_disk s) of
                      (Some _, dk) \<Rightarrow> (Inl (OtherError ''create snapshot dir''), sx\<lparr>sx_store := Some (s\<lparr>cs_disk := dk\<rparr>)\<rparr>)
                    | (None, dk) \<Rightarrow> (Inr (path_join (entry_dir s w) ''snapshot''), sx\<lparr>sx_store := Some (s\<lparr>cs_disk := dk\<rparr>)\<rparr>))))
      else
        (case sx_pool sx of
           None \<Rightarrow> (Inl (OtherError ''template pool not configured''), sx)
         | Some p \<Rightarrow>
             (case fs_create_dir_all (ae_ph (sv_ae sv)) (WarmforkDir, tid) (disk p) of
                (Some _, dk) \<Rightarrow> (Inl (OtherError ''create snapshot dir''), sx\<lparr>sx_pool := Some (p\<lparr>disk := dk\<rparr>)\<rparr>)
              | (None, dk) \<Rightarrow>
                  (Inr (path_join (path_join (path_join (store_dir p) ''warmfork'') tid) ''snapshot''),
                   sx\<lparr>sx_pool := Some (p\<lparr>disk := dk\<rparr>)\<rparr>))))"

definition store_snapshot ::
  "('v, 'c) service_env \<Rightarrow> pooled_template \<Rightarrow> ('v, 'c) sandboxer \<Rightarrow> (sb_error + pooled_template) \<times> ('v, 'c) sandboxer" where
  "store_snapshot sv t sx =
     (if pt_snapshot_type t = Continuation then
        (case sx_store sx of
           None \<Rightarrow> (Inl (OtherError ''continuation store not configured''), sx)
         | Some s \<Rightarrow>
             (case cont_save (ae_ch (sv_ae sv)) t s of
                (Inl _, s') \<Rightarrow> (Inl (OtherError ''save continuation''), sx\<lparr>sx_store := Some s'\<rparr>)
              | (Inr _, s') \<Rightarrow> (Inr t, sx\<lparr>sx_store := Some s'\<rparr>)))
      else
        (case sx_pool sx of
           None \<Rightarrow> (Inl (OtherError ''template pool not configured''), sx)
         | Some p \<Rightarrow>
             (case add (ae_ph (sv_ae sv)) t p of
                (Inl _, p') \<Rightarrow> (Inl (OtherError ''add template''), sx\<lparr>sx_pool := Some p'\<rparr>)
              | (Inr _, p') \<Rightarrow> (Inr t, sx\<lparr>sx_pool := Some p'\<rparr>))))"

definition create_from_sandbox ::
  "factory \<Rightarrow> ('v, 'c) service_env \<Rightarrow> string \<Rightarrow> string \<Rightarrow> string \<Rightarrow> snapshot_type \<Rightarrow> workload_identity option \<Rightarrow> ('v, 'c) sandboxer
   \<Rightarrow> (sb_error + pooled_template) \<times> ('v, 'c) sandboxer" where
  "create_from_sandbox fa sv i tid key kind wi sx =
     (if kind \<noteq> Continuation \<and> sx_pool sx = None then (Inl (OtherError ''template pool not configured''), sx)
      else (case hm_get (sx_sandboxes sx) i of
        None \<Rightarrow> (Inl (OtherError ''sandbox not found''), sx)
      | Some sb \<Rightarrow>
          (if \<not> (case sb_status sb of Running _ \<Rightarrow> True | _ \<Rightarrow> False)
           then (Inl (OtherError ''template-create requires the sandbox to be running''), sx)
           else if storage_backend (sb_storage_policy sb) \<noteq> VIRTIO_BLK
           then (Inl (OtherError ''snapshots require container_storage_backend=virtio-blk''), sx)
           else (case (if kind = WarmFork then map_sum id Some (warm_fork_ready sv sb) else Inr None) of
             Inl e \<Rightarrow> (Inl e, sx)
           | Inr ready \<Rightarrow>
               (case make_snapshot_dir sv tid kind wi sx of
                  (Inl e, sx1) \<Rightarrow> (Inl e, sx1)
                | (Inr dir, sx1) \<Rightarrow>
                    (case sv_snapshot sv dir (disks_of sb) (sb_vm sb) of
                       (Inl e, v) \<Rightarrow> (Inl (OtherError ''snapshot sandbox''), put_sandbox i (sb\<lparr>sb_vm := v\<rparr>) sx1)
                     | (Inr m, v) \<Rightarrow>
                         store_snapshot sv (template_of_snapshot fa (sv_now sv) tid key kind wi ready m sb)
                           (put_sandbox i (sb\<lparr>sb_vm := v\<rparr>) sx1)))))))"

section \<open>Sandboxes of the service\<close>

definition create_sandbox_slot ::
  "factory \<Rightarrow> string \<Rightarrow> ('v, 'c) service_env \<Rightarrow> string \<Rightarrow> ('v, 'c) sandboxer \<Rightarrow> sb_error option \<times> ('v, 'c) sandboxer" where
  "create_sandbox_slot fa base sv i sx =
     (if hm_contains (sx_sandboxes sx) i then (Some (OtherError ''sandbox already exists''), sx)
      else if \<not> sv_create_dir sv then (Some (OtherError ''create sandbox dir''), sx)
      else (case sv_create_vm sv of
              Inl e \<Rightarrow> (Some (OtherError ''create_vm for sandbox slot''), sx)
            | Inr v \<Rightarrow>
                (let sb = \<lparr>sb_vm = v, sb_id = i, sb_status = Created, sb_base_dir = path_join base i,
                           sb_data = \<lparr>sd_annotations = None, sd_netns = [], sd_task_address = []\<rparr>,
                           sb_containers = [], sb_storages = [], sb_id_generator = 0, sb_network = False,
                           sb_client = False, sb_storage_policy = fa_storage_policy fa,
                           sb_restore = restore_metadata_default, sb_images = []\<rparr>
                 in
                 if \<not> sv_files sv then (Some (OtherError ''setup_sandbox_files''), sx)
                 else (case dump (ae_dump (sv_ae sv)) sb (sx_dumps sx) of
                         (Some e, dk) \<Rightarrow> (Some e, sx\<lparr>sx_dumps := dk\<rparr>)
                       | (None, dk) \<Rightarrow> (None, put_sandbox i sb (sx\<lparr>sx_dumps := dk\<rparr>))))))"

text \<open>What \<open>destroy_sandbox\<close> gives back to the pool; nothing goes back to the continuation store.\<close>

definition destroy_release ::
  "('v, 'c) delete_env \<Rightarrow> string \<Rightarrow> 'v kuasar_sandbox \<Rightarrow> ('v, 'c) sandboxer \<Rightarrow> ('v, 'c) sandboxer" where
  "destroy_release de tid sb sx =
     (case rm_template_snapshot_type (sb_restore sb) of
        Some Environment \<Rightarrow>
          (if \<not> (rm_memory_restore_mode (sb_restore sb) = Some Copy \<or> rm_memory_restore_mode (sb_restore sb) = None)
           then upd_pool (\<lambda>p. snd (deref (de_ph de) tid p)) sx else sx)
      | Some WarmFork \<Rightarrow>
          (case rm_lease_mode (sb_restore sb) of
             Some Exclusive \<Rightarrow> upd_pool (cleanup_consumed (de_ph de) tid) sx
           | Some Shared \<Rightarrow> upd_pool (\<lambda>p. snd (deref (de_ph de) tid p)) sx
           | None \<Rightarrow> upd_pool (cleanup_consumed (de_ph de) tid) sx)
      | Some Continuation \<Rightarrow> sx
      | None \<Rightarrow> upd_pool (cleanup_consumed (de_ph de) tid) sx)"

definition destroy_sandbox ::
  "'v vm_ops \<Rightarrow> ('v, 'c) service_env \<Rightarrow> string \<Rightarrow> ('v, 'c) sandboxer \<Rightarrow> sb_error option \<times> ('v, 'c) sandboxer" where
  "destroy_sandbox vo sv i sx =
     (let de = sv_de sv in
      case hm_get (sx_sandboxes sx) i of
        None \<Rightarrow> (Some (OtherError ''sandbox not found''), sx)
      | Some sb \<Rightarrow>
          (case sandbox_stop vo (de_he de) (de_dump de) True (sb, sx_dumps sx) of
             (Some e, sb1, dk) \<Rightarrow> (Some (OtherError ''stop sandbox''), put_sandbox i sb1 (sx\<lparr>sx_dumps := dk\<rparr>))
           | (None, sb1, dk) \<Rightarrow>
               (let sx1 = put_sandbox i sb1 (sx\<lparr>sx_dumps := dk\<rparr>);
                    sx2 = (if sv_cgroup_parent sv \<and> \<not> de_cgroup2 de \<and> de_cgroup_remove de
                           then sx1\<lparr>sx_cgroups := removeAll i (sx_cgroups sx1)\<rparr> else sx1)
                in
                if \<not> de_cleanup_mounts de then (Some (OtherError ''cleanup_mounts''), sx2)
                else if de_remove_base de = Some IoFault then (Some (OtherError ''remove sandbox dir''), sx2)
                else
                  (let sx3 = sx2\<lparr>sx_dumps := hm_remove (sb_base_dir sb) (sx_dumps sx2)\<rparr>;
                       sx4 = (case rm_template_id (sb_restore sb) of
                                None \<Rightarrow> sx3
                              | Some tid \<Rightarrow> destroy_release de tid sb sx3)
                   in (None, sx4\<lparr>sx_sandboxes := hm_remove i (sx_sandboxes sx4)\<rparr>)))))"

section \<open>Restoring a sandbox of the service\<close>

definition service_note ::
  "pooled_template \<Rightarrow> lease_mode \<Rightarrow> bool \<Rightarrow> 'v kuasar_sandbox \<Rightarrow> 'v kuasar_sandbox" where
  "service_note t mode reflink sb =
     sb\<lparr>sb_restore := (sb_restore sb)\<lparr>rm_template_id := Some (pt_id t),
          rm_template_snapshot_type := Some (pt_snapshot_type t), rm_lease_mode := Some mode,
          rm_reflink_supported := Some reflink\<rparr>, sb_id_generator := of_nat (pt_id_generator t)\<rparr>"

definition service_source ::
  "snapshot_config \<Rightarrow> pooled_template \<Rightarrow> lease_mode \<Rightarrow> bool \<Rightarrow> warm_fork_params option \<Rightarrow> string \<Rightarrow> 'v kuasar_sandbox
   \<Rightarrow> restore_source" where
  "service_source c t mode reflink params i sb =
     \<lparr>rs_snapshot_dir = pt_snapshot_dir t, rs_work_dir = sb_base_dir sb @ ''/restore'',
      rs_overrides = from_original (sb_base_dir sb) (pt_original_task_vsock t) i,
      rs_snapshot_type = pt_snapshot_type t, rs_disk_images = pt_disk_images t, rs_storages = pt_storages t,
      rs_orphan_container_ids = pt_orphan_container_ids t, rs_memory_restore_mode = default_memory_restore_mode c,
      rs_reflink_supported = reflink, rs_lease_mode = mode, rs_warm_fork_params = params\<rparr>"

text \<open>
  The part the two restores share: the restore itself, the control group, the record on disk. After a
  failure the record of the template is cleared, the machine is stopped, and the network is given up if
  the restore had prepared it.
\<close>

definition service_restore ::
  "'v vm_ops \<Rightarrow> snapshot_config \<Rightarrow> ('v, 'c) service_env \<Rightarrow> pooled_template \<Rightarrow> lease_mode \<Rightarrow> bool \<Rightarrow> warm_fork_params option
   \<Rightarrow> ('v kuasar_sandbox \<Rightarrow> 'v kuasar_sandbox) \<Rightarrow> string \<Rightarrow> 'v kuasar_sandbox \<Rightarrow> ('v, 'c) sandboxer
   \<Rightarrow> sb_error option \<times> ('v, 'c) sandboxer" where
  "service_restore vo c sv t mode reflink params give_up i sb sx =
     (let ae = sv_ae sv;
          undo = (\<lambda>e sb dk. case sandbox_stop vo (ae_he ae) (ae_dump ae) True (clear_template_restore_state sb, dk) of
                    (_, sb', dk') \<Rightarrow> (Some e, put_sandbox i (give_up sb') (sx\<lparr>sx_dumps := dk'\<rparr>)))
      in
      case sandbox_start_from_snapshot vo (ae_he ae) (ae_ga ae) (service_source c t mode reflink params i sb)
             (service_note t mode reflink sb) of
        (Some e, sb1) \<Rightarrow> (Some e, put_sandbox i (give_up (clear_template_restore_state sb1)) sx)
      | (None, sb1) \<Rightarrow>
          (case (if sv_cgroup_parent sv then add_to_cgroup ae sb1 else None) of
             Some e \<Rightarrow> undo e sb1 (sx_dumps sx)
           | None \<Rightarrow>
               (case dump (ae_dump ae) sb1 (sx_dumps sx) of
                  (Some e, dk) \<Rightarrow> undo e sb1 dk
                | (None, dk) \<Rightarrow> (None, put_sandbox i sb1 (sx\<lparr>sx_dumps := dk\<rparr>)))))"

text \<open>A restore under a lease: the network, the restore, and the end of the lease.\<close>

definition service_params :: "pooled_template \<Rightarrow> warm_fork_params" where
  "service_params t =
     \<lparr>wp_task_id = None, wp_targets = pt_warm_fork_targets t, wp_prepare_timeout_ms = 10000, wp_commit_timeout_ms = 5000\<rparr>"

definition service_warm_fork ::
  "'v vm_ops \<Rightarrow> snapshot_config \<Rightarrow> ('v, 'c) service_env \<Rightarrow> pooled_template \<Rightarrow> template_lease \<Rightarrow> lease_mode \<Rightarrow> bool
   \<Rightarrow> string \<Rightarrow> 'v kuasar_sandbox \<Rightarrow> ('v, 'c) sandboxer \<Rightarrow> (sb_error + string) \<times> ('v, 'c) sandboxer" where
  "service_warm_fork vo c sv t l mode reflink i sb sx =
     (let ae = sv_ae sv; fail = (\<lambda>e sx. (Inl e, upd_pool (\<lambda>p. snd (lease_fail (ae_ph ae) l p)) sx)) in
      case (if sd_netns (sb_data sb) \<noteq> [] then ae_prepare_network ae sb else (None, sb)) of
        (Some e, sb1) \<Rightarrow> fail e (put_sandbox i (destroy_network sb1) sx)
      | (None, sb1) \<Rightarrow>
          (case service_restore vo c sv t mode reflink (Some (service_params t)) destroy_network i sb1 sx of
             (Some e, sx1) \<Rightarrow> fail e sx1
           | (None, sx1) \<Rightarrow> (Inr (pt_id t), upd_pool (\<lambda>p. snd (lease_complete (ae_ph ae) l p)) sx1)))"

definition restore_sandbox_warm_fork ::
  "'v vm_ops \<Rightarrow> snapshot_config \<Rightarrow> ('v, 'c) service_env \<Rightarrow> string \<Rightarrow> string option \<Rightarrow> string option \<Rightarrow> ('v, 'c) sandboxer
   \<Rightarrow> (sb_error + string) \<times> ('v, 'c) sandboxer" where
  "restore_sandbox_warm_fork vo c sv i key template_id sx =
     (case hm_get (sx_sandboxes sx) i of
        None \<Rightarrow> (Inl (OtherError ''sandbox not found''), sx)
      | Some sb \<Rightarrow>
          (if sb_status sb \<noteq> Created then (Inl (OtherError ''restore requires Created state''), sx)
           else (case sx_pool sx of
             None \<Rightarrow> (Inl (OtherError ''template pool not configured''), sx)
           | Some p \<Rightarrow>
               (let (acquired, p1) = (case (template_id, key) of
                        (Some tid, _) \<Rightarrow> acquire_by_id_for_restore (ae_ph (sv_ae sv)) tid p
                      | (None, Some k) \<Rightarrow> acquire_for_restore (ae_ph (sv_ae sv)) (user_key k) p
                      | (None, None) \<Rightarrow> (Inl Unreachable, p));
                    sx1 = sx\<lparr>sx_pool := Some p1\<rparr>
                in
                case acquired of
                  Inl _ \<Rightarrow> (Inl (OtherError ''unreachable''), sx1)
                | Inr None \<Rightarrow> (Inl (OtherError ''WarmFork template not available for restore''), sx1)
                | Inr (Some t) \<Rightarrow>
                    (if pt_snapshot_type t \<noteq> WarmFork then (Inl (OtherError ''expected warm_fork''), sx1)
                     else (case template_lease_new p1 t of
                             Inl _ \<Rightarrow> (Inl (OtherError ''unreachable''), sx1)
                           | Inr l \<Rightarrow>
                               (if template_id \<noteq> None \<and> (case key of None \<Rightarrow> False | Some k \<Rightarrow> pt_key t \<noteq> user_key k)
                                then (Inl (OtherError ''key does not match requested key''),
                                      upd_pool (\<lambda>p. snd (lease_fail (ae_ph (sv_ae sv)) l p)) sx1)
                                else service_warm_fork vo c sv t l (pool_lease_mode p1) (reflink_supported p1) i sb sx1)))))))"

definition restore_sandbox_continuation ::
  "'v vm_ops \<Rightarrow> snapshot_config \<Rightarrow> ('v, 'c) service_env \<Rightarrow> string \<Rightarrow> workload_identity \<Rightarrow> ('v, 'c) sandboxer
   \<Rightarrow> (sb_error + string) \<times> ('v, 'c) sandboxer" where
  "restore_sandbox_continuation vo c sv i w sx =
     (case hm_get (sx_sandboxes sx) i of
        None \<Rightarrow> (Inl (OtherError ''sandbox not found''), sx)
      | Some sb \<Rightarrow>
          (if sb_status sb \<noteq> Created then (Inl (OtherError ''restore requires Created state''), sx)
           else (case sx_store sx of
             None \<Rightarrow> (Inl (OtherError ''continuation store not configured''), sx)
           | Some s \<Rightarrow>
               (case cont_acquire (ae_ch (sv_ae sv)) w s of
                  (None, s1) \<Rightarrow> (Inl (OtherError ''no continuation snapshot available''), sx\<lparr>sx_store := Some s1\<rparr>)
                | (Some l, s1) \<Rightarrow>
                    (let sx1 = sx\<lparr>sx_store := Some s1\<rparr> in
                     case cl_tmpl l of
                       None \<Rightarrow> (Inl (OtherError ''lease consumed''), sx1)
                     | Some t \<Rightarrow>
                         (let reflink = (case sx_pool sx1 of None \<Rightarrow> False | Some p \<Rightarrow> reflink_supported p) in
                          case service_restore vo c sv (t\<lparr>pt_snapshot_type := Continuation\<rparr>) Exclusive reflink None id i sb sx1 of
                            (Some e, sx2) \<Rightarrow> (Inl e, upd_store (cont_lease_fail (ae_ch (sv_ae sv)) l) sx2)
                          | (None, sx2) \<Rightarrow> (Inr (pt_id t), upd_store (cont_lease_complete l) sx2)))))))"

section \<open>Handlers\<close>

text \<open>A handler yields the error of \<open>anyhow\<close>, or the reply it formed itself.\<close>

type_synonym ('v, 'c) handled = "(string + json) \<times> ('v, 'c) sandboxer"

definition request_generation :: "json \<Rightarrow> string + nat" where
  "request_generation req =
     (case as_u64 (jindex req ''generation'') of
        None \<Rightarrow> Inr 0
      | Some v \<Rightarrow> (if v \<le> u32_max then Inr v else Inl ''generation exceeds u32::MAX''))"

text \<open>What a request to create a template asks for: the kind, the pool key and the identity of the workload.\<close>

definition template_create_target ::
  "json \<Rightarrow> string + snapshot_type \<times> string \<times> workload_identity option" where
  "template_create_target req =
     (let kind = (case as_str (jindex req ''snapshot_type'') of Some s \<Rightarrow> s | None \<Rightarrow> ''warm_fork'') in
      if kind = ''continuation'' then
        (case as_str (jindex req ''pod_uid'') of
           None \<Rightarrow> Inl ''snapshot_type=continuation requires pod_uid''
         | Some uid \<Rightarrow>
             (if uid = [] then Inl ''pod_uid must not be empty''
              else (case request_generation req of
                      Inl e \<Rightarrow> Inl e
                    | Inr g \<Rightarrow> Inr (Continuation, uid, Some \<lparr>pod_uid = uid, generation = g\<rparr>))))
      else if kind = ''warm_fork'' then
        (case as_str (jindex req ''key'') of
           None \<Rightarrow> Inl ''missing key: WarmFork snapshots require a pool key''
         | Some k \<Rightarrow> (case validate_key k of Some e \<Rightarrow> Inl e | None \<Rightarrow> Inr (WarmFork, k, None)))
      else Inl ''unsupported snapshot_type; use warm_fork or continuation'')"

definition request_id :: "json \<Rightarrow> string \<Rightarrow> string + string" where
  "request_id req field =
     (case as_str (jindex req field) of
        None \<Rightarrow> Inl (''missing '' @ field)
      | Some i \<Rightarrow> (case validate_id i of Some e \<Rightarrow> Inl (''invalid '' @ field @ '': '' @ e) | None \<Rightarrow> Inr i))"

definition handle_template_create ::
  "factory \<Rightarrow> ('v, 'c) service_env \<Rightarrow> json \<Rightarrow> ('v, 'c) sandboxer \<Rightarrow> ('v, 'c) handled" where
  "handle_template_create fa sv req sx =
     (case request_id req ''sandbox_id'' of
        Inl e \<Rightarrow> (Inl e, sx)
      | Inr i \<Rightarrow>
          (case template_create_target req of
             Inl e \<Rightarrow> (Inl e, sx)
           | Inr (kind, key, wi) \<Rightarrow>
               (case validate_id (sv_template_id sv) of
                  Some e \<Rightarrow> (Inl e, sx)
                | None \<Rightarrow>
                    (case create_from_sandbox fa sv i (sv_template_id sv) key kind wi sx of
                       (Inl e, sx1) \<Rightarrow> (Inl (err_text e), sx1)
                     | (Inr t, sx1) \<Rightarrow>
                         (Inr (reply_ok [(''template_id'', JString (pt_id t)), (''key'', JString (tk_key (pt_key t))),
                            (''snapshot_type'', JString (snapshot_type_str (pt_snapshot_type t)))]), sx1)))))"

definition optional_checked :: "(string \<Rightarrow> string option) \<Rightarrow> json \<Rightarrow> string + string option" where
  "optional_checked validate v =
     (case as_str v of
        None \<Rightarrow> Inr None
      | Some s \<Rightarrow> (case validate s of Some e \<Rightarrow> Inl e | None \<Rightarrow> Inr (Some s)))"

text \<open>The slot, then the restore into it; a restore that fails leaves the slot behind.\<close>

definition run_in_slot ::
  "factory \<Rightarrow> string \<Rightarrow> ('v, 'c) service_env \<Rightarrow> (string \<Rightarrow> ('v, 'c) sandboxer \<Rightarrow> (sb_error + string) \<times> ('v, 'c) sandboxer)
   \<Rightarrow> ('v, 'c) sandboxer \<Rightarrow> ('v, 'c) handled" where
  "run_in_slot fa base sv restore sx =
     (case create_sandbox_slot fa base sv (sv_sandbox_id sv) sx of
        (Some e, sx1) \<Rightarrow> (Inl (''create sandbox slot: '' @ err_text e), sx1)
      | (None, sx1) \<Rightarrow>
          (case restore (sv_sandbox_id sv) sx1 of
             (Inl e, sx2) \<Rightarrow> (Inl (err_text e), sx2)
           | (Inr tid, sx2) \<Rightarrow>
               (Inr (reply_ok [(''sandbox_id'', JString (sv_sandbox_id sv)), (''template_id'', JString tid)]), sx2)))"

definition truncated_generation :: "json \<Rightarrow> nat" where
  "truncated_generation req =
     unat (of_nat (case as_u64 (jindex req ''generation'') of None \<Rightarrow> 0 | Some v \<Rightarrow> v) :: 32 word)"

definition handle_sandbox_run ::
  "'v vm_ops \<Rightarrow> snapshot_config \<Rightarrow> factory \<Rightarrow> string \<Rightarrow> ('v, 'c) service_env \<Rightarrow> json \<Rightarrow> ('v, 'c) sandboxer \<Rightarrow> ('v, 'c) handled" where
  "handle_sandbox_run vo c fa base sv req sx =
     (let kind = (case Option.bind (jget req ''snapshot_type'') as_str of Some s \<Rightarrow> s | None \<Rightarrow> []) in
      if kind = ''warm_fork'' then
        (if Option.bind (jget req ''pod_uid'') as_str \<noteq> None \<or> jget req ''generation'' \<noteq> None
         then (Inr (reply_err ''snapshot_type=warm_fork does not accept pod_uid or generation''), sx)
         else (case optional_checked validate_key (jindex req ''template_key'') of
           Inl e \<Rightarrow> (Inl e, sx)
         | Inr key \<Rightarrow>
             (case optional_checked validate_id (jindex req ''template_id'') of
                Inl e \<Rightarrow> (Inl e, sx)
              | Inr template_id \<Rightarrow>
                  (if key = None \<and> template_id = None
                   then (Inr (reply_err ''snapshot_type=warm_fork requires at least one of: key, template_id''), sx)
                   else run_in_slot fa base sv (\<lambda>i. restore_sandbox_warm_fork vo c sv i key template_id) sx))))
      else if kind = ''continuation'' then
        (if Option.bind (jget req ''template_id'') as_str \<noteq> None \<or> Option.bind (jget req ''template_key'') as_str \<noteq> None
         then (Inr (reply_err ''snapshot_type=continuation only accepts pod_uid and generation''), sx)
         else (case as_str (jindex req ''pod_uid'') of
           None \<Rightarrow> (Inr (reply_err ''snapshot_type=continuation requires pod_uid''), sx)
         | Some uid \<Rightarrow>
             run_in_slot fa base sv (\<lambda>i. restore_sandbox_continuation vo c sv i
               \<lparr>pod_uid = uid, generation = truncated_generation req\<rparr>) sx))
      else (Inr (reply_err ''unknown snapshot_type; valid values: warm_fork, continuation''), sx))"

definition handle_sandbox_destroy ::
  "'v vm_ops \<Rightarrow> ('v, 'c) service_env \<Rightarrow> json \<Rightarrow> ('v, 'c) sandboxer \<Rightarrow> ('v, 'c) handled" where
  "handle_sandbox_destroy vo sv req sx =
     (case request_id req ''sandbox_id'' of
        Inl e \<Rightarrow> (Inl e, sx)
      | Inr i \<Rightarrow>
          (case resolve_sandbox_id (sx_sandboxes sx) i of
             Inl e \<Rightarrow> (Inl e, sx)
           | Inr full_id \<Rightarrow>
               (case destroy_sandbox vo sv full_id sx of
                  (Some e, sx1) \<Rightarrow> (Inl (err_text e), sx1)
                | (None, sx1) \<Rightarrow> (Inr (reply_ok [(''sandbox_id'', JString full_id)]), sx1))))"

subsection \<open>Reports\<close>

definition handle_sandbox_list :: "('v, 'c) sandboxer \<Rightarrow> string + json" where
  "handle_sandbox_list sx =
     Inr (reply_ok [(''sandboxes'', JArray (map (\<lambda>(i, sb). JObject
       [(''id'', JString i), (''status'', JString (sandbox_status_str (sb_status sb))),
        (''base_dir'', JString (sb_base_dir sb)), (''template_id'', jopt JString (rm_template_id (sb_restore sb))),
        (''template_snapshot_type'', jopt (\<lambda>k. JString (snapshot_type_str k)) (rm_template_snapshot_type (sb_restore sb)))])
       (sx_sandboxes sx)))])"

definition handle_sandbox_get :: "json \<Rightarrow> ('v, 'c) sandboxer \<Rightarrow> string + json" where
  "handle_sandbox_get req sx =
     (case request_id req ''sandbox_id'' of
        Inl e \<Rightarrow> Inl e
      | Inr i \<Rightarrow>
          (case resolve_sandbox_id (sx_sandboxes sx) i of
             Inl e \<Rightarrow> Inl e
           | Inr full_id \<Rightarrow>
               (case hm_get (sx_sandboxes sx) full_id of
                  None \<Rightarrow> Inl ''sandbox not found''
                | Some sb \<Rightarrow> Inr (reply_ok
                    [(''id'', JString (sb_id sb)), (''status'', JString (sandbox_status_str (sb_status sb))),
                     (''base_dir'', JString (sb_base_dir sb)), (''template_id'', jopt JString (rm_template_id (sb_restore sb))),
                     (''template_snapshot_type'',
                        jopt (\<lambda>k. JString (snapshot_type_str k)) (rm_template_snapshot_type (sb_restore sb))),
                     (''lease_mode'', jopt (\<lambda>m. JString (lease_mode_display m)) (rm_lease_mode (sb_restore sb))),
                     (''memory_restore_mode'',
                        jopt (\<lambda>m. JString (memory_restore_mode_debug m)) (rm_memory_restore_mode (sb_restore sb)))]))))"

definition continuations :: "('v, 'c) service_env \<Rightarrow> ('v, 'c) sandboxer \<Rightarrow> pooled_template list" where
  "continuations sv sx = (case sx_store sx of None \<Rightarrow> [] | Some s \<Rightarrow> cont_list (ae_ch (sv_ae sv)) s)"

definition jrows :: "string \<Rightarrow> string \<Rightarrow> (string \<times> nat) list \<Rightarrow> json" where
  "jrows a b xs = JArray (map (\<lambda>(k, n). JObject [(a, JString k), (b, JNumber n)]) xs)"

definition handle_pool_status :: "('v, 'c) service_env \<Rightarrow> ('v, 'c) sandboxer \<Rightarrow> string + json" where
  "handle_pool_status sv sx =
     (case sx_pool sx of
        None \<Rightarrow> Inl ''template pool not configured''
      | Some p \<Rightarrow> Inr (reply_ok
          [(''total'', JNumber (total_depth p)), (''by_type'', jrows ''type'' ''count'' (depth_by_type p)),
           (''continuation'', JNumber (length (continuations sv sx))), (''keys'', JNumber (key_count p)),
           (''in_flight'', JNumber (in_flight_count p)), (''by_key'', jrows ''key'' ''depth'' (depth_by_key p)),
           (''active_shared_refs'', jrows ''template_id'' ''refs'' (active_shared_refs p)),
           (''in_flight_restores'', jrows ''template_id'' ''count'' (in_flight_restores_by_template p)),
           (''gc_blocked'', JArray (map (\<lambda>(i, r). JObject [(''template_id'', JString i), (''reason'', JString r)])
              (gc_blocked_templates p))),
           (''templates_created'', JNumber (unat (templates_created (metrics p)))),
           (''pool_hits'', JNumber (unat (pool_hits (metrics p)))),
           (''pool_misses'', JNumber (unat (pool_misses (metrics p))))]))"

definition handle_template_list :: "('v, 'c) service_env \<Rightarrow> ('v, 'c) sandboxer \<Rightarrow> string + json" where
  "handle_template_list sv sx =
     Inr (reply_ok [(''templates'', JArray (map template_json (sort_key pt_id
       ((case sx_pool sx of None \<Rightarrow> [] | Some p \<Rightarrow> list_templates p) @ continuations sv sx))))])"

definition handle_template_get :: "('v, 'c) service_env \<Rightarrow> json \<Rightarrow> ('v, 'c) sandboxer \<Rightarrow> string + json" where
  "handle_template_get sv req sx =
     (case request_id req ''template_id'' of
        Inl e \<Rightarrow> Inl e
      | Inr tid \<Rightarrow>
          (case (case sx_pool sx of None \<Rightarrow> None | Some p \<Rightarrow> get_template tid p) of
             Some t \<Rightarrow> Inr (reply_ok [(''template'', template_json t)])
           | None \<Rightarrow>
               (case find (\<lambda>t. pt_id t = tid) (continuations sv sx) of
                  Some t \<Rightarrow> Inr (reply_ok [(''template'', template_json t)])
                | None \<Rightarrow> Inl ''template not found'')))"

definition handle_continuation_list :: "('v, 'c) service_env \<Rightarrow> ('v, 'c) sandboxer \<Rightarrow> string + json" where
  "handle_continuation_list sv sx =
     (case sx_store sx of
        None \<Rightarrow> Inl ''continuation store not configured''
      | Some s \<Rightarrow> Inr (reply_ok [(''entries'', JArray (map (\<lambda>t.
          (let (uid, g) = (case pt_workload_identity t of Some w \<Rightarrow> (pod_uid w, generation w) | None \<Rightarrow> ([], 0)) in
           JObject [(''template_id'', JString (pt_id t)), (''pod_uid'', JString uid), (''generation'', JNumber g),
             (''created_at_secs'', JNumber (pt_created_at_secs t)), (''snapshot_dir'', JString (pt_snapshot_dir t))]))
          (cont_list (ae_ch (sv_ae sv)) s)))]))"

subsection \<open>The pool and the store\<close>

text \<open>
  A refill counts the templates it starts to build before it answers; each of them is built by a worker of
  its own. The number requested is read as \<open>usize\<close>, 64 bits.
\<close>

definition refill_need :: "nat \<Rightarrow> template_key \<Rightarrow> 'c pool \<Rightarrow> nat" where
  "refill_need target k p = target - min u64_max (depth k p + in_flight_count_for_key k p)"

definition handle_pool_refill :: "factory \<Rightarrow> json \<Rightarrow> ('v, 'c) sandboxer \<Rightarrow> ('v, 'c) handled" where
  "handle_pool_refill fa req sx =
     (case sx_pool sx of
        None \<Rightarrow> (Inl ''template pool not configured'', sx)
      | Some p \<Rightarrow>
          (case as_str (jindex req ''kind'') of
             None \<Rightarrow> (Inr (reply_err ''missing required field kind''), sx)
           | Some kind \<Rightarrow>
               (let target = (case as_u64 (jindex req ''target_depth'') of None \<Rightarrow> 1 | Some v \<Rightarrow> v) in
                if kind = ''environment'' then
                  (let k = environment_key fa; need = refill_need target k p; p1 = (begin_refill k ^^ need) p in
                   (Inr (reply_ok [(''kind'', JString ''environment''), (''queued'', JNumber need),
                      (''in_flight'', JNumber (in_flight_count_for_key k p1))]), sx\<lparr>sx_pool := Some p1\<rparr>))
                else (Inr (reply_err ''refill only supports kind=environment''), sx))))"

definition handle_pool_gc :: "('v, 'c) service_env \<Rightarrow> json \<Rightarrow> ('v, 'c) sandboxer \<Rightarrow> ('v, 'c) handled" where
  "handle_pool_gc sv req sx =
     (case sx_pool sx of
        None \<Rightarrow> (Inl ''template pool not configured'', sx)
      | Some p \<Rightarrow>
          (case (as_str (jindex req ''kind''), as_str (jindex req ''template_id'')) of
             (None, _) \<Rightarrow> (Inr (reply_err ''missing required field kind''), sx)
           | (Some _, None) \<Rightarrow> (Inr (reply_err ''missing required field template_id''), sx)
           | (Some kind, Some tid) \<Rightarrow>
               (if kind = ''continuation''
                then (Inr (reply_err ''Continuation snapshots are managed by the continuation store''), sx)
                else (case (if kind = ''environment'' then Some Environment
                            else if kind = ''warm_fork'' then Some WarmFork else None) of
                  None \<Rightarrow> (Inr (reply_err ''unknown kind; use environment or warm_fork''), sx)
                | Some expected \<Rightarrow>
                    (case remove_by_id (ae_ph (sv_ae sv)) tid expected p of
                       (Inl _, p1) \<Rightarrow> (Inr (reply_err ''template cannot be removed''), sx\<lparr>sx_pool := Some p1\<rparr>)
                     | (Inr False, p1) \<Rightarrow> (Inr (reply_err ''template not found in pool''), sx\<lparr>sx_pool := Some p1\<rparr>)
                     | (Inr True, p1) \<Rightarrow>
                         (Inr (reply_ok [(''kind'', JString kind), (''removed'', JNumber 1),
                            (''remaining'', JNumber (total_depth p1))]), sx\<lparr>sx_pool := Some p1\<rparr>))))))"

definition handle_continuation_delete :: "('v, 'c) service_env \<Rightarrow> json \<Rightarrow> ('v, 'c) sandboxer \<Rightarrow> ('v, 'c) handled" where
  "handle_continuation_delete sv req sx =
     (case sx_store sx of
        None \<Rightarrow> (Inl ''continuation store not configured'', sx)
      | Some s \<Rightarrow>
          (case as_str (jindex req ''pod_uid'') of
             None \<Rightarrow> (Inl ''missing pod_uid'', sx)
           | Some uid \<Rightarrow>
               (case request_generation req of
                  Inl e \<Rightarrow> (Inl e, sx)
                | Inr g \<Rightarrow>
                    (case cont_delete (ae_ch (sv_ae sv)) \<lparr>pod_uid = uid, generation = g\<rparr> s of
                       (Inl _, s1) \<Rightarrow> (Inl ''delete continuation'', sx\<lparr>sx_store := Some s1\<rparr>)
                     | (Inr removed, s1) \<Rightarrow>
                         (Inr (reply_ok [(''removed'', JBool removed), (''pod_uid'', JString uid), (''generation'', JNumber g)]),
                          sx\<lparr>sx_store := Some s1\<rparr>)))))"

section \<open>Connections\<close>

definition dispatch ::
  "'v vm_ops \<Rightarrow> snapshot_config \<Rightarrow> factory \<Rightarrow> string \<Rightarrow> ('v, 'c) service_env \<Rightarrow> json \<Rightarrow> ('v, 'c) sandboxer \<Rightarrow> ('v, 'c) handled" where
  "dispatch vo c fa base sv req sx =
     (let action = (case as_str (jindex req ''action'') of Some a \<Rightarrow> a | None \<Rightarrow> []);
          (category, verb) = (case split_once (CHR ''-'') action of Some cv \<Rightarrow> cv | None \<Rightarrow> (action, []))
      in
      if category = ''sandbox'' then
        (if verb = ''run'' then handle_sandbox_run vo c fa base sv req sx
         else if verb = ''destroy'' then handle_sandbox_destroy vo sv req sx
         else if verb = ''list'' then (handle_sandbox_list sx, sx)
         else if verb = ''get'' then (handle_sandbox_get req sx, sx)
         else (Inl ''unknown sandbox action'', sx))
      else if category = ''template'' then
        (if verb = ''create'' then handle_template_create fa sv req sx
         else if verb = ''list'' then (handle_template_list sv sx, sx)
         else if verb = ''get'' then (handle_template_get sv req sx, sx)
         else (Inl ''unknown template action'', sx))
      else if category = ''pool'' then
        (if verb = ''status'' then (handle_pool_status sv sx, sx)
         else if verb = ''refill'' then handle_pool_refill fa req sx
         else if verb = ''gc'' then handle_pool_gc sv req sx
         else (Inl ''unknown pool action'', sx))
      else if category = ''continuation'' then
        (if verb = ''list'' then (handle_continuation_list sv sx, sx)
         else if verb = ''delete'' then handle_continuation_delete sv req sx
         else (Inl ''unknown continuation action'', sx))
      else (Inl ''unknown action'', sx))"

text \<open>
  One connection carries one request: the first line, parsed by \<open>from_str\<close>. Without a line, or with a line
  that is no JSON, there is no reply.
\<close>

definition handle_connection ::
  "(string \<Rightarrow> json option) \<Rightarrow> 'v vm_ops \<Rightarrow> snapshot_config \<Rightarrow> factory \<Rightarrow> string \<Rightarrow> ('v, 'c) service_env \<Rightarrow> string option
   \<Rightarrow> ('v, 'c) sandboxer \<Rightarrow> json option \<times> ('v, 'c) sandboxer" where
  "handle_connection from_str vo c fa base sv line sx =
     (case Option.bind line from_str of
        None \<Rightarrow> (None, sx)
      | Some req \<Rightarrow>
          (case dispatch vo c fa base sv req sx of
             (Inl e, sx1) \<Rightarrow> (Some (reply_err e), sx1)
           | (Inr reply, sx1) \<Rightarrow> (Some reply, sx1)))"

end
