(* ===== verification/Service_Inv.thy ===== *)
theory Service_Inv
  imports Service
begin

text \<open>
  The service and the accounts of the sandboxer: no request, whatever it asks and whatever fails while it is
  served, unbalances them. The requests of the service and the steps of the sandboxer together form the
  transition system of the whole process.
\<close>

section \<open>The accounts over the handlers\<close>

interpretation des: template_release destroy_release
proof
  fix de :: "('v, 'c) delete_env" and tid and sb :: "'v kuasar_sandbox" and sx :: "('v, 'c) sandboxer"
  have eq: "destroy_release de tid sb sx =
      (if rm_template_snapshot_type (sb_restore sb) = Some Continuation then sx else release_template de tid sb sx)"
    by (cases sx) (auto simp: destroy_release_def release_template_def upd_pool_def
        split: option.split snapshot_type.split lease_mode.split)
  show "sx_sandboxes (destroy_release de tid sb sx) = sx_sandboxes sx"
    by (simp add: eq del.same_sandboxes)
  show "sx_pool (destroy_release de tid sb sx) = map_option (\<lambda>p. snd (deref (de_ph de) tid p)) (sx_pool sx)"
    if "pin_of sb = Some tid"
    using pinned_kind [OF that] del.unpins [OF that] by (auto simp: eq)
  show "quiet_pool (sx_pool sx) (sx_pool (destroy_release de tid sb sx))"
    if "rm_template_id (sb_restore sb) = Some tid" "pin_of sb = None"
    using del.unpinned [OF that, of sx de] by (simp add: eq)
qed

lemma hm_remove_insert: "hm_remove k (hm_insert k v m) = hm_remove k m"
  by (induction m) auto

lemma destroy_ledger:
  assumes led: "ledger sx ls" and h: "residue_ok (de_ph (sv_de sv))"
  shows "ledger (snd (destroy_sandbox vo sv i sx)) ls"
proof (cases "hm_get (sx_sandboxes sx) i")
  case (Some sb)
  let ?de = "sv_de sv"
  obtain r1 sb1 dk where 1: "sandbox_stop vo (de_he ?de) (de_dump ?de) True (sb, sx_dumps sx) = (r1, sb1, dk)"
    by (metis prod_cases3)
  have m: "pin_meta sb1 = pin_meta sb" using stop_unrestored [OF 1] .
  have put: "ledger sx' ls" if "sx_sandboxes sx' = hm_insert i sb1 (sx_sandboxes sx)" "sx_pool sx' = sx_pool sx" for sx'
    using ledger_same [OF ledger_keep [OF led Some, of sb1 "put_sandbox i sb1 sx"], of sx'] m that
    by (simp add: only_sandbox_def)
  have gone: "ledger (sx5\<lparr>sx_sandboxes := hm_remove i (sx_sandboxes sx5)\<rparr>) ls"
    if sx3: "sx_sandboxes sx3 = hm_insert i sb1 (sx_sandboxes sx)" "sx_pool sx3 = sx_pool sx"
      and sx5: "sx5 = (case rm_template_id (sb_restore sb) of None \<Rightarrow> sx3 | Some tid \<Rightarrow> destroy_release ?de tid sb sx3)"
    for sx3 sx5
  proof -
    let ?sx = "sx3\<lparr>sx_sandboxes := hm_insert i sb (sx_sandboxes sx)\<rparr>"
    have swap: "destroy_release ?de tid sb (sx3\<lparr>sx_sandboxes := m\<rparr>) = (destroy_release ?de tid sb sx3)\<lparr>sx_sandboxes := m\<rparr>"
      for tid m
      by (simp add: destroy_release_def upd_pool_def split: option.split snapshot_type.split lease_mode.split)
    have "ledger ?sx ls"
      by (rule ledger_same [OF ledger_keep [OF led Some, of sb "put_sandbox i sb sx"]])
        (simp_all add: only_sandbox_def sx3)
    from des.released_ledger [OF this _ h, of i sb]
    have "ledger ((des.released ?de sb ?sx)\<lparr>sx_sandboxes := hm_remove i (sx_sandboxes sx)\<rparr>) ls"
      by (simp add: hm_remove_insert)
    moreover have "(des.released ?de sb ?sx)\<lparr>sx_sandboxes := hm_remove i (sx_sandboxes sx)\<rparr> =
        sx5\<lparr>sx_sandboxes := hm_remove i (sx_sandboxes sx)\<rparr>"
      by (simp add: des.released_def sx5 swap split: option.split)
    moreover have "sx_sandboxes sx5 = sx_sandboxes sx3" by (simp add: sx5 des.same_sandboxes split: option.split)
    ultimately show ?thesis using sx3(1) by (simp add: hm_remove_insert)
  qed
  show ?thesis
    unfolding destroy_sandbox_def Let_def
    by (cases r1) (simp_all add: Some 1 put gone [OF _ _ refl])
qed (use led in \<open>simp add: destroy_sandbox_def\<close>)

lemma slot_out:
  assumes "create_sandbox_slot fa base sv i sx = (r, sx')"
  obtains (failed) e where "r = Some e" "sx_sandboxes sx' = sx_sandboxes sx" "sx_pool sx' = sx_pool sx"
  | (made) sb where "r = None" "only_sandbox i sb sx sx'" "sx_pool sx' = sx_pool sx" "unrestored sb"
      "hm_get (sx_sandboxes sx) i = None" "sb_status sb = Created"
proof (cases r)
  case None
  obtain sb where "only_sandbox i sb sx sx'" "sx_pool sx' = sx_pool sx" "unrestored sb"
      "hm_get (sx_sandboxes sx) i = None" "sb_status sb = Created"
    using assms None
    by (auto simp: create_sandbox_slot_def Let_def only_sandbox_def unrestored_def restore_metadata_default_def
        split: if_splits sum.splits prod.splits option.splits)
  then show ?thesis using made None by blast
next
  case (Some e)
  then show ?thesis using assms failed
    by (auto simp: create_sandbox_slot_def Let_def split: if_splits sum.splits prod.splits option.splits)
qed

lemma slot_ledger:
  assumes "ledger sx ls" and "create_sandbox_slot fa base sv i sx = (r, sx')"
  shows "ledger sx' ls" and "r = None \<Longrightarrow> idle_sandbox i sx'"
  using assms(2)
  by (cases rule: slot_out; simp add: only_sandbox_def;
      auto intro: ledger_same [OF assms(1)] ledger_idle [OF assms(1), of i] simp: only_sandbox_def)+

section \<open>Restores\<close>

lemma service_restore_out:
  assumes un: "unrestored sb" and give_up: "\<And>sb. pin_meta (give_up sb) = pin_meta sb"
    and st: "service_restore vo c sv t mode reflink params give_up i sb sx = (r, sx')"
  obtains (failed) sb' e where "r = Some e" "only_sandbox i sb' sx sx'" "unrestored sb'" "sx_pool sx' = sx_pool sx"
  | (started) sb' m where "r = None" "only_sandbox i sb' sx sx'" "sx_pool sx' = sx_pool sx"
      "pin_meta sb' = (Some (pt_id t), Some (pt_snapshot_type t), Some mode, m)"
proof -
  define ae where "ae = sv_ae sv"
  obtain r1 sb1 where 1: "sandbox_start_from_snapshot vo (ae_he ae) (ae_ga ae)
      (service_source c t mode reflink params i sb) (service_note t mode reflink sb) = (r1, sb1)" by force
  have m1: "pin_meta sb1 = (Some (pt_id t), Some (pt_snapshot_type t), Some mode, rm_memory_restore_mode (sb_restore sb))"
    using sandbox_start_from_snapshot_same [of "service_note t mode reflink sb" vo "ae_he ae" "ae_ga ae"
        "service_source c t mode reflink params i sb"] 1
    by (simp add: same_self_def service_note_def pin_meta_def)
  define Q where "Q sx' \<longleftrightarrow> (\<exists>sb'. only_sandbox i sb' sx sx' \<and> unrestored sb' \<and> sx_pool sx' = sx_pool sx)" for sx'
  have un': "unrestored (give_up sb')" if "unrestored sb'" for sb'
    using that unrestored_cong [OF give_up] by blast
  have put: "Q (put_sandbox i (give_up sb') sx)" "Q (put_sandbox i (give_up sb') (sx\<lparr>sx_dumps := dk\<rparr>))"
    if "unrestored sb'" for sb' dk
    unfolding Q_def by (rule exI [of _ "give_up sb'"], simp add: only_sandbox_def un' that)+
  have undo: "Q (put_sandbox i (give_up sb') (sx\<lparr>sx_dumps := dk'\<rparr>))"
    if "sandbox_stop vo (ae_he ae) (ae_dump ae) True (clear_template_restore_state sb1, dk) = (x, sb', dk')" for x sb' dk dk'
    using put(2) [OF unrestored_steps(5) [OF cleared_unrestored that]] .
  obtain r2 dk where 2: "dump (ae_dump ae) sb1 (sx_dumps sx) = (r2, dk)" by force
  define cg where "cg = (if sv_cgroup_parent sv then add_to_cgroup ae sb1 else None)"
  note st' = st [unfolded service_restore_def Let_def, folded ae_def, unfolded 1 prod.case, folded cg_def]
  consider (fine) "r1 = None" "cg = None" "r2 = None" | (res) e where "r1 = Some e"
    | (cg) e where "r1 = None" "cg = Some e" | (dmp) e where "r1 = None" "cg = None" "r2 = Some e"
    by (cases r1; cases cg; cases r2) auto
  then show ?thesis
  proof cases
    case fine
    then show ?thesis using st' 2 m1 by (intro started [of sb1]) (auto simp: cg_def [symmetric] only_sandbox_def)
  next
    case res
    then have "Q sx'" "r = Some e"
      using st' put(1) [OF cleared_unrestored] by auto
    then show ?thesis using failed unfolding Q_def by blast
  next
    case cg': cg
    then have "Q sx'" "r = Some e"
      using st' undo by (auto simp: cg_def [symmetric] split: prod.splits)
    then show ?thesis using failed unfolding Q_def by blast
  next
    case dmp
    then have "Q sx'" "r = Some e"
      using st' 2 undo by (auto simp: cg_def [symmetric] split: prod.splits)
    then show ?thesis using failed unfolding Q_def by blast
  qed
qed

lemma service_warm_fork_ledger:
  fixes sx :: "('v, 'c) sandboxer"
  assumes led: "ledger sx ls" and l: "(i, l) \<in> set ls" "tl_tmpl l = Some t" and ok: "attempt_ok (sv_ae sv)"
    and sb: "hm_get (sx_sandboxes sx) i = Some sb" and un: "unrestored sb"
    and p: "sx_pool sx = Some p" and t: "pt_snapshot_type t = WarmFork"
  shows "ledger (snd (service_warm_fork vo c sv t l (pool_lease_mode p) reflink i sb sx)) (remove1 (i, l) ls)"
proof -
  define ae where "ae = sv_ae sv"
  have h: "residue_ok (ae_ph ae)" and net: "sandbox_hook (ae_prepare_network ae)"
    using ok by (simp_all add: attempt_ok_def ae_def)
  have fail: "ledger (upd_pool (\<lambda>p. snd (lease_fail (ae_ph ae) l p)) sx') (remove1 (i, l) ls)"
    if "ledger sx' ls" for sx' :: "('v, 'c) sandboxer"
    using fail_lease_ledger(2) [OF that l(1) h] by (simp add: drop_lease_def)
  have one: "ledger sx' ls" if "only_sandbox i sb' sx sx'" "unrestored sb'" "sx_pool sx' = sx_pool sx" for sb' sx'
    using that sb un by (intro ledger_idle [OF led _ that(1)]) simp_all
  obtain r1 sb1 where 1: "(if sd_netns (sb_data sb) \<noteq> [] then ae_prepare_network ae sb else (None, sb)) = (r1, sb1)"
    by force
  have un1: "unrestored sb1" using 1 un sandbox_hook.hook_unrestored [OF net] by (auto split: if_splits)
  obtain r2 sx2 where 2: "service_restore vo c sv t (pool_lease_mode p) reflink (Some (service_params t)) destroy_network i sb1 sx
      = (r2, sx2)" by force
  show ?thesis
  proof (cases r1)
    case (Some e)
    have "ledger (put_sandbox i (destroy_network sb1) sx) ls"
      by (rule one [of "destroy_network sb1"]) (simp_all add: only_sandbox_def unrestored_steps(2) [OF un1])
    from fail [OF this] show ?thesis using Some by (simp add: service_warm_fork_def Let_def ae_def [symmetric] 1 del: if_split)
  next
    case None
    note val = service_warm_fork_def Let_def ae_def [symmetric] 1 None 2
    from un1 destroy_network_meta 2 show ?thesis
    proof (cases rule: service_restore_out)
      case (failed sb' e)
      then show ?thesis using fail [OF one [OF failed(2-4)]] by (simp add: val del: if_split)
    next
      case (started sb' m)
      have lo: "lease_of (pool_lease_mode p) l" using ledgerD(2) [OF led p] l(1) by (auto simp: pool_ledger_def)
      have pin: "pin_of sb' = Some tid \<longleftrightarrow> tl_kind l = SharedRef \<and> pt_id t = tid" for tid
        using started(4) lo l(2) t by (auto simp: pin_defs pin_meta_def lease_of_def)
      have "ledger (snd (complete_lease ae l id sx2)) (remove1 (i, l) ls)"
      proof (rule complete_lease_ledger [OF _ _ l h, of sx2 "pins sx"])
        show "hm_wf (sx_sandboxes sx2)" using started(2) ledgerD(1) [OF led] by (simp add: only_sandbox_def)
        show "pool_ledger q (pins sx) ls" if "sx_pool sx2 = Some q" for q
          using that started(3) ledgerD(2) [OF led] by simp
        show "pins sx2 tid = pins sx tid + of_bool (tl_kind l = SharedRef \<and> pt_id t = tid)" for tid
          using pins_insert [OF ledgerD(1) [OF led], of sx2 i sb' tid] pins_present [OF ledgerD(1) [OF led] sb, of tid]
            started(2) un pin by (simp add: only_sandbox_def)
      qed
      then show ?thesis using started(1) by (simp add: val complete_lease_def upd_metrics_def del: if_split)
    qed
  qed
qed

lemma restore_warm_fork_ledger:
  assumes led: "ledger sx ls" and ok: "attempt_ok (sv_ae sv)" and un: "idle_sandbox i sx"
  shows "ledger (snd (restore_sandbox_warm_fork vo c sv i key template_id sx)) ls"
proof (cases "hm_get (sx_sandboxes sx) i = None \<or> sx_pool sx = None")
  case True
  then show ?thesis using led by (auto simp: restore_sandbox_warm_fork_def split: option.split)
next
  case False
  then obtain sb p where sb: "hm_get (sx_sandboxes sx) i = Some sb" and p: "sx_pool sx = Some p" by auto
  have wf: "pool_wf p" using ledgerD(3) [OF led p] .
  have u: "unrestored sb" using un sb by simp
  have h: "residue_ok (ae_ph (sv_ae sv))" using ok by (simp add: attempt_ok_def)
  obtain acquired p1 where a: "(case template_id of
      None \<Rightarrow> (case key of None \<Rightarrow> (Inl Unreachable, p) | Some k \<Rightarrow> acquire_for_restore (ae_ph (sv_ae sv)) (user_key k) p)
    | Some tid \<Rightarrow> acquire_by_id_for_restore (ae_ph (sv_ae sv)) tid p) = (acquired, p1)" by force
  let ?sx1 = "sx\<lparr>sx_pool := Some p1\<rparr>"
  note set_pool = ledger_set_pool [OF led p]
  note val = restore_sandbox_warm_fork_def sb p a Let_def
  consider (panic) e where "acquired = Inl e" "p1 = p" | (miss) "acquired = Inr None" "quiet p p1"
    | (hit) t where "acquired = Inr (Some t)" "taken p t p1"
    using a acquire_no_panic [OF wf, of "ae_ph (sv_ae sv)"] miss_quiet [OF wf] acquired_taken [OF wf]
    by (cases acquired; cases template_id; cases key) (auto split: option.splits, (metis fst_conv option.exhaust)+)
  then show ?thesis
  proof cases
    case panic
    then show ?thesis using led set_pool [of p ls] by (simp add: val)
  next
    case miss
    then show ?thesis using led set_pool [OF pool_ledger_quiet [OF _ miss(2)]] by (simp add: val)
  next
    case (hit t)
    obtain l where l: "template_lease_new p1 t = Inr l" using taken_kind [OF hit(2)] lease_exists by blast
    have lt: "tl_tmpl l = Some t" using lease_new_of [OF l] by simp
    have taken: "ledger ?sx1 ((i, l) # ls)" by (rule set_pool) (rule pool_ledger_take [OF _ hit(2) l])
    have refused: "ledger ?sx1 ls" if "pt_snapshot_type t \<noteq> WarmFork"
      using that hit(2) by (intro set_pool) (auto simp: taken_def intro: pool_ledger_begin_restore)
    have dropped: "ledger (upd_pool (\<lambda>p. snd (lease_fail (ae_ph (sv_ae sv)) l p)) ?sx1) ls"
      using fail_lease_ledger(2) [OF taken _ h, of i l] by (simp add: drop_lease_def)
    have run: "ledger (snd (service_warm_fork vo c sv t l (pool_lease_mode p1) reflink i sb ?sx1)) ls"
      if "pt_snapshot_type t = WarmFork" for reflink
      using service_warm_fork_ledger [OF taken _ lt ok _ u _ that, of i p1 vo c reflink] sb by simp
    show ?thesis using led refused dropped run by (simp add: val hit(1) l)
  qed
qed

lemma restore_continuation_ledger:
  assumes led: "ledger sx ls" and un: "idle_sandbox i sx"
  shows "ledger (snd (restore_sandbox_continuation vo c sv i w sx)) ls"
proof (cases "hm_get (sx_sandboxes sx) i = None \<or> sx_store sx = None")
  case True
  then show ?thesis using led by (auto simp: restore_sandbox_continuation_def split: option.split)
next
  case False
  then obtain sb s where sb: "hm_get (sx_sandboxes sx) i = Some sb" and s: "sx_store sx = Some s" by auto
  obtain lo s1 where a: "cont_acquire (ae_ch (sv_ae sv)) w s = (lo, s1)" by force
  let ?sx1 = "sx\<lparr>sx_store := Some s1\<rparr>"
  have l1: "ledger ?sx1 ls" by (rule ledger_same [OF led]) simp_all
  have restored: "ledger sx2 ls"
    if "service_restore vo c sv (t\<lparr>pt_snapshot_type := Continuation\<rparr>) Exclusive reflink None id i sb ?sx1 = (r, sx2)"
    for t reflink r sx2
  proof -
    have "unrestored sb" "pin_meta (id sb') = pin_meta sb'" for sb' using un sb by simp_all
    from this that show ?thesis
    proof (cases rule: service_restore_out)
      case (failed sb' e)
      then show ?thesis using un sb by (intro ledger_idle [OF l1 _ failed(2)]) simp_all
    next
      case (started sb' m)
      then have "pin_of sb' = None" by (auto simp: pin_defs pin_meta_def split: option.split)
      then show ?thesis using un sb started(3) by (intro ledger_one [OF l1 started(2)]) simp_all
    qed
  qed
  have store: "ledger (upd_store f sx2) ls" if "ledger sx2 ls" for f sx2
    by (rule ledger_same [OF that]) simp_all
  show ?thesis
    by (cases lo; cases "cl_tmpl (the lo)")
      (auto simp: restore_sandbox_continuation_def sb s a Let_def led l1 store restored split: prod.split option.split)
qed

section \<open>Snapshots and the other requests\<close>

lemma make_snapshot_dir_ledger:
  fixes sx :: "('v, 'c) sandboxer"
  assumes led: "ledger sx ls" and "make_snapshot_dir sv tid kind wi sx = (r, sx')"
  shows "ledger sx' ls" and "sx_sandboxes sx' = sx_sandboxes sx"
    and "sx_pool sx' = Some q \<Longrightarrow> \<exists>p. sx_pool sx = Some p \<and> pool_ids q = pool_ids p"
proof -
  have ids: "pool_ids (p\<lparr>disk := dk\<rparr>) = pool_ids p" for p :: "'c pool" and dk
    by (simp add: pool_ids_def all_templates_def)
  have "quiet p (p\<lparr>disk := dk\<rparr>)" if "pool_wf p" "fs_create_dir_all h d (disk p) = (r, dk)" for p h d r dk
  proof -
    have "hm_wf dk" using disk_wf(1) [OF pool_wf_disk_wf [OF that(1)], of h d] that(2) by simp
    with that(1) show ?thesis
      by (intro quiet_store) (simp_all add: pool_wf_disk only_store_def all_templates_def)
  qed
  then have dir: "ledger (sx\<lparr>sx_pool := Some (p\<lparr>disk := dk\<rparr>)\<rparr>) ls"
    if "sx_pool sx = Some p" "fs_create_dir_all h d (disk p) = (r, dk)"
    for p and h :: "'c pool_host" and d r dk
    using that by (intro ledger_set_pool [OF led that(1)]) (blast intro: pool_ledger_quiet ledgerD(3) [OF led])
  have store: "ledger (sx\<lparr>sx_store := s\<rparr>) ls" for s by (rule ledger_same [OF led]) simp_all
  show "ledger sx' ls"
    using assms(2) dir [of _ "ae_ph (sv_ae sv)" "(WarmforkDir, tid)"] store led
    by (auto simp: make_snapshot_dir_def split: if_splits option.splits prod.splits)
  show "sx_sandboxes sx' = sx_sandboxes sx"
    using assms(2) by (auto simp: make_snapshot_dir_def split: if_splits option.splits prod.splits)
  show "sx_pool sx' = Some q \<Longrightarrow> \<exists>p. sx_pool sx = Some p \<and> pool_ids q = pool_ids p"
    using assms(2) ids by (auto simp: make_snapshot_dir_def split: if_splits option.splits prod.splits)
qed

lemma template_of_snapshot_sel [simp]:
  "pt_id (template_of_snapshot fa now tid key kind wi ready m sb) = tid"
  "pt_snapshot_type (template_of_snapshot fa now tid key kind wi ready m sb) = kind"
  "pt_workload_identity (template_of_snapshot fa now tid key kind wi ready m sb) = wi"
  by (simp_all add: template_of_snapshot_def pooled_template_new_def)

lemma create_from_sandbox_ledger:
  assumes led: "ledger sx ls" and h: "residue_ok (ae_ph (sv_ae sv))"
    and fresh: "\<And>p. sx_pool sx = Some p \<Longrightarrow> tid \<notin> pool_ids p \<union> pt_id ` set (lent ls)"
  shows "ledger (snd (create_from_sandbox fa sv i tid key kind wi sx)) ls"
proof (cases "hm_get (sx_sandboxes sx) i")
  case (Some sb)
  obtain r1 sx1 where 1: "make_snapshot_dir sv tid kind wi sx = (r1, sx1)" by force
  note d = make_snapshot_dir_ledger [OF led 1]
  have put: "ledger (put_sandbox i (sb\<lparr>sb_vm := v\<rparr>) sx1) ls" for v
    by (rule ledger_keep [OF d(1), of i sb "sb\<lparr>sb_vm := v\<rparr>"]) (simp_all add: d(2) Some only_sandbox_def pin_meta_def)
  have stored: "ledger (snd (store_snapshot sv t (put_sandbox i (sb\<lparr>sb_vm := v\<rparr>) sx1))) ls" if "pt_id t = tid" for t v
  proof (cases "pt_snapshot_type t = Continuation")
    case True
    then show ?thesis using put ledger_same [OF put]
      by (auto simp: store_snapshot_def split: option.split prod.split sum.split)
  next
    case False
    show ?thesis
    proof (cases "sx_pool sx1")
      case (Some q)
      have "tid \<notin> pool_ids q \<union> pt_id ` set (lent ls)" using d(3) [OF Some] fresh by auto
      then have "ledger ((put_sandbox i (sb\<lparr>sb_vm := v\<rparr>) sx1)\<lparr>sx_pool := Some (snd (add (ae_ph (sv_ae sv)) t q))\<rparr>) ls"
        using Some that by (intro ledger_set_pool [OF put, of _ q]) (auto intro!: pool_ledger_add h)
      then show ?thesis using False Some by (auto simp: store_snapshot_def split: prod.split sum.split)
    qed (use False put in \<open>simp add: store_snapshot_def\<close>)
  qed
  obtain rd where rd: "(if kind = WarmFork then map_sum id Some (warm_fork_ready sv sb) else Inr None) = rd" by simp
  show ?thesis
    unfolding create_from_sandbox_def rd Some 1
    by (cases rd; cases r1) (simp_all add: led d(1) put stored split: sum.split prod.split)
qed (use led in \<open>simp add: create_from_sandbox_def\<close>)

section \<open>A request\<close>

text \<open>
  What is asked of the world while a request is served: hooks that leave the record of the template alone, a
  file system on which a removal that fails leaves at most a marked directory, and a template identifier
  that was not drawn before.
\<close>

definition service_ok :: "('v, 'c) service_env \<Rightarrow> ('v, 'c) sandboxer \<Rightarrow> leases \<Rightarrow> bool" where
  "service_ok sv sx ls \<longleftrightarrow>
     attempt_ok (sv_ae sv) \<and> residue_ok (de_ph (sv_de sv)) \<and>
     (case sx_pool sx of None \<Rightarrow> True | Some p \<Rightarrow> sv_template_id sv \<notin> pool_ids p \<union> pt_id ` set (lent ls))"

lemma run_in_slot_ledger:
  assumes "ledger sx ls"
    and "\<And>sx1. ledger sx1 ls \<Longrightarrow> idle_sandbox (sv_sandbox_id sv) sx1 \<Longrightarrow> ledger (snd (restore (sv_sandbox_id sv) sx1)) ls"
  shows "ledger (snd (run_in_slot fa base sv restore sx)) ls"
proof -
  obtain r1 sx1 where 1: "create_sandbox_slot fa base sv (sv_sandbox_id sv) sx = (r1, sx1)" by force
  obtain r2 sx2 where 2: "restore (sv_sandbox_id sv) sx1 = (r2, sx2)" by force
  note s = slot_ledger [OF assms(1) 1]
  show ?thesis using s assms(2) [OF s(1)] 2 by (cases r1; cases r2) (simp_all add: run_in_slot_def 1)
qed

lemma handle_sandbox_run_ledger:
  assumes "ledger sx ls" and "attempt_ok (sv_ae sv)"
  shows "ledger (snd (handle_sandbox_run vo c fa base sv req sx)) ls"
proof -
  have "ledger (snd (run_in_slot fa base sv (\<lambda>i. restore_sandbox_warm_fork vo c sv i key tid) sx)) ls" for key tid
    by (rule run_in_slot_ledger [OF assms(1)]) (rule restore_warm_fork_ledger [OF _ assms(2)])
  moreover have "ledger (snd (run_in_slot fa base sv (\<lambda>i. restore_sandbox_continuation vo c sv i w) sx)) ls" for w
    by (rule run_in_slot_ledger [OF assms(1)]) (rule restore_continuation_ledger)
  ultimately show ?thesis using assms(1)
    by (simp add: handle_sandbox_run_def Let_def split: sum.split option.split)
qed

lemma handle_template_create_ledger:
  assumes "ledger sx ls" and "service_ok sv sx ls"
  shows "ledger (snd (handle_template_create fa sv req sx)) ls"
proof -
  have "ledger (snd (create_from_sandbox fa sv i (sv_template_id sv) key kind wi sx)) ls" for i key kind wi
    using assms by (intro create_from_sandbox_ledger) (auto simp: service_ok_def attempt_ok_def)
  then have "ledger sx1 ls" if "create_from_sandbox fa sv i (sv_template_id sv) key kind wi sx = (r, sx1)" for i key kind wi r sx1
    using that by (metis snd_conv)
  then show ?thesis using assms(1)
    by (auto simp: handle_template_create_def split: sum.split option.split prod.split)
qed

lemma handle_pool_ledger:
  assumes led: "ledger sx ls" and h: "residue_ok (ae_ph (sv_ae sv))"
  shows "ledger (snd (handle_pool_refill fa req sx)) ls" and "ledger (snd (handle_pool_gc sv req sx)) ls"
proof -
  have q: "quiet p ((begin_refill k ^^ n) p)" if "pool_wf p" for p :: "'b pool" and k n
  proof (induction n)
    case (Suc n)
    then have "pool_wf ((begin_refill k ^^ n) p)" by (simp add: quiet_def)
    from quiet_trans [OF Suc quiet_refills(1) [OF this, of k]] show ?case by simp
  qed (simp add: quiet_refl that)
  have "ledger (sx\<lparr>sx_pool := Some ((begin_refill k ^^ n) p)\<rparr>) ls" if "sx_pool sx = Some p" for p k n
    using that q ledgerD(3) [OF led that] by (intro ledger_set_pool [OF led that]) (blast intro: pool_ledger_quiet)
  then show "ledger (snd (handle_pool_refill fa req sx)) ls"
    using led by (simp add: handle_pool_refill_def Let_def split: option.split)
  have "ledger (sx\<lparr>sx_pool := Some (snd (remove_by_id (ae_ph (sv_ae sv)) i kind p))\<rparr>) ls" if "sx_pool sx = Some p" for p i kind
    using that quiet_reclaim [OF ledgerD(3) [OF led that] h, of "RemoveById i kind"]
    by (intro ledger_set_pool [OF led that]) (auto intro: pool_ledger_quiet)
  then have "ledger (sx\<lparr>sx_pool := Some p1\<rparr>) ls"
    if "sx_pool sx = Some p" "remove_by_id (ae_ph (sv_ae sv)) i kind p = (r, p1)" for p i kind r p1
    using that by (metis snd_conv)
  then show "ledger (snd (handle_pool_gc sv req sx)) ls"
    using led by (auto simp: handle_pool_gc_def split: option.split prod.split sum.split bool.split)
qed

lemma dispatch_ledger:
  assumes led: "ledger sx ls" and ok: "service_ok sv sx ls"
  shows "ledger (snd (dispatch vo c fa base sv req sx)) ls"
proof -
  have a: "attempt_ok (sv_ae sv)" "residue_ok (ae_ph (sv_ae sv))" "residue_ok (de_ph (sv_de sv))"
    using ok by (simp_all add: service_ok_def attempt_ok_def)
  have destroy: "ledger (snd (handle_sandbox_destroy vo sv req sx)) ls"
    using led destroy_ledger [OF led a(3), of vo]
    by (auto simp: handle_sandbox_destroy_def split: sum.split option.split prod.split dest: arg_cong [where f = snd])
      (metis snd_conv)+
  have delete: "ledger (snd (handle_continuation_delete sv req sx)) ls"
    using led ledger_same [OF led]
    by (auto simp: handle_continuation_delete_def split: sum.split option.split prod.split)
  show ?thesis
    by (simp add: dispatch_def Let_def led destroy delete handle_sandbox_run_ledger [OF led a(1)]
        handle_template_create_ledger [OF led ok] handle_pool_ledger [OF led a(2)] split: prod.split)
qed

end
