(* ===== verification/Service_System.thy ===== *)
theory Service_System
  imports Service_Inv
begin

text \<open>
  The whole process: the steps of the sandboxer, the requests of the service, and the restores of the
  service that interleave with both. The accounts hold in every state it reaches. The remaining properties
  of the service: what its replies look like, what a created template is good for, and what the names it
  accepts can be.
\<close>

section \<open>The whole process\<close>

inductive process_step ::
  "(string \<Rightarrow> json option) \<Rightarrow> 'v vm_ops \<Rightarrow> snapshot_config \<Rightarrow> factory \<Rightarrow> string
   \<Rightarrow> ('v, 'c) sandboxer \<times> leases \<Rightarrow> ('v, 'c) sandboxer \<times> leases \<Rightarrow> bool"
  for from_str vo c fa base where
  Sandboxer: "sx_step vo c fa s s' \<Longrightarrow> process_step from_str vo c fa base s s'"
| Request: "service_ok sv sx ls \<Longrightarrow>
    process_step from_str vo c fa base (sx, ls) (snd (handle_connection from_str vo c fa base sv line sx), ls)"
| ServiceRestore: "(i, l) \<in> set ls \<Longrightarrow> tl_tmpl l = Some t \<Longrightarrow> pt_snapshot_type t = WarmFork \<Longrightarrow> attempt_ok (sv_ae sv) \<Longrightarrow>
    hm_get (sx_sandboxes sx) i = Some sb \<Longrightarrow> unrestored sb \<Longrightarrow> sx_pool sx = Some p \<Longrightarrow>
    process_step from_str vo c fa base (sx, ls)
      (snd (service_warm_fork vo c sv t l (pool_lease_mode p) (reflink_supported p) i sb sx), remove1 (i, l) ls)"

inductive_cases process_step_cases: "process_step from_str vo c fa base s s'"

abbreviation process_run ::
  "(string \<Rightarrow> json option) \<Rightarrow> 'v vm_ops \<Rightarrow> snapshot_config \<Rightarrow> factory \<Rightarrow> string
   \<Rightarrow> ('v, 'c) sandboxer \<times> leases \<Rightarrow> ('v, 'c) sandboxer \<times> leases \<Rightarrow> bool" where
  "process_run from_str vo c fa base \<equiv> (process_step from_str vo c fa base)\<^sup>*\<^sup>*"

lemma connection_ledger:
  assumes "ledger sx ls" and "service_ok sv sx ls"
  shows "ledger (snd (handle_connection from_str vo c fa base sv line sx)) ls"
proof -
  have "ledger sx1 ls" if "dispatch vo c fa base sv req sx = (r, sx1)" for req r sx1
    using dispatch_ledger [OF assms, of vo c fa base req] that by simp
  then show ?thesis using assms(1) by (auto simp: handle_connection_def split: option.split prod.split sum.split)
qed

lemma process_step_ledger:
  assumes "process_step from_str vo c fa base (sx, ls) (sx', ls')" and "ledger sx ls"
  shows "ledger sx' ls'"
  using assms(1)
proof (cases rule: process_step.cases)
  case Sandboxer
  then show ?thesis using sx_step_ledger assms(2) by blast
next
  case (Request sv line)
  then show ?thesis using connection_ledger [OF assms(2)] by simp
next
  case (ServiceRestore i l t sv sb p)
  then show ?thesis using service_warm_fork_ledger [OF assms(2)] by simp
qed

lemma process_run_ledger:
  assumes "process_run from_str vo c fa base s s'" and "ledger (fst s) (snd s)"
  shows "ledger (fst s') (snd s')"
  using assms by (induction rule: rtranclp_induct) (auto intro: process_step_ledger simp: split_paired_all)

section \<open>The accounts and what they give\<close>

lemma sx_run_process: "sx_run vo c fa s s' \<Longrightarrow> process_run from_str vo c fa base s s'"
  by (induction rule: rtranclp_induct) (auto intro: Sandboxer rtranclp.rtrancl_into_rtrancl)

lemma recovered_process:
  "process_run from_str list_vm snapshot_config_default fa base (demo_sandboxer, []) (recovered, [])"
  using recovered_run by (rule sx_run_process)

text \<open>
  C2: The accounts balance in every state the process can reach, whatever the interleaving of the starts, of
  the tasks of the pool and of the requests of the service, whatever fails on the way and across restarts: the use counter of a template is the number of sandboxes it
  backs plus the shared leases of the restores under way, and no restore under way is missing from the
  restore counter. In particular nothing is counted when no sandbox and no lease is left.
\<close>

theorem process_accounts:
  assumes "fresh_sandboxer sx0" and "process_run from_str vo c fa base (sx0, []) (sx, ls)" and "sx_pool sx = Some p"
  shows "uses_of p tid = pins sx tid + lease_count SharedRef ls tid \<and>
    lease_count SharedLease ls tid \<le> restores_of p tid \<and>
    (sx_sandboxes sx = [] \<and> ls = [] \<longrightarrow> in_use_count p = [])"
proof -
  have led: "pool_ledger p (pins sx) ls"
    using process_run_ledger [OF assms(2)] fresh_ledger [OF assms(1)] ledgerD(2) assms(3) by simp
  have "in_use_count p = []" if none: "sx_sandboxes sx = []" "ls = []"
  proof -
    have "cnt (in_use_count p) i = 0" for i
      using led none by (simp add: pool_ledger_def uses_of_def pins_def lease_count_def leased_def map_filter_simps)
    then have "hm_get (in_use_count p) i = None" for i
      using cnt_wf_contains [of "in_use_count p" i] led by (simp add: pool_ledger_def pool_wf_def)
    then show ?thesis by (cases "in_use_count p") (auto, metis option.distinct(1))
  qed
  with led show ?thesis by (simp add: pool_ledger_def)
qed

theorem process_accounts_witness:
  "uses_of (ref_template ''a'' (stocked Shared 1 [demo_template ''a'' WarmFork 1])) ''a'' = 1 \<and>
   pins recovered ''a'' = 1"
proof -
  have "uses_of (ref_template ''a'' (stocked Shared 1 [demo_template ''a'' WarmFork 1])) ''a'' = 1"
    by (simp add: uses_of_ref) (simp add: uses_of_def demo_defs)
  with process_accounts [OF demo_fresh recovered_process recovered_sel(2), of "''a''"]
  show ?thesis by (simp add: lease_count_def leased_def map_filter_simps)
qed



section \<open>Replies\<close>

definition reply_typed :: "json \<Rightarrow> bool" where
  "reply_typed r =
     (case r of
        JObject m \<Rightarrow>
          distinct (map fst m) \<and>
          (case hm_get m ''ok'' of
             Some (JBool ok) \<Rightarrow>
               ok \<or> (case hm_get m ''error'' of Some (JString _) \<Rightarrow> True | _ \<Rightarrow> False)
           | _ \<Rightarrow> False)
      | _ \<Rightarrow> False)"

lemma reply_err_typed [simp]: "reply_typed (reply_err e)"
  by (simp add: reply_typed_def reply_err_def)

lemma reply_ok_typed [simp]: "reply_typed (reply_ok m) \<longleftrightarrow> distinct (''ok'' # map fst m)"
  by (simp add: reply_typed_def reply_ok_def)

lemma run_reply_typed: "fst (run_in_slot fa base sv restore sx) = Inr r \<Longrightarrow> reply_typed r"
  by (auto simp: run_in_slot_def split: prod.splits option.splits sum.splits)

lemma handlers_typed:
  "fst (handle_sandbox_run vo c fa base sv req sx) = Inr r \<Longrightarrow> reply_typed r"
  "fst (handle_sandbox_destroy vo sv req sx) = Inr r \<Longrightarrow> reply_typed r"
  "fst (handle_template_create fa sv req sx) = Inr r \<Longrightarrow> reply_typed r"
  "fst (handle_pool_refill fa req sx) = Inr r \<Longrightarrow> reply_typed r"
  "fst (handle_pool_gc sv req sx) = Inr r \<Longrightarrow> reply_typed r"
  "fst (handle_continuation_delete sv req sx) = Inr r \<Longrightarrow> reply_typed r"
  using run_reply_typed
  by (auto simp: handle_sandbox_run_def handle_sandbox_destroy_def handle_template_create_def handle_pool_refill_def
      handle_pool_gc_def handle_continuation_delete_def Let_def
      split: if_splits prod.splits option.splits sum.splits bool.splits)

lemma reports_typed:
  "handle_sandbox_list sx = Inr r \<Longrightarrow> reply_typed r" "handle_sandbox_get req sx = Inr r \<Longrightarrow> reply_typed r"
  "handle_pool_status sv sx = Inr r \<Longrightarrow> reply_typed r" "handle_template_list sv sx = Inr r \<Longrightarrow> reply_typed r"
  "handle_template_get sv req sx = Inr r \<Longrightarrow> reply_typed r" "handle_continuation_list sv sx = Inr r \<Longrightarrow> reply_typed r"
  by (auto simp: handle_sandbox_list_def handle_sandbox_get_def handle_pool_status_def handle_template_list_def
      handle_template_get_def handle_continuation_list_def split: option.splits sum.splits)

lemma dispatch_typed: "fst (dispatch vo c fa base sv req sx) = Inr r \<Longrightarrow> reply_typed r"
  unfolding dispatch_def Let_def
  by (auto split: prod.splits if_splits dest: handlers_typed reports_typed)


section \<open>What a request achieves\<close>

lemma added_latest:
  assumes "pool_wf p" and "residue_ok h" and "pt_id t \<notin> pool_ids p" and "add h t p = (Inr r, p')"
  shows "latest (pt_key t) p' = Some t"
proof (cases "template_dir t")
  case (Some d)
  from assms(1-3) Some show ?thesis
  proof (cases rule: add_spec)
    case (added p2 dk)
    then show ?thesis using assms(4) by (auto simp: latest_def push_template_def split: option.split)
  qed (use assms(4) in simp)
qed (use assms(4) in \<open>simp add: add_def\<close>)

lemma warm_fork_ready_checked:
  assumes "warm_fork_ready sv sb = Inr (v, ts)"
  shows "v = WARM_FORK_PROTOCOL_V1"
    and "\<exists>oks. sv_check sv (map (\<lambda>t. (wt_container_id t, wt_socket_path t)) ts) = Inr oks \<and> list_all id oks"
  using assms
  by (auto simp: warm_fork_ready_def check_inject_socket_def Let_def split: if_splits sum.splits option.splits)

lemma create_warm_fork_steps:
  assumes cr: "create_from_sandbox fa sv i tid k WarmFork wi sx = (Inr t, sx')"
  obtains sb v ts dir sx1 m w where "hm_get (sx_sandboxes sx) i = Some sb" "warm_fork_ready sv sb = Inr (v, ts)"
    "make_snapshot_dir sv tid WarmFork wi sx = (Inr dir, sx1)"
    "store_snapshot sv (template_of_snapshot fa (sv_now sv) tid k WarmFork wi (Some (v, ts)) m sb)
      (put_sandbox i (sb\<lparr>sb_vm := w\<rparr>) sx1) = (Inr t, sx')"
proof -
  obtain sb where sb: "hm_get (sx_sandboxes sx) i = Some sb"
    using cr by (cases "hm_get (sx_sandboxes sx) i") (auto simp: create_from_sandbox_def split: if_splits)
  obtain rd where rd: "warm_fork_ready sv sb = rd" by blast
  obtain r1 sx1 where 1: "make_snapshot_dir sv tid WarmFork wi sx = (r1, sx1)" by force
  obtain r2 w where 2: "sv_snapshot sv (projr r1) (disks_of sb) (sb_vm sb) = (r2, w)" by force
  show ?thesis
  proof (cases rd; cases r1; cases r2)
    fix x dir m assume *: "rd = Inr x" "r1 = Inr dir" "r2 = Inr m"
    obtain v ts where "x = (v, ts)" by force
    with cr sb rd 1 2 * show ?thesis
      by (intro that [of sb v ts dir sx1 m w]) (auto simp: create_from_sandbox_def split: if_splits)
  qed (use cr sb rd 1 2 in \<open>auto simp: create_from_sandbox_def split: if_splits\<close>)
qed

lemma create_warm_fork_out:
  assumes led: "ledger sx ls" and ok: "service_ok sv sx ls"
    and cr: "create_from_sandbox fa sv i (sv_template_id sv) k WarmFork None sx = (Inr t, sx')"
  shows "\<exists>sb p v. hm_get (sx_sandboxes sx) i = Some sb \<and> warm_fork_ready sv sb = Inr (v, pt_warm_fork_targets t) \<and>
    sx_pool sx' = Some p \<and> latest (user_key k) p = Some t \<and> pt_id t = sv_template_id sv \<and>
    pt_storages t = sb_storages sb \<and> pt_ready_protocol_version t = Some v"
proof -
  obtain sb v ts dir sx1 m w where sb: "hm_get (sx_sandboxes sx) i = Some sb"
    and rd: "warm_fork_ready sv sb = Inr (v, ts)" and dir: "make_snapshot_dir sv (sv_template_id sv) WarmFork None sx = (Inr dir, sx1)"
    and t: "store_snapshot sv (template_of_snapshot fa (sv_now sv) (sv_template_id sv) k WarmFork None (Some (v, ts)) m sb)
      (put_sandbox i (sb\<lparr>sb_vm := w\<rparr>) sx1) = (Inr t, sx')"
    by (rule create_warm_fork_steps [OF cr])
  define tm where "tm = template_of_snapshot fa (sv_now sv) (sv_template_id sv) k WarmFork None (Some (v, ts)) m sb"
  have tm: "pt_id tm = sv_template_id sv" "pt_snapshot_type tm = WarmFork" "pt_key tm = user_key k"
    "pt_storages tm = sb_storages sb" "pt_ready_protocol_version tm = Some v" "pt_warm_fork_targets tm = ts"
    by (simp_all add: tm_def template_of_snapshot_def pooled_template_new_def)
  note d = make_snapshot_dir_ledger [OF led dir]
  obtain q p r where q: "sx_pool sx1 = Some q" "add (ae_ph (sv_ae sv)) tm q = (Inr r, p)" "t = tm" "sx_pool sx' = Some p"
  proof (cases "sx_pool sx1")
    case (Some q)
    obtain r p where a: "add (ae_ph (sv_ae sv)) tm q = (r, p)" by force
    have "\<exists>u. r = Inr u \<and> t = tm \<and> sx_pool sx' = Some p"
      using t unfolding tm_def [symmetric] by (cases r) (auto simp: store_snapshot_def tm(2) Some a)
    then show ?thesis using that [OF Some] a by blast
  qed (use t [folded tm_def] in \<open>simp add: store_snapshot_def tm(2)\<close>)
  have "pt_id tm \<notin> pool_ids q" using d(3) [OF q(1)] ok by (auto simp: service_ok_def tm(1))
  moreover have "residue_ok (ae_ph (sv_ae sv))" using ok by (simp add: service_ok_def attempt_ok_def)
  ultimately have "latest (user_key k) p = Some tm"
    using added_latest [OF ledgerD(3) [OF d(1) q(1)] _ _ q(2)] tm(3) by simp
  then show ?thesis using sb rd q tm by simp
qed


definition warm_sandbox :: "string list kuasar_sandbox" where
  "warm_sandbox = new_sandbox\<lparr>sb_containers := [(''c1'', \<lparr>kc_id = ''c1'', kc_io_devices = []\<rparr>)],
     sb_data := \<lparr>sd_annotations = Some [(READY_PROTOCOL_ANNOTATION, WARM_FORK_PROTOCOL_V1)], sd_netns = [], sd_task_address = []\<rparr>,
     sb_storage_policy := storage_policy_default\<lparr>storage_backend := VIRTIO_BLK\<rparr>\<rparr>"

definition demo_service :: "(string list, pooled_template) service_env" where
  "demo_service =
     \<lparr>sv_template_id = ''tttttttttttt'', sv_sandbox_id = ''ssssssssssss'', sv_now = 7, sv_container_name = \<lambda>_. None,
      sv_check = \<lambda>ts. Inr (map (\<lambda>_. True) ts),
      sv_snapshot = \<lambda>d _ v. (Inr \<lparr>sm_snapshot_dir = d, sm_original_task_vsock = ''v'', sm_original_console_path = ''c'',
                                sm_disk_images = []\<rparr>, v),
      sv_cgroup_parent = False, sv_create_dir = True, sv_create_vm = Inr [], sv_files = True, sv_ae = demo_attempt,
      sv_de = \<lparr>de_he = easy_host, de_dump = Dumped, de_cgroup2 = True, de_cgroup_remove = True, de_cleanup_mounts = True,
               de_remove_base = None, de_ph = ideal_host, de_ch = ideal_host\<rparr>\<rparr>"

definition service_state :: "(string list, pooled_template) sandboxer" where
  "service_state =
     \<lparr>sx_sandboxes = [(''aaaaaaaaaaaa'', warm_sandbox)], sx_pool = Some (demo_pool Shared 4), sx_store = None,
      sx_dumps = [], sx_cgroups = []\<rparr>"

definition create_request :: json where
  "create_request = JObject [(''action'', JString ''template-create''), (''sandbox_id'', JString ''aaaaaaaaaaaa''),
     (''key'', JString ''k'')]"

lemma service_state_ok: "ledger service_state []" "service_ok demo_service service_state []"
proof -
  have "pool_wf (demo_pool Shared 4)"
    by (simp add: demo_pool_def pool_new_def pool_wf_def all_templates_def keyed_def)
  then show "ledger service_state []"
    by (simp add: ledger_def service_state_def pool_ledger_def uses_of_def restores_of_def pins_def lease_count_def leased_def
        map_filter_simps demo_pool_def pool_new_def all_templates_def warm_sandbox_def pin_defs new_sandbox_def
        restore_metadata_default_def)
  show "service_ok demo_service service_state []"
    by (simp add: service_ok_def demo_service_def demo_attempt_ok service_state_def demo_pool_def pool_new_def pool_ids_def
        all_templates_def leased_def map_filter_simps)
qed

lemmas name_defs = is_alnum_def is_alpha_def is_digit_def

lemma create_request_target:
  "template_create_target create_request = Inr (WarmFork, ''k'', None)"
  "request_id create_request ''sandbox_id'' = Inr ''aaaaaaaaaaaa''"
  by (simp_all add: template_create_target_def create_request_def jindex_def jget_def as_str_def request_id_def
      validate_key_def validate_id_def name_defs Let_def)

lemma create_request_ready:
  "warm_fork_ready demo_service warm_sandbox = Inr (WARM_FORK_PROTOCOL_V1, [snapshot_target [] ''c1'' DEFAULT_READINESS_SOCKET])"
  by (simp add: warm_fork_ready_def warm_fork_snapshot_targets_def check_inject_socket_def warm_sandbox_def new_sandbox_def
      annotation_def annotation_defs READY_PROTOCOL_ANNOTATION_def WARM_FORK_PROTOCOL_V1_def parse_warm_fork_container_names_def
      demo_service_def Let_def)

lemma create_request_succeeds:
  "\<exists>reply sx'. handle_template_create demo_factory demo_service create_request service_state = (Inr reply, sx')"
proof -
  have add: "\<exists>p'. add ideal_host t (demo_pool Shared 4\<lparr>disk := dk\<rparr>) = (Inr (), p')" if "pt_snapshot_type t = WarmFork" for t dk
    using that by (simp add: add_def add_water_level_def add_key_depth_def add_insert_def demo_defs fs_defs
        total_depth_def push_template_def split: option.split)
  have store: "\<exists>sx'. store_snapshot demo_service t (put_sandbox i sb (service_state\<lparr>sx_pool := Some (demo_pool Shared 4\<lparr>disk := dk\<rparr>)\<rparr>))
      = (Inr t, sx')" if "pt_snapshot_type t = WarmFork" for t dk i sb
    using add [OF that, of dk] that by (auto simp: store_snapshot_def demo_service_def demo_attempt_def)
  have dir: "\<exists>d dk. make_snapshot_dir demo_service tid WarmFork None service_state =
      (Inr d, service_state\<lparr>sx_pool := Some (demo_pool Shared 4\<lparr>disk := dk\<rparr>)\<rparr>)" for tid
    by (auto simp: make_snapshot_dir_def service_state_def demo_service_def demo_attempt_def fs_create_dir_all_def
        demo_pool_def pool_new_def)
  have "\<exists>t sx'. create_from_sandbox demo_factory demo_service ''aaaaaaaaaaaa'' tid ''k'' WarmFork None service_state = (Inr t, sx')"
    for tid
  proof -
    obtain d dk where d: "make_snapshot_dir demo_service tid WarmFork None service_state =
      (Inr d, service_state\<lparr>sx_pool := Some (demo_pool Shared 4\<lparr>disk := dk\<rparr>)\<rparr>)" using dir by blast
    have s: "hm_get (sx_sandboxes service_state) ''aaaaaaaaaaaa'' = Some warm_sandbox" "sx_pool service_state \<noteq> None"
      "sb_status warm_sandbox = Running 1" "storage_backend (sb_storage_policy warm_sandbox) = VIRTIO_BLK"
      "\<exists>m. sv_snapshot demo_service d ds v = (Inr m, v)" for ds v
      by (simp_all add: service_state_def warm_sandbox_def new_sandbox_def demo_service_def)
    then obtain m where m: "sv_snapshot demo_service d (disks_of warm_sandbox) (sb_vm warm_sandbox) = (Inr m, sb_vm warm_sandbox)"
      by blast
    obtain sx' where "store_snapshot demo_service (template_of_snapshot demo_factory (sv_now demo_service) tid ''k'' WarmFork None
        (Some (WARM_FORK_PROTOCOL_V1, [snapshot_target [] ''c1'' DEFAULT_READINESS_SOCKET])) m warm_sandbox)
        (put_sandbox ''aaaaaaaaaaaa'' warm_sandbox (service_state\<lparr>sx_pool := Some (demo_pool Shared 4\<lparr>disk := dk\<rparr>)\<rparr>)) =
      (Inr (template_of_snapshot demo_factory (sv_now demo_service) tid ''k'' WarmFork None
        (Some (WARM_FORK_PROTOCOL_V1, [snapshot_target [] ''c1'' DEFAULT_READINESS_SOCKET])) m warm_sandbox), sx')"
      using store [OF template_of_snapshot_sel(2)] by blast
    with s d m show ?thesis by (auto simp: create_from_sandbox_def create_request_ready)
  qed
  then obtain t sx' where "create_from_sandbox demo_factory demo_service ''aaaaaaaaaaaa'' (sv_template_id demo_service) ''k''
      WarmFork None service_state = (Inr t, sx')" by blast
  moreover have "validate_id (sv_template_id demo_service) = None"
    by (simp add: demo_service_def validate_id_def name_defs)
  ultimately show ?thesis by (simp add: handle_template_create_def create_request_target)
qed


lemma begin_refills:
  "in_flight_count_for_key k ((begin_refill k ^^ n) p) = in_flight_count_for_key k p + n"
  "depth k ((begin_refill k ^^ n) p) = depth k p"
proof -
  have c: "in_flight_count_for_key k q = cnt (in_flight_refills q) k" for q :: "'a pool"
    by (simp add: in_flight_count_for_key_def cnt_def)
  show "in_flight_count_for_key k ((begin_refill k ^^ n) p) = in_flight_count_for_key k p + n"
    "depth k ((begin_refill k ^^ n) p) = depth k p"
    by (induction n) (simp_all add: begin_refill_def c depth_def)
qed

text \<open>
  A request to refill the pool starts exactly as many workers as are missing: the environment templates
  in stock and in the making then number the target, or what they numbered before if that was more. The
  reply says how many were started, and the same request sent again starts none.
\<close>

theorem refill_tops_up:
  assumes "sx_pool sx = Some p" and "as_str (jindex req ''kind'') = Some ''environment''"
    and "as_u64 (jindex req ''target_depth'') = Some target"
    and "depth (environment_key fa) p + in_flight_count_for_key (environment_key fa) p \<le> u64_max"
    and "handle_pool_refill fa req sx = (Inr reply, sx')"
  shows "\<exists>p'. sx_pool sx' = Some p' \<and>
    depth (environment_key fa) p' + in_flight_count_for_key (environment_key fa) p' =
      max target (depth (environment_key fa) p + in_flight_count_for_key (environment_key fa) p) \<and>
    jindex reply ''queued'' = JNumber (in_flight_count_for_key (environment_key fa) p' -
      in_flight_count_for_key (environment_key fa) p) \<and>
    snd (handle_pool_refill fa req sx') = sx'"
proof -
  let ?k = "environment_key fa"
  define n where "n = refill_need target ?k p"
  define p' where "p' = (begin_refill ?k ^^ n) p"
  have t: "target \<le> u64_max" using assms(3) by (auto simp: as_u64_def split: json.splits if_splits)
  have reply: "reply = reply_ok [(''kind'', JString ''environment''), (''queued'', JNumber n),
      (''in_flight'', JNumber (in_flight_count_for_key ?k p'))]" "sx' = sx\<lparr>sx_pool := Some p'\<rparr>"
    using assms(5) by (simp_all add: handle_pool_refill_def assms(1-3) Let_def n_def p'_def)
  have sum: "depth ?k p' + in_flight_count_for_key ?k p' = max target (depth ?k p + in_flight_count_for_key ?k p)"
    using assms(4) by (simp add: p'_def begin_refills n_def refill_need_def)
  then have again: "refill_need target ?k p' = 0" using t assms(4) by (simp add: refill_need_def)
  have "jindex reply ''queued'' = JNumber n" by (simp add: reply reply_ok_def jindex_def jget_def)
  moreover have "in_flight_count_for_key ?k p' - in_flight_count_for_key ?k p = n" by (simp add: p'_def begin_refills)
  moreover have "snd (handle_pool_refill fa req sx') = sx'"
    by (cases sx) (simp add: handle_pool_refill_def reply assms(2,3) again Let_def)
  ultimately show ?thesis using sum reply(2) by simp
qed

theorem refill_tops_up_witness:
  "\<exists>p'. sx_pool (snd (handle_pool_refill demo_factory
       (JObject [(''kind'', JString ''environment''), (''target_depth'', JNumber 3)]) service_state)) = Some p' \<and>
     depth (environment_key demo_factory) p' + in_flight_count_for_key (environment_key demo_factory) p' = 3"
proof -
  let ?req = "JObject [(''kind'', JString ''environment''), (''target_depth'', JNumber 3)]"
  have p: "sx_pool service_state = Some (demo_pool Shared 4)" by (simp add: service_state_def)
  have r: "as_str (jindex ?req ''kind'') = Some ''environment''" "as_u64 (jindex ?req ''target_depth'') = Some 3"
    by (simp_all add: as_str_def as_u64_def jindex_def jget_def)
  have z: "depth k (demo_pool Shared 4) = 0" "in_flight_count_for_key k (demo_pool Shared 4) = 0" for k
    by (simp_all add: depth_def in_flight_count_for_key_def demo_pool_def pool_new_def)
  obtain reply sx' where h: "handle_pool_refill demo_factory ?req service_state = (Inr reply, sx')"
    by (simp add: handle_pool_refill_def p r Let_def)
  show ?thesis using refill_tops_up [OF p r _ h] h by (auto simp: z)
qed

section \<open>Where the service departs from its documentation\<close>

text \<open>
  A run of generation 4294967296 restores generation 0: the number is cut to 32 bits, while the requests that
  create or delete a continuation refuse it.
\<close>

lemma run_generation_wraps:
  "truncated_generation (JObject [(''generation'', JNumber 4294967296)]) = 0"
  "\<exists>e. request_generation (JObject [(''generation'', JNumber 4294967296)]) = Inl e"
  by (simp_all add: truncated_generation_def request_generation_def as_u64_def jindex_def jget_def)

text \<open>A run that names an environment template takes it for a restore, refuses it, and never gives it back.\<close>

lemma run_leaks_restore:
  assumes "sx_pool sx = Some p" and "hm_get (sx_sandboxes sx) i = Some sb" and "sb_status sb = Created"
    and "find_by_id p tid = Some t" and "pt_snapshot_type t = Environment"
  shows "\<exists>e. restore_sandbox_warm_fork vo c sv i key (Some tid) sx =
    (Inl e, sx\<lparr>sx_pool := Some (begin_restore tid p)\<rparr>)"
  using assms by (simp add: restore_sandbox_warm_fork_def acquire_by_id_for_restore_def peek_eqs)

text \<open>A run that fails to restore leaves its slot among the sandboxes, with an identifier the caller never learns.\<close>

lemma failed_run_keeps_slot:
  assumes "create_sandbox_slot fa base sv (sv_sandbox_id sv) sx = (None, sx1)"
    and "sx_pool sx = None"
  shows "\<exists>e sb. run_in_slot fa base sv (\<lambda>i. restore_sandbox_warm_fork vo c sv i key tid) sx = (Inl e, sx1) \<and>
    hm_get (sx_sandboxes sx1) (sv_sandbox_id sv) = Some sb"
proof -
  from assms(1) obtain sb where sb: "hm_get (sx_sandboxes sx1) (sv_sandbox_id sv) = Some sb" "sb_status sb = Created"
    "sx_pool sx1 = None"
    using assms(2) by (cases rule: slot_out) (auto simp: only_sandbox_def)
  then show ?thesis by (simp add: run_in_slot_def assms(1) restore_sandbox_warm_fork_def)
qed

text \<open>The destruction of a sandbox leaves the continuation store alone, also when it was restored from there.\<close>

lemma destroy_keeps_continuation: "sx_store (snd (destroy_sandbox vo sv i sx)) = sx_store sx"
  by (auto simp: destroy_sandbox_def destroy_release_def Let_def put_sandbox_def upd_pool_def
      split: option.split prod.split snapshot_type.split lease_mode.split)

text \<open>
  A snapshot that fails leaves the directory it made, and every further request for the same generation of
  the workload is refused as if the snapshot existed.
\<close>

lemma failed_snapshot_blocks_generation:
  assumes "make_snapshot_dir sv tid Continuation (Some w) sx = (Inr dir, sx1)"
    and "\<not> h_fault (ae_ch (sv_ae sv')) (StatDir w)"
  shows "\<exists>e. make_snapshot_dir sv' tid' Continuation (Some w) sx1 = (Inl e, sx1)"
  using assms
  by (auto simp: make_snapshot_dir_def fs_create_dir_all_def fs_exists_dir_def split: option.splits if_splits)

text \<open>The documented value of the protocol annotation, \<^verbatim>\<open>v1\<close>, is refused; the value that is required is \<^verbatim>\<open>1\<close>.\<close>

lemma documented_protocol_refused:
  assumes "annotation (sd_annotations (sb_data sb)) READY_PROTOCOL_ANNOTATION = Some ''v1''"
  shows "\<exists>e. warm_fork_ready sv sb = Inl e"
  using assms by (simp add: warm_fork_ready_def WARM_FORK_PROTOCOL_V1_def Let_def)

end
