(* ===== verification/Ch_Files.thy ===== *)
theory Ch_Files
  imports Sandbox_State Continuation_Store Json
begin

text \<open>
  What a restore with Cloud Hypervisor does to files: the disk images
  (\<^verbatim>\<open>vmm/sandbox/src/cloud_hypervisor/block_backend.rs\<close>), the memory artifacts
  (\<^verbatim>\<open>memory_backend.rs\<close>), the patched configuration (\<^verbatim>\<open>snapshot.rs\<close>) and the copies of
  \<^verbatim>\<open>cloud_hypervisor/mod.rs\<close>. The files of the host are a map from paths to regular files and symbolic
  links; which calls succeed, and what a call that fails leaves behind, is a record \<open>hv_env\<close>.
\<close>

section \<open>Files\<close>

datatype fnode = Regular string | Symlink string

type_synonym host_files = "(string, fnode) hmap"

record hv_env =
  hv_mkdir :: "string \<Rightarrow> bool"
  hv_rename :: "string \<Rightarrow> string \<Rightarrow> bool"
  hv_symlink :: "string \<Rightarrow> string \<Rightarrow> bool"
  hv_cp_auto :: "string \<Rightarrow> bool"
  hv_cp_always :: "string \<Rightarrow> bool option"
  hv_copy :: "string \<Rightarrow> bool"
  hv_residue :: "string \<Rightarrow> fnode option"
  hv_read :: "string \<Rightarrow> bool"
  hv_write :: "string \<Rightarrow> bool"
  hv_stat :: "string \<Rightarrow> bool"
  hv_parse :: "string \<Rightarrow> json option"
  hv_render :: "json \<Rightarrow> string"
  hv_spawn :: "nat option option"
  hv_virtiofsd :: "sb_error + nat"
  hv_connect :: bool
  hv_kill :: "nat \<Rightarrow> sb_error option option"
  hv_wait :: bool
  hv_alive :: bool
  hv_api :: "string \<Rightarrow> bool"
  hv_add_disk :: "block_device_info \<Rightarrow> sb_error + string"
  hv_agent :: bool

text \<open>
  Reading follows symbolic links, at most forty of them, the limit of the kernel.
\<close>

fun read_following :: "nat \<Rightarrow> host_files \<Rightarrow> string \<Rightarrow> string option" where
  "read_following 0 fs p = None"
| "read_following (Suc n) fs p =
     (case hm_get fs p of
        None \<Rightarrow> None
      | Some (Regular c) \<Rightarrow> Some c
      | Some (Symlink t) \<Rightarrow> read_following n fs t)"

definition contents :: "host_files \<Rightarrow> string \<Rightarrow> string option" where
  "contents fs p = read_following 41 fs p"

definition fs_rename :: "hv_env \<Rightarrow> string \<Rightarrow> string \<Rightarrow> host_files \<Rightarrow> bool \<times> host_files" where
  "fs_rename hv a b fs =
     (case hm_get fs a of
        None \<Rightarrow> (False, fs)
      | Some n \<Rightarrow> (if hv_rename hv a b then (True, hm_insert b n (hm_remove a fs)) else (False, fs)))"

definition fs_symlink :: "hv_env \<Rightarrow> string \<Rightarrow> string \<Rightarrow> host_files \<Rightarrow> bool \<times> host_files" where
  "fs_symlink hv target p fs =
     (if hm_contains fs p \<or> \<not> hv_symlink hv target p then (False, fs) else (True, hm_insert p (Symlink target) fs))"

text \<open>What a copy that failed leaves at its destination, after the attempt to remove it.\<close>

definition leave_residue :: "hv_env \<Rightarrow> string \<Rightarrow> host_files \<Rightarrow> host_files" where
  "leave_residue hv p fs = (case hv_residue hv p of None \<Rightarrow> hm_remove p fs | Some n \<Rightarrow> hm_insert p n fs)"

definition with_file_name :: "string \<Rightarrow> string \<Rightarrow> string" where
  "with_file_name p n = rev (dropWhile (\<lambda>c. c \<noteq> CHR ''/'') (rev p)) @ n"

definition tmp_path :: "string \<Rightarrow> string" where
  "tmp_path dst = with_file_name dst (''.'' @ (case file_name dst of Some n \<Rightarrow> n | None \<Rightarrow> []) @ ''.tmp'')"

definition copy_img_file :: "hv_env \<Rightarrow> string \<Rightarrow> string \<Rightarrow> host_files \<Rightarrow> sb_error option \<times> host_files" where
  "copy_img_file hv src dst fs =
     (let tmp = tmp_path dst;
          commit = (\<lambda>c fs. case fs_rename hv tmp dst (hm_insert tmp (Regular c) fs) of
                      (True, fs') \<Rightarrow> (None, fs')
                    | (False, fs') \<Rightarrow> (Some (OtherError ''rename''), fs'))
      in
      case (if hv_cp_auto hv tmp then contents fs src else None) of
        Some c \<Rightarrow> commit c fs
      | None \<Rightarrow>
          (let fs1 = leave_residue hv tmp fs in
           case (if hv_copy hv tmp then contents fs1 src else None) of
             Some c \<Rightarrow> commit c fs1
           | None \<Rightarrow> (Some (OtherError ''copy''), leave_residue hv tmp fs1)))"

definition copy_img_file_reflink :: "hv_env \<Rightarrow> string \<Rightarrow> string \<Rightarrow> host_files \<Rightarrow> sb_error option \<times> host_files" where
  "copy_img_file_reflink hv src dst fs =
     (let tmp = tmp_path dst in
      case hv_cp_always hv tmp of
        None \<Rightarrow> (Some (OtherError ''reflink copy''), fs)
      | Some ok \<Rightarrow>
          (case (if ok then contents fs src else None) of
             None \<Rightarrow> (Some (OtherError ''reflink copy failed''), leave_residue hv tmp fs)
           | Some c \<Rightarrow>
               (case fs_rename hv tmp dst (hm_insert tmp (Regular c) fs) of
                  (True, fs') \<Rightarrow> (None, fs')
                | (False, fs') \<Rightarrow> (Some (OtherError ''rename''), fs'))))"

definition symlink_idempotent :: "hv_env \<Rightarrow> string \<Rightarrow> string \<Rightarrow> host_files \<Rightarrow> sb_error option \<times> host_files" where
  "symlink_idempotent hv src dst fs =
     (if hm_contains fs dst then (None, fs)
      else (case fs_symlink hv src dst fs of
              (True, fs') \<Rightarrow> (None, fs')
            | (False, fs') \<Rightarrow> (Some (OtherError ''symlink''), fs')))"

text \<open>The content goes to a temporary file that is then renamed.\<close>

definition write_file_atomic :: "hv_env \<Rightarrow> string \<Rightarrow> string \<Rightarrow> host_files \<Rightarrow> sb_error option \<times> host_files" where
  "write_file_atomic hv p c fs =
     (case file_name p of
        None \<Rightarrow> (Some (InvalidArgument ''path illegal''), fs)
      | Some n \<Rightarrow>
          (let tmp = with_file_name p (''.'' @ n) in
           if \<not> hv_write hv p then (Some (OtherError ''failed to write string to path''), leave_residue hv tmp fs)
           else (case fs_rename hv tmp p (hm_insert tmp (Regular c) fs) of
                   (True, fs') \<Rightarrow> (None, fs')
                 | (False, fs') \<Rightarrow> (Some (OtherError ''rename''), fs'))))"

section \<open>Disk images\<close>

datatype restore_block_action = NoAction | ReflinkCopied | PlainCopied | Symlinked | MovedExclusive

record pending_move =
  pm_current :: string
  pm_original :: string

record restored_blocks =
  rb_disk_remaps :: "(string \<times> string) list"
  rb_restored_paths :: "string list"
  rb_action :: restore_block_action
  rb_pending_moves :: "pending_move list"

definition no_blocks :: restored_blocks where
  "no_blocks = \<lparr>rb_disk_remaps = [], rb_restored_paths = [], rb_action = NoAction, rb_pending_moves = []\<rparr>"

text \<open>The rollback of a failed restore ends at the first rename that fails.\<close>

fun rollback_moves :: "hv_env \<Rightarrow> pending_move list \<Rightarrow> host_files \<Rightarrow> bool \<times> host_files" where
  "rollback_moves hv [] fs = (True, fs)"
| "rollback_moves hv (pm # pms) fs =
     (case fs_rename hv (pm_current pm) (pm_original pm) fs of
        (False, fs') \<Rightarrow> (False, fs')
      | (True, fs') \<Rightarrow> rollback_moves hv pms fs')"

definition rollback_pending_moves :: "hv_env \<Rightarrow> restored_blocks \<Rightarrow> host_files \<Rightarrow> bool \<times> host_files" where
  "rollback_pending_moves hv rb fs = rollback_moves hv (rb_pending_moves rb) fs"

definition restore_action :: "restore_source \<Rightarrow> restore_block_action" where
  "restore_action src =
     (case rs_snapshot_type src of
        Continuation \<Rightarrow> MovedExclusive
      | WarmFork \<Rightarrow>
          (if rs_lease_mode src = Shared then (if rs_reflink_supported src then ReflinkCopied else PlainCopied)
           else Symlinked)
      | Environment \<Rightarrow> Symlinked)"

definition snapshot_disk_path :: "restore_source \<Rightarrow> disk_image_entry \<Rightarrow> string" where
  "snapshot_disk_path src e = path_join (rs_snapshot_dir src) (die_filename e)"

definition sandbox_disk_path :: "string \<Rightarrow> disk_image_entry \<Rightarrow> string" where
  "sandbox_disk_path base_dir e = path_join base_dir (die_storage_id e @ ''.img'')"

text \<open>One image; a move that fails undoes the moves that were made before it.\<close>

definition restore_disk ::
  "hv_env \<Rightarrow> restore_block_action \<Rightarrow> string \<Rightarrow> string \<Rightarrow> pending_move list \<Rightarrow> host_files
   \<Rightarrow> (sb_error + pending_move list) \<times> host_files" where
  "restore_disk hv act src_img dst_img moves fs =
     (case act of
        ReflinkCopied \<Rightarrow>
          (case copy_img_file_reflink hv src_img dst_img fs of (Some e, fs') \<Rightarrow> (Inl e, fs') | (None, fs') \<Rightarrow> (Inr moves, fs'))
      | PlainCopied \<Rightarrow>
          (case copy_img_file hv src_img dst_img fs of (Some e, fs') \<Rightarrow> (Inl e, fs') | (None, fs') \<Rightarrow> (Inr moves, fs'))
      | Symlinked \<Rightarrow>
          (case fs_symlink hv src_img dst_img fs of
             (False, fs') \<Rightarrow> (Inl (OtherError ''symlink''), fs')
           | (True, fs') \<Rightarrow> (Inr moves, fs'))
      | MovedExclusive \<Rightarrow>
          (case fs_rename hv src_img dst_img fs of
             (False, fs') \<Rightarrow>
               (Inl (OtherError ''rename''),
                fold (\<lambda>pm fs. snd (fs_rename hv (pm_current pm) (pm_original pm) fs)) moves fs')
           | (True, fs') \<Rightarrow> (Inr (moves @ [\<lparr>pm_current = dst_img, pm_original = src_img\<rparr>]), fs'))
      | NoAction \<Rightarrow> (Inr moves, fs))"

fun restore_disks ::
  "hv_env \<Rightarrow> restore_source \<Rightarrow> string \<Rightarrow> restore_block_action \<Rightarrow> disk_image_entry list \<Rightarrow> restored_blocks \<Rightarrow> host_files
   \<Rightarrow> (sb_error + restored_blocks) \<times> host_files" where
  "restore_disks hv src base_dir act [] rb fs = (Inr (rb\<lparr>rb_action := act\<rparr>), fs)"
| "restore_disks hv src base_dir act (e # es) rb fs =
     (let dst_img = sandbox_disk_path base_dir e in
      case restore_disk hv act (snapshot_disk_path src e) dst_img (rb_pending_moves rb) fs of
        (Inl err, fs') \<Rightarrow> (Inl err, fs')
      | (Inr moves, fs') \<Rightarrow>
          restore_disks hv src base_dir act es
            (rb\<lparr>rb_disk_remaps := rb_disk_remaps rb @ [(die_device_id e, dst_img)],
                rb_restored_paths := rb_restored_paths rb @ [dst_img], rb_pending_moves := moves\<rparr>) fs')"

definition prepare_restore_block_artifacts ::
  "hv_env \<Rightarrow> restore_source \<Rightarrow> string \<Rightarrow> host_files \<Rightarrow> (sb_error + restored_blocks) \<times> host_files" where
  "prepare_restore_block_artifacts hv src base_dir fs =
     (if rs_disk_images src = [] then (Inr no_blocks, fs)
      else if \<not> hv_mkdir hv base_dir then (Inl (OtherError ''create restore block dir''), fs)
      else restore_disks hv src base_dir (restore_action src) (rs_disk_images src) no_blocks fs)"

section \<open>Memory\<close>

definition memory_artifacts_for_mode :: "memory_restore_mode \<Rightarrow> string list" where
  "memory_artifacts_for_mode m =
     [''memory-ranges'', ''state.json''] @
     (case m of
        Copy \<Rightarrow> [] | OnDemand \<Rightarrow> []
      | FileBackend \<Rightarrow> [''memory.img'']
      | ExternalUffd \<Rightarrow> [''memory.img'', ''memory-ranges.manifest''])"

fun pin_artifacts :: "hv_env \<Rightarrow> restore_source \<Rightarrow> string list \<Rightarrow> host_files \<Rightarrow> sb_error option \<times> host_files" where
  "pin_artifacts hv src [] fs = (None, fs)"
| "pin_artifacts hv src (a # as) fs =
     (let source = path_join (rs_snapshot_dir src) a in
      if contents fs source = None \<or> \<not> hv_stat hv source then (Some (OtherError ''memory artifact is not available''), fs)
      else (case symlink_idempotent hv source (path_join (rs_work_dir src) a) fs of
              (Some e, fs') \<Rightarrow> (Some e, fs')
            | (None, fs') \<Rightarrow> pin_artifacts hv src as fs'))"

definition prepare_memory_backend :: "hv_env \<Rightarrow> restore_source \<Rightarrow> host_files \<Rightarrow> (sb_error + string) \<times> host_files" where
  "prepare_memory_backend hv src fs =
     (case pin_artifacts hv src (memory_artifacts_for_mode (rs_memory_restore_mode src)) fs of
        (Some e, fs') \<Rightarrow> (Inl e, fs')
      | (None, fs') \<Rightarrow> (Inr (''file://'' @ rs_work_dir src), fs'))"

section \<open>The configuration of the machine\<close>

definition has_network_devices :: "json \<Rightarrow> bool" where
  "has_network_devices cfg =
     (case jget cfg ''net'' of
        Some (JArray ds) \<Rightarrow> ds \<noteq> []
      | Some (JObject m) \<Rightarrow> m \<noteq> []
      | _ \<Rightarrow> False)"

definition read_config :: "hv_env \<Rightarrow> string \<Rightarrow> host_files \<Rightarrow> sb_error + json" where
  "read_config hv p fs =
     (case (if hv_read hv p then contents fs p else None) of
        None \<Rightarrow> Inl (OtherError ''read config.json'')
      | Some c \<Rightarrow> (case hv_parse hv c of None \<Rightarrow> Inl (OtherError ''parse config.json'') | Some v \<Rightarrow> Inr v))"

definition validate_snapshot_config :: "hv_env \<Rightarrow> string \<Rightarrow> snapshot_type \<Rightarrow> host_files \<Rightarrow> sb_error option" where
  "validate_snapshot_config hv p kind fs =
     (case read_config hv p fs of
        Inl e \<Rightarrow> Some e
      | Inr cfg \<Rightarrow>
          (if Option.bind (jpointer ''vsock'' ''socket'' cfg) as_str = None
           then Some (OtherError ''config.json missing /vsock/socket'')
           else if kind = Environment \<and> has_network_devices cfg
           then Some (OtherError ''Environment snapshot config must not contain network devices'')
           else None))"

definition remap_disk :: "(string \<times> string) list \<Rightarrow> json \<Rightarrow> json option" where
  "remap_disk remaps disk =
     (case Option.bind (jget disk ''id'') as_str of
        None \<Rightarrow> None
      | Some i \<Rightarrow>
          (case map_of remaps i of
             None \<Rightarrow> None
           | Some new_path \<Rightarrow> Some (jset ''path'' (JString new_path) disk)))"

definition patch_disks :: "(string \<times> string) list \<Rightarrow> json \<Rightarrow> json" where
  "patch_disks remaps cfg =
     (case jget cfg ''disks'' of
        None \<Rightarrow> cfg
      | Some d \<Rightarrow>
          (if remaps = [] then jset ''disks'' (JArray []) cfg
           else (case as_array d of
                   None \<Rightarrow> cfg
                 | Some ds \<Rightarrow> jset ''disks'' (JArray (List.map_filter (remap_disk remaps) ds)) cfg)))"

definition patch_config :: "path_overrides \<Rightarrow> (string \<times> string) list \<Rightarrow> json \<Rightarrow> sb_error + json" where
  "patch_config ov remaps cfg =
     (if jpointer ''vsock'' ''socket'' cfg = None then Inl (OtherError ''config.json missing /vsock/socket'')
      else Inr (patch_disks remaps
                 (jpointer_set ''console'' ''file'' (JString (po_console_path ov))
                   (jpointer_set ''vsock'' ''socket'' (JString (po_task_vsock ov)) cfg))))"

definition patch_snapshot_config ::
  "hv_env \<Rightarrow> string \<Rightarrow> string \<Rightarrow> path_overrides \<Rightarrow> (string \<times> string) list \<Rightarrow> host_files \<Rightarrow> sb_error option \<times> host_files" where
  "patch_snapshot_config hv p dst ov remaps fs =
     (case read_config hv p fs of
        Inl e \<Rightarrow> (Some e, fs)
      | Inr cfg \<Rightarrow>
          (case patch_config ov remaps cfg of
             Inl e \<Rightarrow> (Some e, fs)
           | Inr cfg' \<Rightarrow> write_file_atomic hv dst (hv_render hv cfg') fs))"

end
