(* ===== verification/Cloud_Hypervisor.thy ===== *)
theory Cloud_Hypervisor
  imports Ch_Files Service Resources
begin

text \<open>
  The virtual machine of Cloud Hypervisor (\<^verbatim>\<open>vmm/sandbox/src/cloud_hypervisor/mod.rs\<close>), its hooks
  (\<^verbatim>\<open>hooks.rs\<close>) and its factory (\<^verbatim>\<open>factory.rs\<close>). The machine carries the part of the world it
  works on: the files of the host, and what the hypervisor process holds - the devices it was given and
  whether the guest is paused.
\<close>

section \<open>State\<close>

datatype ch_device =
    DiskDevice string string bool bool
  | NetDevice string "string option" string "nat list"
  | VfioDevice string string
  | PmemDevice string string bool
  | RngDevice string string
  | VsockDevice nat string string
  | ConsoleDevice string string
  | FsDevice string string string

datatype device_info =
    Block block_device_info
  | Tap string string string "nat list"
  | Physical string string
  | VhostUser string
  | CharDev string

datatype container_storage_backend = Virtiofs | VirtioBlkBackend

record net_hotplug_info =
  nh_id :: string
  nh_mac :: string
  nh_raw_fds :: "nat list"
  nh_num_queues :: "32 word"

record cpus =
  cp_boot :: nat
  cp_max :: "nat option"
  cp_topology :: "string option"
  cp_affinity :: "string list"
  cp_features :: "string list"

record ch_memory =
  me_size :: nat
  me_shared :: bool
  me_hugepages :: bool
  me_hugepage_size :: "string option"
  me_prefault :: "bool option"
  me_thp :: "bool option"

record ch_config =
  cc_path :: string
  cc_api_socket :: string
  cc_cpus :: cpus
  cc_memory :: ch_memory
  cc_kernel :: string
  cc_cmdline :: string
  cc_initramfs :: "string option"
  cc_log_file :: "string option"
  cc_debug :: bool

record ch_vm_config =
  cv_path :: string
  cv_kernel_path :: string
  cv_image_path :: string
  cv_initrd_path :: string
  cv_kernel_params :: string
  cv_vcpus :: nat
  cv_memory_in_mb :: nat
  cv_debug :: bool
  cv_hugepages :: bool
  cv_entropy_source :: string
  cv_task_debug :: bool
  cv_task_enable_tracing :: bool
  cv_virtiofsd_path :: string
  cv_virtiofsd_socket :: string
  cv_storage_backend :: container_storage_backend
  cv_direct_io :: bool

fun backend_str :: "container_storage_backend \<Rightarrow> string" where
  "backend_str Virtiofs = ''virtiofs''"
| "backend_str VirtioBlkBackend = VIRTIO_BLK"

fun sharefs_type :: "container_storage_backend \<Rightarrow> string" where
  "sharefs_type Virtiofs = ''virtiofs''"
| "sharefs_type VirtioBlkBackend = ''none''"

definition DEFAULT_KERNEL_PARAMS :: string where
  "DEFAULT_KERNEL_PARAMS =
     ''console=hvc0 root=/dev/pmem0p1 rootflags=data=ordered,errors=remount-ro ro rootfstype=ext4''"

definition cpus_new :: "nat \<Rightarrow> cpus" where
  "cpus_new boot = \<lparr>cp_boot = boot, cp_max = None, cp_topology = None, cp_affinity = [], cp_features = []\<rparr>"

definition memory_new :: "nat \<Rightarrow> bool \<Rightarrow> bool \<Rightarrow> ch_memory" where
  "memory_new sz shared hugepages =
     \<lparr>me_size = sz, me_shared = shared, me_hugepages = hugepages, me_hugepage_size = None, me_prefault = None, me_thp = None\<rparr>"

definition ch_config_from :: "ch_vm_config \<Rightarrow> ch_config" where
  "ch_config_from c =
     \<lparr>cc_path = cv_path c, cc_api_socket = [], cc_cpus = cpus_new (cv_vcpus c),
      cc_memory = memory_new (cv_memory_in_mb c * 1024 * 1024) (cv_storage_backend c = Virtiofs) (cv_hugepages c),
      cc_kernel = cv_kernel_path c,
      cc_cmdline = DEFAULT_KERNEL_PARAMS @ '' task.sharefs_type='' @ sharefs_type (cv_storage_backend c) @
        '' task.container_storage_backend='' @ backend_str (cv_storage_backend c) @ '' '' @ cv_kernel_params c @
        (if cv_task_debug c then '' task.log_level=debug'' else []) @
        '' task.enable_tracing='' @ (if cv_task_enable_tracing c then ''true'' else ''false''),
      cc_initramfs = None, cc_log_file = None, cc_debug = cv_debug c\<rparr>"

record ch_vm =
  ch_id :: string
  ch_config :: ch_config
  ch_devices :: "ch_device list"
  ch_netns :: string
  ch_base_dir :: string
  ch_agent_socket :: string
  ch_virtiofsd_socket :: string
  ch_storage_backend :: container_storage_backend
  ch_direct_io :: bool
  ch_wait_chan :: bool
  ch_client :: bool
  ch_fds :: "nat list"
  ch_vmm_pid :: "nat option"
  ch_affiliated_pids :: "nat list"
  ch_pending_net :: "net_hotplug_info list"
  ch_files :: host_files
  ch_plugged :: "string list"
  ch_paused :: bool

definition ch_new :: "string \<Rightarrow> string \<Rightarrow> string \<Rightarrow> ch_vm_config \<Rightarrow> host_files \<Rightarrow> ch_vm" where
  "ch_new i netns base_dir c fs =
     \<lparr>ch_id = i,
      ch_config = (ch_config_from c)\<lparr>cc_api_socket := base_dir @ ''/api.sock'',
        cc_initramfs := (if cv_initrd_path c = [] then None else Some (cv_initrd_path c))\<rparr>,
      ch_devices = [], ch_netns = netns, ch_base_dir = base_dir, ch_agent_socket = [],
      ch_virtiofsd_socket = (if cv_storage_backend c = Virtiofs then base_dir @ ''/virtiofs.sock'' else cv_virtiofsd_socket c),
      ch_storage_backend = cv_storage_backend c, ch_direct_io = cv_direct_io c, ch_wait_chan = False, ch_client = False,
      ch_fds = [], ch_vmm_pid = None, ch_affiliated_pids = [], ch_pending_net = [], ch_files = fs, ch_plugged = [],
      ch_paused = False\<rparr>"

definition add_device :: "ch_device \<Rightarrow> ch_vm \<Rightarrow> ch_vm" where
  "add_device d v = v\<lparr>ch_devices := ch_devices v @ [d]\<rparr>"

text \<open>The factory: the devices every machine has, in the order of the command line.\<close>

definition create_vm :: "ch_vm_config \<Rightarrow> string \<Rightarrow> string \<Rightarrow> string \<Rightarrow> host_files \<Rightarrow> sb_error + ch_vm" where
  "create_vm c i base_dir netns fs =
     (if cv_storage_backend c = Virtiofs \<and> cv_virtiofsd_path c = []
      then Inl (OtherError ''virtiofsd.path is not configured'')
      else
        (let v0 = ch_new i netns base_dir c fs;
             v1 = (if cv_image_path c \<noteq> [] then add_device (PmemDevice ''rootfs'' (cv_image_path c) True) v0 else v0);
             v2 = (if cv_entropy_source c \<noteq> [] then add_device (RngDevice ''rng'' (cv_entropy_source c)) v1 else v1);
             socket = base_dir @ ''/task.vsock'';
             v3 = (add_device (VsockDevice 3 socket ''vsock'') v2)\<lparr>ch_agent_socket := ''hvsock://'' @ socket @ '':1024''\<rparr>;
             v4 = add_device (ConsoleDevice (''/tmp/'' @ i @ ''-task.log'') ''console'') v3
         in Inr (if ch_virtiofsd_socket v4 \<noteq> [] then add_device (FsDevice ''fs'' (ch_virtiofsd_socket v4) ''kuasar'') v4 else v4)))"

section \<open>Starting and stopping\<close>

text \<open>
  A signal to the hypervisor: it arrives and the process is awaited, the process is gone, or the call
  fails. The processes that go with it are signalled without regard to the outcome. A hypervisor that was
  killed holds no device any more.
\<close>

definition ch_stop :: "hv_env \<Rightarrow> bool \<Rightarrow> ch_vm \<Rightarrow> sb_error option \<times> ch_vm" where
  "ch_stop hv force v =
     (case ch_vmm_pid v of
        None \<Rightarrow> (None, v)
      | Some pid \<Rightarrow>
          (if pid = 0 then (None, v)
           else (case hv_kill hv pid of
                   Some (Some e) \<Rightarrow> (Some e, v)
                 | Some None \<Rightarrow> (None, v)
                 | None \<Rightarrow>
                     (if ch_wait_chan v \<and> \<not> hv_wait hv then (Some (OtherError ''wait for the vmm''), v)
                      else (None, v\<lparr>ch_plugged := [], ch_paused := False\<rparr>)))))"

definition ch_start :: "hv_env \<Rightarrow> ch_vm \<Rightarrow> (sb_error + nat) \<times> ch_vm" where
  "ch_start hv v =
     (if \<not> hv_mkdir hv (ch_base_dir v) then (Inl (OtherError ''create base dir''), v)
      else
        (let v1 = v\<lparr>ch_files := hm_remove (cc_api_socket (ch_config v)) (ch_files v)\<rparr> in
         case (if ch_storage_backend v = Virtiofs then map_sum id Some (hv_virtiofsd hv) else Inr None) of
           Inl e \<Rightarrow> (Inl e, v1)
         | Inr vpid \<Rightarrow>
             (let v2 = v1\<lparr>ch_affiliated_pids := ch_affiliated_pids v @ (case vpid of None \<Rightarrow> [] | Some p \<Rightarrow> [p]), ch_fds := []\<rparr> in
              case hv_spawn hv of
                None \<Rightarrow> (Inl (OtherError ''failed to spawn cloud hypervisor command''), v2)
              | Some pid \<Rightarrow>
                  (let v3 = v2\<lparr>ch_vmm_pid := pid, ch_wait_chan := True\<rparr> in
                   if hv_connect hv then (Inr (case pid of None \<Rightarrow> 0 | Some p \<Rightarrow> p), v3\<lparr>ch_client := True\<rparr>)
                   else (Inl (OtherError ''timeout connect client''), snd (ch_stop hv True v3))))))"

definition launch_for_restore :: "hv_env \<Rightarrow> ch_vm \<Rightarrow> sb_error option \<times> ch_vm" where
  "launch_for_restore hv v =
     (if \<not> hv_mkdir hv (ch_base_dir v) then (Some (OtherError ''create base dir''), v)
      else
        (let v1 = v\<lparr>ch_files := hm_remove (cc_api_socket (ch_config v)) (ch_files v)\<rparr> in
         case hv_spawn hv of
           None \<Rightarrow> (Some (OtherError ''failed to spawn cloud-hypervisor for restore''), v1)
         | Some pid \<Rightarrow>
             (let v2 = v1\<lparr>ch_vmm_pid := pid, ch_wait_chan := True\<rparr> in
              if hv_connect hv then (None, v2\<lparr>ch_client := True\<rparr>)
              else (Some (OtherError ''timeout connect client''), snd (ch_stop hv True v2)))))"

section \<open>Devices\<close>

definition ch_attach :: "device_info \<Rightarrow> ch_vm \<Rightarrow> sb_error option \<times> ch_vm" where
  "ch_attach d v =
     (case d of
        Block b \<Rightarrow> (None, add_device (DiskDevice (bd_id b) (bd_path b) (bd_read_only b) (ch_direct_io v)) v)
      | Tap i name mac fds \<Rightarrow>
          (if fds = [] then (Some (OtherError ''tap device must have at least one queue fd''), v)
           else
             (let indices = map (\<lambda>n. length (ch_fds v) + n + 3) [0..<length fds];
                  info = \<lparr>nh_id = i, nh_mac = mac, nh_raw_fds = fds, nh_num_queues = of_nat (length fds) * 2\<rparr>
              in (None, (add_device (NetDevice i (Some name) mac indices) v)
                          \<lparr>ch_fds := ch_fds v @ fds, ch_pending_net := ch_pending_net v @ [info]\<rparr>)))
      | Physical i bdf \<Rightarrow> (None, add_device (VfioDevice i bdf) v)
      | VhostUser i \<Rightarrow> (Some (OtherError ''VhostUser device attach is not supported''), v)
      | CharDev i \<Rightarrow> (Some (OtherError ''Char device attach is not supported''), v))"

text \<open>The request of the client; the kinds of device without an implementation panic.\<close>

definition client_hot_attach :: "hv_env \<Rightarrow> device_info \<Rightarrow> sb_error + string" where
  "client_hot_attach hv d =
     (case d of
        Block b \<Rightarrow> hv_add_disk hv b
      | Tap i name mac fds \<Rightarrow>
          (if fds = [] then Inl (OtherError ''fds must not be empty'')
           else if \<not> hv_api hv (''vm.add-net '' @ i) then Inl (OtherError ''vm.add-net'')
           else Inr [])
      | _ \<Rightarrow> Inl (OtherError ''not yet implemented''))"

fun device_id :: "device_info \<Rightarrow> string" where
  "device_id (Block b) = bd_id b"
| "device_id (Tap i name mac fds) = i"
| "device_id (Physical i bdf) = i"
| "device_id (VhostUser i) = i"
| "device_id (CharDev i) = i"

definition ch_hot_attach :: "hv_env \<Rightarrow> device_info \<Rightarrow> ch_vm \<Rightarrow> (sb_error + bus_type \<times> string) \<times> ch_vm" where
  "ch_hot_attach hv d v =
     (if \<not> ch_client v then (Inl (NotFoundError ''cloud hypervisor client not inited''), v)
      else (case client_hot_attach hv d of
              Inl e \<Rightarrow> (Inl e, v)
            | Inr addr \<Rightarrow> (Inr (PCI, addr), v\<lparr>ch_plugged := List.insert (device_id d) (ch_plugged v)\<rparr>)))"

definition ch_hot_detach :: "hv_env \<Rightarrow> string \<Rightarrow> ch_vm \<Rightarrow> sb_error option \<times> ch_vm" where
  "ch_hot_detach hv i v =
     (if \<not> ch_client v then (Some (NotFoundError ''cloud hypervisor client not inited''), v)
      else if \<not> hv_api hv (''remove-device '' @ i) then (Some (OtherError ''failed to remove device''), v)
      else (None, v\<lparr>ch_plugged := removeAll i (ch_plugged v)\<rparr>))"

fun add_nets :: "hv_env \<Rightarrow> bool \<Rightarrow> net_hotplug_info list \<Rightarrow> sb_error option" where
  "add_nets hv client [] = None"
| "add_nets hv client (n # ns) =
     (if \<not> client then Some (NotFoundError ''cloud hypervisor client not inited'')
      else if \<not> hv_api hv (''vm.add-net '' @ nh_id n) then Some (OtherError ''vm.add-net'')
      else add_nets hv client ns)"

definition ch_hotplug_pending_network :: "hv_env \<Rightarrow> ch_vm \<Rightarrow> sb_error option \<times> ch_vm" where
  "ch_hotplug_pending_network hv v = (add_nets hv (ch_client v) (ch_pending_net v), v\<lparr>ch_pending_net := []\<rparr>)"

definition ch_recover :: "hv_env \<Rightarrow> ch_vm \<Rightarrow> sb_error option \<times> ch_vm" where
  "ch_recover hv v =
     (case ch_vmm_pid v of
        None \<Rightarrow> (Some (OtherError ''empty pid from vmm_pid''), v)
      | Some pid \<Rightarrow>
          (if \<not> hv_alive hv then (Some (OtherError ''vm process is no longer running''), v)
           else if \<not> hv_stat hv (cc_api_socket (ch_config v)) then (Some (OtherError ''api socket does not exist''), v)
           else if \<not> hv_connect hv then (Some (OtherError ''timeout connect client''), v)
           else (None, v\<lparr>ch_client := True, ch_wait_chan := True\<rparr>)))"

definition ch_ping :: "hv_env \<Rightarrow> ch_vm \<Rightarrow> sb_error option" where
  "ch_ping hv v = (if ch_agent_socket v = [] then None else if hv_agent hv then None else Some (OtherError ''ping''))"

section \<open>Restore\<close>

text \<open>
  Up to the launch a failure rolls the moved disks back; from then on the hypervisor is killed first.
\<close>

definition give_back :: "hv_env \<Rightarrow> restored_blocks \<Rightarrow> ch_vm \<Rightarrow> ch_vm" where
  "give_back hv rb v = v\<lparr>ch_files := snd (rollback_pending_moves hv rb (ch_files v))\<rparr>"

definition restore_patched ::
  "hv_env \<Rightarrow> restore_source \<Rightarrow> restored_blocks \<Rightarrow> host_files \<Rightarrow> (sb_error + string) \<times> host_files" where
  "restore_patched hv src rb fs =
     (let config = path_join (rs_snapshot_dir src) ''config.json'' in
      case validate_snapshot_config hv config (rs_snapshot_type src) fs of
        Some e \<Rightarrow> (Inl e, fs)
      | None \<Rightarrow>
          (case patch_snapshot_config hv config (path_join (rs_work_dir src) ''config.json'') (rs_overrides src)
                  (rb_disk_remaps rb) fs of
             (Some e, fs1) \<Rightarrow> (Inl e, fs1)
           | (None, fs1) \<Rightarrow> prepare_memory_backend hv src fs1))"

definition restore_api :: "hv_env \<Rightarrow> string \<Rightarrow> ch_vm \<Rightarrow> sb_error option \<times> ch_vm" where
  "restore_api hv url v =
     (if \<not> ch_client v then (Some (NotFoundError ''cloud hypervisor client not inited''), v)
      else if \<not> hv_api hv (''restore '' @ url) then (Some (OtherError ''vm.restore API''), v)
      else if \<not> hv_api hv ''resume'' then (Some (OtherError ''vm.resume after restore''), v\<lparr>ch_paused := True\<rparr>)
      else if \<not> hv_agent hv then (Some (OtherError ''agent not ready''), v)
      else (None, v))"

definition ch_restore :: "hv_env \<Rightarrow> restore_source \<Rightarrow> ch_vm \<Rightarrow> sb_error option \<times> ch_vm" where
  "ch_restore hv src v =
     (if \<not> hv_mkdir hv (rs_work_dir src) then (Some (OtherError ''create work dir''), v)
      else
        (case prepare_restore_block_artifacts hv src (ch_base_dir v) (ch_files v) of
           (Inl e, fs) \<Rightarrow> (Some e, v\<lparr>ch_files := fs\<rparr>)
         | (Inr rb, fs) \<Rightarrow>
             (case restore_patched hv src rb fs of
                (Inl e, fs1) \<Rightarrow> (Some e, give_back hv rb (v\<lparr>ch_files := fs1\<rparr>))
              | (Inr url, fs1) \<Rightarrow>
                  (case launch_for_restore hv (v\<lparr>ch_files := fs1\<rparr>) of
                     (Some e, v1) \<Rightarrow> (Some e, give_back hv rb v1)
                   | (None, v1) \<Rightarrow>
                       (case restore_api hv url v1 of
                          (Some e, v2) \<Rightarrow> (Some e, give_back hv rb (snd (ch_stop hv True v2)))
                        | (None, v2) \<Rightarrow> (None, v2))))))"

section \<open>Snapshot\<close>

fun copy_disk_images_loop ::
  "hv_env \<Rightarrow> disk_snapshot list \<Rightarrow> string \<Rightarrow> disk_image_entry list \<Rightarrow> host_files
   \<Rightarrow> (sb_error + disk_image_entry list) \<times> host_files" where
  "copy_disk_images_loop hv [] dest_dir entries fs = (Inr entries, fs)"
| "copy_disk_images_loop hv (d # ds) dest_dir entries fs =
     (let filename = ''disks/'' @ ds_storage_id d @ ''.img'' in
      case copy_img_file hv (ds_img_path d) (path_join dest_dir filename) fs of
        (Some e, fs1) \<Rightarrow> (Inl e, fs1)
      | (None, fs1) \<Rightarrow>
          copy_disk_images_loop hv ds dest_dir
            (entries @ [\<lparr>die_storage_id = ds_storage_id d, die_device_id = ds_device_id d, die_filename = filename\<rparr>]) fs1)"

definition copy_disk_images ::
  "hv_env \<Rightarrow> disk_snapshot list \<Rightarrow> string \<Rightarrow> host_files \<Rightarrow> (sb_error + disk_image_entry list) \<times> host_files" where
  "copy_disk_images hv disks dest_dir fs =
     (if \<not> hv_mkdir hv (path_join dest_dir ''disks'') then (Inl (OtherError ''create disks dir''), fs)
      else copy_disk_images_loop hv disks dest_dir [] fs)"

text \<open>
  The guest is paused while its disks are copied and its memory is saved, and resumed whether or not that
  worked. What the hypervisor writes into the directory is its own.
\<close>

definition vm_resume :: "hv_env \<Rightarrow> ch_vm \<Rightarrow> ch_vm" where
  "vm_resume hv v = (if hv_api hv ''resume'' then v\<lparr>ch_paused := False\<rparr> else v)"

definition ch_snapshot :: "hv_env \<Rightarrow> string \<Rightarrow> disk_snapshot list \<Rightarrow> ch_vm \<Rightarrow> (sb_error + snapshot_meta) \<times> ch_vm" where
  "ch_snapshot hv dest_dir disks v =
     (if \<not> hv_mkdir hv dest_dir then (Inl (OtherError ''create snapshot dir''), v)
      else if \<not> ch_client v then (Inl (NotFoundError ''cloud hypervisor client not inited''), v)
      else if \<not> hv_api hv ''pause'' then (Inl (OtherError ''vm.pause''), v)
      else
        (let v1 = v\<lparr>ch_paused := True\<rparr> in
         case (if disks = [] then (Inr [], ch_files v1) else copy_disk_images hv disks dest_dir (ch_files v1)) of
           (Inl e, fs) \<Rightarrow> (Inl (OtherError ''disk copy failed''), vm_resume hv (v1\<lparr>ch_files := fs\<rparr>))
         | (Inr entries, fs) \<Rightarrow>
             (let v2 = vm_resume hv (v1\<lparr>ch_files := fs\<rparr>) in
              if \<not> hv_api hv (''snapshot file://'' @ dest_dir) then (Inl (OtherError ''vm.snapshot''), v2)
              else (Inr \<lparr>sm_snapshot_dir = dest_dir, sm_original_task_vsock = ch_base_dir v @ ''/task.vsock'',
                         sm_original_console_path = ch_base_dir v @ ''/task.log'', sm_disk_images = entries\<rparr>, v2))))"

section \<open>The machine as the sandboxer sees it\<close>

definition ch_vm_ops :: "hv_env \<Rightarrow> ch_vm vm_ops" where
  "ch_vm_ops hv =
     \<lparr>vm_start = ch_start hv, vm_stop = ch_stop hv, vm_hot_attach = (\<lambda>d. ch_hot_attach hv (Block d)),
      vm_hot_detach = ch_hot_detach hv, vm_hotplug_pending_network = ch_hotplug_pending_network hv,
      vm_restore = ch_restore hv, vm_recover = ch_recover hv, vm_pid = ch_vmm_pid, vm_socket_address = ch_agent_socket\<rparr>"

section \<open>Hooks\<close>

text \<open>
  Double-precision arithmetic on positive integers: a value is rounded to 53 significant bits, ties to even.
  The quotient of two such values is rounded the same way; below one it stays positive and not above one.
\<close>

definition round_half_even :: "nat \<Rightarrow> nat \<Rightarrow> nat" where
  "round_half_even n d =
     (let q = n div d; r = n mod d in
      if 2 * r < d then q else if d < 2 * r then Suc q else q + q mod 2)"

fun ilog2 :: "nat \<Rightarrow> nat" where
  "ilog2 n = (if n < 2 then 0 else Suc (ilog2 (n div 2)))"

declare ilog2.simps [simp del]

definition f64_of_nat :: "nat \<Rightarrow> nat" where
  "f64_of_nat n =
     (if n < 2 ^ 53 then n
      else (let u = 2 ^ (ilog2 n - 52) in round_half_even n u * u))"

definition f64_div_ceil :: "nat \<Rightarrow> nat \<Rightarrow> nat" where
  "f64_div_ceil n d =
     (if n < d then 1
      else
        (let k = ilog2 (n div d) in
         if k < 52 then (let u = 2 ^ (52 - k); m = round_half_even (n * u) d in (m + (u - 1)) div u)
         else (let u = 2 ^ (k - 52) in round_half_even n (d * u) * u)))"

definition saturate_u32 :: "nat \<Rightarrow> nat" where
  "saturate_u32 n = min n (2 ^ 32 - 1)"

definition vcpus_of :: "container_resources \<Rightarrow> nat option" where
  "vcpus_of r =
     (if 0 < sint (lr_cpu_period r) \<and> 0 < sint (lr_cpu_quota r)
      then Some (saturate_u32 (f64_div_ceil (f64_of_nat (nat (sint (lr_cpu_quota r))))
                                            (f64_of_nat (nat (sint (lr_cpu_period r))))))
      else None)"

definition process_config :: "linux_config option \<Rightarrow> ch_config \<Rightarrow> ch_config" where
  "process_config lc c =
     (case get_resources lc of
        None \<Rightarrow> c
      | Some r \<Rightarrow>
          (let c1 = (case vcpus_of r of
                       None \<Rightarrow> c
                     | Some n \<Rightarrow> c\<lparr>cc_cpus := (cc_cpus c)\<lparr>cp_boot := n, cp_max := Some n\<rparr>\<rparr>)
           in if 0 < sint (lr_memory_limit_in_bytes r)
              then c1\<lparr>cc_memory := (cc_memory c1)\<lparr>me_size := nat (sint (lr_memory_limit_in_bytes r))\<rparr>\<rparr>
              else c1))"

definition ch_pre_start :: "linux_config option \<Rightarrow> ch_vm kuasar_sandbox \<Rightarrow> sb_error option \<times> ch_vm kuasar_sandbox" where
  "ch_pre_start lc sb =
     (None, sb\<lparr>sb_vm := (sb_vm sb)\<lparr>ch_config := process_config lc (ch_config (sb_vm sb))\<rparr>\<rparr>)"

definition ch_post_start :: "ch_vm kuasar_sandbox \<Rightarrow> sb_error option \<times> ch_vm kuasar_sandbox" where
  "ch_post_start sb =
     (None, sb\<lparr>sb_data := (sb_data sb)\<lparr>sd_task_address := ''ttrpc+'' @ ch_agent_socket (sb_vm sb)\<rparr>\<rparr>)"

end
