(* ===== verification/Ch_Restore.thy ===== *)
theory Ch_Restore
  imports Cloud_Hypervisor
begin

text \<open>
  What a restore with Cloud Hypervisor does to the files of the host: which paths each step writes, that a
  restore that fails leaves the snapshot as it was, and that a restore that succeeds finds the disks of the
  snapshot at the paths its configuration names.
\<close>

section \<open>Frames\<close>

definition agree_except :: "string set \<Rightarrow> host_files \<Rightarrow> host_files \<Rightarrow> bool" where
  "agree_except S fs fs' \<longleftrightarrow> (\<forall>p. p \<notin> S \<longrightarrow> hm_get fs' p = hm_get fs p)"

lemma agree_refl [simp]: "agree_except S fs fs"
  by (simp add: agree_except_def)

lemma agree_trans [trans]: "agree_except S a b \<Longrightarrow> agree_except S b c \<Longrightarrow> agree_except S a c"
  by (simp add: agree_except_def)

lemma agree_mono: "agree_except S a b \<Longrightarrow> S \<subseteq> T \<Longrightarrow> agree_except T a b"
  by (auto simp: agree_except_def)

lemma agree_get: "agree_except S fs fs' \<Longrightarrow> p \<notin> S \<Longrightarrow> hm_get fs' p = hm_get fs p"
  by (simp add: agree_except_def)

lemma agree_insert [simp]: "p \<in> S \<Longrightarrow> agree_except S fs (hm_insert p n fs)"
  by (auto simp: agree_except_def)

lemma agree_remove [simp]: "p \<in> S \<Longrightarrow> agree_except S fs (hm_remove p fs)"
  by (auto simp: agree_except_def)

lemma agree_residue [simp]: "p \<in> S \<Longrightarrow> agree_except S fs (leave_residue hv p fs)"
  by (simp add: leave_residue_def split: option.split)

lemma fs_rename_ok:
  "fs_rename hv a b fs = (True, fs') \<Longrightarrow>
     \<exists>n. hm_get fs a = Some n \<and> (\<forall>p. hm_get fs' p = (if p = b then Some n else if p = a then None else hm_get fs p))"
  by (auto simp: fs_rename_def split: option.splits if_splits)

lemma fs_rename_fail: "fs_rename hv a b fs = (False, fs') \<Longrightarrow> fs' = fs"
  by (auto simp: fs_rename_def split: option.splits if_splits)

lemma fs_rename_agree: "fs_rename hv a b fs = (r, fs') \<Longrightarrow> a \<in> S \<Longrightarrow> b \<in> S \<Longrightarrow> agree_except S fs fs'"
  by (auto simp: fs_rename_def agree_except_def split: option.splits if_splits)

lemma fs_rename_tmp:
  assumes "fs_rename hv t d (hm_insert t (Regular c) fs) = (r, fs')"
  shows "t \<in> S \<Longrightarrow> d \<in> S \<Longrightarrow> agree_except S fs fs'" and "r \<Longrightarrow> hm_get fs' d = Some (Regular c)"
  using assms by (auto simp: fs_rename_def agree_except_def split: if_splits)

lemma fs_symlink_agree: "fs_symlink hv a p fs = (r, fs') \<Longrightarrow> p \<in> S \<Longrightarrow> agree_except S fs fs'"
  by (auto simp: fs_symlink_def split: if_splits)

lemma copy_img_file_agree:
  "copy_img_file hv src dst fs = (r, fs') \<Longrightarrow> dst \<in> S \<Longrightarrow> tmp_path dst \<in> S \<Longrightarrow> agree_except S fs fs'"
  unfolding copy_img_file_def Let_def
  by (auto split: option.splits prod.splits bool.splits if_splits
      intro: fs_rename_tmp agree_trans [OF agree_residue agree_residue] agree_trans [OF agree_residue fs_rename_tmp(1)])

lemma copy_img_file_get:
  "copy_img_file hv src dst fs = (None, fs') \<Longrightarrow> hm_get fs src = Some (Regular c) \<Longrightarrow> src \<noteq> tmp_path dst \<Longrightarrow>
     hm_get fs' dst = Some (Regular c)"
  unfolding copy_img_file_def Let_def
  by (auto simp: contents_def eval_nat_numeral leave_residue_def split: option.splits prod.splits bool.splits if_splits
      dest!: fs_rename_tmp(2))

lemma copy_img_file_reflink_agree:
  "copy_img_file_reflink hv src dst fs = (r, fs') \<Longrightarrow> dst \<in> S \<Longrightarrow> tmp_path dst \<in> S \<Longrightarrow> agree_except S fs fs'"
  unfolding copy_img_file_reflink_def Let_def
  by (auto split: option.splits prod.splits bool.splits if_splits intro: fs_rename_tmp)

lemma copy_img_file_reflink_get:
  "copy_img_file_reflink hv src dst fs = (None, fs') \<Longrightarrow> hm_get fs src = Some (Regular c) \<Longrightarrow>
     hm_get fs' dst = Some (Regular c)"
  unfolding copy_img_file_reflink_def Let_def
  by (auto simp: contents_def eval_nat_numeral split: option.splits prod.splits bool.splits if_splits
      dest!: fs_rename_tmp(2))

section \<open>Moved disks\<close>

definition originals :: "pending_move list \<Rightarrow> string set" where
  "originals ms = pm_original ` set ms"

definition currents :: "pending_move list \<Rightarrow> string set" where
  "currents ms = pm_current ` set ms"

lemma moves_Nil [simp]: "originals [] = {}" "currents [] = {}"
  by (simp_all add: originals_def currents_def)

lemma moves_Cons [simp]:
  "originals (m # ms) = insert (pm_original m) (originals ms)" "currents (m # ms) = insert (pm_current m) (currents ms)"
  by (simp_all add: originals_def currents_def)

lemma moves_append [simp]:
  "originals (ms @ ns) = originals ms \<union> originals ns" "currents (ms @ ns) = currents ms \<union> currents ns"
  by (auto simp: originals_def currents_def)

text \<open>Moves that can be undone: no two share a path, and the host lets every file go back.\<close>

definition separate :: "pending_move list \<Rightarrow> bool" where
  "separate ms \<longleftrightarrow> distinct (map pm_original ms) \<and> distinct (map pm_current ms) \<and> originals ms \<inter> currents ms = {}"

definition undoable :: "hv_env \<Rightarrow> pending_move list \<Rightarrow> bool" where
  "undoable hv ms \<longleftrightarrow> separate ms \<and> (\<forall>m \<in> set ms. hv_rename hv (pm_current m) (pm_original m))"

text \<open>Every moved file is at its new place.\<close>

definition in_place :: "host_files \<Rightarrow> pending_move list \<Rightarrow> host_files \<Rightarrow> bool" where
  "in_place fs0 ms fs \<longleftrightarrow>
     (\<forall>m \<in> set ms. hm_get fs0 (pm_original m) \<noteq> None \<and> hm_get fs (pm_current m) = hm_get fs0 (pm_original m))"

lemma rollback_moves_back:
  assumes "undoable hv ms" "in_place fs0 ms fs"
  shows "\<exists>fs'. rollback_moves hv ms fs = (True, fs') \<and>
           (\<forall>p. hm_get fs' p = (if p \<in> originals ms then hm_get fs0 p
                                 else if p \<in> currents ms then None else hm_get fs p))"
  using assms
proof (induction ms arbitrary: fs)
  case (Cons m ms)
  obtain n where n: "hm_get fs (pm_current m) = Some n" "hm_get fs0 (pm_original m) = Some n"
    using Cons.prems(2) by (auto simp: in_place_def)
  define fs1 where "fs1 = hm_insert (pm_original m) n (hm_remove (pm_current m) fs)"
  have step: "fs_rename hv (pm_current m) (pm_original m) fs = (True, fs1)"
    using n(1) Cons.prems(1) by (simp add: fs_rename_def undoable_def fs1_def)
  have un: "undoable hv ms" and apart: "pm_original m \<notin> originals ms" "pm_current m \<notin> currents ms"
    "pm_original m \<notin> currents ms" "pm_current m \<notin> originals ms" "pm_original m \<noteq> pm_current m"
    using Cons.prems(1) by (auto simp: undoable_def separate_def originals_def currents_def)
  have "pm_current x \<noteq> pm_current m" "pm_current x \<noteq> pm_original m" if "x \<in> set ms" for x
    using that apart(2,3) by (metis currents_def imageI)+
  then have ip: "in_place fs0 ms fs1"
    using Cons.prems(2) by (auto simp: in_place_def fs1_def)
  obtain fs' where fs': "rollback_moves hv ms fs1 = (True, fs')"
    and get: "\<And>p. hm_get fs' p = (if p \<in> originals ms then hm_get fs0 p else if p \<in> currents ms then None else hm_get fs1 p)"
    using Cons.IH [OF un ip] by auto
  have "hm_get fs' p = (if p \<in> originals (m # ms) then hm_get fs0 p
                        else if p \<in> currents (m # ms) then None else hm_get fs p)" for p
    using apart n by (auto simp: get fs1_def)
  then show ?case
    using step fs' by auto
qed simp

lemma rollback_fold:
  "rollback_moves hv ms fs = (True, fs') \<Longrightarrow> fold (\<lambda>pm fs. snd (fs_rename hv (pm_current pm) (pm_original pm) fs)) ms fs = fs'"
  by (induction ms arbitrary: fs) (auto split: prod.splits bool.splits)

text \<open>The files while some disks are moved.\<close>

definition moved :: "host_files \<Rightarrow> pending_move list \<Rightarrow> host_files \<Rightarrow> bool" where
  "moved fs0 ms fs \<longleftrightarrow>
     in_place fs0 ms fs \<and> agree_except (originals ms \<union> currents ms) fs0 fs \<and> (\<forall>p \<in> originals ms. hm_get fs p = None)"

lemma moved_back:
  assumes "undoable hv ms" "moved fs0 ms fs"
  shows "\<exists>fs'. rollback_moves hv ms fs = (True, fs') \<and> agree_except (currents ms) fs0 fs'"
  using rollback_moves_back [of hv ms fs0 fs] assms
  by (auto simp: moved_def agree_except_def)

section \<open>Preparing the disks\<close>

definition disk_files :: "string \<Rightarrow> disk_image_entry list \<Rightarrow> string list" where
  "disk_files base_dir es = map (sandbox_disk_path base_dir) es"

definition disk_temps :: "string \<Rightarrow> disk_image_entry list \<Rightarrow> string list" where
  "disk_temps base_dir es = map (\<lambda>e. tmp_path (sandbox_disk_path base_dir e)) es"

definition snapshot_files :: "restore_source \<Rightarrow> disk_image_entry list \<Rightarrow> string list" where
  "snapshot_files src es = map (snapshot_disk_path src) es"

lemma disk_paths_Cons [simp]:
  "disk_files base_dir (e # es) = sandbox_disk_path base_dir e # disk_files base_dir es"
  "disk_temps base_dir (e # es) = tmp_path (sandbox_disk_path base_dir e) # disk_temps base_dir es"
  "snapshot_files src (e # es) = snapshot_disk_path src e # snapshot_files src es"
  by (simp_all add: disk_files_def disk_temps_def snapshot_files_def)

lemma disk_paths_mem:
  "e \<in> set es \<Longrightarrow> sandbox_disk_path base_dir e \<in> set (disk_files base_dir es)"
  "e \<in> set es \<Longrightarrow> tmp_path (sandbox_disk_path base_dir e) \<in> set (disk_temps base_dir es)"
  "e \<in> set es \<Longrightarrow> snapshot_disk_path src e \<in> set (snapshot_files src es)"
  by (simp_all add: disk_files_def disk_temps_def snapshot_files_def)

definition moves_of :: "restore_source \<Rightarrow> string \<Rightarrow> disk_image_entry list \<Rightarrow> pending_move list" where
  "moves_of src base_dir es =
     map (\<lambda>e. \<lparr>pm_current = sandbox_disk_path base_dir e, pm_original = snapshot_disk_path src e\<rparr>) es"

lemma moves_of_sel [simp]:
  "originals (moves_of src base_dir es) = set (snapshot_files src es)"
  "currents (moves_of src base_dir es) = set (disk_files base_dir es)"
  by (simp_all add: originals_def currents_def moves_of_def snapshot_files_def disk_files_def image_image)

definition remaps_of :: "string \<Rightarrow> disk_image_entry list \<Rightarrow> (string \<times> string) list" where
  "remaps_of base_dir es = map (\<lambda>e. (die_device_id e, sandbox_disk_path base_dir e)) es"

text \<open>A path that reads as the given image: a copy of it, or a link to it.\<close>

definition shows_image :: "host_files \<Rightarrow> string \<Rightarrow> string \<Rightarrow> string \<Rightarrow> bool" where
  "shows_image fs src dst c \<longleftrightarrow>
     hm_get fs dst = Some (Regular c) \<or> hm_get fs dst = Some (Symlink src) \<and> hm_get fs src = Some (Regular c)"

lemma shows_image_contents: "shows_image fs src dst c \<Longrightarrow> contents fs dst = Some c"
  by (auto simp: shows_image_def contents_def eval_nat_numeral)

lemma shows_image_agree:
  "shows_image fs src dst c \<Longrightarrow> agree_except S fs fs' \<Longrightarrow> dst \<notin> S \<Longrightarrow> src \<notin> S \<Longrightarrow> shows_image fs' src dst c"
  by (auto simp: shows_image_def agree_except_def)

lemma restore_disk_copied:
  assumes "restore_disk hv act src dst ms fs = (r, fs')" "act \<noteq> MovedExclusive" "act \<noteq> NoAction" "dst \<in> S" "tmp_path dst \<in> S"
  shows "agree_except S fs fs'"
    and "r = Inr ms' \<Longrightarrow> ms' = ms"
    and "r = Inr ms' \<Longrightarrow> hm_get fs src = Some (Regular c) \<Longrightarrow> src \<notin> S \<Longrightarrow> shows_image fs' src dst c"
proof -
  show fr: "agree_except S fs fs'"
    using assms
    by (cases act)
      (auto simp: restore_disk_def split: prod.splits option.splits bool.splits
        intro: copy_img_file_agree copy_img_file_reflink_agree fs_symlink_agree)
  show "r = Inr ms' \<Longrightarrow> ms' = ms"
    using assms by (cases act) (auto simp: restore_disk_def split: prod.splits option.splits bool.splits)
  assume "r = Inr ms'" and c: "hm_get fs src = Some (Regular c)" "src \<notin> S"
  then have "hm_get fs' dst = Some (Regular c) \<or> hm_get fs' dst = Some (Symlink src)"
    using assms
    by (cases act)
      (auto simp: restore_disk_def fs_symlink_def split: prod.splits option.splits bool.splits if_splits
        dest: copy_img_file_get copy_img_file_reflink_get)
  then show "shows_image fs' src dst c"
    using agree_get [OF fr] c by (auto simp: shows_image_def)
qed

lemma restore_disks_copied:
  assumes "restore_disks hv src base_dir act es rb fs = (r, fs')" "act \<noteq> MovedExclusive" "act \<noteq> NoAction"
    and "set (disk_files base_dir es) \<union> set (disk_temps base_dir es) \<subseteq> S"
  shows "agree_except S fs fs' \<and>
         (case r of
            Inl _ \<Rightarrow> True
          | Inr rb' \<Rightarrow> rb_pending_moves rb' = rb_pending_moves rb \<and>
                      rb_disk_remaps rb' = rb_disk_remaps rb @ remaps_of base_dir es)"
  using assms
proof (induction es arbitrary: rb fs)
  case (Cons e es)
  obtain r1 fs1 where one:
    "restore_disk hv act (snapshot_disk_path src e) (sandbox_disk_path base_dir e) (rb_pending_moves rb) fs = (r1, fs1)"
    by fastforce
  have S: "sandbox_disk_path base_dir e \<in> S" "tmp_path (sandbox_disk_path base_dir e) \<in> S"
    "set (disk_files base_dir es) \<union> set (disk_temps base_dir es) \<subseteq> S"
    using Cons.prems(4) by simp_all
  note copied = restore_disk_copied [OF one Cons.prems(2,3) S(1,2)]
  show ?case
  proof (cases r1)
    case (Inl err)
    then show ?thesis
      using Cons.prems(1) one copied(1) by (auto simp: Let_def)
  next
    case (Inr ms)
    then have rest: "restore_disks hv src base_dir act es
        (rb\<lparr>rb_disk_remaps := rb_disk_remaps rb @ [(die_device_id e, sandbox_disk_path base_dir e)],
            rb_restored_paths := rb_restored_paths rb @ [sandbox_disk_path base_dir e],
            rb_pending_moves := rb_pending_moves rb\<rparr>) fs1 = (r, fs')"
      using Cons.prems(1) one copied(2) [OF Inr] by (simp add: Let_def)
    note ih = Cons.IH [OF rest Cons.prems(2,3) S(3)]
    show ?thesis
      using agree_trans [OF copied(1) conjunct1 [OF ih]] conjunct2 [OF ih] by (cases r) (simp_all add: remaps_of_def)
  qed
qed (auto simp: remaps_of_def)

lemma restore_disks_images:
  assumes "restore_disks hv src base_dir act es rb fs = (Inr rb', fs')" "act \<noteq> MovedExclusive" "act \<noteq> NoAction"
    and "distinct (disk_files base_dir es)" "set (disk_files base_dir es) \<inter> set (disk_temps base_dir es) = {}"
    and "set (snapshot_files src es) \<inter> (set (disk_files base_dir es) \<union> set (disk_temps base_dir es)) = {}"
    and "e \<in> set es" "hm_get fs (snapshot_disk_path src e) = Some (Regular c)"
  shows "shows_image fs' (snapshot_disk_path src e) (sandbox_disk_path base_dir e) c"
  using assms
proof (induction es arbitrary: rb fs)
  case (Cons d es)
  let ?S = "{sandbox_disk_path base_dir d, tmp_path (sandbox_disk_path base_dir d)}"
  obtain ms fs1 where one:
    "restore_disk hv act (snapshot_disk_path src d) (sandbox_disk_path base_dir d) (rb_pending_moves rb) fs = (Inr ms, fs1)"
    using Cons.prems(1) by (auto simp: Let_def split: prod.splits sum.splits)
  note copied = restore_disk_copied [OF one Cons.prems(2,3), of ?S, simplified]
  from Cons.prems(1) one obtain rb1 where rest: "restore_disks hv src base_dir act es rb1 fs1 = (Inr rb', fs')"
    by (simp add: Let_def)
  have fr: "agree_except (set (disk_files base_dir es) \<union> set (disk_temps base_dir es)) fs1 fs'"
    using restore_disks_copied [OF rest Cons.prems(2,3) subset_refl] by blast
  have head: "sandbox_disk_path base_dir d \<notin> set (disk_files base_dir es)"
    "sandbox_disk_path base_dir d \<notin> set (disk_temps base_dir es)"
    and sub: "distinct (disk_files base_dir es)" "set (disk_files base_dir es) \<inter> set (disk_temps base_dir es) = {}"
      "set (snapshot_files src es) \<inter> (set (disk_files base_dir es) \<union> set (disk_temps base_dir es)) = {}"
    using Cons.prems(4-6) by simp_all
  have source: "snapshot_disk_path src e \<notin> ?S"
    "snapshot_disk_path src e \<notin> set (disk_files base_dir es) \<union> set (disk_temps base_dir es)"
    using Cons.prems(6) disk_paths_mem(3) [OF Cons.prems(7), of src] by auto
  show ?case
  proof (cases "e \<in> set es")
    case True
    have "hm_get fs1 (snapshot_disk_path src e) = Some (Regular c)"
      using agree_get [OF copied(1)] source(1) Cons.prems(8) by simp
    then show ?thesis
      using Cons.IH [OF rest Cons.prems(2,3) sub True] by simp
  next
    case False
    then have e: "e = d"
      using Cons.prems(7) by simp
    then have "shows_image fs1 (snapshot_disk_path src e) (sandbox_disk_path base_dir e) c"
      using copied(3) source(1) Cons.prems(8) by simp
    then show ?thesis
      by (rule shows_image_agree [OF _ fr]) (use head source(2) e in simp_all)
  qed
qed simp

lemma moves_of_append: "moves_of src base_dir (a @ b) = moves_of src base_dir a @ moves_of src base_dir b"
  by (simp add: moves_of_def)

lemma separate_append: "separate (a @ b) \<Longrightarrow> separate a"
  by (auto simp: separate_def)

lemma undoable_append: "undoable hv (a @ b) \<Longrightarrow> undoable hv a"
  by (auto simp: undoable_def dest: separate_append)

lemma moved_step:
  assumes "moved fs0 ms fs" "separate (ms @ [m])" "fs_rename hv (pm_original m) (pm_current m) fs = (True, fs')"
  shows "moved fs0 (ms @ [m]) fs'"
proof -
  obtain n where n: "hm_get fs (pm_original m) = Some n"
    and get: "\<And>p. hm_get fs' p = (if p = pm_current m then Some n else if p = pm_original m then None else hm_get fs p)"
    using fs_rename_ok [OF assms(3)] by auto
  have apart: "pm_original m \<notin> originals ms \<union> currents ms" "pm_current m \<notin> currents ms" "pm_current m \<notin> originals ms"
      "pm_original m \<noteq> pm_current m"
    using assms(2) by (auto simp: separate_def originals_def currents_def)
  have "hm_get fs0 (pm_original m) = Some n"
    using assms(1) n agree_get [OF _ apart(1), of fs0 fs] by (simp add: moved_def)
  moreover have "pm_current x \<noteq> pm_current m" "pm_current x \<noteq> pm_original m" if "x \<in> set ms" for x
    using that apart by (metis UnI2 currents_def imageI)+
  ultimately show ?thesis
    using assms(1) apart(3,4) by (auto simp: moved_def in_place_def agree_except_def get)
qed

lemma restore_disks_moved:
  assumes "restore_disks hv src base_dir MovedExclusive es rb fs = (r, fs')"
    and "rb_pending_moves rb = moves_of src base_dir ds" "moved fs0 (moves_of src base_dir ds) fs"
    and "separate (moves_of src base_dir (ds @ es))"
  shows "case r of
           Inl _ \<Rightarrow> undoable hv (moves_of src base_dir (ds @ es)) \<longrightarrow> agree_except (set (disk_files base_dir (ds @ es))) fs0 fs'
         | Inr rb' \<Rightarrow> rb_pending_moves rb' = moves_of src base_dir (ds @ es) \<and>
                     moved fs0 (moves_of src base_dir (ds @ es)) fs' \<and>
                     rb_disk_remaps rb' = rb_disk_remaps rb @ remaps_of base_dir es"
  using assms
proof (induction es arbitrary: rb fs ds)
  case (Cons e es)
  let ?m = "\<lparr>pm_current = sandbox_disk_path base_dir e, pm_original = snapshot_disk_path src e\<rparr>"
  have m: "moves_of src base_dir (ds @ [e]) = moves_of src base_dir ds @ [?m]"
    by (simp add: moves_of_def)
  obtain ok fs1 where one: "fs_rename hv (snapshot_disk_path src e) (sandbox_disk_path base_dir e) fs = (ok, fs1)"
    by fastforce
  have un: "separate (moves_of src base_dir (ds @ [e]))"
    using Cons.prems(4) separate_append [of "moves_of src base_dir (ds @ [e])" "moves_of src base_dir es"]
    by (simp add: moves_of_def)
  show ?case
  proof (cases ok)
    case True
    have mv: "moved fs0 (moves_of src base_dir (ds @ [e])) fs1"
      using moved_step [OF Cons.prems(3), of ?m hv fs1] un one True by (simp add: m)
    define rb1 where "rb1 = rb\<lparr>rb_disk_remaps := rb_disk_remaps rb @ [(die_device_id e, sandbox_disk_path base_dir e)],
      rb_restored_paths := rb_restored_paths rb @ [sandbox_disk_path base_dir e],
      rb_pending_moves := moves_of src base_dir ds @ [?m]\<rparr>"
    have rb1: "rb_pending_moves rb1 = moves_of src base_dir (ds @ [e])"
      "rb_disk_remaps rb1 = rb_disk_remaps rb @ [(die_device_id e, sandbox_disk_path base_dir e)]"
      by (simp_all add: rb1_def m)
    have rest: "restore_disks hv src base_dir MovedExclusive es rb1 fs1 = (r, fs')"
      using Cons.prems(1,2) one True by (simp add: Let_def restore_disk_def rb1_def)
    show ?thesis
      using Cons.IH [OF rest rb1(1) mv] Cons.prems(4) rb1(2) by (simp add: remaps_of_def split: sum.splits)
  next
    case False
    have "agree_except (set (disk_files base_dir ds)) fs0 fs'" if "undoable hv (moves_of src base_dir (ds @ e # es))"
    proof -
      have "undoable hv (moves_of src base_dir ds)"
        using that undoable_append by (simp add: moves_of_append)
      then obtain fs2 where "rollback_moves hv (moves_of src base_dir ds) fs = (True, fs2)"
        "agree_except (set (disk_files base_dir ds)) fs0 fs2"
        using moved_back [OF _ Cons.prems(3), of hv] by auto
      then show ?thesis
        using Cons.prems(1,2) one False fs_rename_fail [of hv _ _ fs fs1, OF one [simplified False]]
        by (auto simp: Let_def restore_disk_def rollback_fold)
    qed
    moreover have "\<exists>err. r = Inl err"
      using Cons.prems(1) one False by (auto simp: Let_def restore_disk_def)
    moreover have "set (disk_files base_dir ds) \<subseteq> set (disk_files base_dir (ds @ e # es))"
      by (auto simp: disk_files_def)
    ultimately show ?thesis
      using agree_mono by (auto simp del: disk_paths_Cons)
  qed
qed (auto simp: remaps_of_def)

text \<open>
  The files a restore writes: the disks and their temporary copies, and the rest of its scratch files. No two
  disks share a path, and the snapshot is elsewhere.
\<close>

definition config_files :: "restore_source \<Rightarrow> string list" where
  "config_files src =
     (let config = path_join (rs_work_dir src) ''config.json'' in [config, with_file_name config ''.config.json''])"

definition restore_scratch :: "restore_source \<Rightarrow> ch_vm \<Rightarrow> string list" where
  "restore_scratch src v =
     config_files src @
     map (path_join (rs_work_dir src)) (memory_artifacts_for_mode (rs_memory_restore_mode src)) @
     [cc_api_socket (ch_config v)]"

definition restore_files :: "restore_source \<Rightarrow> ch_vm \<Rightarrow> string list" where
  "restore_files src v =
     disk_files (ch_base_dir v) (rs_disk_images src) @ disk_temps (ch_base_dir v) (rs_disk_images src) @
     restore_scratch src v"

definition restore_layout :: "restore_source \<Rightarrow> ch_vm \<Rightarrow> bool" where
  "restore_layout src v \<longleftrightarrow>
     (let dsts = disk_files (ch_base_dir v) (rs_disk_images src); srcs = snapshot_files src (rs_disk_images src) in
      distinct dsts \<and> distinct srcs \<and>
      list_all (\<lambda>p. \<not> List.member (disk_temps (ch_base_dir v) (rs_disk_images src) @ restore_scratch src v) p) dsts \<and>
      list_all (\<lambda>p. \<not> List.member (restore_files src v) p) srcs \<and>
      \<not> List.member (map (path_join (rs_work_dir src)) (memory_artifacts_for_mode (rs_memory_restore_mode src)) @
                      [cc_api_socket (ch_config v)]) (path_join (rs_work_dir src) ''config.json'') \<and>
      file_name (path_join (rs_work_dir src) ''config.json'') = Some ''config.json'')"

lemma restore_layoutD:
  assumes "restore_layout src v"
  shows "distinct (disk_files (ch_base_dir v) (rs_disk_images src))" "distinct (snapshot_files src (rs_disk_images src))"
    "set (disk_files (ch_base_dir v) (rs_disk_images src)) \<inter> set (disk_temps (ch_base_dir v) (rs_disk_images src)) = {}"
    "set (disk_files (ch_base_dir v) (rs_disk_images src)) \<inter> set (restore_scratch src v) = {}"
    "set (snapshot_files src (rs_disk_images src)) \<inter> set (restore_files src v) = {}"
    "file_name (path_join (rs_work_dir src) ''config.json'') = Some ''config.json''"
    "path_join (rs_work_dir src) ''config.json'' \<notin>
       set (map (path_join (rs_work_dir src)) (memory_artifacts_for_mode (rs_memory_restore_mode src)) @ [cc_api_socket (ch_config v)])"
  using assms by (auto simp: restore_layout_def Let_def list_all_iff)

text \<open>The host lets the moved disks go back.\<close>

definition renames_back :: "hv_env \<Rightarrow> restore_source \<Rightarrow> string \<Rightarrow> bool" where
  "renames_back hv src base_dir \<longleftrightarrow>
     list_all (\<lambda>e. hv_rename hv (sandbox_disk_path base_dir e) (snapshot_disk_path src e)) (rs_disk_images src)"

lemma layout_separate: "restore_layout src v \<Longrightarrow> separate (moves_of src (ch_base_dir v) (rs_disk_images src))"
  using restore_layoutD [of src v] unfolding separate_def moves_of_sel
  by (auto simp: moves_of_def restore_files_def disk_files_def snapshot_files_def comp_def)

lemma layout_undoable:
  "restore_layout src v \<Longrightarrow> renames_back hv src (ch_base_dir v) \<Longrightarrow>
     undoable hv (moves_of src (ch_base_dir v) (rs_disk_images src))"
  using layout_separate [of src v] by (auto simp: undoable_def renames_back_def list_all_iff moves_of_def)

definition prepared :: "restore_source \<Rightarrow> ch_vm \<Rightarrow> host_files \<Rightarrow> restored_blocks \<Rightarrow> host_files \<Rightarrow> bool" where
  "prepared src v fs rb fs' \<longleftrightarrow>
     (if rs_disk_images src \<noteq> [] \<and> restore_action src = MovedExclusive
      then rb_pending_moves rb = moves_of src (ch_base_dir v) (rs_disk_images src) \<and>
           moved fs (moves_of src (ch_base_dir v) (rs_disk_images src)) fs'
      else rb_pending_moves rb = [] \<and>
           agree_except (set (disk_files (ch_base_dir v) (rs_disk_images src)) \<union> set (disk_temps (ch_base_dir v) (rs_disk_images src)))
             fs fs') \<and>
     rb_disk_remaps rb = remaps_of (ch_base_dir v) (rs_disk_images src)"

lemma prepare_prepared:
  assumes "prepare_restore_block_artifacts hv src (ch_base_dir v) fs = (r, fs')"
    and "restore_layout src v"
  shows "case r of
           Inl _ \<Rightarrow> (restore_action src = MovedExclusive \<longrightarrow> renames_back hv src (ch_base_dir v)) \<longrightarrow>
                    agree_except (set (disk_files (ch_base_dir v) (rs_disk_images src)) \<union>
                                set (disk_temps (ch_base_dir v) (rs_disk_images src))) fs fs'
         | Inr rb \<Rightarrow> prepared src v fs rb fs'"
proof -
  let ?S = "set (disk_files (ch_base_dir v) (rs_disk_images src)) \<union> set (disk_temps (ch_base_dir v) (rs_disk_images src))"
  consider "rs_disk_images src = []" | "\<not> hv_mkdir hv (ch_base_dir v)" "rs_disk_images src \<noteq> []"
    | "rs_disk_images src \<noteq> []"
      "restore_disks hv src (ch_base_dir v) (restore_action src) (rs_disk_images src) no_blocks fs = (r, fs')"
    using assms(1) by (auto simp: prepare_restore_block_artifacts_def split: if_splits)
  then show ?thesis
  proof cases
    case 3
    show ?thesis
    proof (cases "restore_action src = MovedExclusive")
      case True
      have "moved fs (moves_of src (ch_base_dir v) []) fs" "rb_pending_moves no_blocks = moves_of src (ch_base_dir v) []"
        by (simp_all add: moved_def in_place_def moves_of_def no_blocks_def)
      then show ?thesis
        using restore_disks_moved [OF 3(2) [unfolded True], of "[]" fs] layout_undoable layout_separate assms(2) True 3(1)
        by (auto simp: prepared_def no_blocks_def split: sum.splits elim: agree_mono)
    next
      case False
      moreover have "restore_action src \<noteq> NoAction"
        by (auto simp: restore_action_def split: snapshot_type.splits)
      ultimately show ?thesis
        using restore_disks_copied [OF 3(2), of ?S] by (auto simp: prepared_def no_blocks_def split: sum.splits)
    qed
  qed (use assms(1) in \<open>auto simp: prepare_restore_block_artifacts_def prepared_def no_blocks_def remaps_of_def\<close>)
qed

section \<open>The other steps\<close>

lemma write_file_atomic_agree:
  "write_file_atomic hv p c fs = (r, fs') \<Longrightarrow> p \<in> S \<Longrightarrow> (\<And>n. file_name p = Some n \<Longrightarrow> with_file_name p (''.'' @ n) \<in> S) \<Longrightarrow>
     agree_except S fs fs'"
  by (auto simp: write_file_atomic_def Let_def split: option.splits if_splits prod.splits bool.splits
      intro: fs_rename_tmp(1))

lemma symlink_idempotent_agree: "symlink_idempotent hv s d fs = (r, fs') \<Longrightarrow> d \<in> S \<Longrightarrow> agree_except S fs fs'"
  by (auto simp: symlink_idempotent_def split: if_splits prod.splits bool.splits intro: fs_symlink_agree)

lemma pin_artifacts_agree:
  "pin_artifacts hv src as fs = (r, fs') \<Longrightarrow> set (map (path_join (rs_work_dir src)) as) \<subseteq> S \<Longrightarrow> agree_except S fs fs'"
proof (induction as arbitrary: fs)
  case (Cons a as)
  then show ?case
    by (auto simp: Let_def split: if_splits prod.splits option.splits
        intro: symlink_idempotent_agree agree_trans [OF symlink_idempotent_agree])
qed simp

lemma patch_snapshot_config_agree:
  "patch_snapshot_config hv p (path_join (rs_work_dir src) ''config.json'') ov remaps fs = (r, fs') \<Longrightarrow>
   file_name (path_join (rs_work_dir src) ''config.json'') = Some ''config.json'' \<Longrightarrow> set (config_files src) \<subseteq> S \<Longrightarrow>
     agree_except S fs fs'"
  unfolding patch_snapshot_config_def
  by (auto simp: config_files_def Let_def split: sum.splits intro: write_file_atomic_agree)

lemma restore_patched_agree:
  assumes "restore_patched hv src rb fs = (r, fs')" "restore_layout src v"
  shows "agree_except (set (restore_scratch src v)) fs fs'"
proof -
  have sub: "set (config_files src) \<subseteq> set (restore_scratch src v)"
    "set (map (path_join (rs_work_dir src)) (memory_artifacts_for_mode (rs_memory_restore_mode src))) \<subseteq> set (restore_scratch src v)"
    by (auto simp: restore_scratch_def)
  note patch = patch_snapshot_config_agree [OF _ restore_layoutD(6) [OF assms(2)] sub(1)]
  note pin = pin_artifacts_agree [OF _ sub(2)]
  show ?thesis
    using assms(1)
    by (auto simp: restore_patched_def prepare_memory_backend_def Let_def split: option.splits prod.splits
        dest!: patch pin elim: agree_trans)
qed

lemma ch_stop_files [simp]: "ch_files (snd (ch_stop hv force v)) = ch_files v"
  by (auto simp: ch_stop_def split: option.splits)

lemma ch_stop_base [simp]: "ch_base_dir (snd (ch_stop hv force v)) = ch_base_dir v"
  by (auto simp: ch_stop_def split: option.splits)

lemma launch_agree:
  "launch_for_restore hv v = (r, v') \<Longrightarrow> agree_except {cc_api_socket (ch_config v)} (ch_files v) (ch_files v')"
  by (auto simp: launch_for_restore_def Let_def split: if_splits option.splits)

lemma restore_api_files: "restore_api hv url v = (r, v') \<Longrightarrow> ch_files v' = ch_files v"
  by (auto simp: restore_api_def split: if_splits)

text \<open>What is given back after the disks were prepared and scratch files written.\<close>

lemma give_back_agree:
  assumes "prepared src v fs rb fs1" "agree_except (set (restore_scratch src v)) fs1 (ch_files v1)" "restore_layout src v"
    and "restore_action src = MovedExclusive \<longrightarrow> renames_back hv src (ch_base_dir v)"
  shows "agree_except (set (restore_files src v)) fs (ch_files (give_back hv rb v1))"
proof (cases "rs_disk_images src \<noteq> [] \<and> restore_action src = MovedExclusive")
  case True
  let ?ms = "moves_of src (ch_base_dir v) (rs_disk_images src)"
  have mv: "moved fs ?ms fs1" "rb_pending_moves rb = ?ms"
    using assms(1) True by (simp_all add: prepared_def)
  have "pm_current m \<notin> set (restore_scratch src v)" if "m \<in> set ?ms" for m
    using restore_layoutD(4) [OF assms(3)] that by (auto simp: moves_of_def dest: disk_paths_mem(1) [of _ _ "ch_base_dir v"])
  then have "in_place fs ?ms (ch_files v1)"
    using mv(1) agree_get [OF assms(2)] by (simp add: moved_def in_place_def)
  then obtain fs3 where "rollback_moves hv ?ms (ch_files v1) = (True, fs3)"
    and get: "\<And>p. hm_get fs3 p = (if p \<in> originals ?ms then hm_get fs p
                               else if p \<in> currents ?ms then None else hm_get (ch_files v1) p)"
    using rollback_moves_back [OF layout_undoable [OF assms(3)]] assms(4) True by blast
  then show ?thesis
    using mv assms(2) by (auto simp: give_back_def rollback_pending_moves_def agree_except_def restore_files_def moved_def)
next
  case False
  then have "agree_except (set (restore_files src v)) fs fs1" "rb_pending_moves rb = []"
    using assms(1) by (auto simp: prepared_def restore_files_def elim!: agree_mono split: if_splits)
  then show ?thesis
    using agree_trans agree_mono [OF assms(2), of "set (restore_files src v)"]
    by (auto simp: give_back_def rollback_pending_moves_def restore_files_def)
qed

section \<open>Restores that fail, and restores that succeed\<close>

lemma ch_restore_fails:
  assumes "ch_restore hv src v = (Some err, v')" "restore_layout src v"
    and "restore_action src = MovedExclusive \<longrightarrow> renames_back hv src (ch_base_dir v)"
  shows "agree_except (set (restore_files src v)) (ch_files v) (ch_files v')"
proof -
  let ?S = "set (restore_scratch src v)"
  obtain r fs where prep: "prepare_restore_block_artifacts hv src (ch_base_dir v) (ch_files v) = (r, fs)"
    by fastforce
  note pp = prepare_prepared [OF prep assms(2)]
  show ?thesis
  proof (cases r)
    case (Inl e)
    then show ?thesis
      using assms(1,3) prep pp by (auto simp: ch_restore_def restore_files_def split: if_splits elim!: agree_mono)
  next
    case (Inr rb)
    obtain r1 fs1 where patched: "restore_patched hv src rb fs = (r1, fs1)"
      by fastforce
    note fr1 = restore_patched_agree [OF patched assms(2)]
    obtain r2 v2 where launch: "launch_for_restore hv (v\<lparr>ch_files := fs1\<rparr>) = (r2, v2)"
      by fastforce
    have "agree_except ?S fs1 (ch_files v2)"
      using agree_mono [OF launch_agree [OF launch], of ?S] by (simp add: restore_scratch_def)
    then have fr2: "agree_except ?S fs (ch_files v2)"
      using agree_trans fr1 by blast
    note undo = give_back_agree [OF _ _ assms(2,3)]
    show ?thesis
      using assms(1) prep pp Inr patched launch fr1 fr2
      by (auto simp: ch_restore_def split: if_splits sum.splits prod.splits option.splits dest: restore_api_files intro!: undo)
  qed
qed

lemma ch_restore_succeeds:
  assumes "ch_restore hv src v = (None, v')" "restore_layout src v"
  obtains rb fs where "prepare_restore_block_artifacts hv src (ch_base_dir v) (ch_files v) = (Inr rb, fs)"
    "prepared src v (ch_files v) rb fs" "agree_except (set (restore_scratch src v)) fs (ch_files v')"
    "\<exists>url fs1. restore_patched hv src rb fs = (Inr url, fs1) \<and> agree_except {cc_api_socket (ch_config v)} fs1 (ch_files v')"
proof -
  obtain rb fs where prep: "prepare_restore_block_artifacts hv src (ch_base_dir v) (ch_files v) = (Inr rb, fs)"
    using assms(1) by (auto simp: ch_restore_def split: if_splits prod.splits sum.splits)
  obtain url fs1 where patched: "restore_patched hv src rb fs = (Inr url, fs1)"
    using assms(1) prep by (auto simp: ch_restore_def split: if_splits prod.splits sum.splits)
  obtain v1 where launch: "launch_for_restore hv (v\<lparr>ch_files := fs1\<rparr>) = (None, v1)" and api: "restore_api hv url v1 = (None, v')"
    using assms(1) prep patched by (auto simp: ch_restore_def split: if_splits prod.splits option.splits)
  have fr: "agree_except {cc_api_socket (ch_config v)} fs1 (ch_files v')"
    using launch_agree [OF launch] restore_api_files [OF api] by simp
  have "agree_except (set (restore_scratch src v)) fs (ch_files v')"
    by (rule agree_trans [OF restore_patched_agree [OF patched assms(2)] agree_mono [OF fr]]) (simp add: restore_scratch_def)
  then show thesis
    using that [OF prep] prepare_prepared [OF prep assms(2)] patched fr by simp
qed

text \<open>The disks of a continuation are gone after one restore: the same source is never restored again.\<close>

lemma continuation_consumed:
  assumes "ch_restore hv src v = (None, v')" "restore_layout src v" "rs_snapshot_type src = Continuation" "rs_disk_images src \<noteq> []"
    and "ch_files w = ch_files v'"
  shows "fst (ch_restore hv' src w) \<noteq> None"
proof -
  obtain e es where es: "rs_disk_images src = e # es"
    using assms(4) by (cases "rs_disk_images src") auto
  obtain rb fs where p: "prepared src v (ch_files v) rb fs" and fr: "agree_except (set (restore_scratch src v)) fs (ch_files v')"
    using ch_restore_succeeds [OF assms(1,2)] by metis
  have act: "restore_action src = MovedExclusive"
    using assms(3) by (simp add: restore_action_def)
  then have "hm_get fs (snapshot_disk_path src e) = None"
    using p es by (auto simp: prepared_def moved_def)
  moreover have "snapshot_disk_path src e \<notin> set (restore_scratch src v)"
    using restore_layoutD(5) [OF assms(2)] es by (auto simp: restore_files_def)
  ultimately have "hm_get (ch_files w) (snapshot_disk_path src e) = None"
    using agree_get [OF fr] assms(5) by simp
  then have "\<exists>err fs'. prepare_restore_block_artifacts hv' src (ch_base_dir w) (ch_files w) = (Inl err, fs')"
    by (simp add: prepare_restore_block_artifacts_def es act restore_disk_def fs_rename_def Let_def no_blocks_def)
  then show ?thesis
    by (auto simp: ch_restore_def)
qed

lemma ch_restore_images:
  assumes "ch_restore hv src v = (None, v')" "restore_layout src v"
    and "e \<in> set (rs_disk_images src)" "hm_get (ch_files v) (snapshot_disk_path src e) = Some (Regular c)"
  shows "contents (ch_files v') (sandbox_disk_path (ch_base_dir v) e) = Some c"
proof -
  obtain rb fs where prep: "prepare_restore_block_artifacts hv src (ch_base_dir v) (ch_files v) = (Inr rb, fs)"
    and p: "prepared src v (ch_files v) rb fs" and fr: "agree_except (set (restore_scratch src v)) fs (ch_files v')"
    using ch_restore_succeeds [OF assms(1,2)] by metis
  note lay = restore_layoutD [OF assms(2)]
  note mem = disk_paths_mem(1) [OF assms(3), of "ch_base_dir v"] disk_paths_mem(3) [OF assms(3), of src]
  have out: "sandbox_disk_path (ch_base_dir v) e \<notin> set (restore_scratch src v)" "snapshot_disk_path src e \<notin> set (restore_scratch src v)"
    using lay(4,5) mem by (auto simp: restore_files_def)
  have "shows_image fs (snapshot_disk_path src e) (sandbox_disk_path (ch_base_dir v) e) c"
  proof (cases "restore_action src = MovedExclusive")
    case True
    then have "in_place (ch_files v) (moves_of src (ch_base_dir v) (rs_disk_images src)) fs"
      using p assms(3) by (auto simp: prepared_def moved_def split: if_splits)
    then have "hm_get fs (sandbox_disk_path (ch_base_dir v) e) = hm_get (ch_files v) (snapshot_disk_path src e)"
      using assms(3) by (auto simp: in_place_def moves_of_def)
    then show ?thesis
      using assms(4) by (simp add: shows_image_def)
  next
    case False
    moreover have "restore_action src \<noteq> NoAction"
      by (auto simp: restore_action_def split: snapshot_type.splits)
    ultimately show ?thesis
      using prep restore_disks_images [of hv src "ch_base_dir v" "restore_action src" "rs_disk_images src" no_blocks "ch_files v" rb fs e c]
        lay(1,3,5) assms(3,4)
      by (auto simp: prepare_restore_block_artifacts_def restore_files_def split: if_splits)
  qed
  then show ?thesis
    by (rule shows_image_contents [OF shows_image_agree [OF _ fr out]])
qed

section \<open>The configuration the machine starts with\<close>

definition config_disks :: "json \<Rightarrow> json list" where
  "config_disks cfg = (case jget cfg ''disks'' of Some (JArray ds) \<Rightarrow> ds | _ \<Rightarrow> [])"

definition disk_remapped :: "(string \<times> string) list \<Rightarrow> json \<Rightarrow> bool" where
  "disk_remapped remaps d \<longleftrightarrow>
     list_ex (\<lambda>(i, p). jget d ''id'' = Some (JString i) \<and> jget d ''path'' = Some (JString p)) remaps"

lemma remap_disk_remapped:
  assumes "remap_disk remaps d = Some d'"
  shows "disk_remapped remaps d'"
proof -
  obtain m i where d: "d = JObject m" and i: "hm_get m ''id'' = Some (JString i)"
    using assms by (cases d) (auto simp: remap_disk_def jget_def as_str_def bind_eq_Some_conv split: option.splits json.splits)
  obtain p where p: "map_of remaps i = Some p"
    using assms by (auto simp: remap_disk_def jget_def as_str_def d i split: option.splits)
  have "d' = JObject (hm_insert ''path'' (JString p) m)"
    using assms p by (simp add: remap_disk_def jget_def as_str_def jset_def d i)
  then show ?thesis
    using map_of_SomeD [OF p] i by (auto simp: disk_remapped_def list_ex_iff jget_def)
qed

lemma patch_disks_remapped: "list_all (disk_remapped remaps) (config_disks (patch_disks remaps cfg))"
proof (cases "jget cfg ''disks''")
  case (Some d)
  then show ?thesis
    using jget_jset [of cfg "''disks''"]
    by (cases d)
      (auto simp: patch_disks_def config_disks_def as_array_def list_all_iff List.map_filter_def dest: remap_disk_remapped)
qed (simp add: patch_disks_def config_disks_def)

lemma patch_disks_pointer: "a \<noteq> ''disks'' \<Longrightarrow> jpointer a b (patch_disks remaps cfg) = jpointer a b cfg"
  by (auto simp: patch_disks_def jpointer_def jget_jset split: option.splits)

lemma patch_config_spec:
  assumes "patch_config ov remaps cfg = Inr cfg'"
  shows "jpointer ''vsock'' ''socket'' cfg' = Some (JString (po_task_vsock ov))"
    and "list_all (disk_remapped remaps) (config_disks cfg')"
proof -
  have ptr: "jpointer ''vsock'' ''socket'' cfg \<noteq> None" and cfg': "cfg' = patch_disks remaps
      (jpointer_set ''console'' ''file'' (JString (po_console_path ov))
        (jpointer_set ''vsock'' ''socket'' (JString (po_task_vsock ov)) cfg))"
    using assms by (auto simp: patch_config_def split: if_splits)
  show "list_all (disk_remapped remaps) (config_disks cfg')"
    unfolding cfg' by (rule patch_disks_remapped)
  have "jpointer ''vsock'' ''socket'' (jpointer_set ''console'' ''file'' x c) = jpointer ''vsock'' ''socket'' c" for x c
    by (simp add: jpointer_def jget_pointer_set)
  then show "jpointer ''vsock'' ''socket'' cfg' = Some (JString (po_task_vsock ov))"
    unfolding cfg' using jpointer_set_same [OF ptr] by (simp add: patch_disks_pointer)
qed

lemma restore_patched_config:
  assumes "restore_patched hv src rb fs = (Inr url, fs')" "restore_layout src v"
  shows "\<exists>cfg. hm_get fs' (path_join (rs_work_dir src) ''config.json'') = Some (Regular (hv_render hv cfg)) \<and>
           jpointer ''vsock'' ''socket'' cfg = Some (JString (po_task_vsock (rs_overrides src))) \<and>
           list_all (disk_remapped (rb_disk_remaps rb)) (config_disks cfg)"
proof -
  let ?c = "path_join (rs_work_dir src) ''config.json''"
  obtain fs1 where patch: "patch_snapshot_config hv (path_join (rs_snapshot_dir src) ''config.json'') ?c (rs_overrides src)
      (rb_disk_remaps rb) fs = (None, fs1)" and memory: "prepare_memory_backend hv src fs1 = (Inr url, fs')"
    using assms(1) by (auto simp: restore_patched_def Let_def split: option.splits prod.splits)
  obtain cfg cfg' where cfg': "patch_config (rs_overrides src) (rb_disk_remaps rb) cfg = Inr cfg'"
    and written: "write_file_atomic hv ?c (hv_render hv cfg') fs = (None, fs1)"
    using patch by (auto simp: patch_snapshot_config_def split: sum.splits)
  have "hm_get fs1 ?c = Some (Regular (hv_render hv cfg'))"
    using written by (auto simp: write_file_atomic_def Let_def split: option.splits if_splits prod.splits bool.splits dest: fs_rename_tmp(2))
  moreover have "agree_except (set (map (path_join (rs_work_dir src)) (memory_artifacts_for_mode (rs_memory_restore_mode src)))) fs1 fs'"
    using memory pin_artifacts_agree [OF _ subset_refl]
    by (auto simp: prepare_memory_backend_def split: prod.splits option.splits)
  ultimately have "hm_get fs' ?c = Some (Regular (hv_render hv cfg'))"
    using restore_layoutD(7) [OF assms(2)] by (simp add: agree_get)
  then show ?thesis
    using patch_config_spec [OF cfg'] by blast
qed

lemma ch_restore_config:
  assumes "ch_restore hv src v = (None, v')" "restore_layout src v"
  shows "\<exists>cfg. contents (ch_files v') (path_join (rs_work_dir src) ''config.json'') = Some (hv_render hv cfg) \<and>
           jpointer ''vsock'' ''socket'' cfg = Some (JString (po_task_vsock (rs_overrides src))) \<and>
           list_all (disk_remapped (remaps_of (ch_base_dir v) (rs_disk_images src))) (config_disks cfg)"
proof -
  obtain rb fs url fs1 where p: "prepared src v (ch_files v) rb fs" and patched: "restore_patched hv src rb fs = (Inr url, fs1)"
    and fr: "agree_except {cc_api_socket (ch_config v)} fs1 (ch_files v')"
    using ch_restore_succeeds [OF assms] by metis
  have "path_join (rs_work_dir src) ''config.json'' \<notin> {cc_api_socket (ch_config v)}"
    using restore_layoutD(7) [OF assms(2)] by auto
  then show ?thesis
    using restore_patched_config [OF patched assms(2)] p agree_get [OF fr]
    by (auto simp: prepared_def contents_def eval_nat_numeral)
qed

section \<open>Snapshots\<close>

definition snap_entry :: "disk_snapshot \<Rightarrow> disk_image_entry" where
  "snap_entry d =
     \<lparr>die_storage_id = ds_storage_id d, die_device_id = ds_device_id d, die_filename = ''disks/'' @ ds_storage_id d @ ''.img''\<rparr>"

definition snap_path :: "string \<Rightarrow> disk_snapshot \<Rightarrow> string" where
  "snap_path dest_dir d = path_join dest_dir (''disks/'' @ ds_storage_id d @ ''.img'')"

definition snap_files :: "string \<Rightarrow> disk_snapshot list \<Rightarrow> string list" where
  "snap_files dest_dir ds = map (snap_path dest_dir) ds @ map (\<lambda>d. tmp_path (snap_path dest_dir d)) ds"

text \<open>The copies have paths of their own, apart from their temporary files and from the images.\<close>

definition snapshot_layout :: "string \<Rightarrow> disk_snapshot list \<Rightarrow> bool" where
  "snapshot_layout dest_dir ds \<longleftrightarrow>
     distinct (map (snap_path dest_dir) ds) \<and>
     list_all (\<lambda>d. \<not> List.member (map (\<lambda>d. tmp_path (snap_path dest_dir d)) ds) (snap_path dest_dir d)) ds \<and>
     list_all (\<lambda>d. \<not> List.member (snap_files dest_dir ds) (ds_img_path d)) ds"

lemma snapshot_layout_Cons:
  assumes "snapshot_layout dest_dir (d # ds)"
  shows "snapshot_layout dest_dir ds" "snap_path dest_dir d \<notin> set (snap_files dest_dir ds)"
  using assms by (auto simp: snapshot_layout_def snap_files_def list_all_iff)

lemma copy_disk_images_loop_spec:
  assumes "copy_disk_images_loop hv ds dest_dir es fs = (r, fs')" "set (snap_files dest_dir ds) \<subseteq> S"
  shows "agree_except S fs fs' \<and> (case r of Inl _ \<Rightarrow> True | Inr es' \<Rightarrow> es' = es @ map snap_entry ds)"
  using assms
proof (induction ds arbitrary: es fs)
  case (Cons d ds)
  obtain r1 fs1 where one: "copy_img_file hv (ds_img_path d) (snap_path dest_dir d) fs = (r1, fs1)"
    by fastforce
  have S: "snap_path dest_dir d \<in> S" "tmp_path (snap_path dest_dir d) \<in> S" "set (snap_files dest_dir ds) \<subseteq> S"
    using Cons.prems(2) by (auto simp: snap_files_def)
  note fr = copy_img_file_agree [OF one S(1,2)]
  show ?case
  proof (cases r1)
    case None
    then have "copy_disk_images_loop hv ds dest_dir (es @ [snap_entry d]) fs1 = (r, fs')"
      using Cons.prems(1) one by (simp add: Let_def snap_entry_def snap_path_def)
    note ih = Cons.IH [OF this S(3)]
    show ?thesis
      using agree_trans [OF fr conjunct1 [OF ih]] conjunct2 [OF ih] by (cases r) simp_all
  next
    case (Some e)
    then show ?thesis
      using Cons.prems(1) one fr by (auto simp: Let_def snap_path_def)
  qed
qed auto

lemma copy_disk_images_loop_get:
  assumes "copy_disk_images_loop hv ds dest_dir es fs = (Inr es', fs')" "snapshot_layout dest_dir ds"
    and "d \<in> set ds" "hm_get fs (ds_img_path d) = Some (Regular c)"
  shows "hm_get fs' (snap_path dest_dir d) = Some (Regular c)"
  using assms
proof (induction ds arbitrary: es fs)
  case (Cons x ds)
  obtain fs1 where one: "copy_img_file hv (ds_img_path x) (snap_path dest_dir x) fs = (None, fs1)"
    and rest: "copy_disk_images_loop hv ds dest_dir (es @ [snap_entry x]) fs1 = (Inr es', fs')"
    using Cons.prems(1) by (auto simp: Let_def snap_entry_def snap_path_def split: prod.splits option.splits)
  have fr: "agree_except {snap_path dest_dir x, tmp_path (snap_path dest_dir x)} fs fs1"
    using copy_img_file_agree [OF one] by simp
  have out: "ds_img_path d \<notin> {snap_path dest_dir x, tmp_path (snap_path dest_dir x)}"
    using Cons.prems(2,3) by (auto simp: snapshot_layout_def snap_files_def list_all_iff)
  show ?case
  proof (cases "d \<in> set ds")
    case True
    then show ?thesis
      using Cons.IH [OF rest snapshot_layout_Cons(1) [OF Cons.prems(2)]] agree_get [OF fr out] Cons.prems(4) by simp
  next
    case False
    then have "hm_get fs1 (snap_path dest_dir d) = Some (Regular c)"
      using copy_img_file_get [OF one] Cons.prems(3,4) out by simp
    then show ?thesis
      using agree_get [OF conjunct1 [OF copy_disk_images_loop_spec [OF rest subset_refl]]]
        snapshot_layout_Cons(2) [OF Cons.prems(2)] False Cons.prems(3) by simp
  qed
qed simp

lemma vm_resume_sel [simp]:
  "ch_files (vm_resume hv v) = ch_files v" "ch_paused (vm_resume hv v) \<longleftrightarrow> ch_paused v \<and> \<not> hv_api hv ''resume''"
  by (simp_all add: vm_resume_def)

lemma ch_snapshot_meta:
  assumes "ch_snapshot hv dest_dir disks v = (Inr meta, v')"
  shows "sm_snapshot_dir meta = dest_dir" "sm_disk_images meta = map snap_entry disks"
    and "\<exists>es. copy_disk_images_loop hv disks dest_dir [] (ch_files v) = (Inr es, ch_files v')"
  using assms copy_disk_images_loop_spec [of hv disks dest_dir "[]" "ch_files v" _ _ UNIV]
  by (fastforce simp: ch_snapshot_def copy_disk_images_def Let_def split: if_splits prod.splits sum.splits)+

end
