(* ===== verification/Ch_Hooks.thy ===== *)
theory Ch_Hooks
  imports Cloud_Hypervisor
begin

text \<open>
  The hooks of Cloud Hypervisor against the interface the sandboxer relies on, the devices of its machine
  against the interface of hotplug, and the number of virtual processors a quota gives.
\<close>

section \<open>Interfaces\<close>

interpretation ch_pre: sandbox_hook "ch_pre_start lc" for lc
  by unfold_locales (simp add: ch_pre_start_def pin_meta_def)

interpretation ch_post: sandbox_hook ch_post_start
  by unfold_locales (simp add: ch_post_start_def pin_meta_def)

lemma ch_hotplug_ok: "hotplug_ok (ch_vm_ops hv) (\<lambda>v. set (ch_plugged v))"
  by (auto simp: hotplug_ok_def ch_vm_ops_def ch_hot_attach_def ch_hot_detach_def client_hot_attach_def split: sum.splits)

section \<open>Virtual processors\<close>

lemma ilog2_bounds: "0 < n \<Longrightarrow> 2 ^ ilog2 n \<le> n \<and> n < 2 ^ Suc (ilog2 n)"
proof (induction n rule: ilog2.induct)
  case (1 n)
  then show ?case
    by (cases "n < 2") (auto simp: ilog2.simps [of n])
qed

lemma round_half_even_exact: "0 < d \<Longrightarrow> round_half_even (a * d) d = a"
  by (simp add: round_half_even_def Let_def)

lemma round_half_even_between:
  assumes "0 < d" "0 < r" "r < d" "d < 2 * r * u"
  shows "a * u < round_half_even ((a * d + r) * u) d \<and> round_half_even ((a * d + r) * u) d \<le> Suc a * u"
proof -
  have e: "(a * d + r) * u = r * u + d * (a * u)"
    by (simp add: algebra_simps)
  have q: "(a * d + r) * u div d = a * u + r * u div d" "(a * d + r) * u mod d = r * u mod d"
    using assms(1) by (simp_all add: e)
  have val: "round_half_even ((a * d + r) * u) d =
      (if 2 * (r * u mod d) < d then a * u + r * u div d
       else if d < 2 * (r * u mod d) then Suc (a * u + r * u div d)
       else a * u + r * u div d + (a * u + r * u div d) mod 2)"
    unfolding round_half_even_def Let_def q ..
  have "0 < u"
    using assms(4) by (cases u) simp_all
  then have u: "r * u div d < u"
    using assms(3) by (intro less_mult_imp_div_less) (simp add: mult.commute)
  show ?thesis
  proof (cases "r * u < d")
    case True
    then show ?thesis
      unfolding val using assms(4) \<open>0 < u\<close> by (simp add: mult.assoc)
  next
    case False
    then have "0 < r * u div d"
      using assms(1) by (simp add: div_greater_zero_iff)
    moreover have "(a * u + r * u div d) mod 2 \<le> 1"
      by simp
    ultimately show ?thesis
      unfolding val mult_Suc using u by (simp only: split: if_split) linarith
  qed
qed

lemma ceil_div_eqI: "(n :: nat) \<le> a * d \<Longrightarrow> a * d < n + d \<Longrightarrow> (n + (d - 1)) div d = a"
  by (intro div_nat_eqI) (simp_all add: mult.commute)

text \<open>Below \<open>2 ^ 53\<close> the rounding of the quotient never moves it across an integer.\<close>

lemma f64_div_ceil_exact:
  assumes "0 < q" "q < 2 ^ 53" "0 < p"
  shows "f64_div_ceil q p = (q + (p - 1)) div p"
proof (cases "q < p")
  case True
  then have "(q + (p - 1)) div p = 1"
    using assms by (intro ceil_div_eqI) simp_all
  then show ?thesis
    using True by (simp add: f64_div_ceil_def)
next
  case False
  define a where "a = q div p"
  define r where "r = q mod p"
  define k where "k = ilog2 a"
  have q: "q = a * p + r" and r: "r < p" and a: "0 < a"
    using assms(3) False by (simp_all add: a_def r_def div_greater_zero_iff)
  have k: "2 ^ k \<le> a" "a < 2 ^ Suc k"
    using ilog2_bounds [OF a] by (simp_all add: k_def)
  have rhs: "(q + (p - 1)) div p = (if r = 0 then a else Suc a)"
    by (rule ceil_div_eqI) (use q r assms(3) in auto)
  have small: "p * 2 ^ k < 2 ^ 53"
  proof -
    have "p * 2 ^ k \<le> p * a"
      using k(1) by simp
    also have "\<dots> \<le> q"
      using q by (simp add: mult.commute)
    finally show ?thesis
      using assms(2) by simp
  qed
  show ?thesis
  proof (cases "k < 52")
    case True
    define u :: nat where "u = 2 ^ (52 - k)"
    have "2 * u * 2 ^ k = 2 ^ 53"
      using True by (simp add: u_def flip: power_add power_Suc)
    then have pu: "p < 2 * u"
      using small by (metis mult_less_cancel2)
    have u: "0 < u"
      by (simp add: u_def)
    have lhs: "f64_div_ceil q p = (round_half_even (q * u) p + (u - 1)) div u"
      using False True by (simp add: f64_div_ceil_def Let_def u_def k_def a_def)
    show ?thesis
    proof (cases "r = 0")
      case r0: True
      then have "round_half_even (q * u) p = a * u"
        using round_half_even_exact [OF assms(3), of "a * u"] q by (simp add: mult_ac)
      moreover have "(a * u + (u - 1)) div u = a"
        using u by (intro ceil_div_eqI) simp_all
      ultimately show ?thesis
        unfolding lhs rhs using r0 by simp
    next
      case r1: False
      have "p < 2 * r * u"
        using pu r1 by (metis mult.assoc mult.commute mult_le_mono1 nat_mult_1 less_one linorder_not_le order_less_le_trans)
      then have "a * u < round_half_even (q * u) p" "round_half_even (q * u) p \<le> Suc a * u"
        using round_half_even_between [of p r u a] assms(3) r r1 q by auto
      then have "(round_half_even (q * u) p + (u - 1)) div u = Suc a"
        by (intro ceil_div_eqI) simp_all
      then show ?thesis
        unfolding lhs rhs using r1 by simp
    qed
  next
    case f: False
    then have "2 ^ 52 \<le> (2 :: nat) ^ k"
      by (intro power_increasing) simp_all
    then have "p * 2 ^ 52 < 2 ^ 53"
      using small by (meson le_less_trans mult_le_mono2)
    then have p1: "p = 1"
      using assms(3) by simp
    then have "(2 :: nat) ^ k < 2 ^ 53"
      using k(1) q r assms(2) by simp
    then have "k = 52"
      using f power_less_imp_less_exp [of "2 :: nat" k 53] by simp
    then show ?thesis
      using p1 False round_half_even_exact [of 1 q] by (simp add: f64_div_ceil_def Let_def k_def a_def)
  qed
qed

end
