(* ===== verification/Ch_System.thy ===== *)
theory Ch_System
  imports Ch_Restore Ch_Hooks
begin

text \<open>
  The properties of the machine of Cloud Hypervisor: what a restore does to the snapshot it starts from,
  what a snapshot followed by a restore gives, and the size of the machine.
\<close>

section \<open>A host\<close>

definition demo_config :: json where
  "demo_config =
     JObject [(''vsock'', JObject [(''socket'', JString ''/old/task.vsock'')]),
              (''disks'', JArray [JObject [(''id'', JString ''blk1''), (''path'', JString ''/old/s1.img'')],
                                JObject [(''id'', JString ''blk9''), (''path'', JString ''/old/s9.img'')]])]"

definition demo_hv :: "bool \<Rightarrow> hv_env" where
  "demo_hv agent =
     \<lparr>hv_mkdir = (\<lambda>_. True), hv_rename = (\<lambda>_ _. True), hv_symlink = (\<lambda>_ _. True), hv_cp_auto = (\<lambda>_. True),
      hv_cp_always = (\<lambda>_. Some True), hv_copy = (\<lambda>_. True), hv_residue = (\<lambda>_. None), hv_read = (\<lambda>_. True),
      hv_write = (\<lambda>_. True), hv_stat = (\<lambda>_. True), hv_parse = (\<lambda>c. if c = ''cfg'' then Some demo_config else None),
      hv_render = (\<lambda>_. ''patched''), hv_spawn = Some (Some 7), hv_virtiofsd = Inr 8, hv_connect = True,
      hv_kill = (\<lambda>_. None), hv_wait = True, hv_alive = True, hv_api = (\<lambda>_. True),
      hv_add_disk = (\<lambda>_. Inr ''0000:00:05.0''), hv_agent = agent\<rparr>"

definition demo_vm_config :: ch_vm_config where
  "demo_vm_config =
     \<lparr>cv_path = ''/usr/local/bin/cloud-hypervisor'', cv_kernel_path = ''/vmlinux'', cv_image_path = ''/kuasar.img'',
      cv_initrd_path = [], cv_kernel_params = [], cv_vcpus = 1, cv_memory_in_mb = 1024, cv_debug = False,
      cv_hugepages = False, cv_entropy_source = ''/dev/urandom'', cv_task_debug = False, cv_task_enable_tracing = False,
      cv_virtiofsd_path = [], cv_virtiofsd_socket = [], cv_storage_backend = VirtioBlkBackend, cv_direct_io = True\<rparr>"

definition demo_files :: host_files where
  "demo_files =
     [(''/snap/config.json'', Regular ''cfg''), (''/snap/disks/s1.img'', Regular ''data''),
      (''/snap/memory-ranges'', Regular ''ranges''), (''/snap/state.json'', Regular ''state''),
      (''/run/a/s1.img'', Regular ''live'')]"

definition demo_vm :: "host_files \<Rightarrow> ch_vm" where
  "demo_vm fs = ch_new ''b'' ''/ns/b'' ''/run/b'' demo_vm_config fs"

definition demo_disk :: disk_image_entry where
  "demo_disk = \<lparr>die_storage_id = ''s1'', die_device_id = ''blk1'', die_filename = ''disks/s1.img''\<rparr>"

definition snap_source :: "snapshot_type \<Rightarrow> restore_source" where
  "snap_source kind =
     \<lparr>rs_snapshot_dir = ''/snap'', rs_work_dir = ''/run/b/work'',
      rs_overrides = \<lparr>po_task_vsock = ''/run/b/task.vsock'', po_console_path = ''/run/b/task.log''\<rparr>,
      rs_snapshot_type = kind, rs_disk_images = [demo_disk], rs_storages = [], rs_orphan_container_ids = [],
      rs_memory_restore_mode = Copy, rs_reflink_supported = False, rs_lease_mode = Exclusive, rs_warm_fork_params = None\<rparr>"

lemmas path_evals = path_join_def tmp_path_def file_name_def with_file_name_def path_components_def

lemma demo_paths:
  "snapshot_disk_path (snap_source k) demo_disk = ''/snap/disks/s1.img''"
  "sandbox_disk_path ''/run/b'' demo_disk = ''/run/b/s1.img''" "tmp_path ''/run/b/s1.img'' = ''/run/b/.s1.img.tmp''"
  "path_join ''/run/b/work'' ''config.json'' = ''/run/b/work/config.json''" "path_join ''/snap'' ''config.json'' = ''/snap/config.json''"
  "path_join ''/run/b/work'' ''memory-ranges'' = ''/run/b/work/memory-ranges''"
  "path_join ''/snap'' ''memory-ranges'' = ''/snap/memory-ranges''"
  "path_join ''/run/b/work'' ''state.json'' = ''/run/b/work/state.json''" "path_join ''/snap'' ''state.json'' = ''/snap/state.json''"
  "file_name ''/run/b/work/config.json'' = Some ''config.json''"
  "with_file_name ''/run/b/work/config.json'' ''.config.json'' = ''/run/b/work/.config.json''"
  by (simp_all add: path_evals snapshot_disk_path_def sandbox_disk_path_def snap_source_def demo_disk_def)

lemma demo_vm_sel:
  "ch_base_dir (demo_vm fs) = ''/run/b''" "cc_api_socket (ch_config (demo_vm fs)) = ''/run/b/api.sock''" "ch_files (demo_vm fs) = fs"
  by (simp_all add: demo_vm_def ch_new_def)

lemma snap_source_sel:
  "rs_snapshot_dir (snap_source k) = ''/snap''" "rs_work_dir (snap_source k) = ''/run/b/work''"
  "rs_disk_images (snap_source k) = [demo_disk]" "rs_snapshot_type (snap_source k) = k"
  "rs_lease_mode (snap_source k) = Exclusive" "rs_memory_restore_mode (snap_source k) = Copy"
  by (simp_all add: snap_source_def)

lemma demo_hv_sel:
  "hv_mkdir (demo_hv b) p" "hv_rename (demo_hv b) p q" "hv_symlink (demo_hv b) p q" "hv_write (demo_hv b) p"
  "hv_stat (demo_hv b) p" "hv_render (demo_hv b) j = ''patched''" "hv_spawn (demo_hv b) = Some (Some 7)"
  "hv_connect (demo_hv b)" "hv_cp_auto (demo_hv b) p" "hv_api (demo_hv b) c" "hv_agent (demo_hv b) = b"
  by (simp_all add: demo_hv_def)

lemma demo_layout: "restore_layout (snap_source k) (demo_vm fs)"
  by (simp add: restore_layout_def restore_files_def restore_scratch_def config_files_def memory_artifacts_for_mode_def
      disk_files_def disk_temps_def snapshot_files_def Let_def snap_source_sel demo_vm_sel demo_paths)

lemma demo_renames_back: "renames_back (demo_hv b) (snap_source k) base_dir"
  by (simp add: renames_back_def demo_hv_sel snap_source_sel)

definition demo_blocks :: restored_blocks where
  "demo_blocks =
     \<lparr>rb_disk_remaps = [(''blk1'', ''/run/b/s1.img'')], rb_restored_paths = [''/run/b/s1.img''], rb_action = MovedExclusive,
      rb_pending_moves = [\<lparr>pm_current = ''/run/b/s1.img'', pm_original = ''/snap/disks/s1.img''\<rparr>]\<rparr>"

lemma demo_prepare:
  "hm_get fs ''/snap/disks/s1.img'' = Some n \<Longrightarrow>
   prepare_restore_block_artifacts (demo_hv b) (snap_source Continuation) ''/run/b'' fs =
     (Inr demo_blocks, hm_insert ''/run/b/s1.img'' n (hm_remove ''/snap/disks/s1.img'' fs))"
  by (simp add: prepare_restore_block_artifacts_def restore_action_def restore_disk_def no_blocks_def fs_rename_def
      snap_source_sel demo_paths demo_hv_sel Let_def demo_blocks_def)
    (simp add: demo_disk_def)

lemma demo_read:
  "hm_get fs ''/snap/config.json'' = Some (Regular ''cfg'') \<Longrightarrow> read_config (demo_hv b) ''/snap/config.json'' fs = Inr demo_config"
  by (simp add: read_config_def contents_def demo_hv_def eval_nat_numeral)

lemma demo_pointer: "jpointer ''vsock'' ''socket'' demo_config = Some (JString ''/old/task.vsock'')"
  by (simp add: demo_config_def jpointer_def jget_def)

definition demo_ready :: "host_files \<Rightarrow> bool" where
  "demo_ready fs \<longleftrightarrow>
     hm_get fs ''/snap/config.json'' = Some (Regular ''cfg'') \<and> hm_get fs ''/snap/memory-ranges'' = Some (Regular ''ranges'') \<and>
     hm_get fs ''/snap/state.json'' = Some (Regular ''state'') \<and> hm_get fs ''/run/b/work/memory-ranges'' = None \<and>
     hm_get fs ''/run/b/work/state.json'' = None"

lemma demo_patched:
  "demo_ready fs \<Longrightarrow> k \<noteq> Environment \<Longrightarrow>
     \<exists>fs'. restore_patched (demo_hv b) (snap_source k) rb fs = (Inr ''file:///run/b/work'', fs')"
  by (simp add: demo_ready_def restore_patched_def snap_source_sel demo_paths validate_snapshot_config_def demo_pointer as_str_def
      patch_snapshot_config_def demo_read patch_config_def write_file_atomic_def fs_rename_def prepare_memory_backend_def
      memory_artifacts_for_mode_def symlink_idempotent_def fs_symlink_def contents_def demo_hv_sel Let_def eval_nat_numeral)

lemma demo_restore:
  assumes "demo_ready fs" "hm_get fs ''/snap/disks/s1.img'' = Some n"
  shows "fst (ch_restore (demo_hv b) (snap_source Continuation) (demo_vm fs)) =
           (if b then None else Some (OtherError ''agent not ready''))"
proof -
  have "demo_ready (hm_insert ''/run/b/s1.img'' n (hm_remove ''/snap/disks/s1.img'' fs))"
    using assms(1) by (simp add: demo_ready_def)
  from demo_patched [OF this, of Continuation b demo_blocks]
  obtain fs' where "restore_patched (demo_hv b) (snap_source Continuation) demo_blocks
      (hm_insert ''/run/b/s1.img'' n (hm_remove ''/snap/disks/s1.img'' fs)) = (Inr ''file:///run/b/work'', fs')"
    by auto
  then show ?thesis
    using demo_prepare [OF assms(2)]
    by (simp add: ch_restore_def demo_vm_sel launch_for_restore_def restore_api_def demo_hv_sel Let_def)
qed

lemma demo_files_ready: "demo_ready demo_files" "hm_get demo_files ''/snap/disks/s1.img'' = Some (Regular ''data'')"
  by (simp_all add: demo_ready_def demo_files_def)

section \<open>Restore\<close>





section \<open>Snapshot and restore\<close>

lemma snapshot_resumes:
  "ch_snapshot hv dest_dir disks v = (r, v') \<Longrightarrow> hv_api hv ''resume'' \<Longrightarrow> \<not> ch_paused v \<Longrightarrow> \<not> ch_paused v'"
  by (auto simp: ch_snapshot_def Let_def split: if_splits prod.splits sum.splits)

text \<open>
  C18: A snapshot of a machine, restored into another sandbox, gives that sandbox the disks of the first one
  as they were when the snapshot was taken, as long as nobody wrote to the copies in between.
\<close>

theorem snapshot_restore_roundtrip:
  assumes "ch_snapshot hv dest_dir disks a = (Inr meta, a')" "snapshot_layout dest_dir disks"
    and "rs_snapshot_dir src = sm_snapshot_dir meta" "rs_disk_images src = sm_disk_images meta"
    and "list_all (\<lambda>d. hm_get (ch_files b) (snap_path dest_dir d) = hm_get (ch_files a') (snap_path dest_dir d)) disks"
    and "ch_restore hv' src b = (None, b')" "restore_layout src b"
    and "d \<in> set disks" "hm_get (ch_files a) (ds_img_path d) = Some (Regular c)"
  shows "contents (ch_files b') (path_join (ch_base_dir b) (ds_storage_id d @ ''.img'')) = Some c"
proof -
  note meta = ch_snapshot_meta [OF assms(1)]
  have src: "snapshot_disk_path src (snap_entry d) = snap_path dest_dir d"
    using assms(3) meta(1) by (simp add: snapshot_disk_path_def snap_path_def snap_entry_def)
  have "hm_get (ch_files a') (snap_path dest_dir d) = Some (Regular c)"
    using meta(3) copy_disk_images_loop_get assms(2,8,9) by blast
  then have "hm_get (ch_files b) (snapshot_disk_path src (snap_entry d)) = Some (Regular c)"
    using assms(5,8) by (simp add: src list_all_iff)
  then have "contents (ch_files b') (sandbox_disk_path (ch_base_dir b) (snap_entry d)) = Some c"
    using ch_restore_images [OF assms(6,7)] assms(4,8) meta(2) by simp
  then show ?thesis
    by (simp add: sandbox_disk_path_def snap_entry_def)
qed

definition demo_snap :: disk_snapshot where
  "demo_snap = \<lparr>ds_storage_id = ''s1'', ds_device_id = ''blk1'', ds_img_path = ''/run/a/s1.img''\<rparr>"

definition snapped_files :: host_files where
  "snapped_files = hm_insert ''/snap/disks/s1.img'' (Regular ''live'')
     (hm_remove ''/snap/disks/.s1.img.tmp'' (hm_insert ''/snap/disks/.s1.img.tmp'' (Regular ''live'') demo_files))"

lemma demo_snap_path: "snap_path ''/snap'' demo_snap = ''/snap/disks/s1.img''" "tmp_path ''/snap/disks/s1.img'' = ''/snap/disks/.s1.img.tmp''"
  "snap_entry demo_snap = demo_disk" "path_join ''/snap'' ''disks/s1.img'' = ''/snap/disks/s1.img''"
  by (simp_all add: snap_path_def demo_snap_def path_evals snap_entry_def demo_disk_def)

lemma demo_snapshot:
  "\<exists>meta. ch_snapshot (demo_hv True) ''/snap'' [demo_snap] ((demo_vm demo_files)\<lparr>ch_client := True\<rparr>) =
     (Inr meta, (demo_vm demo_files)\<lparr>ch_client := True, ch_files := snapped_files, ch_paused := False\<rparr>)"
proof -
  have "contents demo_files ''/run/a/s1.img'' = Some ''live''"
    by (simp add: contents_def demo_files_def eval_nat_numeral)
  then have "copy_img_file (demo_hv True) ''/run/a/s1.img'' ''/snap/disks/s1.img'' demo_files = (None, snapped_files)"
    by (simp add: copy_img_file_def demo_snap_path fs_rename_def demo_hv_sel snapped_files_def Let_def)
  then show ?thesis
    by (simp add: ch_snapshot_def copy_disk_images_def demo_hv_sel demo_vm_sel demo_snap_def demo_snap_path vm_resume_def Let_def)
qed

theorem snapshot_restore_roundtrip_witness:
  "contents (ch_files (snd (ch_restore (demo_hv True) (snap_source Continuation) (demo_vm snapped_files)))) ''/run/b/s1.img'' = Some ''live''"
proof -
  obtain meta where snap: "ch_snapshot (demo_hv True) ''/snap'' [demo_snap] ((demo_vm demo_files)\<lparr>ch_client := True\<rparr>) =
      (Inr meta, (demo_vm demo_files)\<lparr>ch_client := True, ch_files := snapped_files, ch_paused := False\<rparr>)"
    using demo_snapshot by blast
  have lay: "snapshot_layout ''/snap'' [demo_snap]"
    by (simp add: snapshot_layout_def snap_files_def demo_snap_path) (simp add: demo_snap_def)
  have ready: "demo_ready snapped_files" "hm_get snapped_files ''/snap/disks/s1.img'' = Some (Regular ''live'')"
    by (simp_all add: demo_ready_def snapped_files_def demo_files_def)
  have img: "hm_get demo_files (ds_img_path demo_snap) = Some (Regular ''live'')"
    by (simp add: demo_snap_def demo_files_def)
  have path: "path_join ''/run/b'' (ds_storage_id demo_snap @ ''.img'') = ''/run/b/s1.img''"
    by (simp add: demo_snap_def path_join_def)
  show ?thesis
    using snapshot_restore_roundtrip [OF snap lay, of "snap_source Continuation" "demo_vm snapped_files" "demo_hv True"
        "snd (ch_restore (demo_hv True) (snap_source Continuation) (demo_vm snapped_files))" demo_snap "''live''"]
      demo_restore [OF ready, of True] img
    by (simp add: ch_snapshot_meta [OF snap] snap_source_sel demo_snap_path prod_eq_iff demo_layout demo_vm_sel path)
qed

section \<open>The size of the machine\<close>

text \<open>
  C40: A sandbox with a processor quota gets the quota over the period, rounded up, as the number of virtual
  processors - at least one - although the source computes it in floating point; the value is cut off at the
  largest 32-bit number. It does so for every quota and period below \<open>2 ^ 53\<close>.
\<close>

theorem quota_rounds_up:
  assumes "get_resources lc = Some r" "0 < sint (lr_cpu_quota r)" "sint (lr_cpu_quota r) < 2 ^ 53"
    and "0 < sint (lr_cpu_period r)" "sint (lr_cpu_period r) < 2 ^ 53"
  shows "let q = nat (sint (lr_cpu_quota r)); p = nat (sint (lr_cpu_period r));
             cpus = cc_cpus (ch_config (sb_vm (snd (ch_pre_start lc sb))))
         in cp_boot cpus = min ((q + (p - 1)) div p) (2 ^ 32 - 1) \<and> 0 < cp_boot cpus \<and> cp_max cpus = Some (cp_boot cpus)"
proof -
  define q where "q = nat (sint (lr_cpu_quota r))"
  define p where "p = nat (sint (lr_cpu_period r))"
  have qp: "0 < q" "q < 2 ^ 53" "0 < p" "p < 2 ^ 53"
    using assms(2-5) by (simp_all add: q_def p_def nat_less_iff)
  have "vcpus_of r = Some (saturate_u32 ((q + (p - 1)) div p))"
    using assms(2,4) qp f64_div_ceil_exact [OF qp(1-3)] by (simp add: vcpus_of_def f64_of_nat_def flip: q_def p_def)
  moreover have "0 < (q + (p - 1)) div p"
    using qp by (simp add: div_greater_zero_iff)
  ultimately show ?thesis
    using assms(1) by (simp add: ch_pre_start_def process_config_def saturate_u32_def Let_def flip: q_def p_def)
qed

theorem quota_rounds_up_witness:
  "\<forall>sb. cp_boot (cc_cpus (ch_config (sb_vm (snd (ch_pre_start
      (Some \<lparr>lc_resources = Some (demo_resources 100000 250000), lc_overhead = None\<rparr>) sb))))) = 3"
proof
  fix sb
  have r: "get_resources (Some \<lparr>lc_resources = Some (demo_resources 100000 250000), lc_overhead = None\<rparr>) =
      Some (demo_resources 100000 250000)"
    by (simp add: get_resources_def)
  show "cp_boot (cc_cpus (ch_config (sb_vm (snd (ch_pre_start
      (Some \<lparr>lc_resources = Some (demo_resources 100000 250000), lc_overhead = None\<rparr>) sb))))) = 3"
    using quota_rounds_up [OF r, of sb] by (simp add: demo_resources_def Let_def)
qed

end
