(* ===== verification/Warm_Fork.thy ===== *)
theory Warm_Fork
  imports Restore
begin

text \<open>
  The injection protocol between the guest agent and the workloads of a sandbox that was forked from a warm
  snapshot: the messages and their framing (\<^verbatim>\<open>vmm/common/src/warmfork/message.rs\<close>), and the two-phase
  exchange of the agent with all workloads at once (\<^verbatim>\<open>vmm/task/src/sandbox_service.rs\<close>). The workloads
  answer what they like, when they like; the texts of error messages are left out.
\<close>

section \<open>Messages\<close>

datatype reject_reason = ParseError | InvalidTaskId | ResourceExhausted

fun reject_reason_str :: "reject_reason \<Rightarrow> string" where
  "reject_reason_str ParseError = ''parse_error''"
| "reject_reason_str InvalidTaskId = ''invalid_task_id''"
| "reject_reason_str ResourceExhausted = ''resource_exhausted''"

record capabilities =
  cap_protocol_version :: string
  cap_supported_features :: "string list"

datatype workload_message =
    WCapabilities capabilities
  | WReady
  | WStarted
  | WReject reject_reason string
  | WCancelAck

record prepare_payload =
  pp_task_id :: string
  pp_env_overrides :: "(string, string) hmap"
  pp_context :: string

datatype sandboxer_message =
    SPrepare prepare_payload
  | SCommit
  | SCancel string

definition PROTOCOL_VERSION :: string where "PROTOCOL_VERSION = ''1''"

definition MAX_FRAME_LEN :: "32 word" where "MAX_FRAME_LEN = 4 * 1024 * 1024"

section \<open>Framing\<close>

text \<open>
  A message is its length, in four bytes with the most significant first, and its body. The codec of the body is
  a parameter. A reader that finds fewer bytes than it needs reports the end of the stream.
\<close>

datatype frame_error = UnexpectedEof | InvalidData | BrokenPipe

type_synonym bytes = "8 word list"

definition to_be_bytes :: "32 word \<Rightarrow> bytes" where
  "to_be_bytes n = map (\<lambda>i. of_nat (unat n div 256 ^ i mod 256)) [3, 2, 1, 0]"

definition from_be_bytes :: "bytes \<Rightarrow> 32 word" where
  "from_be_bytes bs = of_nat (foldl (\<lambda>a b. a * 256 + unat b) 0 bs)"

definition read_exact :: "nat \<Rightarrow> bytes \<Rightarrow> (frame_error + bytes) \<times> bytes" where
  "read_exact n bs = (if length bs < n then (Inl UnexpectedEof, []) else (Inr (take n bs), drop n bs))"

definition read_framed_message :: "(bytes \<Rightarrow> 'm option) \<Rightarrow> 32 word \<Rightarrow> bytes \<Rightarrow> (frame_error + 'm) \<times> bytes" where
  "read_framed_message de max_len bs =
     (case read_exact 4 bs of
        (Inl e, rest) \<Rightarrow> (Inl e, rest)
      | (Inr len_buf, rest) \<Rightarrow>
          (let len = from_be_bytes len_buf in
           if max_len < len then (Inl InvalidData, rest)
           else (case read_exact (unat len) rest of
                   (Inl e, rest') \<Rightarrow> (Inl e, rest')
                 | (Inr body, rest') \<Rightarrow> (case de body of None \<Rightarrow> (Inl InvalidData, rest') | Some m \<Rightarrow> (Inr m, rest')))))"

definition write_framed_message :: "('m \<Rightarrow> bytes) \<Rightarrow> 'm \<Rightarrow> bytes \<Rightarrow> bytes" where
  "write_framed_message ser m out = out @ to_be_bytes (of_nat (length (ser m))) @ ser m"

text \<open>A reader that takes the given number of messages and stops at the first error.\<close>

fun read_messages :: "(bytes \<Rightarrow> 'm option) \<Rightarrow> 32 word \<Rightarrow> nat \<Rightarrow> bytes \<Rightarrow> (frame_error + 'm list) \<times> bytes" where
  "read_messages de max_len 0 bs = (Inr [], bs)"
| "read_messages de max_len (Suc n) bs =
     (case read_framed_message de max_len bs of
        (Inl e, rest) \<Rightarrow> (Inl e, rest)
      | (Inr m, rest) \<Rightarrow> map_prod (map_sum id ((#) m)) id (read_messages de max_len n rest))"

lemma be_digits: "(((x :: nat) div 16777216 * 256 + x div 65536 mod 256) * 256 + x div 256 mod 256) * 256 + x mod 256 = x"
proof -
  have "x div 16777216 = x div 65536 div 256" "x div 65536 = x div 256 div 256"
    by (simp_all flip: div_mult2_eq)
  then show ?thesis
    by (metis div_mult_mod_eq)
qed

lemma be_bytes_roundtrip: "from_be_bytes (to_be_bytes n) = n"
proof -
  have "unat n < 4294967296"
    using unsigned_less [of n] by simp
  with be_digits [of "unat n"] have "foldl (\<lambda>a b. a * 256 + unat b) 0 (to_be_bytes n) = unat n"
    by (simp add: to_be_bytes_def unat_of_nat)
  then show ?thesis
    by (simp add: from_be_bytes_def)
qed

lemma to_be_bytes_length [simp]: "length (to_be_bytes n) = 4"
  by (simp add: to_be_bytes_def)

lemma read_exact_append [simp]: "length a = n \<Longrightarrow> read_exact n (a @ b) = (Inr a, b)"
  by (simp add: read_exact_def)

lemma read_written:
  assumes "de (ser m) = Some m" "length (ser m) \<le> unat max_len"
  shows "read_framed_message de max_len (write_framed_message ser m [] @ rest) = (Inr m, rest)"
proof -
  have "unat max_len < 2 ^ 32"
    using unsigned_less [of max_len] by simp
  with assms(2) have "length (ser m) < 2 ^ 32"
    by (rule order_le_less_trans)
  then have len: "unat (of_nat (length (ser m)) :: 32 word) = length (ser m)"
    by (simp add: unat_of_nat)
  then have "\<not> max_len < of_nat (length (ser m))"
    using assms(2) by (simp add: word_less_nat_alt)
  then show ?thesis
    using assms(1) len by (simp add: read_framed_message_def write_framed_message_def be_bytes_roundtrip)
qed

lemma write_framed_append: "write_framed_message ser m out = out @ write_framed_message ser m []"
  by (simp add: write_framed_message_def)

lemma fold_write_append: "fold (write_framed_message ser) ms out = out @ fold (write_framed_message ser) ms []"
proof (induction ms arbitrary: out)
  case (Cons m ms)
  show ?case
    using Cons [of "write_framed_message ser m out"] Cons [of "write_framed_message ser m []"]
    by (simp add: write_framed_append [of ser m out])
qed simp

section \<open>One workload\<close>

datatype inject_status =
    INJECT_STARTED | INJECT_REJECT | INJECT_CONNECT_FAILED | INJECT_NAMESPACE_ERROR | INJECT_PROTOCOL_ERROR
  | INJECT_TIMEOUT_PREPARE | INJECT_TIMEOUT_COMMIT | INJECT_TARGET_NOT_FOUND | INJECT_INTERNAL_ERROR

datatype inject_phase = INJECT_PHASE_PREPARE | INJECT_PHASE_COMMIT

record container_inject_result =
  cr_container_id :: string
  cr_status :: inject_status
  cr_phase :: inject_phase

text \<open>
  A connection, and where its task stands: what the agent waits for or is about to write. A message counts as
  sent once the agent tries to write it.
\<close>

datatype conn_state =
    Connecting | AwaitCaps | SendPrepare | AwaitReady | Prepared
  | SendCommit | AwaitStarted | Committed | SendCancel | Cancelled
  | Failed inject_status inject_phase

record conn =
  cn_task :: container_task
  cn_state :: conn_state
  cn_sent :: "sandboxer_message list"
  cn_got :: "workload_message list"

datatype connect_outcome = ConnectOk | NamespaceFailed | ConnectRefused

datatype conn_input =
    Connected connect_outcome
  | Received "frame_error + workload_message"
  | Written bool

definition AGENT_READINESS_SOCKET :: string where "AGENT_READINESS_SOCKET = ''/run/warmfork-readiness.sock''"

definition readiness_socket :: "string \<Rightarrow> string" where
  "readiness_socket p = (if p = [] then AGENT_READINESS_SOCKET else p)"

text \<open>The process whose mount namespace is entered; no name means the namespace of the agent.\<close>

definition connect_in_ns :: "(string, nat) hmap \<Rightarrow> string \<Rightarrow> connect_outcome \<Rightarrow> inject_status option" where
  "connect_in_ns pids container_id outcome =
     (if container_id \<noteq> [] \<and> hm_get pids container_id = None then Some INJECT_TARGET_NOT_FOUND
      else (case outcome of
              ConnectOk \<Rightarrow> None
            | NamespaceFailed \<Rightarrow> Some INJECT_NAMESPACE_ERROR
            | ConnectRefused \<Rightarrow> Some INJECT_CONNECT_FAILED))"

definition verify_capabilities :: "frame_error + workload_message \<Rightarrow> bool" where
  "verify_capabilities m =
     (case m of Inr (WCapabilities caps) \<Rightarrow> cap_protocol_version caps = PROTOCOL_VERSION | _ \<Rightarrow> False)"

definition payload_of :: "container_task \<Rightarrow> prepare_payload" where
  "payload_of t = \<lparr>pp_task_id = ct_task_id t, pp_env_overrides = ct_env_overrides t, pp_context = ct_context t\<rparr>"

definition enter :: "conn_state \<Rightarrow> conn \<Rightarrow> conn" where
  "enter st c = c\<lparr>cn_state := st\<rparr>"

definition note_got :: "frame_error + workload_message \<Rightarrow> conn \<Rightarrow> conn" where
  "note_got m c = (case m of Inl _ \<Rightarrow> c | Inr w \<Rightarrow> c\<lparr>cn_got := cn_got c @ [w]\<rparr>)"

definition send_msg :: "sandboxer_message \<Rightarrow> bool \<Rightarrow> conn_state \<Rightarrow> conn_state \<Rightarrow> conn \<Rightarrow> conn" where
  "send_msg m ok good bad c = (enter (if ok then good else bad) c)\<lparr>cn_sent := cn_sent c @ [m]\<rparr>"

fun inject_prepare_one :: "(string, nat) hmap \<Rightarrow> conn \<Rightarrow> conn_input \<Rightarrow> conn option" where
  "inject_prepare_one pids c (Connected out) =
     (if cn_state c = Connecting
      then Some (enter (case connect_in_ns pids (ct_container_id (cn_task c)) out of
                          None \<Rightarrow> AwaitCaps | Some st \<Rightarrow> Failed st INJECT_PHASE_PREPARE) c)
      else None)"
| "inject_prepare_one pids c (Received m) =
     (case cn_state c of
        AwaitCaps \<Rightarrow>
          Some (note_got m (enter (if verify_capabilities m then SendPrepare
                                   else Failed INJECT_PROTOCOL_ERROR INJECT_PHASE_PREPARE) c))
      | AwaitReady \<Rightarrow>
          Some (note_got m (enter (case m of
                                     Inr WReady \<Rightarrow> Prepared
                                   | Inr (WReject _ _) \<Rightarrow> Failed INJECT_REJECT INJECT_PHASE_PREPARE
                                   | _ \<Rightarrow> Failed INJECT_PROTOCOL_ERROR INJECT_PHASE_PREPARE) c))
      | _ \<Rightarrow> None)"
| "inject_prepare_one pids c (Written ok) =
     (if cn_state c = SendPrepare
      then Some (send_msg (SPrepare (payload_of (cn_task c))) ok AwaitReady
                   (Failed INJECT_PROTOCOL_ERROR INJECT_PHASE_PREPARE) c)
      else None)"

fun inject_commit_one :: "conn \<Rightarrow> conn_input \<Rightarrow> conn option" where
  "inject_commit_one c (Written ok) =
     (if cn_state c = SendCommit
      then Some (send_msg SCommit ok AwaitStarted (Failed INJECT_PROTOCOL_ERROR INJECT_PHASE_COMMIT) c)
      else None)"
| "inject_commit_one c (Received m) =
     (if cn_state c = AwaitStarted
      then Some (note_got m (enter (if m = Inr WStarted then Committed
                                    else Failed INJECT_PROTOCOL_ERROR INJECT_PHASE_COMMIT) c))
      else None)"
| "inject_commit_one c (Connected _) = None"

text \<open>Without a task identity there is no first phase.\<close>

fun inject_autonomous_one :: "(string, nat) hmap \<Rightarrow> conn \<Rightarrow> conn_input \<Rightarrow> conn option" where
  "inject_autonomous_one pids c (Connected out) =
     (if cn_state c = Connecting
      then Some (enter (case connect_in_ns pids (ct_container_id (cn_task c)) out of
                          None \<Rightarrow> AwaitCaps | Some st \<Rightarrow> Failed st INJECT_PHASE_COMMIT) c)
      else None)"
| "inject_autonomous_one pids c (Received m) =
     (if cn_state c = AwaitCaps
      then Some (note_got m (enter (if verify_capabilities m then SendCommit
                                    else Failed INJECT_PROTOCOL_ERROR INJECT_PHASE_COMMIT) c))
      else inject_commit_one c (Received m))"
| "inject_autonomous_one pids c (Written ok) = inject_commit_one c (Written ok)"

text \<open>The rollback of a workload that is ready; whether the write works makes no difference.\<close>

fun inject_cancel_one :: "conn \<Rightarrow> conn_input \<Rightarrow> conn option" where
  "inject_cancel_one c (Written ok) =
     (if cn_state c = SendCancel then Some (send_msg (SCancel ''rollback'') ok Cancelled Cancelled c) else None)"
| "inject_cancel_one c _ = None"

section \<open>All workloads\<close>

datatype exchange =
    PrepareRound | CancelRound | CommitRound | AutonomousRound
  | Answered "container_inject_result list"

record inject_state =
  is_exchange :: exchange
  is_conns :: "conn list"

definition new_conn :: "container_task \<Rightarrow> conn" where
  "new_conn t = \<lparr>cn_task = t, cn_state = Connecting, cn_sent = [], cn_got = []\<rparr>"

definition autonomous :: "container_task list \<Rightarrow> bool" where
  "autonomous ts = list_all (\<lambda>t. ct_task_id t = []) ts"

definition inject_start :: "container_task list \<Rightarrow> inject_state" where
  "inject_start ts =
     \<lparr>is_exchange = (if autonomous ts then AutonomousRound else PrepareRound), is_conns = map new_conn ts\<rparr>"

definition conn_result :: "conn \<Rightarrow> inject_status \<Rightarrow> inject_phase \<Rightarrow> container_inject_result" where
  "conn_result c st ph = \<lparr>cr_container_id = ct_container_id (cn_task c), cr_status = st, cr_phase = ph\<rparr>"

definition timeout_results :: "inject_status \<Rightarrow> inject_phase \<Rightarrow> conn list \<Rightarrow> container_inject_result list" where
  "timeout_results st ph cs = map (\<lambda>c. conn_result c st ph) cs"

fun is_failed :: "conn_state \<Rightarrow> bool" where
  "is_failed (Failed _ _) = True"
| "is_failed _ = False"

fun outcome_result :: "conn \<Rightarrow> container_inject_result" where
  "outcome_result c =
     (case cn_state c of
        Failed st ph \<Rightarrow> conn_result c st ph
      | Committed \<Rightarrow> conn_result c INJECT_STARTED INJECT_PHASE_COMMIT
      | _ \<Rightarrow> conn_result c INJECT_INTERNAL_ERROR INJECT_PHASE_PREPARE)"

definition prepare_over :: "conn \<Rightarrow> bool" where
  "prepare_over c \<longleftrightarrow> cn_state c = Prepared \<or> is_failed (cn_state c)"

definition commit_over :: "conn \<Rightarrow> bool" where
  "commit_over c \<longleftrightarrow> cn_state c = Committed \<or> is_failed (cn_state c)"

definition cancel_over :: "conn \<Rightarrow> bool" where
  "cancel_over c \<longleftrightarrow> cn_state c = Cancelled \<or> is_failed (cn_state c)"

definition cancelled_results :: "conn list \<Rightarrow> container_inject_result list" where
  "cancelled_results cs =
     map outcome_result (filter (\<lambda>c. is_failed (cn_state c)) cs) @
     map outcome_result (filter (\<lambda>c. \<not> is_failed (cn_state c)) cs)"

text \<open>The end of the first phase: with any failure the workloads that are ready are sent back, else all go on.\<close>

definition barrier :: "inject_state \<Rightarrow> inject_state" where
  "barrier s =
     (if list_ex (\<lambda>c. is_failed (cn_state c)) (is_conns s)
      then \<lparr>is_exchange = CancelRound, is_conns = map (\<lambda>c. if is_failed (cn_state c) then c else enter SendCancel c) (is_conns s)\<rparr>
      else \<lparr>is_exchange = CommitRound, is_conns = map (enter SendCommit) (is_conns s)\<rparr>)"

inductive inject_step :: "(string, nat) hmap \<Rightarrow> inject_state \<Rightarrow> inject_state \<Rightarrow> bool" for pids where
  Prepare: "is_exchange s = PrepareRound \<Longrightarrow> i < length (is_conns s) \<Longrightarrow>
    inject_prepare_one pids (is_conns s ! i) inp = Some c \<Longrightarrow> inject_step pids s (s\<lparr>is_conns := (is_conns s)[i := c]\<rparr>)"
| PrepareTimeout: "is_exchange s = PrepareRound \<Longrightarrow> \<not> list_all prepare_over (is_conns s) \<Longrightarrow>
    inject_step pids s (s\<lparr>is_exchange := Answered (timeout_results INJECT_TIMEOUT_PREPARE INJECT_PHASE_PREPARE (is_conns s))\<rparr>)"
| Barrier: "is_exchange s = PrepareRound \<Longrightarrow> list_all prepare_over (is_conns s) \<Longrightarrow> inject_step pids s (barrier s)"
| Cancel: "is_exchange s = CancelRound \<Longrightarrow> i < length (is_conns s) \<Longrightarrow>
    inject_cancel_one (is_conns s ! i) inp = Some c \<Longrightarrow> inject_step pids s (s\<lparr>is_conns := (is_conns s)[i := c]\<rparr>)"
| CancelDone: "is_exchange s = CancelRound \<Longrightarrow> list_all cancel_over (is_conns s) \<Longrightarrow>
    inject_step pids s (s\<lparr>is_exchange := Answered (cancelled_results (is_conns s))\<rparr>)"
| Commit: "is_exchange s = CommitRound \<Longrightarrow> i < length (is_conns s) \<Longrightarrow>
    inject_commit_one (is_conns s ! i) inp = Some c \<Longrightarrow> inject_step pids s (s\<lparr>is_conns := (is_conns s)[i := c]\<rparr>)"
| Autonomous: "is_exchange s = AutonomousRound \<Longrightarrow> i < length (is_conns s) \<Longrightarrow>
    inject_autonomous_one pids (is_conns s ! i) inp = Some c \<Longrightarrow> inject_step pids s (s\<lparr>is_conns := (is_conns s)[i := c]\<rparr>)"
| CommitTimeout: "is_exchange s = CommitRound \<or> is_exchange s = AutonomousRound \<Longrightarrow> \<not> list_all commit_over (is_conns s) \<Longrightarrow>
    inject_step pids s (s\<lparr>is_exchange := Answered (timeout_results INJECT_TIMEOUT_COMMIT INJECT_PHASE_COMMIT (is_conns s))\<rparr>)"
| CommitDone: "is_exchange s = CommitRound \<or> is_exchange s = AutonomousRound \<Longrightarrow> list_all commit_over (is_conns s) \<Longrightarrow>
    inject_step pids s (s\<lparr>is_exchange := Answered (map outcome_result (is_conns s))\<rparr>)"

section \<open>The readiness probe\<close>

datatype target_check_status = TARGET_CHECK_OK | TARGET_NOT_FOUND | NAMESPACE_ERROR | CONNECT_FAILED | PROTOCOL_ERROR

record inject_target =
  it_container_id :: string
  it_socket_path :: string

record target_check_result =
  tc_container_id :: string
  tc_status :: target_check_status

fun check_status :: "inject_status \<Rightarrow> target_check_status" where
  "check_status INJECT_TARGET_NOT_FOUND = TARGET_NOT_FOUND"
| "check_status INJECT_NAMESPACE_ERROR = NAMESPACE_ERROR"
| "check_status _ = CONNECT_FAILED"

text \<open>
  What answers at a socket, seen from a mount namespace: the process whose namespace is entered, or none for
  the namespace of the agent, and the path.
\<close>

type_synonym sockets = "nat option \<Rightarrow> string \<Rightarrow> connect_outcome \<times> (frame_error + workload_message)"

definition check_one_target :: "sockets \<Rightarrow> (string, nat) hmap \<Rightarrow> inject_target \<Rightarrow> target_check_result" where
  "check_one_target socks pids t =
     (let (outcome, reply) = socks (if it_container_id t = [] then None else hm_get pids (it_container_id t)) (readiness_socket (it_socket_path t)) in
      \<lparr>tc_container_id = it_container_id t,
       tc_status = (case connect_in_ns pids (it_container_id t) outcome of
                      Some st \<Rightarrow> check_status st
                    | None \<Rightarrow> if verify_capabilities reply then TARGET_CHECK_OK else PROTOCOL_ERROR)\<rparr>)"

definition agent_check_inject_socket :: "sockets \<Rightarrow> (string, nat) hmap \<Rightarrow> inject_target list \<Rightarrow> target_check_result list" where
  "agent_check_inject_socket socks pids targets = map (check_one_target socks pids) targets"

end
