(* ===== verification/Warm_Fork_Inv.thy ===== *)
theory Warm_Fork_Inv
  imports Warm_Fork
begin

text \<open>
  The two-phase exchange of \<open>Warm_Fork\<close>: what each connection has seen in each of its states, which states a
  round allows, that every exchange comes to an answer, and what the host may conclude from the answer.
\<close>

section \<open>The history of one connection\<close>

definition prepared_for :: "conn \<Rightarrow> bool" where
  "prepared_for c \<longleftrightarrow> WReady \<in> set (cn_got c)"

definition first_msg :: "conn \<Rightarrow> sandboxer_message" where
  "first_msg c = SPrepare (payload_of (cn_task c))"

fun conn_inv :: "conn \<Rightarrow> bool" where
  "conn_inv c =
     (case cn_state c of
        Connecting \<Rightarrow> cn_sent c = []
      | AwaitCaps \<Rightarrow> cn_sent c = []
      | SendPrepare \<Rightarrow> cn_sent c = []
      | AwaitReady \<Rightarrow> cn_sent c = [first_msg c]
      | Prepared \<Rightarrow> cn_sent c = [first_msg c] \<and> prepared_for c
      | SendCommit \<Rightarrow> cn_sent c = [first_msg c] \<and> prepared_for c
      | SendCancel \<Rightarrow> cn_sent c = [first_msg c]
      | AwaitStarted \<Rightarrow> cn_sent c = [first_msg c, SCommit] \<and> prepared_for c
      | Committed \<Rightarrow> cn_sent c = [first_msg c, SCommit] \<and> prepared_for c \<and> WStarted \<in> set (cn_got c)
      | Cancelled \<Rightarrow> cn_sent c = [first_msg c, SCancel ''rollback'']
      | Failed st INJECT_PHASE_PREPARE \<Rightarrow> (cn_sent c = [] \<or> cn_sent c = [first_msg c]) \<and> st \<noteq> INJECT_STARTED
      | Failed st INJECT_PHASE_COMMIT \<Rightarrow> cn_sent c = [first_msg c, SCommit] \<and> prepared_for c \<and> st \<noteq> INJECT_STARTED)"

fun auto_inv :: "conn \<Rightarrow> bool" where
  "auto_inv c =
     (case cn_state c of
        Connecting \<Rightarrow> cn_sent c = []
      | AwaitCaps \<Rightarrow> cn_sent c = []
      | SendCommit \<Rightarrow> cn_sent c = []
      | AwaitStarted \<Rightarrow> cn_sent c = [SCommit]
      | Committed \<Rightarrow> cn_sent c = [SCommit] \<and> WStarted \<in> set (cn_got c)
      | Failed st ph \<Rightarrow> (cn_sent c = [] \<or> cn_sent c = [SCommit]) \<and> st \<noteq> INJECT_STARTED
      | _ \<Rightarrow> False)"

definition in_prepare :: "conn \<Rightarrow> bool" where
  "in_prepare c \<longleftrightarrow>
     (case cn_state c of
        Connecting \<Rightarrow> True | AwaitCaps \<Rightarrow> True | SendPrepare \<Rightarrow> True | AwaitReady \<Rightarrow> True | Prepared \<Rightarrow> True
      | Failed _ ph \<Rightarrow> ph = INJECT_PHASE_PREPARE | _ \<Rightarrow> False)"

definition in_cancel :: "conn \<Rightarrow> bool" where
  "in_cancel c \<longleftrightarrow>
     (case cn_state c of SendCancel \<Rightarrow> True | Cancelled \<Rightarrow> True | Failed _ ph \<Rightarrow> ph = INJECT_PHASE_PREPARE | _ \<Rightarrow> False)"

definition in_commit :: "conn \<Rightarrow> bool" where
  "in_commit c \<longleftrightarrow>
     (case cn_state c of
        SendCommit \<Rightarrow> True | AwaitStarted \<Rightarrow> True | Committed \<Rightarrow> True
      | Failed _ ph \<Rightarrow> ph = INJECT_PHASE_COMMIT | _ \<Rightarrow> False)"

lemmas step_defs = enter_def note_got_def send_msg_def first_msg_def prepared_for_def verify_capabilities_def
  connect_in_ns_def in_prepare_def in_cancel_def in_commit_def

lemma prepare_one_inv:
  "inject_prepare_one pids c inp = Some c' \<Longrightarrow> conn_inv c \<Longrightarrow> in_prepare c \<Longrightarrow>
     conn_inv c' \<and> in_prepare c' \<and> cn_task c' = cn_task c"
  by (cases inp; cases "cn_state c")
    (auto simp: step_defs split: if_splits option.splits sum.splits connect_outcome.splits
      workload_message.splits inject_phase.splits)

lemma commit_one_inv:
  "inject_commit_one c inp = Some c' \<Longrightarrow> conn_inv c \<Longrightarrow> in_commit c \<Longrightarrow>
     conn_inv c' \<and> in_commit c' \<and> cn_task c' = cn_task c"
  by (cases inp; cases "cn_state c")
    (auto simp: step_defs split: if_splits sum.splits inject_phase.splits)

lemma cancel_one_inv:
  "inject_cancel_one c inp = Some c' \<Longrightarrow> conn_inv c \<Longrightarrow> in_cancel c \<Longrightarrow>
     conn_inv c' \<and> in_cancel c' \<and> cn_task c' = cn_task c"
  by (cases inp; cases "cn_state c")
    (auto simp: step_defs split: if_splits inject_phase.splits)

lemma autonomous_one_inv:
  "inject_autonomous_one pids c inp = Some c' \<Longrightarrow> auto_inv c \<Longrightarrow> auto_inv c' \<and> cn_task c' = cn_task c"
  by (cases inp; cases "cn_state c")
    (auto simp: step_defs split: if_splits option.splits sum.splits connect_outcome.splits
      workload_message.splits)

lemma outcome_started: "conn_inv c \<or> auto_inv c \<Longrightarrow> cr_status (outcome_result c) = INJECT_STARTED \<Longrightarrow> cn_state c = Committed"
  by (cases "cn_state c") (auto simp: conn_result_def split: inject_phase.splits)

declare conn_inv.simps [simp del] auto_inv.simps [simp del] outcome_result.simps [simp del]

section \<open>The history of the exchange\<close>

text \<open>
  A round allows the states of its own; an answer follows a round, and reports a workload as started only if it
  did. The tasks of the connections never change.
\<close>

definition started_sound :: "container_inject_result list \<Rightarrow> conn list \<Rightarrow> bool" where
  "started_sound rs cs \<longleftrightarrow>
     (list_all (\<lambda>r. cr_status r = INJECT_STARTED) rs \<longrightarrow> list_all (\<lambda>c. cn_state c = Committed) cs)"

definition round_inv :: "inject_state \<Rightarrow> bool" where
  "round_inv s \<longleftrightarrow>
     list_all conn_inv (is_conns s) \<and>
     (case is_exchange s of
        PrepareRound \<Rightarrow> list_all in_prepare (is_conns s)
      | CancelRound \<Rightarrow> list_all in_cancel (is_conns s)
      | CommitRound \<Rightarrow> list_all in_commit (is_conns s)
      | AutonomousRound \<Rightarrow> False
      | Answered rs \<Rightarrow>
          (list_all in_prepare (is_conns s) \<or> list_all in_cancel (is_conns s) \<or> list_all in_commit (is_conns s)) \<and>
          started_sound rs (is_conns s))"

definition auto_round_inv :: "inject_state \<Rightarrow> bool" where
  "auto_round_inv s \<longleftrightarrow>
     list_all auto_inv (is_conns s) \<and>
     (case is_exchange s of AutonomousRound \<Rightarrow> True | Answered rs \<Rightarrow> started_sound rs (is_conns s) | _ \<Rightarrow> False)"

lemma list_all_step:
  "list_all P xs \<Longrightarrow> i < length xs \<Longrightarrow> (P (xs ! i) \<Longrightarrow> P x) \<Longrightarrow> list_all P (xs[i := x])"
  by (auto simp: list_all_iff dest: set_update_subset_insert [THEN subsetD])

lemma list_all_conj: "list_all (\<lambda>x. P x \<and> Q x) xs \<longleftrightarrow> list_all P xs \<and> list_all Q xs"
  by (auto simp: list_all_iff)

lemma map_update_same: "i < length xs \<Longrightarrow> f x = f (xs ! i) \<Longrightarrow> map f (xs[i := x]) = map f xs"
  by (simp add: map_update list_update_same_conv)

lemma timeout_sound:
  "\<not> list_all P cs \<Longrightarrow> st \<noteq> INJECT_STARTED \<Longrightarrow> started_sound (timeout_results st ph cs) cs"
  by (cases cs) (auto simp: started_sound_def timeout_results_def conn_result_def)

lemma outcomes_sound: "list_all (\<lambda>c. conn_inv c \<or> auto_inv c) cs \<Longrightarrow> started_sound (map outcome_result cs) cs"
  using outcome_started by (auto simp: started_sound_def list_all_iff)

lemma set_cancelled: "set (cancelled_results cs) = set (map outcome_result cs)"
  by (auto simp: cancelled_results_def)

lemma cancelled_sound: "list_all conn_inv cs \<Longrightarrow> started_sound (cancelled_results cs) cs"
  using outcomes_sound [of cs] by (simp add: started_sound_def list_all_iff set_cancelled)

lemma barrier_inv:
  assumes "list_all conn_inv (is_conns s)" "list_all in_prepare (is_conns s)" "list_all prepare_over (is_conns s)"
  shows "round_inv (barrier s)"
proof (cases "list_ex (\<lambda>c. is_failed (cn_state c)) (is_conns s)")
  case True
  have "if is_failed (cn_state c) then conn_inv c \<and> in_cancel c else conn_inv (enter SendCancel c) \<and> in_cancel (enter SendCancel c)"
    if "c \<in> set (is_conns s)" for c
    using assms that
    by (cases "cn_state c")
      (auto simp: list_all_iff in_prepare_def in_cancel_def prepare_over_def enter_def first_msg_def conn_inv.simps)
  then show ?thesis
    using True by (auto simp: barrier_def round_inv_def list.pred_map comp_def list.pred_set)
next
  case False
  have "conn_inv (enter SendCommit c) \<and> in_commit (enter SendCommit c)" if "c \<in> set (is_conns s)" for c
    using assms that False
    by (cases "cn_state c")
      (auto simp: list_all_iff list_ex_iff in_commit_def prepare_over_def enter_def first_msg_def prepared_for_def conn_inv.simps)
  then show ?thesis
    using False by (simp add: barrier_def round_inv_def list.pred_map comp_def) (simp add: list_all_iff)
qed

lemma round_inv_step:
  assumes "inject_step pids s s'" "round_inv s"
  shows "round_inv s'"
  using assms
proof (induction rule: inject_step.induct)
  case (Prepare s i inp c)
  then show ?case
    using list_all_step [of "\<lambda>c. conn_inv c \<and> in_prepare c" "is_conns s" i c] prepare_one_inv [OF Prepare.hyps(3)]
    by (simp add: round_inv_def list_all_conj)
next
  case (PrepareTimeout s)
  then show ?case
    by (auto simp: round_inv_def timeout_sound)
next
  case (Barrier s)
  then show ?case
    by (intro barrier_inv) (simp_all add: round_inv_def)
next
  case (Cancel s i inp c)
  then show ?case
    using list_all_step [of "\<lambda>c. conn_inv c \<and> in_cancel c" "is_conns s" i c] cancel_one_inv [OF Cancel.hyps(3)]
    by (simp add: round_inv_def list_all_conj)
next
  case (CancelDone s)
  then show ?case
    by (simp add: round_inv_def cancelled_sound)
next
  case (Commit s i inp c)
  then show ?case
    using list_all_step [of "\<lambda>c. conn_inv c \<and> in_commit c" "is_conns s" i c] commit_one_inv [OF Commit.hyps(3)]
    by (simp add: round_inv_def list_all_conj)
next
  case (CommitTimeout s)
  then show ?case
    by (auto simp: round_inv_def timeout_sound)
next
  case (CommitDone s)
  then show ?case
    using outcomes_sound [of "is_conns s"]
    by (auto simp: round_inv_def list_all_iff)
qed (simp add: round_inv_def)

lemma auto_round_inv_step:
  assumes "inject_step pids s s'" "auto_round_inv s"
  shows "auto_round_inv s'"
  using assms
proof (induction rule: inject_step.induct)
  case (Autonomous s i inp c)
  then show ?case
    using list_all_step [of auto_inv "is_conns s" i c] autonomous_one_inv [OF Autonomous.hyps(3)]
    by (simp add: auto_round_inv_def)
next
  case (CommitTimeout s)
  then show ?case
    by (auto simp: auto_round_inv_def timeout_sound)
next
  case (CommitDone s)
  then show ?case
    using outcomes_sound [of "is_conns s"]
    by (auto simp: auto_round_inv_def list_all_iff)
qed (auto simp: auto_round_inv_def)

lemma start_inv:
  "\<not> autonomous ts \<Longrightarrow> round_inv (inject_start ts)" "autonomous ts \<Longrightarrow> auto_round_inv (inject_start ts)"
  by (auto simp: round_inv_def auto_round_inv_def inject_start_def new_conn_def in_prepare_def list_all_iff conn_inv.simps auto_inv.simps)

lemma inject_run_inv:
  assumes "(inject_step pids)\<^sup>*\<^sup>* (inject_start ts) s"
  shows "\<not> autonomous ts \<Longrightarrow> round_inv s" "autonomous ts \<Longrightarrow> auto_round_inv s"
proof -
  show "round_inv s" if "\<not> autonomous ts"
    using assms by (induction rule: rtranclp_induct) (use that in \<open>auto intro: start_inv round_inv_step\<close>)
  show "auto_round_inv s" if "autonomous ts"
    using assms by (induction rule: rtranclp_induct) (use that in \<open>auto intro: start_inv auto_round_inv_step\<close>)
qed

lemma run_tasks: "(inject_step pids)\<^sup>*\<^sup>* (inject_start ts) s \<Longrightarrow> map cn_task (is_conns s) = ts"
proof (induction rule: rtranclp_induct)
  case base
  then show ?case
    by (simp add: inject_start_def new_conn_def comp_def)
next
  case (step s s')
  have keep: "cn_task c' = cn_task c" if "inject_prepare_one pids c inp = Some c' \<or> inject_commit_one c inp = Some c' \<or>
      inject_cancel_one c inp = Some c' \<or> inject_autonomous_one pids c inp = Some c'" for c c' inp
    using that by (cases inp; cases "cn_state c") (auto simp: step_defs split: if_splits sum.splits)
  have enters: "map cn_task (map (enter st) cs) = map cn_task cs"
    "map cn_task (map (\<lambda>c. if P c then c else enter st c) cs) = map cn_task cs" for st P cs
    by (simp_all add: enter_def)
  from step.hyps(2) show ?case
    unfolding step.IH [symmetric]
    by cases (auto simp: barrier_def enters simp del: map_map intro!: map_update_same intro: keep)
qed

section \<open>Every exchange is answered\<close>

fun state_rank :: "conn_state \<Rightarrow> nat" where
  "state_rank Connecting = 8"
| "state_rank AwaitCaps = 7"
| "state_rank SendPrepare = 6"
| "state_rank AwaitReady = 5"
| "state_rank Prepared = 4"
| "state_rank SendCommit = 3"
| "state_rank SendCancel = 3"
| "state_rank AwaitStarted = 2"
| "state_rank _ = 0"

fun exchange_rank :: "exchange \<Rightarrow> nat" where
  "exchange_rank PrepareRound = 2"
| "exchange_rank (Answered _) = 0"
| "exchange_rank _ = 1"

definition inject_rank :: "inject_state \<Rightarrow> nat" where
  "inject_rank s = exchange_rank (is_exchange s) + sum_list (map (\<lambda>c. state_rank (cn_state c)) (is_conns s))"

lemma one_step_rank:
  "inject_prepare_one pids c inp = Some c' \<Longrightarrow> state_rank (cn_state c') < state_rank (cn_state c)"
  "inject_commit_one c inp = Some c' \<Longrightarrow> state_rank (cn_state c') < state_rank (cn_state c)"
  "inject_cancel_one c inp = Some c' \<Longrightarrow> state_rank (cn_state c') < state_rank (cn_state c)"
  "inject_autonomous_one pids c inp = Some c' \<Longrightarrow> state_rank (cn_state c') < state_rank (cn_state c)"
  by (cases inp; cases "cn_state c"; auto simp: step_defs split: if_splits option.splits sum.splits workload_message.splits)+

lemma sum_list_update_less:
  assumes "i < length xs" "(f x :: nat) < f (xs ! i)"
  shows "sum_list (map f (xs[i := x])) < sum_list (map f xs)"
  using assms
proof (induction xs arbitrary: i)
  case (Cons y ys)
  then show ?case
    by (cases i) auto
qed simp

lemma update_rank:
  "i < length (is_conns s) \<Longrightarrow> state_rank (cn_state c) < state_rank (cn_state (is_conns s ! i)) \<Longrightarrow>
     inject_rank (s\<lparr>is_conns := (is_conns s)[i := c]\<rparr>) < inject_rank s"
  using sum_list_update_less [of i "is_conns s" "\<lambda>c. state_rank (cn_state c)" c] by (simp add: inject_rank_def)

lemma barrier_rank:
  assumes "is_exchange s = PrepareRound" "list_all prepare_over (is_conns s)"
  shows "inject_rank (barrier s) < inject_rank s"
proof -
  have le: "sum_list (map (\<lambda>c. state_rank (cn_state (g c))) (is_conns s)) \<le> sum_list (map (\<lambda>c. state_rank (cn_state c)) (is_conns s))"
    if "\<And>c. c \<in> set (is_conns s) \<Longrightarrow> state_rank (cn_state (g c)) \<le> state_rank (cn_state c)" for g
    using that by (rule sum_list_mono)
  have over: "state_rank (cn_state (if is_failed (cn_state c) then c else enter st c)) \<le> state_rank (cn_state c)"
    "\<not> is_failed (cn_state c) \<Longrightarrow> state_rank (cn_state (enter st c)) \<le> state_rank (cn_state c)"
    if "c \<in> set (is_conns s)" "state_rank st = 3" for c st
    using assms(2) that by (auto simp: list_all_iff prepare_over_def enter_def)
  show ?thesis
    using le [of "\<lambda>c. if is_failed (cn_state c) then c else enter SendCancel c"] le [of "enter SendCommit"] over(1) [of _ SendCancel]
      over(2) [of _ SendCommit] assms(1)
    by (auto simp: inject_rank_def barrier_def comp_def list_ex_iff)
qed

lemma inject_step_rank: "inject_step pids s s' \<Longrightarrow> inject_rank s' < inject_rank s"
proof (induction rule: inject_step.induct)
  case (Barrier s)
  then show ?case
    by (rule barrier_rank)
next
  case (CommitTimeout s)
  then show ?case
    by (auto simp: inject_rank_def)
next
  case (CommitDone s)
  then show ?case
    by (auto simp: inject_rank_def)
qed (auto intro: update_rank one_step_rank simp: inject_rank_def [of "_\<lparr>is_exchange := _\<rparr>"], auto simp: inject_rank_def)

lemma cancel_progress:
  assumes "is_exchange s = CancelRound" "list_all in_cancel (is_conns s)"
  shows "\<exists>s'. inject_step pids s s'"
proof (cases "list_all cancel_over (is_conns s)")
  case False
  then obtain i where i: "i < length (is_conns s)" "\<not> cancel_over (is_conns s ! i)"
    by (auto simp: list_all_length)
  then have "cn_state (is_conns s ! i) = SendCancel"
    using assms(2) by (cases "cn_state (is_conns s ! i)") (auto simp: list_all_length in_cancel_def cancel_over_def dest!: spec [of _ i])
  then show ?thesis
    using assms(1) i(1) inject_step.Cancel [of s i "Written True"] by fastforce
qed (use assms(1) inject_step.CancelDone in blast)

lemma inject_progress:
  assumes "round_inv s \<or> auto_round_inv s" "\<forall>rs. is_exchange s \<noteq> Answered rs"
  shows "\<exists>s'. inject_step pids s s'"
proof (cases "is_exchange s")
  case PrepareRound
  then show ?thesis
    using inject_step.PrepareTimeout inject_step.Barrier by blast
next
  case CancelRound
  then show ?thesis
    using assms(1) cancel_progress by (auto simp: round_inv_def auto_round_inv_def)
next
  case CommitRound
  then show ?thesis
    using inject_step.CommitTimeout inject_step.CommitDone by blast
next
  case AutonomousRound
  then show ?thesis
    using inject_step.CommitTimeout inject_step.CommitDone by blast
qed (use assms(2) in auto)

section \<open>Properties\<close>

text \<open>
  C39: What the agent writes as a sequence of messages a reader takes apart into the same sequence, whatever
  follows it on the stream, as long as the codec can read what it wrote and no body is longer than the limit.
\<close>

theorem frames_roundtrip:
  assumes "list_all (\<lambda>m. de (ser m) = Some m \<and> length (ser m) \<le> unat max_len) ms"
  shows "read_messages de max_len (length ms) (fold (write_framed_message ser) ms [] @ rest) = (Inr ms, rest)"
  using assms
proof (induction ms)
  case (Cons m ms)
  have "fold (write_framed_message ser) (m # ms) [] @ rest =
      write_framed_message ser m [] @ fold (write_framed_message ser) ms [] @ rest"
    using fold_write_append [of ser ms "write_framed_message ser m []"] by simp
  then show ?case
    using Cons read_written [of de ser m max_len] by simp
qed simp

theorem frames_roundtrip_witness:
  "read_messages (\<lambda>b. if b = [82] then Some WReady else if b = [83, 84] then Some WStarted else None) MAX_FRAME_LEN (Suc (Suc 0))
     [0, 0, 0, 1, 82, 0, 0, 0, 2, 83, 84, 7] = (Inr [WReady, WStarted], [7])"
proof -
  define ser where "ser m = (if m = WReady then [82 :: 8 word] else [83, 84])" for m
  have "fold (write_framed_message ser) [WReady, WStarted] [] = [0, 0, 0, 1, 82, 0, 0, 0, 2, 83, 84]"
    by (simp add: write_framed_message_def to_be_bytes_def ser_def)
  then show ?thesis
    using frames_roundtrip [of "\<lambda>b. if b = [82] then Some WReady else if b = [83, 84] then Some WStarted else None"
        ser MAX_FRAME_LEN "[WReady, WStarted]" "[7]"]
    by (simp add: ser_def MAX_FRAME_LEN_def del: read_messages.simps)
qed


definition demo_task :: container_task where
  "demo_task = \<lparr>ct_container_id = [], ct_socket_path = [], ct_task_id = ''t1'', ct_env_overrides = [], ct_context = ''ctx''\<rparr>"

definition demo_caps :: workload_message where
  "demo_caps = WCapabilities \<lparr>cap_protocol_version = ''1'', cap_supported_features = [''prepare'', ''commit'', ''cancel'']\<rparr>"

definition demo_conn :: "conn_state \<Rightarrow> sandboxer_message list \<Rightarrow> workload_message list \<Rightarrow> conn" where
  "demo_conn st sent got = \<lparr>cn_task = demo_task, cn_state = st, cn_sent = sent, cn_got = got\<rparr>"

abbreviation demo_msg :: sandboxer_message where
  "demo_msg \<equiv> SPrepare (payload_of demo_task)"

definition demo_state :: "exchange \<Rightarrow> conn \<Rightarrow> inject_state" where
  "demo_state x c = \<lparr>is_exchange = x, is_conns = [c]\<rparr>"

lemma demo_step:
  "inject_prepare_one [] c inp = Some c' \<Longrightarrow> inject_step [] (demo_state PrepareRound c) (demo_state PrepareRound c')"
  "inject_commit_one c inp = Some c' \<Longrightarrow> inject_step [] (demo_state CommitRound c) (demo_state CommitRound c')"
  using inject_step.Prepare [of "demo_state PrepareRound c" 0 "[]" inp c']
    inject_step.Commit [of "demo_state CommitRound c" 0 inp c' "[]"]
  by (simp_all add: demo_state_def)

lemma demo_prepared:
  "(inject_step [])\<^sup>*\<^sup>* (inject_start [demo_task]) (demo_state PrepareRound (demo_conn Prepared [demo_msg] [demo_caps, WReady]))"
proof -
  have "inject_start [demo_task] = demo_state PrepareRound (demo_conn Connecting [] [])"
    by (simp add: inject_start_def autonomous_def demo_task_def demo_state_def demo_conn_def new_conn_def)
  also have "(inject_step [])\<^sup>*\<^sup>* \<dots> (demo_state PrepareRound (demo_conn AwaitCaps [] []))"
    by (rule r_into_rtranclp, rule demo_step(1) [of _ "Connected ConnectOk"])
      (simp add: demo_conn_def connect_in_ns_def enter_def demo_task_def)
  also have "(inject_step [])\<^sup>*\<^sup>* \<dots> (demo_state PrepareRound (demo_conn SendPrepare [] [demo_caps]))"
    by (rule r_into_rtranclp, rule demo_step(1) [of _ "Received (Inr demo_caps)"])
      (simp add: demo_conn_def enter_def note_got_def verify_capabilities_def demo_caps_def PROTOCOL_VERSION_def)
  also have "(inject_step [])\<^sup>*\<^sup>* \<dots> (demo_state PrepareRound (demo_conn AwaitReady [demo_msg] [demo_caps]))"
    by (rule r_into_rtranclp, rule demo_step(1) [of _ "Written True"]) (simp add: demo_conn_def enter_def send_msg_def)
  also have "(inject_step [])\<^sup>*\<^sup>* \<dots> (demo_state PrepareRound (demo_conn Prepared [demo_msg] [demo_caps, WReady]))"
    by (rule r_into_rtranclp, rule demo_step(1) [of _ "Received (Inr WReady)"]) (simp add: demo_conn_def enter_def note_got_def)
  finally show ?thesis .
qed

lemma demo_started:
  "(inject_step [])\<^sup>*\<^sup>* (inject_start [demo_task])
     (demo_state (Answered [\<lparr>cr_container_id = [], cr_status = INJECT_STARTED, cr_phase = INJECT_PHASE_COMMIT\<rparr>])
       (demo_conn Committed [demo_msg, SCommit] [demo_caps, WReady, WStarted]))"
proof -
  note demo_prepared
  also have "(inject_step [])\<^sup>*\<^sup>* (demo_state PrepareRound (demo_conn Prepared [demo_msg] [demo_caps, WReady]))
      (demo_state CommitRound (demo_conn SendCommit [demo_msg] [demo_caps, WReady]))"
    using inject_step.Barrier [of "demo_state PrepareRound (demo_conn Prepared [demo_msg] [demo_caps, WReady])" "[]"]
    by (simp add: demo_state_def demo_conn_def prepare_over_def barrier_def enter_def r_into_rtranclp)
  also have "(inject_step [])\<^sup>*\<^sup>* \<dots> (demo_state CommitRound (demo_conn AwaitStarted [demo_msg, SCommit] [demo_caps, WReady]))"
    by (rule r_into_rtranclp, rule demo_step(2) [of _ "Written True"]) (simp add: demo_conn_def enter_def send_msg_def)
  also have "(inject_step [])\<^sup>*\<^sup>* \<dots> (demo_state CommitRound (demo_conn Committed [demo_msg, SCommit] [demo_caps, WReady, WStarted]))"
    by (rule r_into_rtranclp, rule demo_step(2) [of _ "Received (Inr WStarted)"]) (simp add: demo_conn_def enter_def note_got_def)
  also have "(inject_step [])\<^sup>*\<^sup>* \<dots>
     (demo_state (Answered [\<lparr>cr_container_id = [], cr_status = INJECT_STARTED, cr_phase = INJECT_PHASE_COMMIT\<rparr>])
       (demo_conn Committed [demo_msg, SCommit] [demo_caps, WReady, WStarted]))"
    using inject_step.CommitDone [of "demo_state CommitRound (demo_conn Committed [demo_msg, SCommit] [demo_caps, WReady, WStarted])" "[]"]
    by (simp add: demo_state_def demo_conn_def commit_over_def outcome_result.simps conn_result_def demo_task_def r_into_rtranclp)
  finally show ?thesis .
qed




text \<open>What the sandboxer reads of a result.\<close>

definition host_result :: "container_inject_result \<Rightarrow> inject_result" where
  "host_result r = \<lparr>ir_container_id = cr_container_id r, ir_started = (cr_status r = INJECT_STARTED)\<rparr>"

text \<open>
  When the host takes the answer of the agent for a success, every workload of the sandbox was told to commit
  and has reported that it started, and if the workloads were given a task each had reported ready to it before.
\<close>

theorem injected_means_started:
  assumes "(inject_step pids)\<^sup>*\<^sup>* (inject_start (container_tasks params)) s" "is_exchange s = Answered rs"
    and "ga_inject ga (container_tasks params) = Some (map host_result rs)" "inject_warm_fork_task ga params sb = None"
  shows "map cn_task (is_conns s) = container_tasks params \<and>
         (\<forall>c \<in> set (is_conns s). SCommit \<in> set (cn_sent c) \<and> WStarted \<in> set (cn_got c) \<and>
            (autonomous (container_tasks params) \<or> WReady \<in> set (cn_got c)))"
proof -
  have "list_all (\<lambda>r. cr_status r = INJECT_STARTED) rs"
    using assms(3,4)
    by (auto simp: inject_warm_fork_task_def Let_def host_result_def filter_empty_conv list_all_iff split: if_splits)
  moreover have "started_sound rs (is_conns s)"
    using inject_run_inv [OF assms(1)] assms(2) by (cases "autonomous (container_tasks params)") (auto simp: round_inv_def auto_round_inv_def)
  ultimately have committed: "list_all (\<lambda>c. cn_state c = Committed) (is_conns s)"
    by (simp add: started_sound_def)
  have "SCommit \<in> set (cn_sent c) \<and> WStarted \<in> set (cn_got c) \<and> (autonomous (container_tasks params) \<or> WReady \<in> set (cn_got c))"
    if "c \<in> set (is_conns s)" for c
    using inject_run_inv [OF assms(1)] committed that
    by (cases "autonomous (container_tasks params)")
      (auto simp: round_inv_def auto_round_inv_def list_all_iff conn_inv.simps auto_inv.simps prepared_for_def dest!: bspec)
  then show ?thesis
    using run_tasks [OF assms(1)] by blast
qed

definition injected_params :: warm_fork_params where
  "injected_params = \<lparr>wp_task_id = Some ''t1'', wp_targets = [\<lparr>wt_container_name = [], wt_container_id = [],
     wt_socket_path = [], wt_env_overrides = [], wt_context = ''ctx''\<rparr>],
     wp_prepare_timeout_ms = 10000, wp_commit_timeout_ms = 5000\<rparr>"

theorem injected_means_started_witness:
  "container_tasks injected_params = [demo_task] \<and>
   WStarted \<in> set (cn_got (demo_conn Committed [demo_msg, SCommit] [demo_caps, WReady, WStarted]))"
proof -
  have tasks: "container_tasks injected_params = [demo_task]"
    by (simp add: container_tasks_def injected_params_def demo_task_def)
  have accepted: "inject_warm_fork_task (demo_guest True) injected_params (sb\<lparr>sb_client := True\<rparr>) = None" for sb :: "nat kuasar_sandbox"
    by (simp add: inject_warm_fork_task_def tasks demo_guest_def)
  have "ga_inject (demo_guest True) (container_tasks injected_params) =
      Some (map host_result [\<lparr>cr_container_id = [], cr_status = INJECT_STARTED, cr_phase = INJECT_PHASE_COMMIT\<rparr>])"
    by (simp add: tasks demo_guest_def host_result_def demo_task_def)
  from injected_means_started [OF _ _ this accepted, of "[]"] show ?thesis
    using demo_started by (auto simp: tasks demo_state_def)
qed

section \<open>Observations\<close>

text \<open>
  The writer does not look at the limit the reader has: a longer body is written and then refused.
\<close>

lemma oversize_refused:
  assumes "unat max_len < length (ser m)" "length (ser m) < 2 ^ 32"
  shows "fst (read_framed_message de max_len (write_framed_message ser m [])) = Inl InvalidData"
proof -
  have "unat (of_nat (length (ser m)) :: 32 word) = length (ser m)"
    using assms(2) by (simp add: unat_of_nat)
  then have "max_len < of_nat (length (ser m))"
    using assms(1) by (simp add: word_less_nat_alt)
  then show ?thesis
    by (simp add: read_framed_message_def write_framed_message_def be_bytes_roundtrip)
qed

text \<open>The answer after a rollback is not in the order of the request: the workloads that failed come first.\<close>

lemma rollback_reorders:
  "map cr_container_id (cancelled_results
     [(new_conn (demo_task\<lparr>ct_container_id := ''a''\<rparr>))\<lparr>cn_state := Cancelled\<rparr>,
      (new_conn (demo_task\<lparr>ct_container_id := ''b''\<rparr>))\<lparr>cn_state := Failed INJECT_REJECT INJECT_PHASE_PREPARE\<rparr>]) = [''b'', ''a'']"
  by (simp add: cancelled_results_def outcome_result.simps conn_result_def new_conn_def)

text \<open>With no task identity a workload that cannot be reached is reported for the phase after the commit.\<close>

lemma autonomous_reports_commit_phase:
  "inject_autonomous_one pids (new_conn (demo_task\<lparr>ct_container_id := []\<rparr>)) (Connected ConnectRefused) =
     Some ((new_conn (demo_task\<lparr>ct_container_id := []\<rparr>))\<lparr>cn_state := Failed INJECT_CONNECT_FAILED INJECT_PHASE_COMMIT\<rparr>)"
  by (simp add: new_conn_def connect_in_ns_def enter_def)

end
