(* ===== verification/Guest_Proc.thy ===== *)
theory Guest_Proc
  imports Mounts Storage
begin

text \<open>
  Two texts the guest agent reads to find out what happened: the mount table, read after a mount to see whether it
  took effect (\<^verbatim>\<open>vmm/task/src/sandbox.rs\<close>), and the log of the container runtime, read backwards for the
  last error (\<^verbatim>\<open>vmm/task/src/container.rs\<close>).
\<close>

section \<open>The mount table\<close>

text \<open>\<open>s.replace(pat, new)\<close> for a pattern that is not empty: from the left, without overlaps.\<close>

function str_replace :: "string \<Rightarrow> string \<Rightarrow> string \<Rightarrow> string" where
  "str_replace pat new [] = []"
| "str_replace pat new (c # cs) =
     (if pat \<noteq> [] \<and> starts_with pat (c # cs) then new @ str_replace pat new (drop (length pat) (c # cs))
      else c # str_replace pat new cs)"
  by pat_completeness auto
termination
  by (relation "measure (\<lambda>(_, _, s). length s)") auto

definition octal :: "string \<Rightarrow> string" where
  "octal digits = CHR 0x5C # digits"

definition unescape_proc_mount_field :: "string \<Rightarrow> string" where
  "unescape_proc_mount_field value =
     str_replace (octal ''134'') [CHR 0x5C]
       (str_replace (octal ''043'') [CHR 0x23]
         (str_replace (octal ''012'') [CHR 0x0A]
           (str_replace (octal ''011'') [CHR 0x09]
             (str_replace (octal ''040'') [CHR 0x20] value))))"

record mount_record =
  mr_fstype :: string
  mr_options :: "string list"

definition has_option :: "mount_record \<Rightarrow> string \<Rightarrow> bool" where
  "has_option r opt = list_ex (\<lambda>o'. o' = opt) (mr_options r)"

definition mount_record_of :: "string \<Rightarrow> string \<Rightarrow> mount_record option" where
  "mount_record_of mount_point l =
     (let fields = split_ws l in
      if length fields < 4 \<or> unescape_proc_mount_field (fields ! 1) \<noteq> mount_point then None
      else Some \<lparr>mr_fstype = fields ! 2, mr_options = split_on (CHR '','') (fields ! 3)\<rparr>)"

definition find_mount_record :: "string \<Rightarrow> string \<Rightarrow> mount_record option" where
  "find_mount_record mounts mount_point = find_map (mount_record_of mount_point) (rev (str_lines mounts))"

datatype verify_error = MountsUnreadable | MountNotFound | WrongFstype | NotReadonly | NotReadWrite

definition verify_storage_mount :: "string option \<Rightarrow> storage \<Rightarrow> verify_error option" where
  "verify_storage_mount proc_mounts st =
     (case proc_mounts of
        None \<Rightarrow> Some MountsUnreadable
      | Some mounts \<Rightarrow>
          (case find_mount_record mounts (st_mount_point st) of
             None \<Rightarrow> Some MountNotFound
           | Some r \<Rightarrow>
               let expect_ro = list_ex (\<lambda>o'. o' = ''ro'') (st_options st) in
               if st_fstype st \<noteq> [] \<and> st_fstype st \<noteq> ''bind'' \<and> mr_fstype r \<noteq> st_fstype st then Some WrongFstype
               else if expect_ro \<and> \<not> has_option r ''ro'' then Some NotReadonly
               else if \<not> expect_ro \<and> \<not> has_option r ''rw'' then Some NotReadWrite
               else None))"

section \<open>The log of the runtime\<close>

record runtime_log =
  log_level :: string
  log_msg :: string

datatype log_error = LogUnreadable | LogUnparsable string

text \<open>\<open>reader.read_until(b'\n', ..)\<close>: up to the next line end and with it, or to the end of the file.\<close>

fun read_until :: "string \<Rightarrow> string" where
  "read_until [] = []"
| "read_until (c # cs) = (if c = CHR 0x0A then [c] else c # read_until cs)"

text \<open>
  The loop over the offsets, the last one first. The argument is the number of offsets that are left; the text
  read from the offset before is kept, and is a whole line when the present offset is a line end.
\<close>

fun scan_back :: "(string \<Rightarrow> runtime_log option) \<Rightarrow> string \<Rightarrow> string option \<Rightarrow> nat \<Rightarrow> log_error + string" where
  "scan_back de file pre_buffer 0 = Inr []"
| "scan_back de file pre_buffer (Suc offset) =
     (if offset = 0 then Inr []
      else
        let buffer = read_until (drop offset file) in
        (case (if length buffer = 1 then pre_buffer else None) of
           None \<Rightarrow> scan_back de file (Some buffer) offset
         | Some l \<Rightarrow>
             (case de l of
                None \<Rightarrow> Inl (LogUnparsable l)
              | Some lg \<Rightarrow> if log_level lg = ''error'' then Inr (trim (log_msg lg))
                          else scan_back de file (Some buffer) offset)))"

definition get_last_runtime_error :: "(string \<Rightarrow> runtime_log option) \<Rightarrow> string option \<Rightarrow> log_error + string" where
  "get_last_runtime_error de log_file =
     (case log_file of
        None \<Rightarrow> Inl LogUnreadable
      | Some file \<Rightarrow> scan_back de file None (length file))"

datatype runc_error = CommandFailed string | OtherRuncError

datatype reported_error =
    Unretrievable log_error
  | EmptyLogMessage
  | RuntimeStderr string
  | RuntimeMessage string

definition runtime_error :: "(string \<Rightarrow> runtime_log option) \<Rightarrow> string option \<Rightarrow> runc_error \<Rightarrow> reported_error" where
  "runtime_error de log_file r_err =
     (case get_last_runtime_error de log_file of
        Inl e \<Rightarrow> Unretrievable e
      | Inr rt_msg \<Rightarrow>
          if rt_msg = []
          then (let stderr = (case r_err of CommandFailed s \<Rightarrow> trim s | OtherRuncError \<Rightarrow> []) in
                if stderr = [] then EmptyLogMessage else RuntimeStderr stderr)
          else RuntimeMessage rt_msg)"

section \<open>Escapes\<close>

text \<open>
  How the kernel writes a field of the table: blanks, line ends, number signs and backslashes as three octal
  digits, every other character as it is.
\<close>

definition proc_escape :: "(char \<times> string) list" where
  "proc_escape = [(CHR 0x20, octal ''040''), (CHR 0x09, octal ''011''), (CHR 0x0A, octal ''012''), (CHR 0x23, octal ''043''),
     (CHR 0x5C, octal ''134'')]"

definition kernel_escapes :: "(char \<Rightarrow> string) \<Rightarrow> bool" where
  "kernel_escapes enc \<longleftrightarrow> (\<forall>c. enc c = (case map_of proc_escape c of None \<Rightarrow> [c] | Some e \<Rightarrow> e))"

abbreviation escaped :: "(char \<Rightarrow> string) \<Rightarrow> string \<Rightarrow> string" where
  "escaped enc s \<equiv> concat (map enc s)"

definition partly_escaped :: "(char \<Rightarrow> string) \<Rightarrow> bool" where
  "partly_escaped e \<longleftrightarrow>
     (\<forall>c. (e c = [c] \<and> c \<noteq> CHR 0x5C) \<or>
          (\<exists>x y z. e c = octal [x, y, z] \<and> CHR 0x5C \<notin> {x, y, z} \<and> map_of proc_escape c = Some (octal [x, y, z])))"

lemma proc_escape_inj: "map_of proc_escape c = Some e \<Longrightarrow> map_of proc_escape d = Some e \<Longrightarrow> c = d"
  by (auto simp: proc_escape_def octal_def split: if_splits)

lemma str_replace_skip:
  "CHR 0x5C \<notin> set w \<Longrightarrow> str_replace (octal ds) new (w @ s) = w @ str_replace (octal ds) new s"
  by (induction w) (auto simp: octal_def)

lemma replace_one_escape:
  assumes "partly_escaped e" "map_of proc_escape x = Some pat" "e x = pat"
  shows "str_replace pat [x] (escaped e p) = escaped (e(x := [x])) p"
proof -
  obtain a b c where pat: "pat = octal [a, b, c]" "CHR 0x5C \<notin> {a, b, c}"
    using assms(2) by (auto simp: proc_escape_def split: if_splits)
  show ?thesis
  proof (induction p)
    case (Cons d p)
    consider "d = x" | "d \<noteq> x" "e d = [d]" "d \<noteq> CHR 0x5C"
      | u v w where "d \<noteq> x" "e d = octal [u, v, w]" "CHR 0x5C \<notin> {u, v, w}" "octal [u, v, w] \<noteq> pat"
      using assms proc_escape_inj unfolding partly_escaped_def by metis
    then show ?case
    proof cases
      case 1
      then show ?thesis
        using Cons.IH assms(3) by (simp add: pat octal_def)
    next
      case 2
      then show ?thesis
        using Cons.IH by (simp add: pat octal_def)
    next
      case 3
      then have "str_replace pat [x] (octal [u, v, w] @ s) = octal [u, v, w] @ str_replace pat [x] s" for s
        using str_replace_skip [of "[u, v, w]" "[a, b, c]" "[x]" s] by (auto simp: pat octal_def)
      with 3 Cons.IH show ?thesis
        by simp
    qed
  qed simp
qed

lemma partly_escaped_update:
  "partly_escaped e \<Longrightarrow> x \<noteq> CHR 0x5C \<Longrightarrow> partly_escaped (e(x := [x]))"
  by (simp add: partly_escaped_def)

lemma unescape_escaped:
  assumes "kernel_escapes enc"
  shows "unescape_proc_mount_field (escaped enc p) = p"
proof -
  have enc: "enc c = (case map_of proc_escape c of None \<Rightarrow> [c] | Some e \<Rightarrow> e)" for c
    using assms by (simp add: kernel_escapes_def)
  define e1 e2 e3 e4 where "e1 = enc(CHR 0x20 := [CHR 0x20])" and "e2 = e1(CHR 0x09 := [CHR 0x09])"
    and "e3 = e2(CHR 0x0A := [CHR 0x0A])" and "e4 = e3(CHR 0x23 := [CHR 0x23])"
  have e0: "partly_escaped enc"
    unfolding partly_escaped_def by (auto simp: enc proc_escape_def octal_def)
  then have e1: "partly_escaped e1"
    unfolding e1_def by (rule partly_escaped_update) simp
  then have e2: "partly_escaped e2"
    unfolding e2_def by (rule partly_escaped_update) simp
  then have e3: "partly_escaped e3"
    unfolding e3_def by (rule partly_escaped_update) simp
  then have e4: "partly_escaped e4"
    unfolding e4_def by (rule partly_escaped_update) simp
  have "e4(CHR 0x5C := [CHR 0x5C]) = (\<lambda>c. [c])"
    by (rule ext) (simp add: e4_def e3_def e2_def e1_def enc proc_escape_def)
  moreover have "escaped (\<lambda>c. [c]) p = p"
    by (induction p) simp_all
  ultimately show ?thesis
    unfolding unescape_proc_mount_field_def
    using replace_one_escape [OF e0, of "CHR 0x20"] replace_one_escape [OF e1, of "CHR 0x09"]
      replace_one_escape [OF e2, of "CHR 0x0A"] replace_one_escape [OF e3, of "CHR 0x23"]
      replace_one_escape [OF e4, of "CHR 0x5C"]
    by (simp add: proc_escape_def enc e1_def [symmetric] e2_def [symmetric] e3_def [symmetric] e4_def [symmetric])
      (simp add: e4_def e3_def e2_def e1_def enc proc_escape_def)
qed

section \<open>Reading the table\<close>

record proc_mount =
  pm_source :: string
  pm_point :: string
  pm_fstype :: string
  pm_options :: "string list"

definition blank_free :: "string \<Rightarrow> bool" where
  "blank_free w \<longleftrightarrow> w \<noteq> [] \<and> list_all (\<lambda>c. \<not> is_ws c) w"

text \<open>
  Of the blanks a path may have only the three the kernel escapes; the type and the options are plain words, and
  no option has a comma.
\<close>

definition path_ok :: "string \<Rightarrow> bool" where
  "path_ok p \<longleftrightarrow> p \<noteq> [] \<and> list_all (\<lambda>c. is_ws c \<longrightarrow> c \<in> {CHR 0x20, CHR 0x09, CHR 0x0A}) p"

definition proc_mount_ok :: "proc_mount \<Rightarrow> bool" where
  "proc_mount_ok e \<longleftrightarrow> path_ok (pm_source e) \<and> path_ok (pm_point e) \<and> blank_free (pm_fstype e) \<and> pm_options e \<noteq> [] \<and>
     list_all (\<lambda>w. blank_free w \<and> CHR '','' \<notin> set w) (pm_options e)"

definition mount_line :: "(char \<Rightarrow> string) \<Rightarrow> proc_mount \<Rightarrow> string" where
  "mount_line enc e = join_with '' ''
     [escaped enc (pm_source e), escaped enc (pm_point e), pm_fstype e, join_with '','' (pm_options e), ''0'', ''0'']"

definition mount_table :: "(char \<Rightarrow> string) \<Rightarrow> proc_mount list \<Rightarrow> string" where
  "mount_table enc es = concat (map (\<lambda>e. mount_line enc e @ [CHR 0x0A]) es)"

lemma is_ws_chars:
  "is_ws c \<longleftrightarrow> c \<in> {CHR 0x09, CHR 0x0A, CHR 0x0B, CHR 0x0C, CHR 0x0D, CHR 0x20}"
proof -
  have "map char_of [9, 10, 11, 12, 13, 32 :: nat] = [CHR 0x09, CHR 0x0A, CHR 0x0B, CHR 0x0C, CHR 0x0D, CHR 0x20]"
    by code_simp
  then show ?thesis
    by (simp only: is_ws_def list.set)
qed

lemma split_ws_word: "blank_free w \<Longrightarrow> split_ws w = [w]"
proof (induction w)
  case (Cons x w)
  then show ?case
    by (cases w) (auto simp: blank_free_def)
qed (simp add: blank_free_def)

lemma split_ws_append: "blank_free w \<Longrightarrow> is_ws b \<Longrightarrow> split_ws (w @ b # s) = w # split_ws s"
proof (induction w)
  case (Cons x w)
  then show ?case
    by (cases w) (auto simp: blank_free_def)
qed (simp add: blank_free_def)

lemma split_ws_join: "list_all blank_free ws \<Longrightarrow> split_ws (join_with '' '' ws) = ws"
proof (induction ws rule: induct_list012)
  case (3 v w ws)
  then show ?case
    using split_ws_append [of v "CHR 0x20"] by (simp add: is_ws_chars)
qed (simp_all add: split_ws_word)

lemma escaped_blank_free:
  assumes "kernel_escapes enc" "path_ok p"
  shows "blank_free (escaped enc p)"
proof -
  have enc: "enc c = (case map_of proc_escape c of None \<Rightarrow> [c] | Some e \<Rightarrow> e)" for c
    using assms(1) by (simp add: kernel_escapes_def)
  have plain: "\<not> is_ws (CHR 0x5C)" "\<not> is_ws (CHR ''0'')" "\<not> is_ws (CHR ''1'')" "\<not> is_ws (CHR ''2'')" "\<not> is_ws (CHR ''3'')"
    "\<not> is_ws (CHR ''4'')"
    by (simp_all add: is_ws_chars)
  have "enc c \<noteq> [] \<and> list_all (\<lambda>d. \<not> is_ws d) (enc c)" if "is_ws c \<longrightarrow> c \<in> {CHR 0x20, CHR 0x09, CHR 0x0A}" for c
  proof (cases "map_of proc_escape c")
    case None
    then have "c \<notin> {CHR 0x20, CHR 0x09, CHR 0x0A}"
      by (auto simp: proc_escape_def)
    then show ?thesis
      using enc [of c] None that by simp
  next
    case (Some e)
    then have "e \<in> {octal ''040'', octal ''011'', octal ''012'', octal ''043'', octal ''134''}"
      by (auto simp: proc_escape_def split: if_splits)
    then show ?thesis
      using enc [of c] Some plain by (elim insertE) (simp_all add: octal_def)
  qed
  then have "list_all (\<lambda>c. enc c \<noteq> [] \<and> list_all (\<lambda>d. \<not> is_ws d) (enc c)) p"
    using assms(2) unfolding path_ok_def list_all_iff by blast
  with assms(2) show ?thesis
    unfolding path_ok_def blank_free_def by (cases p) (auto simp: list_all_iff)
qed

lemma join_blank_free: "ws \<noteq> [] \<Longrightarrow> list_all blank_free ws \<Longrightarrow> blank_free (join_with '','' ws)"
proof (induction ws rule: induct_list012)
  case (3 v w ws)
  then show ?case
    by (simp add: blank_free_def is_ws_chars [of "CHR '',''"])
qed simp_all

lemma mount_line_fields:
  assumes "kernel_escapes enc" "proc_mount_ok e"
  shows "split_ws (mount_line enc e) =
    [escaped enc (pm_source e), escaped enc (pm_point e), pm_fstype e, join_with '','' (pm_options e), ''0'', ''0'']"
proof -
  have "list_all blank_free (pm_options e)"
    using assms(2) by (auto simp: proc_mount_ok_def list_all_iff)
  then show ?thesis
    unfolding mount_line_def using assms
    by (intro split_ws_join) (auto simp: proc_mount_ok_def escaped_blank_free join_blank_free blank_free_def [of "''0''"] is_ws_chars)
qed

lemma record_of_line:
  assumes "kernel_escapes enc" "proc_mount_ok e"
  shows "mount_record_of p (mount_line enc e) =
    (if pm_point e = p then Some \<lparr>mr_fstype = pm_fstype e, mr_options = pm_options e\<rparr> else None)"
proof -
  have "split_on (CHR '','') (join_with '','' (pm_options e)) = pm_options e"
    using assms(2) by (intro split_join) (auto simp: proc_mount_ok_def list_all_iff)
  then show ?thesis
    by (simp add: mount_record_of_def mount_line_fields [OF assms] unescape_escaped [OF assms(1)])
qed

lemma set_join_with: "set (join_with sep ws) \<subseteq> set sep \<union> \<Union> (set ` set ws)"
  by (induction sep ws rule: join_with.induct) auto

lemma mount_line_no_break:
  assumes "kernel_escapes enc" "proc_mount_ok e"
  shows "CHR 0x0A \<notin> set (mount_line enc e)"
proof -
  let ?fields = "[escaped enc (pm_source e), escaped enc (pm_point e), pm_fstype e, join_with '','' (pm_options e), ''0'', ''0'']"
  have "list_all blank_free (pm_options e)"
    using assms(2) by (auto simp: proc_mount_ok_def list_all_iff)
  then have "list_all blank_free ?fields"
    using assms
    by (auto simp: proc_mount_ok_def escaped_blank_free join_blank_free blank_free_def [of "''0''"] is_ws_chars)
  then have "CHR 0x0A \<notin> \<Union> (set ` set ?fields)"
    unfolding blank_free_def list_all_iff using is_ws_chars [of "CHR 0x0A"] by blast
  then show ?thesis
    unfolding mount_line_def using set_join_with [of "'' ''" ?fields] by auto
qed

lemma mount_table_lines:
  assumes "kernel_escapes enc" "list_all proc_mount_ok es"
  shows "str_lines (mount_table enc es) = map (mount_line enc) es"
proof -
  have split: "split_on (CHR 0x0A) (mount_table enc es) = map (mount_line enc) es @ [[]]"
    using assms(2) by (induction es) (simp_all add: mount_table_def split_on_append mount_line_no_break assms(1))
  have "last (mount_line enc e) = CHR ''0''" for e
    by (simp add: mount_line_def)
  then show ?thesis
    by (simp add: str_lines_def split comp_def)
qed

lemma find_map_rev_last:
  "(\<And>x. x \<in> set xs \<Longrightarrow> f x = (if P x then Some (g x) else None)) \<Longrightarrow>
     find_map f (rev xs) = map_option g (List.find P (rev xs))"
proof (induction xs rule: rev_induct)
  case (snoc x xs)
  then show ?case
    by simp
qed simp

lemma find_map_map: "find_map f (map g xs) = find_map (f \<circ> g) xs"
  by (induction xs) (auto split: option.splits)

lemma find_skip: "list_all (\<lambda>v. \<not> P v) vs \<Longrightarrow> List.find P (vs @ ws) = List.find P ws"
  by (induction vs) auto

lemma find_SomeE:
  assumes "List.find P zs = Some x"
  obtains us vs where "zs = us @ x # vs" "P x" "list_all (\<lambda>v. \<not> P v) us"
proof -
  from assms obtain i where "i < length zs" "P (zs ! i)" "x = zs ! i" "\<forall>j < i. \<not> P (zs ! j)"
    by (auto simp: find_Some_iff)
  then show ?thesis
    using that [of "take i zs" "drop (Suc i) zs"] id_take_nth_drop [of i zs] by (simp add: list_all_length)
qed

lemma find_rev_last:
  "List.find P (rev xs) = Some x \<longleftrightarrow> (\<exists>us vs. xs = us @ x # vs \<and> P x \<and> list_all (\<lambda>v. \<not> P v) vs)"
proof
  assume "List.find P (rev xs) = Some x"
  then obtain us vs where "rev xs = us @ x # vs" "P x" "list_all (\<lambda>v. \<not> P v) us"
    by (rule find_SomeE)
  moreover from this have "xs = rev vs @ x # rev us"
    by (simp add: rev_swap)
  ultimately show "\<exists>us vs. xs = us @ x # vs \<and> P x \<and> list_all (\<lambda>v. \<not> P v) vs"
    by (metis list_all_rev)
next
  assume "\<exists>us vs. xs = us @ x # vs \<and> P x \<and> list_all (\<lambda>v. \<not> P v) vs"
  then show "List.find P (rev xs) = Some x"
    by (auto simp: find_skip)
qed

lemma find_mount_record_table:
  assumes "kernel_escapes enc" "list_all proc_mount_ok es"
  shows "find_mount_record (mount_table enc es) p =
    map_option (\<lambda>e. \<lparr>mr_fstype = pm_fstype e, mr_options = pm_options e\<rparr>) (List.find (\<lambda>e. pm_point e = p) (rev es))"
proof -
  show ?thesis
    unfolding find_mount_record_def mount_table_lines [OF assms] rev_map find_map_map
    using find_map_rev_last [of es "mount_record_of p \<circ> mount_line enc" "\<lambda>e. pm_point e = p"] record_of_line [OF assms(1)] assms(2)
    by (simp add: list_all_iff)
qed

text \<open>
  C36: After a mount the agent accepts it exactly when the topmost mount at the place of the storage, the last of
  the table, has the type and the mode that were asked for; a bind mount may show any type. This holds for every
  path the kernel escapes, blanks and backslashes included.
\<close>

theorem verify_storage_mount_exact:
  assumes "kernel_escapes enc" "list_all proc_mount_ok es"
  shows "verify_storage_mount (Some (mount_table enc es)) st = None \<longleftrightarrow>
    (\<exists>us e vs. es = us @ e # vs \<and> pm_point e = st_mount_point st \<and> list_all (\<lambda>v. pm_point v \<noteq> st_mount_point st) vs \<and>
       (st_fstype st \<in> {[], ''bind''} \<or> pm_fstype e = st_fstype st) \<and>
       (if ''ro'' \<in> set (st_options st) then ''ro'' \<in> set (pm_options e) else ''rw'' \<in> set (pm_options e)))"
proof -
  have found: "find_mount_record (mount_table enc es) (st_mount_point st) =
      map_option (\<lambda>e. \<lparr>mr_fstype = pm_fstype e, mr_options = pm_options e\<rparr>)
        (List.find (\<lambda>e. pm_point e = st_mount_point st) (rev es))"
    by (rule find_mount_record_table [OF assms])
  show ?thesis
  proof (cases "List.find (\<lambda>e. pm_point e = st_mount_point st) (rev es)")
    case None
    then have "\<nexists>us e vs. es = us @ e # vs \<and> pm_point e = st_mount_point st"
      by (auto simp: find_None_iff)
    then show ?thesis
      by (auto simp: verify_storage_mount_def found None)
  next
    case (Some e)
    have "(\<exists>us d vs. es = us @ d # vs \<and> pm_point d = st_mount_point st \<and> list_all (\<lambda>v. pm_point v \<noteq> st_mount_point st) vs \<and> Q d)
        \<longleftrightarrow> Q e" for Q
      using find_rev_last [of "\<lambda>e. pm_point e = st_mount_point st" es] Some by (metis option.inject)
    note this [of "\<lambda>d. (st_fstype st \<in> {[], ''bind''} \<or> pm_fstype d = st_fstype st) \<and>
       (if ''ro'' \<in> set (st_options st) then ''ro'' \<in> set (pm_options d) else ''rw'' \<in> set (pm_options d))"]
    then show ?thesis
      by (auto simp: verify_storage_mount_def found Some has_option_def list_ex_iff Let_def split: if_splits)
  qed
qed

definition kernel_enc :: "char \<Rightarrow> string" where
  "kernel_enc c = (case map_of proc_escape c of None \<Rightarrow> [c] | Some e \<Rightarrow> e)"

definition two_mounts :: "proc_mount list" where
  "two_mounts = [\<lparr>pm_source = ''/dev/vda'', pm_point = ''/s/a b'', pm_fstype = ''ext4'', pm_options = [''rw'']\<rparr>,
     \<lparr>pm_source = ''/dev/vdb'', pm_point = ''/s/a b'', pm_fstype = ''xfs'', pm_options = [''ro'', ''relatime'']\<rparr>]"

definition ro_storage :: storage where
  "ro_storage = \<lparr>st_host_source = ''/img'', st_type = ''bind'', st_id = ''s1'', st_device_id = None, st_ref_container = [],
     st_need_guest_handle = True, st_source = ''/dev/vdb'', st_driver = ''blk'', st_driver_options = [], st_fstype = ''xfs'',
     st_options = [''ro''], st_mount_point = ''/s/a b'', st_lower_dirs = None, st_cleanup_path = None, st_owned_by_runtime = False,
     st_source_identity = None\<rparr>"

theorem verify_storage_mount_exact_witness:
  "verify_storage_mount (Some (mount_table kernel_enc two_mounts)) ro_storage = None \<and>
   verify_storage_mount (Some (mount_table kernel_enc two_mounts)) (ro_storage\<lparr>st_options := []\<rparr>) \<noteq> None"
proof -
  have enc: "kernel_escapes kernel_enc"
    by (simp add: kernel_escapes_def kernel_enc_def)
  have ok: "list_all proc_mount_ok two_mounts"
    by (simp add: two_mounts_def proc_mount_ok_def path_ok_def blank_free_def is_ws_chars)
  have last: "two_mounts = us @ e # vs \<longleftrightarrow>
      (us = [] \<and> e = hd two_mounts \<and> vs = tl two_mounts) \<or> (us = [hd two_mounts] \<and> e = last two_mounts \<and> vs = [])" for us e vs
    by (auto simp: two_mounts_def Cons_eq_append_conv append_eq_Cons_conv)
  show ?thesis
    unfolding verify_storage_mount_exact [OF enc ok] last
    by (rule conjI, rule exI [of _ "[hd two_mounts]"]) (auto simp: two_mounts_def ro_storage_def)
qed

section \<open>The last error of the log\<close>

text \<open>\<open>split_inclusive('\n')\<close>: the lines with their ends.\<close>

function lines_inclusive :: "string \<Rightarrow> string list" where
  "lines_inclusive [] = []"
| "lines_inclusive (c # cs) = read_until (c # cs) # lines_inclusive (drop (length (read_until (c # cs))) (c # cs))"
  by pat_completeness auto
termination
  by (relation "measure length") auto

text \<open>What the scan is for: the newest line of level error, where every line passed on the way can be read.\<close>

fun newest_error :: "(string \<Rightarrow> runtime_log option) \<Rightarrow> string list \<Rightarrow> log_error + string" where
  "newest_error de [] = Inr []"
| "newest_error de (l # ls) =
     (case de l of
        None \<Rightarrow> Inl (LogUnparsable l)
      | Some lg \<Rightarrow> if log_level lg = ''error'' then Inr (trim (log_msg lg)) else newest_error de ls)"

fun after_breaks :: "string \<Rightarrow> string list" where
  "after_breaks [] = []"
| "after_breaks (c # cs) = (if c = CHR 0x0A \<and> cs \<noteq> [] then read_until cs # after_breaks cs else after_breaks cs)"

lemma read_until_one: "read_until cs = [] \<longleftrightarrow> cs = []"
  by (cases cs) auto

lemma after_breaks_next:
  "after_breaks s = (case drop (length (read_until s)) s of [] \<Rightarrow> [] | c # cs \<Rightarrow> read_until (c # cs) # after_breaks (c # cs))"
  by (induction s) (auto split: list.split)

lemma after_breaks_lines: "tl (lines_inclusive s) = after_breaks s"
proof (induction s rule: lines_inclusive.induct)
  case (2 c cs)
  let ?r = "drop (length (read_until (c # cs))) (c # cs)"
  have "lines_inclusive ?r = (case ?r of [] \<Rightarrow> [] | d # ds \<Rightarrow> read_until (d # ds) # after_breaks (d # ds))"
    using "2.IH" by (cases ?r) auto
  then show ?case
    using after_breaks_next [of "c # cs"] by simp
qed simp

fun line_after :: "string \<Rightarrow> nat \<Rightarrow> string list" where
  "line_after s i = (if s ! i = CHR 0x0A \<and> Suc i < length s then [read_until (drop (Suc i) s)] else [])"

fun breaks_upto :: "string \<Rightarrow> nat \<Rightarrow> string list" where
  "breaks_upto file 0 = []"
| "breaks_upto file (Suc n) = line_after file (Suc n) @ breaks_upto file n"

lemma after_breaks_upto: "after_breaks s = concat (map (line_after s) [0..<length s])"
proof (induction s)
  case (Cons c cs)
  have "map (line_after (c # cs)) [0..<length (c # cs)] = line_after (c # cs) 0 # map (line_after cs) [0..<length cs]"
    by (simp add: upt_conv_Cons map_Suc_upt [symmetric] del: upt_Suc)
  then show ?case
    by (simp only: concat.simps Cons.IH [symmetric]) simp
qed simp

lemma breaks_upto_tail: "n \<le> length cs \<Longrightarrow> breaks_upto (c # cs) n = rev (concat (map (line_after cs) [0..<n]))"
  by (induction n) simp_all

lemma scan_back_breaks:
  "n < length file \<Longrightarrow>
     scan_back de file (if Suc n = length file then None else Some (read_until (drop (Suc n) file))) (Suc n) =
     newest_error de (breaks_upto file n)"
proof (induction n)
  case (Suc m)
  have drop: "drop (Suc m) file = file ! Suc m # drop (Suc (Suc m)) file"
    using Suc.prems by (simp add: Cons_nth_drop_Suc)
  have "length (read_until (drop (Suc m) file)) = 1 \<longleftrightarrow> file ! Suc m = CHR 0x0A \<or> Suc (Suc m) = length file"
    using Suc.prems unfolding drop by (auto simp: read_until_one)
  with Suc show ?case
    by (auto split: option.splits)
qed simp

text \<open>
  The backward scan of the log returns what a reading of the lines from the newest to the oldest returns, for
  every log and whatever the lines hold, but the first line takes no part in it: the lines that are read are those
  that follow a line end other than the first byte of the file.
\<close>

theorem get_last_runtime_error_lines:
  "get_last_runtime_error de (Some file) = newest_error de (rev (tl (lines_inclusive (tl file))))"
proof (cases "file")
  case (Cons c cs)
  have "newest_error de (breaks_upto file (length cs)) = newest_error de (rev (after_breaks cs))"
    using breaks_upto_tail [of "length cs" cs c] by (simp add: Cons after_breaks_upto)
  then show ?thesis
    using scan_back_breaks [of "length cs" "file" de]
    by (simp add: get_last_runtime_error_def Cons after_breaks_lines del: scan_back.simps)
qed (simp add: get_last_runtime_error_def)

text \<open>So an error in a log of one line is never reported as such.\<close>

lemma single_line_unreported:
  assumes "CHR 0x0A \<notin> set l"
  shows "runtime_error de (Some (l @ [CHR 0x0A])) OtherRuncError = EmptyLogMessage"
proof -
  have none: "scan_back de (l @ [CHR 0x0A]) pre n = Inr []" if "n \<le> Suc (length l)" "n = Suc (length l) \<longrightarrow> pre = None" for n pre
    using that
  proof (induction n arbitrary: pre)
    case (Suc m)
    show ?case
    proof (cases "m = length l")
      case False
      then have "m < length l"
        using Suc.prems(1) by simp
      then have "drop m l = l ! m # drop (Suc m) l" "l ! m \<noteq> CHR 0x0A"
        using assms by (simp_all add: Cons_nth_drop_Suc) (metis nth_mem)
      moreover have "read_until (drop (Suc m) l @ [CHR 0x0A]) \<noteq> []"
        by (simp add: read_until_one)
      ultimately show ?thesis
        using Suc.IH \<open>m < length l\<close> by simp
    qed (use Suc in simp)
  qed simp
  show ?thesis
    using none [of "Suc (length l)" None] by (simp add: runtime_error_def get_last_runtime_error_def)
qed

end
