(* ===== verification/Guest_Device.thy ===== *)
theory Guest_Device
  imports Mounts "HOL-Library.Multiset"
begin

text \<open>
  The device monitor of the guest agent (\<^verbatim>\<open>vmm/task/src/device.rs\<close>) and its one client, the wait for the
  device of a storage (\<open>get_device\<close> of \<^verbatim>\<open>vmm/task/src/sandbox.rs\<close>). The kernel reports devices as
  messages; the monitor caches them and hands each to the first subscriber it fits. Messages arrive in between the
  steps of a wait in any order.
\<close>

section \<open>Events\<close>

record uevent =
  ue_action :: string
  ue_devpath :: string
  ue_devname :: string
  ue_subsystem :: string
  ue_seqnum :: string
  ue_interface :: string

definition uevent_default :: uevent where
  "uevent_default = \<lparr>ue_action = [], ue_devpath = [], ue_devname = [], ue_subsystem = [], ue_seqnum = [], ue_interface = []\<rparr>"

text \<open>\<open>arg.splitn(2, '=')\<close> when it gives two pieces\<close>

definition key_val :: "string \<Rightarrow> (string \<times> string) option" where
  "key_val arg =
     (if CHR ''='' \<in> set arg
      then Some (takeWhile (\<lambda>c. c \<noteq> CHR ''='') arg, tl (dropWhile (\<lambda>c. c \<noteq> CHR ''='') arg))
      else None)"

definition set_field :: "string \<Rightarrow> uevent \<Rightarrow> uevent" where
  "set_field arg ev =
     (case key_val arg of
        None \<Rightarrow> ev
      | Some (k, v) \<Rightarrow>
          if k = ''ACTION'' then ev\<lparr>ue_action := v\<rparr>
          else if k = ''DEVNAME'' then ev\<lparr>ue_devname := v\<rparr>
          else if k = ''SUBSYSTEM'' then ev\<lparr>ue_subsystem := v\<rparr>
          else if k = ''DEVPATH'' then ev\<lparr>ue_devpath := v\<rparr>
          else if k = ''SEQNUM'' then ev\<lparr>ue_seqnum := v\<rparr>
          else if k = ''INTERFACE'' then ev\<lparr>ue_interface := v\<rparr>
          else ev)"

definition uevent_new :: "string \<Rightarrow> uevent" where
  "uevent_new message = fold set_field (tl (split_on (CHR 0x00) message)) uevent_default"

section \<open>Devices\<close>

datatype device_type = Blk | Scsi

record device =
  dv_path :: string
  dv_addr :: string
  dv_type :: device_type

definition SYSTEM_DEV_PATH :: string where "SYSTEM_DEV_PATH = ''/dev''"

definition convert_to_scsi_device :: "uevent \<Rightarrow> device option" where
  "convert_to_scsi_device ev =
     (let parts = split_on (CHR ''/'') (ue_devpath ev); n = length parts in
      if 3 < n \<and> ue_subsystem ev = ''block'' \<and> starts_with ''0:0:'' (parts ! (n - 3)) \<and> parts ! (n - 2) = ''block'' \<and>
         ue_devname ev \<noteq> []
      then Some \<lparr>dv_path = SYSTEM_DEV_PATH @ ''/'' @ ue_devname ev, dv_addr = drop (length ''0:0:'') (parts ! (n - 3)), dv_type = Scsi\<rparr>
      else None)"

definition convert_to_blk_device :: "uevent \<Rightarrow> device option" where
  "convert_to_blk_device ev =
     (let parts = split_on (CHR ''/'') (ue_devpath ev); n = length parts in
      if 4 < n \<and> ue_subsystem ev = ''block'' \<and> starts_with ''0000:'' (parts ! (n - 4)) \<and> starts_with ''virtio'' (parts ! (n - 3)) \<and>
         parts ! (n - 2) = ''block'' \<and> ue_devname ev \<noteq> []
      then Some \<lparr>dv_path = SYSTEM_DEV_PATH @ ''/'' @ ue_devname ev,
                 dv_addr = (if 5 < n \<and> starts_with ''0000:'' (parts ! (n - 5)) then parts ! (n - 5) else parts ! (n - 4)),
                 dv_type = Blk\<rparr>
      else None)"

definition convert_device :: "uevent \<Rightarrow> device option" where
  "convert_device ev =
     (case convert_to_scsi_device ev of Some d \<Rightarrow> Some d | None \<Rightarrow> convert_to_blk_device ev)"

record device_matcher =
  mt_addr :: string
  mt_type :: device_type

definition is_match :: "device_matcher \<Rightarrow> device \<Rightarrow> bool" where
  "is_match mt d \<longleftrightarrow> mt_addr mt = dv_addr d \<and> mt_type mt = dv_type d"

section \<open>The monitor\<close>

text \<open>
  A subscriber with the channel to it, which holds one device, and whether the receiving end still exists. A send
  to a closed channel fails at once; a send to a full one waits.
\<close>

record subscriber =
  su_matcher :: device_matcher
  su_queue :: "device list"
  su_open :: bool

datatype send_result = Sent subscriber | Closed | Blocked

definition send :: "device \<Rightarrow> subscriber \<Rightarrow> send_result" where
  "send d s =
     (if \<not> su_open s then Closed
      else if length (su_queue s) < 1 then Sent (s\<lparr>su_queue := su_queue s @ [d]\<rparr>)
      else Blocked)"

record monitor =
  mo_subscribers :: "(nat, subscriber) hmap"
  mo_devices :: "(string, device) hmap"
  mo_id_generator :: nat

definition monitor_new :: monitor where
  "monitor_new = \<lparr>mo_subscribers = [], mo_devices = [], mo_id_generator = 0\<rparr>"

fun send_cached :: "device list \<Rightarrow> subscriber \<Rightarrow> subscriber option" where
  "send_cached [] s = Some s"
| "send_cached (d # ds) s =
     (if is_match (su_matcher s) d
      then (case send d s of Sent s' \<Rightarrow> send_cached ds s' | Closed \<Rightarrow> send_cached ds s | Blocked \<Rightarrow> None)
      else send_cached ds s)"

text \<open>
  The cached devices are sent while the lock of the monitor is held and before the receiving end is handed out, so
  a send that waits waits forever: no result.
\<close>

definition subscribe :: "device_matcher \<Rightarrow> monitor \<Rightarrow> (nat \<times> monitor) option" where
  "subscribe mt m =
     (case send_cached (map snd (mo_devices m)) \<lparr>su_matcher = mt, su_queue = [], su_open = True\<rparr> of
        None \<Rightarrow> None
      | Some s \<Rightarrow>
          let i = mo_id_generator m + 1 in
          Some (i, m\<lparr>mo_id_generator := i, mo_subscribers := hm_insert i s (mo_subscribers m)\<rparr>))"

definition unsubscribe :: "nat \<Rightarrow> monitor \<Rightarrow> monitor" where
  "unsubscribe i m = m\<lparr>mo_subscribers := hm_remove i (mo_subscribers m)\<rparr>"

text \<open>The first subscriber the device fits, in the order the map is walked; no result while the send waits.\<close>

fun notify :: "device \<Rightarrow> (nat, subscriber) hmap \<Rightarrow> (nat, subscriber) hmap option" where
  "notify d [] = Some []"
| "notify d ((i, s) # ss) =
     (if is_match (su_matcher s) d
      then (case send d s of Sent s' \<Rightarrow> Some ((i, s') # ss) | Closed \<Rightarrow> Some ((i, s) # ss) | Blocked \<Rightarrow> None)
      else map_option (Cons (i, s)) (notify d ss))"

definition monitor_add_device :: "string \<Rightarrow> device \<Rightarrow> monitor \<Rightarrow> monitor option" where
  "monitor_add_device key d m =
     map_option (\<lambda>ss. m\<lparr>mo_devices := hm_insert key d (mo_devices m), mo_subscribers := ss\<rparr>) (notify d (mo_subscribers m))"

definition handle_add_event :: "uevent \<Rightarrow> monitor \<Rightarrow> monitor option" where
  "handle_add_event ev m =
     (case convert_device ev of None \<Rightarrow> Some m | Some d \<Rightarrow> monitor_add_device (ue_devpath ev) d m)"

definition handle_remove_event :: "uevent \<Rightarrow> monitor \<Rightarrow> monitor" where
  "handle_remove_event ev m = m\<lparr>mo_devices := hm_remove (ue_devpath ev) (mo_devices m)\<rparr>"

definition handle_event :: "uevent \<Rightarrow> monitor \<Rightarrow> monitor option" where
  "handle_event ev m =
     (if ue_action ev = ''add'' then handle_add_event ev m
      else if ue_action ev = ''remove'' then Some (handle_remove_event ev m)
      else Some m)"
text \<open>
  The devices found at start: the names below the directory of SCSI devices with the block device of each, and the
  names below the directory of block devices with the target of each that is a symbolic link. The keys differ from
  those of the events. An address in a form that is not expected ends the agent: no result.
\<close>

fun init_scsi_devices :: "(string \<times> string) list \<Rightarrow> monitor \<Rightarrow> monitor option" where
  "init_scsi_devices [] m = Some m"
| "init_scsi_devices ((scsi_index, dev_name) # es) m =
     (if starts_with ''0:'' scsi_index
      then (case strip_prefix ''0:0:'' scsi_index of
              None \<Rightarrow> None
            | Some addr \<Rightarrow>
                Option.bind
                  (monitor_add_device (scsi_index @ ''/'' @ ''block'')
                     \<lparr>dv_path = SYSTEM_DEV_PATH @ ''/'' @ dev_name, dv_addr = addr, dv_type = Scsi\<rparr> m)
                  (init_scsi_devices es))
      else init_scsi_devices es m)"

fun add_parts :: "string \<Rightarrow> string list \<Rightarrow> monitor \<Rightarrow> monitor option" where
  "add_parts dev_name [] m = Some m"
| "add_parts dev_name (part # ps) m =
     (if starts_with ''0000:'' part
      then Option.bind
             (monitor_add_device part \<lparr>dv_path = SYSTEM_DEV_PATH @ ''/'' @ dev_name, dv_addr = part, dv_type = Blk\<rparr> m)
             (add_parts dev_name ps)
      else add_parts dev_name ps m)"

fun init_blk_devices :: "(string \<times> string option) list \<Rightarrow> monitor \<Rightarrow> monitor option" where
  "init_blk_devices [] m = Some m"
| "init_blk_devices ((dev_name, link) # es) m =
     (case (if starts_with ''vd'' dev_name then link else None) of
        None \<Rightarrow> init_blk_devices es m
      | Some real_path \<Rightarrow> Option.bind (add_parts dev_name (split_on (CHR ''/'') real_path) m) (init_blk_devices es))"

definition monitor_start :: "(string \<times> string) list \<Rightarrow> (string \<times> string option) list \<Rightarrow> monitor option" where
  "monitor_start scsi blk = Option.bind (init_scsi_devices scsi monitor_new) (init_blk_devices blk)"

section \<open>The wait for a device\<close>

datatype wait_state = Idle | Waiting nat | Received nat device | Got device | TimedOut

text \<open>
  A wait with the monitor, and as a record of what happened the devices that were cached when it began and those
  that were reported since.
\<close>

record wait_system =
  ws_monitor :: monitor
  ws_wait :: wait_state
  ws_arrived :: "device list"

definition set_subscriber :: "nat \<Rightarrow> (subscriber \<Rightarrow> subscriber) \<Rightarrow> monitor \<Rightarrow> monitor" where
  "set_subscriber i f m =
     (case hm_get (mo_subscribers m) i of
        None \<Rightarrow> m
      | Some s \<Rightarrow> m\<lparr>mo_subscribers := hm_insert i (f s) (mo_subscribers m)\<rparr>)"

definition arrivals :: "uevent \<Rightarrow> device list" where
  "arrivals ev = (if ue_action ev = ''add'' then (case convert_device ev of None \<Rightarrow> [] | Some d \<Rightarrow> [d]) else [])"

text \<open>
  An event is handled with the subscribers in any order. When the wait runs out, the receiving end is dropped with
  the subscription and the subscriber stays behind.
\<close>

inductive get_device_step :: "device_matcher \<Rightarrow> wait_system \<Rightarrow> wait_system \<Rightarrow> bool" for mt where
  Subscribe: "ws_wait w = Idle \<Longrightarrow> subscribe mt (ws_monitor w) = Some (i, m) \<Longrightarrow>
    get_device_step mt w (w\<lparr>ws_monitor := m, ws_wait := Waiting i, ws_arrived := map snd (mo_devices (ws_monitor w))\<rparr>)"
| Event: "mset ss = mset (mo_subscribers (ws_monitor w)) \<Longrightarrow>
    handle_event ev ((ws_monitor w)\<lparr>mo_subscribers := ss\<rparr>) = Some m \<Longrightarrow>
    get_device_step mt w (w\<lparr>ws_monitor := m, ws_arrived := ws_arrived w @ arrivals ev\<rparr>)"
| Recv: "ws_wait w = Waiting i \<Longrightarrow> hm_get (mo_subscribers (ws_monitor w)) i = Some s \<Longrightarrow> su_queue s = d # ds \<Longrightarrow>
    get_device_step mt w (w\<lparr>ws_monitor := set_subscriber i (\<lambda>s. s\<lparr>su_queue := ds\<rparr>) (ws_monitor w), ws_wait := Received i d\<rparr>)"
| Timeout: "ws_wait w = Waiting i \<Longrightarrow> hm_get (mo_subscribers (ws_monitor w)) i = Some s \<Longrightarrow> su_queue s = [] \<Longrightarrow>
    get_device_step mt w (w\<lparr>ws_monitor := set_subscriber i (\<lambda>s. s\<lparr>su_open := False\<rparr>) (ws_monitor w), ws_wait := TimedOut\<rparr>)"
| Unsubscribe: "ws_wait w = Received i d \<Longrightarrow>
    get_device_step mt w (w\<lparr>ws_monitor := unsubscribe i (ws_monitor w), ws_wait := Got d\<rparr>)"

inductive_cases get_device_stepE: "get_device_step mt w w'"

section \<open>Delivery\<close>

lemma notify_keys: "notify d ss = Some ss' \<Longrightarrow> map fst ss' = map fst ss"
  by (induction d ss arbitrary: ss' rule: notify.induct) (auto split: if_splits send_result.splits)

lemma notify_other:
  "notify d ss = Some ss' \<Longrightarrow> hm_get ss i = Some s \<Longrightarrow> \<not> is_match (su_matcher s) d \<Longrightarrow> hm_get ss' i = Some s"
proof (induction d ss arbitrary: ss' rule: notify.induct)
  case (2 d j t ss)
  then show ?case
    by (cases "is_match (su_matcher t) d") (auto split: send_result.splits if_splits)
qed simp

lemma send_matcher: "send d s = Sent s' \<Longrightarrow> su_matcher s' = su_matcher s \<and> su_open s'"
  by (auto simp: send_def split: if_splits)

lemma notify_matcher:
  "notify d ss = Some ss' \<Longrightarrow> hm_get ss' i = Some s' \<Longrightarrow> \<exists>s. hm_get ss i = Some s \<and> su_matcher s = su_matcher s'"
proof (induction d ss arbitrary: ss' rule: notify.induct)
  case (2 d j t ss)
  then show ?case
    by (cases "is_match (su_matcher t) d") (auto split: send_result.splits if_splits dest: send_matcher)
qed simp

lemma notify_only_match:
  assumes "notify d ss = Some ss'" "hm_get ss i = Some s" "is_match (su_matcher s) d" "su_open s"
    and "\<And>j t. hm_get ss j = Some t \<Longrightarrow> j \<noteq> i \<Longrightarrow> \<not> is_match (su_matcher t) d" "hm_wf ss"
  shows "su_queue s = [] \<and> hm_get ss' i = Some (s\<lparr>su_queue := [d]\<rparr>)"
  using assms
proof (induction d ss arbitrary: ss' rule: notify.induct)
  case (2 d j t ss)
  show ?case
  proof (cases "j = i")
    case True
    then show ?thesis
      using "2.prems" by (auto simp: send_def split: if_splits)
  next
    case False
    have "\<not> is_match (su_matcher t) d"
      using "2.prems"(5) [of j t] False by simp
    moreover have "\<not> is_match (su_matcher t') d" if "hm_get ss k = Some t'" "k \<noteq> i" for k t'
    proof -
      have "hm_get ss j = None"
        using "2.prems"(6) by (simp add: map_of_eq_None_iff)
      then have "k \<noteq> j"
        using that(1) by auto
      then show ?thesis
        using "2.prems"(5) [of k t'] that by simp
    qed
    ultimately show ?thesis
      using 2 False by (auto split: if_splits)
  qed
qed simp

lemma send_cached_open:
  "su_open s \<Longrightarrow> length (su_queue s) \<le> 1 \<Longrightarrow>
     send_cached ds s =
       (let q = su_queue s @ filter (is_match (su_matcher s)) ds in if length q \<le> 1 then Some (s\<lparr>su_queue := q\<rparr>) else None)"
proof (induction ds s rule: send_cached.induct)
  case (2 d ds s)
  then show ?case
    by (cases "su_queue s") (auto simp: send_def Let_def)
qed simp

section \<open>The invariant of a wait\<close>

definition monitor_ok :: "monitor \<Rightarrow> bool" where
  "monitor_ok m \<longleftrightarrow> hm_wf (mo_subscribers m) \<and> (\<forall>i s. hm_get (mo_subscribers m) i = Some s \<longrightarrow> i \<le> mo_id_generator m)"

definition others_differ :: "device_matcher \<Rightarrow> nat \<Rightarrow> monitor \<Rightarrow> bool" where
  "others_differ mt i m \<longleftrightarrow> (\<forall>j s. hm_get (mo_subscribers m) j = Some s \<longrightarrow> j \<noteq> i \<longrightarrow> su_matcher s \<noteq> mt)"

definition waits_for :: "device_matcher \<Rightarrow> device list \<Rightarrow> subscriber \<Rightarrow> bool" where
  "waits_for mt arrived s \<longleftrightarrow> su_matcher s = mt \<and> su_open s \<and> length (su_queue s) \<le> 1 \<and>
     (su_queue s = [] \<longrightarrow> list_all (\<lambda>d. \<not> is_match mt d) arrived) \<and>
     list_all (\<lambda>d. is_match mt d \<and> d \<in> set arrived) (su_queue s)"

definition wait_inv :: "device_matcher \<Rightarrow> wait_system \<Rightarrow> bool" where
  "wait_inv mt w \<longleftrightarrow> monitor_ok (ws_monitor w) \<and>
     (case ws_wait w of
        Idle \<Rightarrow> others_differ mt (Suc (mo_id_generator (ws_monitor w))) (ws_monitor w)
      | Waiting i \<Rightarrow> others_differ mt i (ws_monitor w) \<and>
          (\<exists>s. hm_get (mo_subscribers (ws_monitor w)) i = Some s \<and> waits_for mt (ws_arrived w) s)
      | Received i d \<Rightarrow> is_match mt d \<and> d \<in> set (ws_arrived w)
      | Got d \<Rightarrow> is_match mt d \<and> d \<in> set (ws_arrived w)
      | TimedOut \<Rightarrow> True)"

lemma hm_get_perm: "mset ss = mset ts \<Longrightarrow> hm_wf ts \<Longrightarrow> hm_wf ss \<and> hm_get ss = hm_get ts"
proof -
  assume perm: "mset ss = mset ts" and wf: "hm_wf ts"
  have "mset (map fst ss) = mset (map fst ts)"
    using perm by (metis mset_map)
  then have "hm_wf ss"
    using wf by (metis distinct_count_atmost_1 set_mset_mset)
  moreover have "set ss = set ts"
    using perm by (metis set_mset_mset)
  ultimately show ?thesis
    using wf map_of_inject_set [of ss ts] by simp
qed

lemma handle_event_Some:
  assumes "handle_event ev m = Some m'"
  shows "mo_id_generator m' = mo_id_generator m"
    and "(arrivals ev = [] \<and> mo_subscribers m' = mo_subscribers m) \<or>
         (\<exists>d. arrivals ev = [d] \<and> notify d (mo_subscribers m) = Some (mo_subscribers m'))"
  using assms
  by (auto simp: handle_event_def handle_add_event_def handle_remove_event_def monitor_add_device_def arrivals_def
      split: if_splits option.splits)

lemma is_match_unique: "is_match mt d \<Longrightarrow> is_match mt' d \<longleftrightarrow> mt' = mt"
  by (cases mt; cases mt') (auto simp: is_match_def)

lemma event_monitor_ok:
  assumes "monitor_ok m" "mset ss = mset (mo_subscribers m)" "handle_event ev (m\<lparr>mo_subscribers := ss\<rparr>) = Some m'"
  shows "monitor_ok m'"
proof -
  have perm: "hm_wf ss" "hm_get ss = hm_get (mo_subscribers m)"
    using hm_get_perm [OF assms(2)] assms(1) by (auto simp: monitor_ok_def)
  show ?thesis
    using handle_event_Some [OF assms(3)]
  proof (elim disjE exE conjE)
    fix d
    assume "notify d (mo_subscribers (m\<lparr>mo_subscribers := ss\<rparr>)) = Some (mo_subscribers m')"
      and ids: "mo_id_generator m' = mo_id_generator (m\<lparr>mo_subscribers := ss\<rparr>)"
    then have n: "notify d ss = Some (mo_subscribers m')"
      by simp
    have "hm_wf (mo_subscribers m')"
      using notify_keys [OF n] perm(1) by simp
    moreover have "i \<le> mo_id_generator m'" if "hm_get (mo_subscribers m') i = Some s" for i s
      using notify_matcher [OF n that] assms(1) ids unfolding perm(2) monitor_ok_def by fastforce
    ultimately show ?thesis
      by (simp add: monitor_ok_def)
  qed (use assms(1) perm in \<open>auto simp: monitor_ok_def\<close>)
qed

lemma event_others_differ:
  assumes "monitor_ok m" "mset ss = mset (mo_subscribers m)" "handle_event ev (m\<lparr>mo_subscribers := ss\<rparr>) = Some m'"
    and "others_differ mt i m"
  shows "others_differ mt i m'"
proof -
  have perm: "hm_get ss = hm_get (mo_subscribers m)"
    using hm_get_perm [OF assms(2)] assms(1) by (auto simp: monitor_ok_def)
  have "\<exists>t. hm_get (mo_subscribers m) j = Some t \<and> su_matcher t = su_matcher s" if "hm_get (mo_subscribers m') j = Some s" for j s
    using handle_event_Some(2) [OF assms(3)] notify_matcher [of _ ss "mo_subscribers m'" j s] that perm by auto
  then show ?thesis
    using assms(4) unfolding others_differ_def by metis
qed

lemma event_waits_for:
  assumes "monitor_ok m" "mset ss = mset (mo_subscribers m)" "handle_event ev (m\<lparr>mo_subscribers := ss\<rparr>) = Some m'"
    and "others_differ mt i m" "hm_get (mo_subscribers m) i = Some s" "waits_for mt arrived s"
  shows "\<exists>s'. hm_get (mo_subscribers m') i = Some s' \<and> waits_for mt (arrived @ arrivals ev) s'"
proof -
  have perm: "hm_wf ss" "hm_get ss = hm_get (mo_subscribers m)"
    using hm_get_perm [OF assms(2)] assms(1) by (auto simp: monitor_ok_def)
  have s: "su_matcher s = mt" "su_open s"
    using assms(6) by (simp_all add: waits_for_def)
  from handle_event_Some(2) [OF assms(3)] show ?thesis
  proof (elim disjE exE conjE)
    fix d
    assume d: "arrivals ev = [d]" "notify d (mo_subscribers (m\<lparr>mo_subscribers := ss\<rparr>)) = Some (mo_subscribers m')"
    then have n: "notify d ss = Some (mo_subscribers m')"
      by simp
    show ?thesis
    proof (cases "is_match mt d")
      case True
      have "\<not> is_match (su_matcher t) d" if "hm_get ss j = Some t" "j \<noteq> i" for j t
        using assms(4) that is_match_unique [OF True] by (auto simp: others_differ_def perm(2))
      then have "su_queue s = [] \<and> hm_get (mo_subscribers m') i = Some (s\<lparr>su_queue := [d]\<rparr>)"
        using notify_only_match [OF n, of i s] assms(5) s True perm by auto
      then show ?thesis
        using assms(6) True by (auto simp: waits_for_def d(1))
    next
      case False
      then have "hm_get (mo_subscribers m') i = Some s"
        using notify_other [OF n, of i s] assms(5) s(1) by (simp add: perm(2))
      then show ?thesis
        using assms(6) False by (auto simp: waits_for_def d(1) list_all_iff)
    qed
  qed (use assms(5,6) perm in auto)
qed

lemma subscribe_Some:
  assumes "subscribe mt m = Some (i, m')"
  shows "i = mo_id_generator m + 1" "mo_id_generator m' = i"
    and "mo_subscribers m' = hm_insert i
      \<lparr>su_matcher = mt, su_queue = filter (is_match mt) (map snd (mo_devices m)), su_open = True\<rparr> (mo_subscribers m)"
    and "length (filter (is_match mt) (map snd (mo_devices m))) \<le> 1"
  using assms by (auto simp: subscribe_def send_cached_open Let_def split: if_splits)

lemma set_subscriber_ok: "monitor_ok m \<Longrightarrow> monitor_ok (set_subscriber i f m)"
proof (cases "hm_get (mo_subscribers m) i")
  case (Some s)
  assume "monitor_ok m"
  then show ?thesis
    using Some unfolding monitor_ok_def set_subscriber_def by (simp split: if_splits)
qed (simp add: set_subscriber_def)

lemma unsubscribe_ok: "monitor_ok m \<Longrightarrow> monitor_ok (unsubscribe i m)"
  unfolding monitor_ok_def unsubscribe_def by (fastforce split: if_splits)

lemma wait_inv_step: "get_device_step mt w w' \<Longrightarrow> wait_inv mt w \<Longrightarrow> wait_inv mt w'"
proof (induction rule: get_device_step.induct)
  case (Subscribe w i m)
  note sub = subscribe_Some [OF Subscribe.hyps(2)]
  have inv: "monitor_ok (ws_monitor w)" "others_differ mt i (ws_monitor w)"
    using Subscribe by (simp_all add: wait_inv_def sub(1))
  have "monitor_ok m"
    using inv(1) unfolding monitor_ok_def sub(1-3) by (auto simp: sub(1,2) le_SucI)
  moreover have "others_differ mt i m"
    using inv(2) unfolding others_differ_def sub(3) by (auto split: if_splits)
  moreover have "waits_for mt (map snd (mo_devices (ws_monitor w)))
      \<lparr>su_matcher = mt, su_queue = filter (is_match mt) (map snd (mo_devices (ws_monitor w))), su_open = True\<rparr>"
    using sub(4) by (auto simp: waits_for_def list_all_iff filter_empty_conv)
  ultimately show ?case
    by (simp add: wait_inv_def sub(3))
next
  case (Event ss w ev m)
  note ok = event_monitor_ok [OF _ Event.hyps] and others = event_others_differ [OF _ Event.hyps]
    and waits = event_waits_for [OF _ Event.hyps]
  show ?case
  proof (cases "ws_wait w")
    case Idle
    then show ?thesis
      using Event.prems ok others handle_event_Some(1) [OF Event.hyps(2)] by (simp add: wait_inv_def)
  next
    case (Waiting i)
    then show ?thesis
      using Event.prems ok others waits by (auto simp: wait_inv_def)
  qed (use Event.prems ok in \<open>auto simp: wait_inv_def\<close>)
next
  case (Recv w i s d ds)
  then show ?case
    by (auto simp: wait_inv_def set_subscriber_ok waits_for_def)
next
  case (Timeout w i s)
  then show ?case
    by (auto simp: wait_inv_def set_subscriber_ok)
next
  case (Unsubscribe w i d)
  then show ?case
    by (auto simp: wait_inv_def unsubscribe_ok)
qed

lemma wait_inv_start:
  assumes "monitor_ok m" "list_all (\<lambda>(_, s). su_matcher s \<noteq> mt) (mo_subscribers m)"
  shows "wait_inv mt \<lparr>ws_monitor = m, ws_wait = Idle, ws_arrived = []\<rparr>"
proof -
  have "su_matcher s \<noteq> mt" if "hm_get (mo_subscribers m) j = Some s" for j s
    using assms(2) map_of_SomeD [OF that] by (auto simp: list_all_iff)
  then show ?thesis
    using assms(1) by (auto simp: wait_inv_def others_differ_def)
qed

lemma wait_inv_run: "(get_device_step mt)\<^sup>*\<^sup>* w w' \<Longrightarrow> wait_inv mt w \<Longrightarrow> wait_inv mt w'"
  by (induction rule: rtranclp_induct) (auto intro: wait_inv_step)

section \<open>Properties\<close>


definition disk_event :: "string \<Rightarrow> string \<Rightarrow> uevent" where
  "disk_event action name = uevent_default\<lparr>ue_action := action, ue_subsystem := ''block'', ue_devname := name,
     ue_devpath := ''/devices/pci0000:00/0000:00:07.0/virtio6/block/'' @ name\<rparr>"

definition disk :: "string \<Rightarrow> device" where
  "disk name = \<lparr>dv_path = ''/dev/'' @ name, dv_addr = ''0000:00:07.0'', dv_type = Blk\<rparr>"

definition disk_matcher :: device_matcher where
  "disk_matcher = \<lparr>mt_addr = ''0000:00:07.0'', mt_type = Blk\<rparr>"

lemma disk_event_converts: "convert_device (disk_event act ''vdb'') = Some (disk ''vdb'')"
  by (simp add: convert_device_def convert_to_scsi_device_def convert_to_blk_device_def disk_event_def uevent_default_def disk_def
      SYSTEM_DEV_PATH_def Let_def)

definition waiting_monitor :: "device list \<Rightarrow> (string, device) hmap \<Rightarrow> monitor" where
  "waiting_monitor q ds = \<lparr>mo_subscribers = [(1, \<lparr>su_matcher = disk_matcher, su_queue = q, su_open = True\<rparr>)],
     mo_devices = ds, mo_id_generator = 1\<rparr>"

lemma demo_subscribe: "subscribe disk_matcher monitor_new = Some (1, waiting_monitor [] [])"
  by (simp add: subscribe_def monitor_new_def waiting_monitor_def)

lemma demo_add:
  "handle_event (disk_event ''add'' ''vdb'') (waiting_monitor [] []) =
     Some (waiting_monitor [disk ''vdb''] [(ue_devpath (disk_event ''add'' ''vdb''), disk ''vdb'')])"
proof -
  have "ue_action (disk_event ''add'' ''vdb'') = ''add''"
    by (simp add: disk_event_def)
  then show ?thesis
    by (simp add: handle_event_def handle_add_event_def disk_event_converts monitor_add_device_def waiting_monitor_def send_def
        is_match_def disk_matcher_def disk_def)
qed

definition demo_wait :: "monitor \<Rightarrow> wait_state \<Rightarrow> device list \<Rightarrow> wait_system" where
  "demo_wait m st ds = \<lparr>ws_monitor = m, ws_wait = st, ws_arrived = ds\<rparr>"

definition disk_cache :: "(string, device) hmap" where
  "disk_cache = [(ue_devpath (disk_event ''add'' ''vdb''), disk ''vdb'')]"

lemma demo_steps:
  "get_device_step disk_matcher (demo_wait monitor_new Idle []) (demo_wait (waiting_monitor [] []) (Waiting 1) [])"
  "get_device_step disk_matcher (demo_wait (waiting_monitor [] []) (Waiting 1) [])
     (demo_wait (waiting_monitor [disk ''vdb''] disk_cache) (Waiting 1) [disk ''vdb''])"
  "get_device_step disk_matcher (demo_wait (waiting_monitor [disk ''vdb''] disk_cache) (Waiting 1) [disk ''vdb''])
     (demo_wait (waiting_monitor [] disk_cache) (Received 1 (disk ''vdb'')) [disk ''vdb''])"
  "get_device_step disk_matcher (demo_wait (waiting_monitor [] disk_cache) (Received 1 (disk ''vdb'')) [disk ''vdb''])
     (demo_wait (unsubscribe 1 (waiting_monitor [] disk_cache)) (Got (disk ''vdb'')) [disk ''vdb''])"
proof -
  show "get_device_step disk_matcher (demo_wait monitor_new Idle []) (demo_wait (waiting_monitor [] []) (Waiting 1) [])"
    using get_device_step.Subscribe [of "demo_wait monitor_new Idle []" disk_matcher 1 "waiting_monitor [] []"] demo_subscribe
    by (simp add: demo_wait_def) (simp add: monitor_new_def)
  have "arrivals (disk_event ''add'' ''vdb'') = [disk ''vdb'']"
    by (simp add: arrivals_def disk_event_converts) (simp add: disk_event_def)
  then show "get_device_step disk_matcher (demo_wait (waiting_monitor [] []) (Waiting 1) [])
     (demo_wait (waiting_monitor [disk ''vdb''] disk_cache) (Waiting 1) [disk ''vdb''])"
    using get_device_step.Event [of "mo_subscribers (waiting_monitor [] [])" "demo_wait (waiting_monitor [] []) (Waiting 1) []"
        "disk_event ''add'' ''vdb''" "waiting_monitor [disk ''vdb''] disk_cache" disk_matcher] demo_add
    by (simp add: demo_wait_def disk_cache_def)
  have "set_subscriber 1 (\<lambda>s. s\<lparr>su_queue := []\<rparr>) (waiting_monitor [disk ''vdb''] disk_cache) = waiting_monitor [] disk_cache"
    by (simp add: set_subscriber_def waiting_monitor_def)
  then show "get_device_step disk_matcher (demo_wait (waiting_monitor [disk ''vdb''] disk_cache) (Waiting 1) [disk ''vdb''])
     (demo_wait (waiting_monitor [] disk_cache) (Received 1 (disk ''vdb'')) [disk ''vdb''])"
    using get_device_step.Recv [of "demo_wait (waiting_monitor [disk ''vdb''] disk_cache) (Waiting 1) [disk ''vdb'']" 1
        "\<lparr>su_matcher = disk_matcher, su_queue = [disk ''vdb''], su_open = True\<rparr>" "disk ''vdb''" "[]" disk_matcher]
    by (simp add: demo_wait_def) (simp add: waiting_monitor_def)
  show "get_device_step disk_matcher (demo_wait (waiting_monitor [] disk_cache) (Received 1 (disk ''vdb'')) [disk ''vdb''])
     (demo_wait (unsubscribe 1 (waiting_monitor [] disk_cache)) (Got (disk ''vdb'')) [disk ''vdb''])"
    using get_device_step.Unsubscribe [of "demo_wait (waiting_monitor [] disk_cache) (Received 1 (disk ''vdb'')) [disk ''vdb'']"
        1 "disk ''vdb''" disk_matcher]
    by (simp add: demo_wait_def)
qed


section \<open>Observations\<close>

text \<open>A subscription comes back exactly when at most one cached device fits; with two it holds the lock forever.\<close>

lemma subscribe_returns:
  "subscribe mt m \<noteq> None \<longleftrightarrow> length (filter (is_match mt) (map snd (mo_devices m))) \<le> 1"
  by (simp add: subscribe_def send_cached_open Let_def)

text \<open>
  A device that was found at start is cached under its address and a removal looks for its path, so it stays; once a
  device is plugged in again at the same address, every wait for it blocks the monitor.
\<close>

lemma replug_blocks:
  "\<exists>m m'. monitor_start [] [(''vdb'', Some ''../../devices/pci0000:00/0000:00:07.0/virtio6/block/vdb'')] = Some m \<and>
     Option.bind (handle_event (disk_event ''remove'' ''vdb'') m) (handle_event (disk_event ''add'' ''vdb'')) = Some m' \<and>
     subscribe disk_matcher m' = None"
proof -
  let ?scanned = "\<lparr>mo_subscribers = [], mo_devices = [(''0000:00:07.0'', disk ''vdb'')], mo_id_generator = 0\<rparr>"
  let ?m' = "\<lparr>mo_subscribers = [], mo_devices = (''0000:00:07.0'', disk ''vdb'') # disk_cache, mo_id_generator = 0\<rparr>"
  have scan: "monitor_start [] [(''vdb'', Some ''../../devices/pci0000:00/0000:00:07.0/virtio6/block/vdb'')] = Some ?scanned"
    by (simp add: monitor_start_def monitor_new_def monitor_add_device_def disk_def SYSTEM_DEV_PATH_def)
  have acts: "ue_action (disk_event a ''vdb'') = a" "ue_devpath (disk_event a ''vdb'') \<noteq> ''0000:00:07.0''"
    "ue_devpath (disk_event a ''vdb'') = ue_devpath (disk_event ''add'' ''vdb'')" for a
    by (simp_all add: disk_event_def)
  have "handle_event (disk_event ''remove'' ''vdb'') ?scanned = Some ?scanned"
    using acts(2) [of "''remove''"] by (simp add: handle_event_def handle_remove_event_def acts(1) delete_idem)
  moreover have "handle_event (disk_event ''add'' ''vdb'') ?scanned = Some ?m'"
    using acts(2) [of "''add''"]
    by (simp add: handle_event_def handle_add_event_def acts(1) disk_event_converts monitor_add_device_def disk_cache_def)
  moreover have "subscribe disk_matcher ?m' = None"
    by (simp add: subscribe_def send_def disk_cache_def is_match_def disk_def disk_matcher_def)
  ultimately show ?thesis
    using scan by auto
qed

text \<open>
  A subscriber that a wait left behind when it ran out takes the report of a device from a later wait for it.
\<close>

lemma leaked_subscriber_swallows:
  assumes "is_match mt d"
  shows "notify d [(1, \<lparr>su_matcher = mt, su_queue = [], su_open = False\<rparr>), (2, \<lparr>su_matcher = mt, su_queue = [], su_open = True\<rparr>)] =
    Some [(1, \<lparr>su_matcher = mt, su_queue = [], su_open = False\<rparr>), (2, \<lparr>su_matcher = mt, su_queue = [], su_open = True\<rparr>)]"
  using assms by (simp add: send_def)

end
