(* ===== verification/Guest_Agent.thy ===== *)
theory Guest_Agent
  imports Guest_Proc Guest_Device Warm_Fork
begin

text \<open>
  The guest agent: the storages it mounts for the containers and the orphans it hands over
  (\<^verbatim>\<open>vmm/task/src/sandbox.rs\<close>), its container factory and the life cycle of the processes over the container
  runtime (\<^verbatim>\<open>vmm/task/src/container.rs\<close>), the handling of process exits (\<^verbatim>\<open>vmm/task/src/task.rs\<close>) and the
  adoption request (\<^verbatim>\<open>vmm/task/src/sandbox_service.rs\<close>). What the system calls, the runtime and the files of a
  bundle answer is given by an environment; the calls to the runtime are recorded.
\<close>

section \<open>State\<close>

record adoption_info =
  ai_orphan_pid :: int
  ai_orphan_container_id :: string

record sandbox_resources =
  sr_storages :: "storage list"
  sr_pending_adoptions :: "(string, adoption_info) hmap"

datatype process_status = PCreated | PRunning | PStopped

record init_process =
  ip_id :: string
  ip_pid :: int
  ip_state :: process_status
  ip_exit :: "int option"
  ip_bundle :: string
  ip_adopted_runc_id :: "string option"

record exec_process =
  ep_id :: string
  ep_pid :: int
  ep_state :: process_status
  ep_exit :: "int option"
  ep_container_id :: string

record task_container =
  tk_id :: string
  tk_bundle :: string
  tk_init :: init_process
  tk_exec_adopted :: "string option"
  tk_processes :: "(string, exec_process) hmap"

datatype runc_call =
    RuncCreate string
  | RuncStart string
  | RuncKill string nat bool
  | RuncDelete string
  | RuncPs string
  | RuncExec string

text \<open>The mounts of the guest count how often each place is mounted over.\<close>

record agent =
  ag_containers :: "(string, task_container) hmap"
  ag_resources :: sandbox_resources
  ag_mounted :: "string multiset"
  ag_calls :: "runc_call list"

datatype agent_error =
    MountPointFailed
  | MountFailed
  | VerifyFailed verify_error
  | DeviceTimeout
  | BadScsiAddress
  | DriverUnimplemented
  | SpecUnreadable
  | OptionsInvalid
  | OrphanDead
  | OrphanUnknown
  | StdioInvalid
  | RuntimeFailed reported_error
  | IoFailed
  | PidUnreadable
  | KillNotFound
  | KillUnknown
  | NotCreated
  | AlreadyFinished
  | NoSuchSignal
  | SignalFailed
  | Unimplemented
  | NoSpecInRequest

datatype create_outcome = IoSetupFailed | RuncCreateFailed | CopyIoFailed | NoPid | CreateOk int

record agent_env =
  ae_prepare_point :: "storage \<Rightarrow> bool"
  ae_mount :: "storage \<Rightarrow> bool"
  ae_proc_mounts :: "storage \<Rightarrow> string option"
  ae_umount :: "storage \<Rightarrow> errno option"
  ae_device :: "device_type \<Rightarrow> string \<Rightarrow> device option"
  ae_storages :: "string \<Rightarrow> storage list option"
  ae_options_ok :: "string \<Rightarrow> bool"
  ae_alive :: "int \<Rightarrow> bool"
  ae_stdio_ok :: "string \<Rightarrow> bool"
  ae_create :: "string \<Rightarrow> create_outcome"
  ae_runc :: "runc_call \<Rightarrow> runc_error option"
  ae_log :: "string \<Rightarrow> string option"
  ae_log_de :: "string \<Rightarrow> runtime_log option"
  ae_display :: "runc_error \<Rightarrow> string"
  ae_display_log :: "log_error \<Rightarrow> string"
  ae_exec_pid :: "string \<Rightarrow> int option"
  ae_signal :: "int \<Rightarrow> nat \<Rightarrow> bool"

section \<open>Storages\<close>

definition same_storage :: "storage \<Rightarrow> storage \<Rightarrow> bool" where
  "same_storage s t \<longleftrightarrow> st_host_source s = st_host_source t \<and> st_type s = st_type t \<and> st_mount_point s = st_mount_point t"

definition mount_storage :: "agent_env \<Rightarrow> storage \<Rightarrow> agent \<Rightarrow> agent_error option \<times> agent" where
  "mount_storage env s ag =
     (if \<not> ae_prepare_point env s then (Some MountPointFailed, ag)
      else if \<not> ae_mount env s then (Some MountFailed, ag)
      else (map_option VerifyFailed (verify_storage_mount (ae_proc_mounts env s) s),
            ag\<lparr>ag_mounted := add_mset (st_mount_point s) (ag_mounted ag)\<rparr>))"

definition get_device :: "agent_env \<Rightarrow> device_type \<Rightarrow> string \<Rightarrow> agent_error + device" where
  "get_device env ty addr = (case ae_device env ty addr of None \<Rightarrow> Inl DeviceTimeout | Some d \<Rightarrow> Inr d)"

text \<open>The bus is scanned only for an address of two parts.\<close>

definition scan_scsi_bus :: "string \<Rightarrow> agent_error option" where
  "scan_scsi_bus scsi_addr = (if length (split_on (CHR '':'') scsi_addr) \<noteq> 2 then Some BadScsiAddress else None)"

text \<open>The storage comes back with the device as its source.\<close>

definition mount_device :: "agent_env \<Rightarrow> device_type \<Rightarrow> storage \<Rightarrow> agent \<Rightarrow> (agent_error + storage) \<times> agent" where
  "mount_device env ty s ag =
     (case get_device env ty (st_source s) of
        Inl e \<Rightarrow> (Inl e, ag)
      | Inr d \<Rightarrow>
          let s' = s\<lparr>st_source := dv_path d\<rparr> in
          (case mount_storage env s' ag of
             (Some e, ag') \<Rightarrow> (Inl e, ag')
           | (None, ag') \<Rightarrow> (Inr s', ag')))"

definition handle_scsi_storage :: "agent_env \<Rightarrow> storage \<Rightarrow> agent \<Rightarrow> (agent_error + storage) \<times> agent" where
  "handle_scsi_storage env s ag =
     (case scan_scsi_bus (st_source s) of
        Some e \<Rightarrow> (Inl e, ag)
      | None \<Rightarrow> mount_device env Scsi s ag)"

definition handle_blk_storage :: "agent_env \<Rightarrow> storage \<Rightarrow> agent \<Rightarrow> (agent_error + storage) \<times> agent" where
  "handle_blk_storage env s ag = mount_device env Blk s ag"

definition handle_ephemeral :: "agent_env \<Rightarrow> storage \<Rightarrow> agent \<Rightarrow> (agent_error + storage) \<times> agent" where
  "handle_ephemeral env s ag =
     (case mount_storage env s ag of (Some e, ag') \<Rightarrow> (Inl e, ag') | (None, ag') \<Rightarrow> (Inr s, ag'))"

definition handle_storage :: "agent_env \<Rightarrow> storage \<Rightarrow> agent \<Rightarrow> (agent_error + storage) \<times> agent" where
  "handle_storage env s ag =
     (if st_driver s = ''scsi'' then handle_scsi_storage env s ag
      else if st_driver s = ''ephemeral'' then handle_ephemeral env s ag
      else if st_driver s = ''blk'' then handle_blk_storage env s ag
      else (Inl DriverUnimplemented, ag))"

definition set_storages :: "storage list \<Rightarrow> agent \<Rightarrow> agent" where
  "set_storages ss ag = ag\<lparr>ag_resources := (ag_resources ag)\<lparr>sr_storages := ss\<rparr>\<rparr>"

abbreviation ag_storages :: "agent \<Rightarrow> storage list" where
  "ag_storages ag \<equiv> sr_storages (ag_resources ag)"

text \<open>The first storage that is the same is referenced once more.\<close>

fun refer_first :: "string \<Rightarrow> storage \<Rightarrow> storage list \<Rightarrow> storage list option" where
  "refer_first c s [] = None"
| "refer_first c s (t # ts) =
     (if same_storage t s then Some (refer c t # ts) else map_option (Cons t) (refer_first c s ts))"

definition add_storage :: "agent_env \<Rightarrow> string \<Rightarrow> storage \<Rightarrow> agent \<Rightarrow> agent_error option \<times> agent" where
  "add_storage env c s ag =
     (case refer_first c s (ag_storages ag) of
        Some ss \<Rightarrow> (None, set_storages ss ag)
      | None \<Rightarrow>
          (case handle_storage env s ag of
             (Inl e, ag') \<Rightarrow> (Some e, ag')
           | (Inr s', ag') \<Rightarrow> (None, set_storages (ag_storages ag' @ [s']) ag')))"

fun add_storages :: "agent_env \<Rightarrow> string \<Rightarrow> storage list \<Rightarrow> agent \<Rightarrow> agent_error option \<times> agent" where
  "add_storages env c [] ag = (None, ag)"
| "add_storages env c (s # ss) ag =
     (case add_storage env c s ag of
        (Some e, ag') \<Rightarrow> (Some e, ag')
      | (None, ag') \<Rightarrow> add_storages env c ss ag')"

definition unmount_storage :: "agent_env \<Rightarrow> storage \<Rightarrow> agent \<Rightarrow> agent" where
  "unmount_storage env s ag =
     (case ae_umount env s of
        None \<Rightarrow> ag\<lparr>ag_mounted := ag_mounted ag - {#st_mount_point s#}\<rparr>
      | Some _ \<Rightarrow> ag)"

definition agent_gc_storages :: "agent_env \<Rightarrow> agent \<Rightarrow> agent" where
  "agent_gc_storages env ag =
     (let removed = filter (\<lambda>s. ref_count s = 0) (ag_storages ag) in
      fold (unmount_storage env) removed (set_storages (filter (\<lambda>s. ref_count s \<noteq> 0) (ag_storages ag)) ag))"

definition defer_storages :: "agent_env \<Rightarrow> string \<Rightarrow> agent \<Rightarrow> agent" where
  "defer_storages env c ag = agent_gc_storages env (set_storages (map (storage_defer c) (ag_storages ag)) ag)"

section \<open>Adoption\<close>

definition register_adoption :: "string \<Rightarrow> int \<Rightarrow> string \<Rightarrow> agent \<Rightarrow> agent" where
  "register_adoption new_id pid orphan_id ag =
     ag\<lparr>ag_resources := (ag_resources ag)\<lparr>sr_pending_adoptions :=
        hm_insert new_id \<lparr>ai_orphan_pid = pid, ai_orphan_container_id = orphan_id\<rparr> (sr_pending_adoptions (ag_resources ag))\<rparr>\<rparr>"

definition take_adoption :: "string \<Rightarrow> agent \<Rightarrow> adoption_info option \<times> agent" where
  "take_adoption c ag =
     (hm_get (sr_pending_adoptions (ag_resources ag)) c,
      ag\<lparr>ag_resources := (ag_resources ag)\<lparr>sr_pending_adoptions := hm_remove c (sr_pending_adoptions (ag_resources ag))\<rparr>\<rparr>)"

definition adopt_container :: "string \<Rightarrow> string \<Rightarrow> agent \<Rightarrow> agent_error option \<times> agent" where
  "adopt_container old_id new_id ag =
     (case hm_get (ag_containers ag) old_id of
        None \<Rightarrow> (Some OrphanUnknown, ag)
      | Some c \<Rightarrow>
          (None, register_adoption new_id (ip_pid (tk_init c)) old_id (ag\<lparr>ag_containers := hm_remove old_id (ag_containers ag)\<rparr>)))"

definition agent_pids :: "agent \<Rightarrow> (string, nat) hmap" where
  "agent_pids ag = map (\<lambda>(i, c). (i, nat (ip_pid (tk_init c)))) (ag_containers ag)"

definition verify_orphan_alive :: "agent_env \<Rightarrow> int \<Rightarrow> agent_error option" where
  "verify_orphan_alive env pid = (if ae_alive env pid then None else Some OrphanDead)"

section \<open>The factory\<close>

definition init_process_new :: "string \<Rightarrow> string \<Rightarrow> string option \<Rightarrow> init_process" where
  "init_process_new i bundle adopted =
     \<lparr>ip_id = i, ip_pid = 0, ip_state = PCreated, ip_exit = None, ip_bundle = bundle, ip_adopted_runc_id = adopted\<rparr>"

definition record_call :: "runc_call \<Rightarrow> agent \<Rightarrow> agent" where
  "record_call k ag = ag\<lparr>ag_calls := ag_calls ag @ [k]\<rparr>"

definition runtime_failure :: "agent_env \<Rightarrow> string \<Rightarrow> runc_error \<Rightarrow> agent_error" where
  "runtime_failure env bundle e = RuntimeFailed (runtime_error (ae_log_de env) (ae_log env bundle) e)"

text \<open>The pid of the new process, after the runtime was asked to create it.\<close>

definition do_create :: "agent_env \<Rightarrow> init_process \<Rightarrow> agent \<Rightarrow> (agent_error + init_process) \<times> agent" where
  "do_create env ip ag =
     (let called = record_call (RuncCreate (ip_id ip)) ag in
      case ae_create env (ip_id ip) of
        IoSetupFailed \<Rightarrow> (Inl IoFailed, ag)
      | RuncCreateFailed \<Rightarrow>
          (Inl (runtime_failure env (ip_bundle ip)
                  (case ae_runc env (RuncCreate (ip_id ip)) of Some e \<Rightarrow> e | None \<Rightarrow> OtherRuncError)), called)
      | CopyIoFailed \<Rightarrow> (Inl IoFailed, called)
      | NoPid \<Rightarrow> (Inl PidUnreadable, called)
      | CreateOk pid \<Rightarrow> (Inr (ip\<lparr>ip_pid := pid\<rparr>), called))"

definition task_container_new :: "string \<Rightarrow> string \<Rightarrow> init_process \<Rightarrow> string option \<Rightarrow> task_container" where
  "task_container_new i bundle ip adopted =
     \<lparr>tk_id = i, tk_bundle = bundle, tk_init = ip, tk_exec_adopted = adopted, tk_processes = []\<rparr>"

definition create_adopted :: "agent_env \<Rightarrow> string \<Rightarrow> string \<Rightarrow> adoption_info \<Rightarrow> agent_error + task_container" where
  "create_adopted env i bundle ad =
     (case verify_orphan_alive env (ai_orphan_pid ad) of
        Some e \<Rightarrow> Inl e
      | None \<Rightarrow>
          let orphan = ai_orphan_container_id ad;
              ip = (init_process_new i bundle (Some orphan))\<lparr>ip_pid := ai_orphan_pid ad, ip_state := PRunning\<rparr>
          in Inr (task_container_new i bundle ip (Some orphan)))"

definition create_fresh :: "agent_env \<Rightarrow> string \<Rightarrow> string \<Rightarrow> agent \<Rightarrow> (agent_error + task_container) \<times> agent" where
  "create_fresh env i bundle ag =
     (if \<not> ae_stdio_ok env i then (Inl StdioInvalid, ag)
      else (case do_create env (init_process_new i bundle None) ag of
              (Inl e, ag') \<Rightarrow> (Inl e, ag')
            | (Inr ip, ag') \<Rightarrow> (Inr (task_container_new i bundle ip None), ag')))"

definition factory_create :: "agent_env \<Rightarrow> string \<Rightarrow> agent \<Rightarrow> (agent_error + task_container) \<times> agent" where
  "factory_create env i ag =
     (let bundle = KUASAR_STATE_DIR @ ''/'' @ i in
      case ae_storages env i of
        None \<Rightarrow> (Inl SpecUnreadable, ag)
      | Some storages \<Rightarrow>
          (case add_storages env i storages ag of
             (Some e, ag1) \<Rightarrow> (Inl e, ag1)
           | (None, ag1) \<Rightarrow>
               if \<not> ae_options_ok env i then (Inl OptionsInvalid, ag1)
               else (case take_adoption i ag1 of
                       (Some ad, ag2) \<Rightarrow> (create_adopted env i bundle ad, ag2)
                     | (None, ag2) \<Rightarrow> create_fresh env i bundle ag2)))"

definition factory_cleanup :: "agent_env \<Rightarrow> task_container \<Rightarrow> agent \<Rightarrow> agent" where
  "factory_cleanup env c ag = defer_storages env (tk_id c) ag"

section \<open>The init process\<close>

definition runc_id :: "init_process \<Rightarrow> string" where
  "runc_id ip = (case ip_adopted_runc_id ip of Some i \<Rightarrow> i | None \<Rightarrow> ip_id ip)"

definition init_start :: "agent_env \<Rightarrow> init_process \<Rightarrow> agent \<Rightarrow> (agent_error + init_process) \<times> agent" where
  "init_start env ip ag =
     (if ip_adopted_runc_id ip \<noteq> None then (Inr (ip\<lparr>ip_state := PRunning\<rparr>), ag)
      else
        let k = RuncStart (ip_id ip) in
        (case ae_runc env k of
           Some e \<Rightarrow> (Inl (runtime_failure env (ip_bundle ip) e), record_call k ag)
         | None \<Rightarrow> (Inr (ip\<lparr>ip_state := PRunning\<rparr>), record_call k ag)))"

text \<open>The text of an error of the runtime decides whether the process was gone already.\<close>

definition check_kill_error :: "string \<Rightarrow> agent_error" where
  "check_kill_error emsg =
     (let l = map ascii_lower emsg in
      if str_contains ''process already finished'' l \<or> str_contains ''container not running'' l \<or> str_contains ''no such process'' l
      then KillNotFound
      else if str_contains ''does not exist'' l then KillNotFound
      else KillUnknown)"

definition error_text :: "agent_env \<Rightarrow> string \<Rightarrow> runc_error \<Rightarrow> reported_error \<Rightarrow> string" where
  "error_text env msg e r =
     msg @ '': '' @
     (case r of
        RuntimeMessage t \<Rightarrow> t
      | RuntimeStderr t \<Rightarrow> t
      | EmptyLogMessage \<Rightarrow> ''empty msg in log file: '' @ ae_display env e
      | Unretrievable le \<Rightarrow> ''unable to retrieve OCI runtime error ('' @ ae_display_log env le @ ''): '' @ ae_display env e)"

definition init_kill :: "agent_env \<Rightarrow> nat \<Rightarrow> bool \<Rightarrow> init_process \<Rightarrow> agent \<Rightarrow> agent_error option \<times> agent" where
  "init_kill env sig all ip ag =
     (let k = RuncKill (runc_id ip) sig all in
      (case ae_runc env k of
         None \<Rightarrow> None
       | Some e \<Rightarrow>
           Some (check_kill_error (error_text env ''OCI runtime kill failed'' e
                   (runtime_error (ae_log_de env) (ae_log env (ip_bundle ip)) e))),
       record_call k ag))"

definition init_delete :: "agent_env \<Rightarrow> init_process \<Rightarrow> agent \<Rightarrow> agent_error option \<times> agent" where
  "init_delete env ip ag =
     (let k = RuncDelete (runc_id ip) in
      (case ae_runc env k of
         None \<Rightarrow> None
       | Some e \<Rightarrow>
           if str_contains ''does not exist'' (map ascii_lower (ae_display env e)) then None
           else Some (runtime_failure env (ip_bundle ip) e),
       record_call k ag))"

definition init_update :: "(int \<Rightarrow> bool) \<Rightarrow> init_process \<Rightarrow> agent_error option" where
  "init_update upd ip = (if ip_pid ip \<le> 0 then Some NotCreated else if upd (ip_pid ip) then None else Some IoFailed)"

definition init_stats :: "(int \<Rightarrow> 'm option) \<Rightarrow> init_process \<Rightarrow> agent_error + 'm" where
  "init_stats collect ip =
     (if ip_pid ip \<le> 0 then Inl NotCreated
      else (case collect (ip_pid ip) of None \<Rightarrow> Inl IoFailed | Some x \<Rightarrow> Inr x))"

definition init_ps :: "agent_env \<Rightarrow> (string \<Rightarrow> int list) \<Rightarrow> init_process \<Rightarrow> agent \<Rightarrow> (agent_error + int list) \<times> agent" where
  "init_ps env pids ip ag =
     (let k = RuncPs (runc_id ip) in
      (case ae_runc env k of Some _ \<Rightarrow> Inl IoFailed | None \<Rightarrow> Inr (pids (runc_id ip)), record_call k ag))"


section \<open>Further processes\<close>

definition exec_create :: "agent_env \<Rightarrow> bool \<Rightarrow> string \<Rightarrow> task_container \<Rightarrow> agent_error + exec_process" where
  "exec_create env has_spec exec_id c =
     (if \<not> has_spec then Inl NoSpecInRequest
      else if \<not> ae_stdio_ok env exec_id then Inl StdioInvalid
      else Inr \<lparr>ep_id = exec_id, ep_pid = 0, ep_state = PCreated, ep_exit = None,
                ep_container_id = (case tk_exec_adopted c of Some i \<Rightarrow> i | None \<Rightarrow> tk_id c)\<rparr>)"

definition exec_start :: "agent_env \<Rightarrow> string \<Rightarrow> exec_process \<Rightarrow> agent \<Rightarrow> (agent_error + exec_process) \<times> agent" where
  "exec_start env bundle p ag =
     (let k = RuncExec (ep_container_id p) in
      (case ae_runc env k of
         Some e \<Rightarrow> Inl (runtime_failure env bundle e)
       | None \<Rightarrow>
           (case ae_exec_pid env (ep_id p) of
              None \<Rightarrow> Inl PidUnreadable
            | Some pid \<Rightarrow> Inr (p\<lparr>ep_pid := pid, ep_state := PRunning\<rparr>)),
       record_call k ag))"

text \<open>A signal number that does not exist ends the task of the request.\<close>

definition exec_kill :: "agent_env \<Rightarrow> nat \<Rightarrow> exec_process \<Rightarrow> agent_error option" where
  "exec_kill env sig p =
     (if ep_pid p \<le> 0 then Some NotCreated
      else if ep_exit p \<noteq> None then Some AlreadyFinished
      else if sig = 0 \<or> 31 < sig then Some NoSuchSignal
      else if ae_signal env (ep_pid p) sig then None
      else Some SignalFailed)"

section \<open>Exits\<close>

record linux_namespace =
  ln_is_pid :: bool
  ln_path :: "string option"

definition has_shared_pid_namespace :: "linux_namespace list option option \<Rightarrow> bool" where
  "has_shared_pid_namespace spec_linux =
     (case spec_linux of
        None \<Rightarrow> True
      | Some None \<Rightarrow> True
      | Some (Some nss) \<Rightarrow> \<not> list_ex (\<lambda>n. ln_is_pid n \<and> ln_path n = None) nss)"

definition should_kill_all_on_exit :: "linux_namespace list option option option \<Rightarrow> bool" where
  "should_kill_all_on_exit spec = (case spec of None \<Rightarrow> True | Some l \<Rightarrow> has_shared_pid_namespace l)"

fun exit_exec :: "int \<Rightarrow> int \<Rightarrow> (string, exec_process) hmap \<Rightarrow> (string, exec_process) hmap" where
  "exit_exec pid code [] = []"
| "exit_exec pid code ((i, p) # ps) =
     (if ep_pid p = pid then (i, p\<lparr>ep_exit := Some code, ep_state := PStopped\<rparr>) # ps else (i, p) # exit_exec pid code ps)"

text \<open>
  One exit of a process: the containers are walked up to the one whose init process it is; in those before it the
  process may be one that was started later.
\<close>

fun process_exit ::
  "(string \<Rightarrow> linux_namespace list option option option) \<Rightarrow> int \<Rightarrow> int \<Rightarrow> (string, task_container) hmap \<Rightarrow>
     runc_call list \<times> (string, task_container) hmap" where
  "process_exit specs pid code [] = ([], [])"
| "process_exit specs pid code ((i, c) # cs) =
     (if ip_pid (tk_init c) = pid
      then (if should_kill_all_on_exit (specs (tk_bundle c)) then [RuncKill (runc_id (tk_init c)) 9 True] else [],
            (i, c\<lparr>tk_init := (tk_init c)\<lparr>ip_exit := Some code, ip_state := PStopped\<rparr>\<rparr>) # cs)
      else (case process_exit specs pid code cs of
              (ks, cs') \<Rightarrow> (ks, (i, c\<lparr>tk_processes := exit_exec pid code (tk_processes c)\<rparr>) # cs')))"

text \<open>The status word of a process whose exit code is known, as the runtime library expects it.\<close>

definition raw_status :: "int \<Rightarrow> int" where
  "raw_status exit_code =
     (if exit_code \<ge> 128
      then (let sig = exit_code - 128 in if 1 \<le> sig \<and> sig < 128 then sig else exit_code * 256)
      else exit_code * 256)"

end
