(* ===== verification/Guest_Agent_Inv.thy ===== *)
theory Guest_Agent_Inv
  imports Guest_Agent
begin

text \<open>
  What the guest agent keeps: every storage it lists is mounted, under any sequence of requests and with any of the
  system calls failing, and stays mounted as long as a container that asked for it is there. An adopted container
  is run under the name the runtime knows its process by.
\<close>

section \<open>Storages and mounts\<close>

definition storage_key :: "storage \<Rightarrow> string \<times> string \<times> string" where
  "storage_key s = (st_host_source s, st_type s, st_mount_point s)"

definition agent_inv :: "agent \<Rightarrow> bool" where
  "agent_inv ag \<longleftrightarrow> image_mset st_mount_point (mset (ag_storages ag)) \<subseteq># ag_mounted ag \<and>
     list_all storage_wf (ag_storages ag) \<and> distinct (map storage_key (ag_storages ag))"

lemma same_storage_key: "same_storage s t \<longleftrightarrow> storage_key s = storage_key t"
  by (simp add: same_storage_def storage_key_def)

lemma refer_sel [simp]:
  "st_mount_point (refer c s) = st_mount_point s" "storage_key (refer c s) = storage_key s"
  "st_mount_point (storage_defer c s) = st_mount_point s" "storage_key (storage_defer c s) = storage_key s"
  by (simp_all add: refer_def storage_defer_def storage_key_def)

lemma set_storages_sel [simp]:
  "ag_storages (set_storages ss ag) = ss" "ag_mounted (set_storages ss ag) = ag_mounted ag"
  "ag_containers (set_storages ss ag) = ag_containers ag" "ag_calls (set_storages ss ag) = ag_calls ag"
  "sr_pending_adoptions (ag_resources (set_storages ss ag)) = sr_pending_adoptions (ag_resources ag)"
  by (simp_all add: set_storages_def)

lemma refer_first_split:
  assumes "refer_first c s ts = Some ts'"
  obtains us t vs where "ts = us @ t # vs" "same_storage t s" "ts' = us @ refer c t # vs"
proof -
  have "\<exists>us t vs. ts = us @ t # vs \<and> same_storage t s \<and> ts' = us @ refer c t # vs"
    using assms
  proof (induction ts arbitrary: ts')
    case (Cons t ts)
    show ?case
    proof (cases "same_storage t s")
      case True
      then show ?thesis
        using Cons.prems by (intro exI [of _ "[]"]) auto
    next
      case False
      then obtain ss where ss: "refer_first c s ts = Some ss" "ts' = t # ss"
        using Cons.prems by auto
      from Cons.IH [OF ss(1)] show ?thesis
        unfolding ss(2) by (metis append_Cons)
    qed
  qed simp
  then show ?thesis
    using that by blast
qed

lemma refer_first_None: "refer_first c s ts = None \<longleftrightarrow> storage_key s \<notin> storage_key ` set ts"
  by (induction ts) (auto simp: same_storage_key)

lemma mount_storage_sel:
  assumes "mount_storage env s ag = (r, ag')"
  shows "ag_resources ag' = ag_resources ag" "ag_containers ag' = ag_containers ag" "ag_calls ag' = ag_calls ag"
    and "ag_mounted ag \<subseteq># ag_mounted ag'"
    and "r = None \<Longrightarrow> ag_mounted ag' = add_mset (st_mount_point s) (ag_mounted ag)"
  using assms by (auto simp: mount_storage_def split: if_splits)

lemma mount_device_sel:
  assumes "mount_device env ty s ag = (r, ag')"
  shows "ag_resources ag' = ag_resources ag" "ag_containers ag' = ag_containers ag" "ag_calls ag' = ag_calls ag"
    and "ag_mounted ag \<subseteq># ag_mounted ag'"
    and "r = Inr s' \<Longrightarrow> ag_mounted ag' = add_mset (st_mount_point s) (ag_mounted ag) \<and> (\<exists>p. s' = s\<lparr>st_source := p\<rparr>)"
proof -
  have "(ag' = ag \<and> (\<exists>e. r = Inl e)) \<or>
      (\<exists>p x. mount_storage env (s\<lparr>st_source := p\<rparr>) ag = (x, ag') \<and>
         r = (case x of None \<Rightarrow> Inr (s\<lparr>st_source := p\<rparr>) | Some e \<Rightarrow> Inl e))"
    using assms by (fastforce simp: mount_device_def Let_def split: sum.splits prod.splits option.splits)
  then show "ag_resources ag' = ag_resources ag" "ag_containers ag' = ag_containers ag" "ag_calls ag' = ag_calls ag"
    "ag_mounted ag \<subseteq># ag_mounted ag'"
    by (auto dest: mount_storage_sel)
  show "r = Inr s' \<Longrightarrow> ag_mounted ag' = add_mset (st_mount_point s) (ag_mounted ag) \<and> (\<exists>p. s' = s\<lparr>st_source := p\<rparr>)"
    using \<open>_ \<or> _\<close> by (auto dest: mount_storage_sel(5) split: option.splits)
qed

lemma handle_storage_sel:
  assumes "handle_storage env s ag = (r, ag')"
  shows "ag_resources ag' = ag_resources ag" "ag_containers ag' = ag_containers ag" "ag_calls ag' = ag_calls ag"
    and "ag_mounted ag \<subseteq># ag_mounted ag'"
    and "r = Inr s' \<Longrightarrow> ag_mounted ag' = add_mset (st_mount_point s) (ag_mounted ag) \<and> (\<exists>p. s' = s\<lparr>st_source := p\<rparr>)"
proof -
  have "(ag' = ag \<and> (\<exists>e. r = Inl e)) \<or> (\<exists>ty. mount_device env ty s ag = (r, ag')) \<or>
      (\<exists>x. mount_storage env (s\<lparr>st_source := st_source s\<rparr>) ag = (x, ag') \<and>
         r = (case x of None \<Rightarrow> Inr (s\<lparr>st_source := st_source s\<rparr>) | Some e \<Rightarrow> Inl e))"
    using assms
    by (auto simp: handle_storage_def handle_scsi_storage_def handle_blk_storage_def handle_ephemeral_def
        split: if_splits option.splits prod.splits)
  then show "ag_resources ag' = ag_resources ag" "ag_containers ag' = ag_containers ag" "ag_calls ag' = ag_calls ag"
    "ag_mounted ag \<subseteq># ag_mounted ag'"
    by (auto dest: mount_storage_sel mount_device_sel)
  show "r = Inr s' \<Longrightarrow> ag_mounted ag' = add_mset (st_mount_point s) (ag_mounted ag) \<and> (\<exists>p. s' = s\<lparr>st_source := p\<rparr>)"
    using \<open>_ \<or> _\<close>
    by (elim disjE exE conjE)
      (auto dest: mount_storage_sel(5) mount_device_sel(5) intro: exI [of _ "st_source s'"] split: option.splits)
qed

section \<open>Requests\<close>

datatype agent_storage_op = AddStorages string "storage list" | CleanUp string

fun storage_op_step :: "agent_env \<times> agent_storage_op \<Rightarrow> agent \<Rightarrow> agent" where
  "storage_op_step (env, AddStorages c ss) ag = snd (add_storages env c ss ag)"
| "storage_op_step (env, CleanUp c) ag = defer_storages env c ag"

fun storage_op_ok :: "agent_storage_op \<Rightarrow> bool" where
  "storage_op_ok (AddStorages c ss) = list_all storage_wf ss"
| "storage_op_ok (CleanUp c) = True"

text \<open>A container holds a storage that is listed with a reference of the container.\<close>

definition holds :: "string \<Rightarrow> storage \<Rightarrow> agent \<Rightarrow> bool" where
  "holds c s ag \<longleftrightarrow> (\<exists>t \<in> set (ag_storages ag). same_storage t s \<and> 0 < cnt (st_ref_container t) c)"

lemma holds_mounted: "agent_inv ag \<Longrightarrow> holds c s ag \<Longrightarrow> st_mount_point s \<in># ag_mounted ag"
  unfolding agent_inv_def holds_def same_storage_def by (metis image_eqI mset_subset_eqD set_image_mset set_mset_mset)

lemma cnt_refer: "cnt (st_ref_container (refer c s)) d = cnt (st_ref_container s) d + (if d = c then 1 else 0)"
  by (simp add: refer_cnt_inc)

lemma add_storage_inv:
  assumes "add_storage env c s ag = (r, ag')" "agent_inv ag" "storage_wf s"
  shows "agent_inv ag'"
proof (cases "refer_first c s (ag_storages ag)")
  case (Some ss)
  then obtain us t vs where "ag_storages ag = us @ t # vs" "ss = us @ refer c t # vs"
    by (rule refer_first_split)
  moreover have "ag' = set_storages ss ag"
    using assms(1) Some by (simp add: add_storage_def)
  ultimately show ?thesis
    using assms(2) by (auto simp: agent_inv_def storage_wf_refer)
next
  case None
  then have fresh: "storage_key s \<notin> storage_key ` set (ag_storages ag)"
    by (simp add: refer_first_None)
  obtain x ag1 where h: "handle_storage env s ag = (x, ag1)"
    by fastforce
  show ?thesis
  proof (cases x)
    case (Inl e)
    then have "ag' = ag1"
      using assms(1) None h by (simp add: add_storage_def)
    then show ?thesis
      using assms(2) handle_storage_sel(1,4) [OF h] by (auto simp: agent_inv_def intro: subset_mset.trans)
  next
    case (Inr s')
    obtain p where s': "s' = s\<lparr>st_source := p\<rparr>" "ag_mounted ag1 = add_mset (st_mount_point s) (ag_mounted ag)"
      using handle_storage_sel(5) [OF h Inr] by auto
    have "ag' = set_storages (ag_storages ag @ [s']) ag1"
      using assms(1) None h Inr handle_storage_sel(1) [OF h] by (simp add: add_storage_def)
    moreover have "storage_key s' = storage_key s" "st_mount_point s' = st_mount_point s" "storage_wf s'"
      using assms(3) by (simp_all add: s'(1) storage_key_def storage_wf_def)
    ultimately show ?thesis
      using assms(2) fresh by (simp add: agent_inv_def s'(2))
  qed
qed

lemma add_storage_holds_other:
  assumes "add_storage env c s ag = (r, ag')" "holds d t ag"
  shows "holds d t ag'"
proof (cases "refer_first c s (ag_storages ag)")
  case (Some ss)
  then obtain us u vs where "ag_storages ag = us @ u # vs" "ss = us @ refer c u # vs"
    by (rule refer_first_split)
  moreover have "ag' = set_storages ss ag"
    using assms(1) Some by (simp add: add_storage_def)
  ultimately show ?thesis
    using assms(2) by (auto simp: holds_def same_storage_key cnt_refer)
next
  case None
  then show ?thesis
    using assms handle_storage_sel(1)
    by (fastforce simp: add_storage_def holds_def split: prod.splits sum.splits)
qed

lemma add_storage_holds:
  assumes "add_storage env c s ag = (None, ag')" "0 < cnt (st_ref_container s) c"
  shows "holds c s ag'"
proof (cases "refer_first c s (ag_storages ag)")
  case (Some ss)
  then obtain us u vs where "ag_storages ag = us @ u # vs" "same_storage u s" "ss = us @ refer c u # vs"
    by (rule refer_first_split)
  moreover have "ag' = set_storages ss ag"
    using assms(1) Some by (simp add: add_storage_def)
  ultimately show ?thesis
    by (auto simp: holds_def same_storage_key cnt_refer)
next
  case None
  obtain s' ag1 where h: "handle_storage env s ag = (Inr s', ag1)" "ag' = set_storages (ag_storages ag1 @ [s']) ag1"
    using assms(1) None by (auto simp: add_storage_def split: prod.splits sum.splits)
  then obtain p where "s' = s\<lparr>st_source := p\<rparr>"
    using handle_storage_sel(5) [OF h(1)] by auto
  then show ?thesis
    using assms(2) h(2) by (simp add: holds_def same_storage_def)
qed

lemma add_storages_inv:
  "add_storages env c ss ag = (r, ag') \<Longrightarrow> agent_inv ag \<Longrightarrow> list_all storage_wf ss \<Longrightarrow> agent_inv ag'"
  by (induction env c ss ag rule: add_storages.induct) (auto split: prod.splits option.splits dest: add_storage_inv)

lemma add_storages_holds_other:
  "add_storages env c ss ag = (r, ag') \<Longrightarrow> holds d t ag \<Longrightarrow> holds d t ag'"
  by (induction env c ss ag rule: add_storages.induct) (auto split: prod.splits option.splits dest: add_storage_holds_other)

lemma add_storages_holds:
  "add_storages env c ss ag = (None, ag') \<Longrightarrow> list_all (\<lambda>s. 0 < cnt (st_ref_container s) c) ss \<Longrightarrow> s \<in> set ss \<Longrightarrow> holds c s ag'"
proof (induction env c ss ag rule: add_storages.induct)
  case (2 env c t ss ag)
  obtain ag1 where ag1: "add_storage env c t ag = (None, ag1)" "add_storages env c ss ag1 = (None, ag')"
    using "2.prems"(1) by (auto split: prod.splits option.splits)
  show ?case
  proof (cases "s = t")
    case True
    then show ?thesis
      using add_storage_holds [OF ag1(1)] add_storages_holds_other [OF ag1(2)] "2.prems"(2) by simp
  next
    case False
    then show ?thesis
      using "2.IH" ag1 "2.prems" by auto
  qed
qed simp

lemma fold_unmount:
  "ag_resources (fold (unmount_storage env) rs ag) = ag_resources ag \<and>
   ag_mounted ag - image_mset st_mount_point (mset rs) \<subseteq># ag_mounted (fold (unmount_storage env) rs ag) \<and>
   (list_all (\<lambda>s. ae_umount env s = None) rs \<longrightarrow>
      ag_mounted (fold (unmount_storage env) rs ag) = ag_mounted ag - image_mset st_mount_point (mset rs))"
proof (induction rs arbitrary: ag)
  case (Cons s rs)
  let ?ag = "unmount_storage env s ag"
  have one: "ag_resources ?ag = ag_resources ag" "ag_mounted ag - {#st_mount_point s#} \<subseteq># ag_mounted ?ag"
    "ae_umount env s = None \<Longrightarrow> ag_mounted ?ag = ag_mounted ag - {#st_mount_point s#}"
    by (auto simp: unmount_storage_def split: option.splits)
  have "ag_mounted ag - image_mset st_mount_point (mset (s # rs)) = (ag_mounted ag - {#st_mount_point s#}) - image_mset st_mount_point (mset rs)"
    by simp
  also have "\<dots> \<subseteq># ag_mounted ?ag - image_mset st_mount_point (mset rs)"
    using one(2) unfolding subseteq_mset_def count_diff by (blast intro: diff_le_mono)
  finally show ?case
    using Cons [of ?ag] one by (auto intro: subset_mset.trans)
qed simp

definition deferred :: "string \<Rightarrow> agent \<Rightarrow> storage list" where
  "deferred c ag = map (storage_defer c) (ag_storages ag)"

lemma deferred_same:
  "image_mset st_mount_point (mset (deferred c ag)) = image_mset st_mount_point (mset (ag_storages ag))"
  "map storage_key (deferred c ag) = map storage_key (ag_storages ag)"
proof -
  have "map st_mount_point (deferred c ag) = map st_mount_point (ag_storages ag)"
    by (simp add: deferred_def)
  then show "image_mset st_mount_point (mset (deferred c ag)) = image_mset st_mount_point (mset (ag_storages ag))"
    by (metis mset_map)
qed (simp add: deferred_def)

lemma defer_storages_sel:
  "ag_storages (defer_storages env c ag) = filter (\<lambda>s. ref_count s \<noteq> 0) (deferred c ag)"
  "ag_mounted ag - image_mset st_mount_point (mset (filter (\<lambda>s. ref_count s = 0) (deferred c ag)))
     \<subseteq># ag_mounted (defer_storages env c ag)"
  "list_all (\<lambda>s. ae_umount env s = None) (filter (\<lambda>s. ref_count s = 0) (deferred c ag)) \<Longrightarrow>
     ag_mounted (defer_storages env c ag) =
     ag_mounted ag - image_mset st_mount_point (mset (filter (\<lambda>s. ref_count s = 0) (deferred c ag)))"
proof -
  let ?gone = "filter (\<lambda>s. ref_count s = 0) (deferred c ag)" and ?kept = "filter (\<lambda>s. ref_count s \<noteq> 0) (deferred c ag)"
  have "defer_storages env c ag = fold (unmount_storage env) ?gone (set_storages ?kept (set_storages (deferred c ag) ag))"
    by (simp add: defer_storages_def agent_gc_storages_def deferred_def)
  moreover note fold_unmount [of env ?gone "set_storages ?kept (set_storages (deferred c ag) ag)"]
  ultimately show "ag_storages (defer_storages env c ag) = ?kept"
    "ag_mounted ag - image_mset st_mount_point (mset ?gone) \<subseteq># ag_mounted (defer_storages env c ag)"
    "list_all (\<lambda>s. ae_umount env s = None) ?gone \<Longrightarrow>
       ag_mounted (defer_storages env c ag) = ag_mounted ag - image_mset st_mount_point (mset ?gone)"
    by simp_all
qed

lemma defer_storages_inv:
  assumes "agent_inv ag"
  shows "agent_inv (defer_storages env c ag)"
proof -
  let ?gone = "filter (\<lambda>s. ref_count s = 0) (deferred c ag)" and ?kept = "filter (\<lambda>s. ref_count s \<noteq> 0) (deferred c ag)"
  have "mset ?kept + mset ?gone = mset (deferred c ag)"
    by (induction "deferred c ag") auto
  then have "image_mset st_mount_point (mset ?kept) + image_mset st_mount_point (mset ?gone) \<subseteq># ag_mounted ag"
    using assms deferred_same(1) by (metis agent_inv_def image_mset_union)
  then have "image_mset st_mount_point (mset ?kept) \<subseteq># ag_mounted ag - image_mset st_mount_point (mset ?gone)"
    unfolding subseteq_mset_def count_union count_diff by (metis add_le_imp_le_diff)
  then have "image_mset st_mount_point (mset ?kept) \<subseteq># ag_mounted (defer_storages env c ag)"
    using defer_storages_sel(2) subset_mset.trans by blast
  moreover have "list_all storage_wf ?kept"
    using assms by (auto simp: agent_inv_def list_all_iff storage_wf_defer deferred_def)
  moreover have "distinct (map storage_key ?kept)"
    using assms deferred_same(2) [of c ag] by (simp add: agent_inv_def distinct_map_filter del: map_map)
  ultimately show ?thesis
    by (simp add: agent_inv_def defer_storages_sel(1))
qed

lemma defer_storages_holds:
  assumes "agent_inv ag" "holds d t ag" "d \<noteq> c"
  shows "holds d t (defer_storages env c ag)"
proof -
  from assms(2) obtain u where u: "u \<in> set (ag_storages ag)" "same_storage u t" "0 < cnt (st_ref_container u) d"
    by (auto simp: holds_def)
  let ?u = "storage_defer c u"
  have wf: "storage_wf ?u"
    using assms(1) u(1) by (auto simp: agent_inv_def list_all_iff storage_wf_defer)
  have d: "0 < cnt (st_ref_container ?u) d"
    using u(3) assms(3) by (simp add: storage_defer_def)
  then have "ref_count ?u \<noteq> 0"
    using ref_count_zero [OF wf] by auto
  then have "?u \<in> set (ag_storages (defer_storages env c ag))"
    using u(1) by (simp add: defer_storages_sel(1) deferred_def)
  moreover have "same_storage ?u t"
    using u(2) by (simp add: same_storage_key)
  ultimately show ?thesis
    using d unfolding holds_def by blast
qed

lemma storage_op_inv: "agent_inv ag \<Longrightarrow> storage_op_ok op \<Longrightarrow> agent_inv (storage_op_step (env, op) ag)"
  by (cases op) (auto simp: defer_storages_inv intro: add_storages_inv [OF prod.collapse [symmetric]])

lemma storage_ops_inv: "agent_inv ag \<Longrightarrow> list_all (storage_op_ok \<circ> snd) ops \<Longrightarrow> agent_inv (fold storage_op_step ops ag)"
  by (induction ops arbitrary: ag) (auto simp: storage_op_inv)

lemma storage_op_holds:
  "agent_inv ag \<Longrightarrow> holds d t ag \<Longrightarrow> op \<noteq> CleanUp d \<Longrightarrow> holds d t (storage_op_step (env, op) ag)"
  by (cases op) (auto simp: defer_storages_holds intro: add_storages_holds_other [OF prod.collapse [symmetric]])

lemma storage_ops_holds:
  "agent_inv ag \<Longrightarrow> list_all (storage_op_ok \<circ> snd) ops \<Longrightarrow> holds d t ag \<Longrightarrow> CleanUp d \<notin> snd ` set ops \<Longrightarrow>
     holds d t (fold storage_op_step ops ag)"
  by (induction ops arbitrary: ag) (auto simp: storage_op_inv storage_op_holds)

definition agent_new :: agent where
  "agent_new = \<lparr>ag_containers = [], ag_resources = \<lparr>sr_storages = [], sr_pending_adoptions = []\<rparr>, ag_mounted = {#}, ag_calls = []\<rparr>"

lemma agent_new_inv: "agent_inv agent_new"
  by (simp add: agent_inv_def agent_new_def)

section \<open>Adoption\<close>

lemma add_storage_keeps:
  assumes "add_storage env c s ag = (r, ag')"
  shows "ag_containers ag' = ag_containers ag" "ag_calls ag' = ag_calls ag"
    "sr_pending_adoptions (ag_resources ag') = sr_pending_adoptions (ag_resources ag)"
proof -
  obtain x ag1 where h: "handle_storage env s ag = (x, ag1)"
    by fastforce
  have "ag' = ag1 \<or> (\<exists>ss. ag' = set_storages ss ag1) \<or> (\<exists>ss. ag' = set_storages ss ag)"
    using assms h by (auto simp: add_storage_def split: option.splits sum.splits)
  then show "ag_containers ag' = ag_containers ag" "ag_calls ag' = ag_calls ag"
    "sr_pending_adoptions (ag_resources ag') = sr_pending_adoptions (ag_resources ag)"
    using handle_storage_sel(1-3) [OF h] by auto
qed

lemma add_storages_keeps:
  "add_storages env c ss ag = (r, ag') \<Longrightarrow>
     ag_containers ag' = ag_containers ag \<and> ag_calls ag' = ag_calls ag \<and>
     sr_pending_adoptions (ag_resources ag') = sr_pending_adoptions (ag_resources ag)"
  by (induction env c ss ag rule: add_storages.induct) (auto split: prod.splits option.splits dest: add_storage_keeps)

lemma create_takes_adoption:
  assumes "factory_create env i ag = (Inr c, ag')" "hm_get (sr_pending_adoptions (ag_resources ag)) i = Some ad"
  shows "c = task_container_new i (KUASAR_STATE_DIR @ ''/'' @ i)
             ((init_process_new i (KUASAR_STATE_DIR @ ''/'' @ i) (Some (ai_orphan_container_id ad)))
                \<lparr>ip_pid := ai_orphan_pid ad, ip_state := PRunning\<rparr>) (Some (ai_orphan_container_id ad))"
    and "ag_calls ag' = ag_calls ag" "hm_get (sr_pending_adoptions (ag_resources ag')) i = None"
    and "ae_alive env (ai_orphan_pid ad)"
proof -
  obtain ss ag1 where "ae_storages env i = Some ss" and ag1: "add_storages env i ss ag = (None, ag1)"
    using assms(1) by (auto simp: factory_create_def Let_def split: option.splits prod.splits)
  moreover note add_storages_keeps [OF ag1]
  ultimately show "c = task_container_new i (KUASAR_STATE_DIR @ ''/'' @ i)
             ((init_process_new i (KUASAR_STATE_DIR @ ''/'' @ i) (Some (ai_orphan_container_id ad)))
                \<lparr>ip_pid := ai_orphan_pid ad, ip_state := PRunning\<rparr>) (Some (ai_orphan_container_id ad))"
    and "ag_calls ag' = ag_calls ag" "hm_get (sr_pending_adoptions (ag_resources ag')) i = None"
    and "ae_alive env (ai_orphan_pid ad)"
    using assms
    by (auto simp: factory_create_def take_adoption_def create_adopted_def verify_orphan_alive_def Let_def split: if_splits)
qed

section \<open>A small guest\<close>

definition tmpfs_storage :: "string \<Rightarrow> (string, nat) hmap \<Rightarrow> storage" where
  "tmpfs_storage p refs = ro_storage\<lparr>st_driver := ''ephemeral'', st_fstype := ''tmpfs'', st_options := [], st_mount_point := p,
     st_ref_container := refs\<rparr>"

definition small_guest :: agent_env where
  "small_guest = \<lparr>ae_prepare_point = (\<lambda>_. True), ae_mount = (\<lambda>_. True),
     ae_proc_mounts = (\<lambda>s. Some (mount_table kernel_enc
       [\<lparr>pm_source = ''tmpfs'', pm_point = ''/m'', pm_fstype = ''tmpfs'', pm_options = [''rw'']\<rparr>])),
     ae_umount = (\<lambda>_. None), ae_device = (\<lambda>_ _. None), ae_storages = (\<lambda>_. Some []), ae_options_ok = (\<lambda>_. True),
     ae_alive = (\<lambda>_. True), ae_stdio_ok = (\<lambda>_. True), ae_create = (\<lambda>_. CreateOk 7), ae_runc = (\<lambda>_. None),
     ae_log = (\<lambda>_. None), ae_log_de = (\<lambda>_. None), ae_display = (\<lambda>_. []), ae_display_log = (\<lambda>_. []),
     ae_exec_pid = (\<lambda>_. None), ae_signal = (\<lambda>_ _. True)\<rparr>"

lemma tmpfs_storage_sel [simp]:
  "st_mount_point (tmpfs_storage p refs) = p" "st_ref_container (tmpfs_storage p refs) = refs"
  "storage_wf (tmpfs_storage p refs) \<longleftrightarrow> cnt_wf refs"
  by (simp_all add: tmpfs_storage_def storage_wf_def)

lemma small_guest_mounts:
  "handle_storage small_guest (tmpfs_storage ''/m'' refs) ag =
     (Inr (tmpfs_storage ''/m'' refs), ag\<lparr>ag_mounted := add_mset ''/m'' (ag_mounted ag)\<rparr>)"
proof -
  have "kernel_escapes kernel_enc"
    by (simp add: kernel_escapes_def kernel_enc_def)
  moreover have "proc_mount_ok \<lparr>pm_source = ''tmpfs'', pm_point = ''/m'', pm_fstype = ''tmpfs'', pm_options = [''rw'']\<rparr>"
    by (simp add: proc_mount_ok_def path_ok_def blank_free_def is_ws_chars)
  ultimately have "verify_storage_mount (ae_proc_mounts small_guest s) (tmpfs_storage ''/m'' refs) = None" for s
    by (simp add: verify_storage_mount_def small_guest_def find_mount_record_table)
      (simp add: tmpfs_storage_def ro_storage_def has_option_def)
  then show ?thesis
    by (simp add: handle_storage_def handle_ephemeral_def mount_storage_def)
      (simp add: tmpfs_storage_def ro_storage_def small_guest_def)
qed

lemma small_guest_add:
  "add_storages small_guest ''c1'' [tmpfs_storage ''/m'' [(''c1'', 1)]] agent_new =
     (None, agent_new\<lparr>ag_resources := \<lparr>sr_storages = [tmpfs_storage ''/m'' [(''c1'', 1)]], sr_pending_adoptions = []\<rparr>,
        ag_mounted := {#''/m''#}\<rparr>)"
  by (simp add: add_storage_def small_guest_mounts agent_new_def set_storages_def)

section \<open>Properties\<close>

text \<open>
  C9: A storage that was set up for a container stays mounted until that container is cleaned up: whatever storages
  were added and cleaned up before, and whatever is added or cleaned up for other containers afterwards, with any of
  the mounts and unmounts failing on the way.
\<close>

theorem guest_storages_stay_mounted:
  assumes "list_all (storage_op_ok \<circ> snd) ops" "add_storages env c ss (fold storage_op_step ops agent_new) = (None, ag)"
    and "list_all (\<lambda>s. storage_wf s \<and> 0 < cnt (st_ref_container s) c) ss" "s \<in> set ss"
    and "list_all (storage_op_ok \<circ> snd) later" "CleanUp c \<notin> snd ` set later"
  shows "st_mount_point s \<in># ag_mounted (fold storage_op_step later ag)"
proof -
  have "agent_inv (fold storage_op_step ops agent_new)"
    using storage_ops_inv agent_new_inv assms(1) by blast
  then have inv: "agent_inv ag"
    using add_storages_inv [OF assms(2)] assms(3) by (auto simp: list_all_iff)
  have "holds c s ag"
    using add_storages_holds [OF assms(2)] assms(3,4) by (auto simp: list_all_iff)
  then have "holds c s (fold storage_op_step later ag)"
    using storage_ops_holds [OF inv] assms(5,6) by blast
  then show ?thesis
    using holds_mounted storage_ops_inv [OF inv assms(5)] by blast
qed

theorem guest_storages_stay_mounted_witness:
  "''/m'' \<in># ag_mounted (fold storage_op_step
     [(small_guest, AddStorages ''c2'' [tmpfs_storage ''/m'' [(''c2'', 1)]]), (small_guest, CleanUp ''c2'')]
     (snd (add_storages small_guest ''c1'' [tmpfs_storage ''/m'' [(''c1'', 1)]] agent_new)))"
  using guest_storages_stay_mounted [of "[]" small_guest "''c1''" "[tmpfs_storage ''/m'' [(''c1'', 1)]]" _
      "tmpfs_storage ''/m'' [(''c1'', 1)]"
      "[(small_guest, AddStorages ''c2'' [tmpfs_storage ''/m'' [(''c2'', 1)]]), (small_guest, CleanUp ''c2'')]"]
    small_guest_add
  by (simp add: cnt_def cnt_wf_def del: add_storages.simps storage_op_step.simps)

text \<open>
  The cleanup of a container drops its references, keeps every storage that another container references, and
  unmounts the others once each, when the unmounts succeed.
\<close>

theorem guest_cleanup_exact:
  assumes "agent_inv ag" "\<forall>s. ae_umount env s = None"
  shows "ag_storages (factory_cleanup env k ag) =
           map (storage_defer (tk_id k)) (filter (\<lambda>s. \<exists>d. d \<noteq> tk_id k \<and> 0 < cnt (st_ref_container s) d) (ag_storages ag)) \<and>
         ag_mounted (factory_cleanup env k ag) =
           ag_mounted ag - image_mset st_mount_point
             (mset (filter (\<lambda>s. \<not> (\<exists>d. d \<noteq> tk_id k \<and> 0 < cnt (st_ref_container s) d)) (ag_storages ag)))"
proof -
  let ?c = "tk_id k"
  let ?others = "\<lambda>s. \<exists>d. d \<noteq> ?c \<and> 0 < cnt (st_ref_container s) d"
  have live: "ref_count (storage_defer ?c s) \<noteq> 0 \<longleftrightarrow> ?others s" if "s \<in> set (ag_storages ag)" for s
  proof -
    have wf: "storage_wf (storage_defer ?c s)"
      using assms(1) that by (auto simp: agent_inv_def list_all_iff storage_wf_defer)
    have "st_ref_container (storage_defer ?c s) \<noteq> [] \<longleftrightarrow> (\<exists>d. 0 < cnt (st_ref_container (storage_defer ?c s)) d)"
      using wf unfolding storage_wf_def
      by (cases "st_ref_container (storage_defer ?c s)") (auto simp: cnt_wf_contains [symmetric])
    also have "\<dots> \<longleftrightarrow> ?others s"
      by (auto simp: storage_defer_def)
    finally show ?thesis
      using ref_count_zero [OF wf] by simp
  qed
  have kept: "filter (\<lambda>s. ref_count s \<noteq> 0) (deferred ?c ag) = map (storage_defer ?c) (filter ?others (ag_storages ag))"
    unfolding deferred_def filter_map comp_def using live by (intro arg_cong [where f = "map _"] filter_cong) auto
  have gone: "filter (\<lambda>s. ref_count s = 0) (deferred ?c ag) = map (storage_defer ?c) (filter (\<lambda>s. \<not> ?others s) (ag_storages ag))"
    unfolding deferred_def filter_map comp_def using live by (intro arg_cong [where f = "map _"] filter_cong) blast+
  have points: "image_mset st_mount_point (mset (map (storage_defer ?c) xs)) = image_mset st_mount_point (mset xs)" for xs
    by (induction xs) simp_all
  show ?thesis
    unfolding factory_cleanup_def using defer_storages_sel(1,3) [of env ?c ag] assms(2)
    by (simp only: kept gone points) (simp add: list_all_iff)
qed

theorem guest_cleanup_exact_witness:
  "ag_storages (factory_cleanup small_guest (task_container_new ''c1'' [] (init_process_new ''c1'' [] None) None)
     (agent_new\<lparr>ag_resources := \<lparr>sr_storages = [tmpfs_storage ''/m'' [(''c1'', 1)], tmpfs_storage ''/n'' [(''c2'', 1)]],
        sr_pending_adoptions = []\<rparr>, ag_mounted := {#''/m'', ''/n''#}\<rparr>)) =
   [storage_defer ''c1'' (tmpfs_storage ''/n'' [(''c2'', 1)])]"
proof -
  let ?ag = "agent_new\<lparr>ag_resources := \<lparr>sr_storages = [tmpfs_storage ''/m'' [(''c1'', 1)], tmpfs_storage ''/n'' [(''c2'', 1)]],
        sr_pending_adoptions = []\<rparr>, ag_mounted := {#''/m'', ''/n''#}\<rparr>"
  have "agent_inv ?ag"
    by (simp add: agent_inv_def cnt_wf_def storage_key_def)
  moreover have "\<forall>s. ae_umount small_guest s = None"
    by (simp add: small_guest_def)
  moreover have "\<exists>d. d \<noteq> ''c1'' \<and> 0 < cnt [(''c2'', 1)] d"
    by (rule exI [of _ "''c2''"]) (simp add: cnt_def)
  moreover have "\<not> (\<exists>d. d \<noteq> ''c1'' \<and> 0 < cnt [(''c1'', 1)] d)"
    by (simp add: cnt_def)
  ultimately show ?thesis
    using guest_cleanup_exact [of ?ag small_guest "task_container_new ''c1'' [] (init_process_new ''c1'' [] None) None"]
    by (simp add: task_container_new_def)
qed



text \<open>
  An orphan that was adopted itself is registered under the name it has in the agent and not under the one the
  runtime has for it, so what is done to the new container reaches no process.
\<close>

lemma readopted_loses_runtime_name:
  assumes "hm_get (ag_containers ag) old_id = Some c" "ip_adopted_runc_id (tk_init c) = Some first_id" "first_id \<noteq> old_id"
    and "factory_create env new_id (snd (adopt_container old_id new_id ag)) = (Inr c', ag2)"
  shows "runc_id (tk_init c') = old_id" "runc_id (tk_init c') \<noteq> runc_id (tk_init c)"
proof -
  have "hm_get (sr_pending_adoptions (ag_resources (snd (adopt_container old_id new_id ag)))) new_id =
      Some \<lparr>ai_orphan_pid = ip_pid (tk_init c), ai_orphan_container_id = old_id\<rparr>"
    using assms(1) by (simp add: adopt_container_def register_adoption_def)
  then show "runc_id (tk_init c') = old_id" "runc_id (tk_init c') \<noteq> runc_id (tk_init c)"
    using create_takes_adoption(1) [OF assms(4)] assms(2,3)
    by (simp_all add: task_container_new_def init_process_new_def runc_id_def)
qed

text \<open>
  The host writes the references of all containers into the record of a storage. A reference of a container that
  never gets to the guest is never dropped there, and the mount outlives the container that asked for it.
\<close>

lemma foreign_reference_leaks:
  "''/m'' \<in># ag_mounted (defer_storages small_guest ''c2''
     (snd (add_storages small_guest ''c2'' [tmpfs_storage ''/m'' [(''c1'', 1), (''c2'', 1)]] agent_new)))"
proof -
  let ?s = "tmpfs_storage ''/m'' [(''c1'', 1), (''c2'', 1)]"
  obtain ag where ag: "add_storages small_guest ''c2'' [?s] agent_new = (None, ag)" "ag_storages ag = [?s]"
    by (simp add: add_storage_def small_guest_mounts agent_new_def set_storages_def)
  have inv: "agent_inv ag"
    using add_storages_inv [OF ag(1) agent_new_inv] by (simp add: cnt_wf_def)
  have "holds ''c1'' ?s ag"
    unfolding holds_def ag(2) by (simp add: same_storage_key cnt_def)
  then have "holds ''c1'' ?s (defer_storages small_guest ''c2'' ag)"
    by (rule defer_storages_holds [OF inv]) simp
  then show ?thesis
    using holds_mounted [OF defer_storages_inv [OF inv]] ag(1) by fastforce
qed

end
