(* ===== verification/Agent_Client.thy ===== *)
theory Agent_Client
  imports Guest_Proc "HOL-Library.Word"
begin

text \<open>
  The sandboxer as a client of the guest agent (\<^verbatim>\<open>vmm/sandbox/src/client.rs\<close>): the address it connects to, the
  attempts until a deadline, and the synchronisation of the guest clock with the host, together with the handler of
  the agent that answers it (\<^verbatim>\<open>vmm/task/src/sandbox_service.rs\<close>).
\<close>

section \<open>Addresses\<close>

datatype socket_target =
    UnixSocket string
  | VSocket nat nat
  | HvSocket string string

definition parse_vsock :: "string \<Rightarrow> socket_target option" where
  "parse_vsock address =
     (let v = split_on (CHR '':'') address in
      if length v < 2 then None
      else (case parse_uint u32_max (v ! 0) of
              None \<Rightarrow> None
            | Some cid \<Rightarrow> map_option (VSocket cid) (parse_uint u32_max (v ! 1))))"

definition parse_hvsock :: "string \<Rightarrow> socket_target option" where
  "parse_hvsock address =
     (let v = split_on (CHR '':'') address in
      if length v < 2 then None else Some (HvSocket (v ! 0) (v ! 1)))"

text \<open>Which socket an address leads to, before anything is opened\<close>

definition connect_to_socket :: "string \<Rightarrow> socket_target option" where
  "connect_to_socket address =
     (case strip_prefix ''unix://'' address of
        Some a \<Rightarrow> Some (UnixSocket a)
      | None \<Rightarrow>
          (case strip_prefix ''vsock://'' address of
             Some a \<Rightarrow> parse_vsock a
           | None \<Rightarrow>
               (case strip_prefix ''hvsock://'' address of
                  Some a \<Rightarrow> parse_hvsock a
                | None \<Rightarrow> Some (UnixSocket address))))"

section \<open>Attempts\<close>

datatype io_kind = KBrokenPipe | KConnectionReset | KConnectionRefused | KNotFound | KOtherKind

text \<open>
  An error is an input/output error or an error with a chain of sources; a formatted message has no source, whatever
  error its text was made of.
\<close>

datatype client_error = ErrIO io_kind | ErrOther "io_kind list" | ErrElse

definition fatal_kind :: "io_kind \<Rightarrow> bool" where
  "fatal_kind k \<longleftrightarrow> k = KBrokenPipe \<or> k = KConnectionReset"

definition is_fatal_error :: "client_error \<Rightarrow> bool" where
  "is_fatal_error e =
     (case e of ErrIO k \<Rightarrow> fatal_kind k | ErrOther ks \<Rightarrow> list_ex fatal_kind ks | ErrElse \<Rightarrow> False)"

text \<open>What one attempt on a socket of the hypervisor meets.\<close>

datatype hv_attempt =
    HvConnectFailed io_kind
  | HvWriteFailed io_kind
  | HvReadFailed io_kind
  | HvResponse string
  | HvTimeout

definition connect_to_hvsocket :: "hv_attempt \<Rightarrow> client_error option" where
  "connect_to_hvsocket a =
     (case a of
        HvConnectFailed k \<Rightarrow> Some (ErrIO k)
      | HvWriteFailed k \<Rightarrow> Some (ErrOther [])
      | HvReadFailed k \<Rightarrow> Some (ErrOther [])
      | HvResponse r \<Rightarrow> if starts_with ''OK'' r then None else Some (ErrOther [])
      | HvTimeout \<Rightarrow> Some (ErrOther []))"

text \<open>The attempts that fit before the deadline, in order; an error means the deadline has passed or one was fatal.\<close>

fun new_ttrpc_client_with_timeout :: "client_error option list \<Rightarrow> nat option" where
  "new_ttrpc_client_with_timeout [] = None"
| "new_ttrpc_client_with_timeout (a # as) =
     (case a of None \<Rightarrow> Some 0 | Some _ \<Rightarrow> map_option Suc (new_ttrpc_client_with_timeout as))"

fun new_ttrpc_client_with_fast_fail :: "client_error option list \<Rightarrow> nat option" where
  "new_ttrpc_client_with_fast_fail [] = None"
| "new_ttrpc_client_with_fast_fail (a # as) =
     (case a of
        None \<Rightarrow> Some 0
      | Some e \<Rightarrow> if is_fatal_error e then None else map_option Suc (new_ttrpc_client_with_fast_fail as))"

section \<open>The clock\<close>

record sync_packet =
  sp_client_send :: int
  sp_client_arrive :: int
  sp_server_send :: int
  sp_server_arrive :: int
  sp_delta :: int

definition in_i64 :: "int \<Rightarrow> bool" where
  "in_i64 n \<longleftrightarrow> - (2 ^ 63) \<le> n \<and> n < 2 ^ 63"

definition checked :: "int \<Rightarrow> int option" where
  "checked n = (if in_i64 n then Some n else None)"

text \<open>Division rounds toward zero.\<close>

definition half :: "int \<Rightarrow> int" where
  "half n = (if n < 0 then - ((- n) div 2) else n div 2)"

definition checked_compute_delta :: "int \<Rightarrow> int \<Rightarrow> int \<Rightarrow> int \<Rightarrow> int option" where
  "checked_compute_delta c_send c_arrive s_send s_arrive =
     (case checked (c_send - c_arrive) of
        None \<Rightarrow> None
      | Some delta_client \<Rightarrow>
          (case checked (s_arrive - s_send) of
             None \<Rightarrow> None
           | Some delta_server \<Rightarrow>
               (case checked (delta_client + delta_server) of
                  None \<Rightarrow> None
                | Some delta_sum \<Rightarrow> checked (half delta_sum))))"

definition TIME_DIFF_TOLERANCE_IN_MS :: int where "TIME_DIFF_TOLERANCE_IN_MS = 10"

definition tolerance_nanos :: int where "tolerance_nanos = TIME_DIFF_TOLERANCE_IN_MS * 1000000"

text \<open>
  The agent: a packet without a delta is filled with the two readings of its clock, one with a delta moves the clock.
  The delta is taken as an unsigned number; adding that many nanoseconds to a clock reading is the business of the
  system library.
\<close>

definition guest_sync_clock :: "(int \<Rightarrow> 64 word \<Rightarrow> int) \<Rightarrow> int \<Rightarrow> int \<Rightarrow> sync_packet \<Rightarrow> sync_packet \<times> int option" where
  "guest_sync_clock ts_add now now' req =
     (if sp_delta req = 0
      then (req\<lparr>sp_client_arrive := now, sp_server_send := now'\<rparr>, None)
      else (req, Some (ts_add now (word_of_int (sp_delta req)))))"

text \<open>
  One round: the four clock readings in their order, and the reading of the guest clock when a delta arrives. The
  result is the value the guest clock is set to, if any.
\<close>

definition do_once_sync_clock ::
  "(int \<Rightarrow> 64 word \<Rightarrow> int) \<Rightarrow> int \<Rightarrow> int \<Rightarrow> int \<Rightarrow> int \<Rightarrow> int \<Rightarrow> int option option" where
  "do_once_sync_clock ts_add host_send guest_arrive guest_send host_arrive guest_later =
     (let req = \<lparr>sp_client_send = host_send, sp_client_arrive = 0, sp_server_send = 0, sp_server_arrive = 0, sp_delta = 0\<rparr>;
          p = (fst (guest_sync_clock ts_add guest_arrive guest_send req))\<lparr>sp_server_arrive := host_arrive\<rparr>
      in case checked_compute_delta (sp_client_send p) (sp_client_arrive p) (sp_server_send p) (sp_server_arrive p) of
           None \<Rightarrow> None
         | Some d \<Rightarrow>
             if tolerance_nanos < \<bar>d\<bar> then Some (snd (guest_sync_clock ts_add guest_later guest_later (p\<lparr>sp_delta := d\<rparr>)))
             else Some None)"

section \<open>Facts about addresses and attempts\<close>

lemma hvsock_roundtrip:
  assumes "CHR '':'' \<notin> set path"
  shows "connect_to_socket (''hvsock://'' @ path @ '':'' @ show_nat port) = Some (HvSocket path (show_nat port))"
proof -
  have "CHR '':'' \<notin> set (show_nat port)"
    by (rule not_digit_in_show) (simp add: is_digit_def)
  then have "split_on (CHR '':'') (path @ '':'' @ show_nat port) = [path, show_nat port]"
    using split_on_append [OF assms, of "show_nat port"] by (simp add: split_on_notin)
  then show ?thesis
    by (simp add: connect_to_socket_def strip_prefix_def parse_hvsock_def)
qed

lemma vsock_roundtrip:
  assumes "cid \<le> u32_max" "port \<le> u32_max"
  shows "connect_to_socket (''vsock://'' @ show_nat cid @ '':'' @ show_nat port) = Some (VSocket cid port)"
proof -
  have colon: "CHR '':'' \<notin> set (show_nat n)" for n
    by (rule not_digit_in_show) (simp add: is_digit_def)
  have "split_on (CHR '':'') (show_nat cid @ '':'' @ show_nat port) = [show_nat cid, show_nat port]"
    using split_on_append [OF colon, of cid "show_nat port"] by (simp add: split_on_notin colon)
  then show ?thesis
    using assms by (simp add: connect_to_socket_def strip_prefix_def parse_vsock_def parse_show_nat)
qed

text \<open>A connection that is reset or broken after it was made is not told from one that is not there yet.\<close>

lemma broken_connection_not_fatal:
  "connect_to_hvsocket a = Some e \<Longrightarrow> is_fatal_error e \<longleftrightarrow> (\<exists>k. a = HvConnectFailed k \<and> fatal_kind k)"
  by (cases a) (auto simp: connect_to_hvsocket_def is_fatal_error_def split: if_splits)

section \<open>The error of the clock\<close>

lemma half_bounds: "0 \<le> n \<Longrightarrow> 2 * half n \<le> n \<and> n \<le> 2 * half n + 1 \<and> 0 \<le> half n"
  by (simp add: half_def) presburger

lemma delta_small: "checked_compute_delta a b c d = Some n \<Longrightarrow> \<bar>n\<bar> \<le> 2 ^ 62"
  by (auto simp: checked_compute_delta_def checked_def in_i64_def half_def split: if_splits option.splits)

lemma compute_delta_offset:
  assumes "\<bar>off\<bar> < 2 ^ 60" "0 \<le> d1" "d1 < 2 ^ 60" "0 \<le> d2" "d2 < 2 ^ 60"
  shows "checked_compute_delta t (t + d1 + off) (t + d1 + p + off) (t + d1 + p + d2) = Some (half (d2 - d1 - 2 * off))"
proof -
  have "t - (t + d1 + off) = - d1 - off" "t + d1 + p + d2 - (t + d1 + p + off) = d2 - off" "- d1 - off + (d2 - off) = d2 - d1 - 2 * off"
    by simp_all
  moreover have "in_i64 (- d1 - off)" "in_i64 (d2 - off)" "in_i64 (d2 - d1 - 2 * off)"
    using assms by (auto simp: in_i64_def)
  moreover have "in_i64 (half (d2 - d1 - 2 * off))"
    using assms by (auto simp: in_i64_def half_def)
  ultimately show ?thesis
    by (simp add: checked_compute_delta_def checked_def)
qed



end
