(* ===== verification/Warm_Fork_Workload.thy ===== *)
theory Warm_Fork_Workload
  imports Warm_Fork_Inv "HOL-Library.Sublist"
begin

text \<open>
  The other end of the injection protocol: the package a workload is built with
  (\<^verbatim>\<open>examples/warmfork-workload/go/warmfork/protocol.go\<close>), and the guest agent and all workloads together. The
  channel between the two is given by the histories: what a workload may read next is the next message the agent
  has written to it, and what the agent has received is the beginning of what the workload has written.
\<close>

section \<open>A workload on one connection\<close>

datatype wk_state =
    WkSendCaps
  | WkAwaitFirst
  | WkSendReject
  | WkSendReady prepare_payload
  | WkAwaitCommit prepare_payload
  | WkSendStarted prepare_payload
  | WkInjected prepare_payload
  | WkListening
  | WkExited

text \<open>A read that gives nothing stands for the end of the stream and for every error of it.\<close>

datatype wk_event = WkRead "sandboxer_message option" | WkWrote bool

definition wk_capabilities :: workload_message where
  "wk_capabilities =
     WCapabilities \<lparr>cap_protocol_version = ''1'', cap_supported_features = [''prepare'', ''commit'', ''cancel'']\<rparr>"

definition empty_params :: prepare_payload where
  "empty_params = \<lparr>pp_task_id = [], pp_env_overrides = [], pp_context = []\<rparr>"

fun handle_first :: "sandboxer_message option \<Rightarrow> wk_state" where
  "handle_first None = WkListening"
| "handle_first (Some (SPrepare p)) = (if pp_task_id p = [] then WkSendReject else WkSendReady p)"
| "handle_first (Some SCommit) = WkSendStarted empty_params"
| "handle_first (Some (SCancel _)) = WkExited"

fun handle_verdict :: "prepare_payload \<Rightarrow> sandboxer_message option \<Rightarrow> wk_state" where
  "handle_verdict p (Some SCommit) = WkSendStarted p"
| "handle_verdict p (Some (SCancel _)) = WkExited"
| "handle_verdict p _ = WkListening"

text \<open>The next state and the message written, if any; a write that fails ends the connection.\<close>

fun handle_conn :: "wk_state \<Rightarrow> wk_event \<Rightarrow> (wk_state \<times> workload_message option) option" where
  "handle_conn WkSendCaps (WkWrote ok) = Some (if ok then (WkAwaitFirst, Some wk_capabilities) else (WkListening, None))"
| "handle_conn WkAwaitFirst (WkRead m) = Some (handle_first m, None)"
| "handle_conn WkSendReject (WkWrote ok) =
     Some (WkListening, if ok then Some (WReject InvalidTaskId ''task_id is absent or empty'') else None)"
| "handle_conn (WkSendReady p) (WkWrote ok) = Some (if ok then (WkAwaitCommit p, Some WReady) else (WkListening, None))"
| "handle_conn (WkAwaitCommit p) (WkRead m) = Some (handle_verdict p m, None)"
| "handle_conn (WkSendStarted p) (WkWrote ok) = Some (if ok then (WkInjected p, Some WStarted) else (WkListening, None))"
| "handle_conn _ _ = None"

section \<open>The agent and the workloads\<close>

record workload =
  wk_state :: wk_state
  wk_read :: nat
  wk_sent :: "workload_message list"

definition new_workload :: workload where
  "new_workload = \<lparr>wk_state = WkSendCaps, wk_read = 0, wk_sent = []\<rparr>"

definition wk_move :: "wk_state \<times> workload_message option \<Rightarrow> nat \<Rightarrow> workload \<Rightarrow> workload" where
  "wk_move r n w =
     \<lparr>wk_state = fst r, wk_read = wk_read w + n,
      wk_sent = wk_sent w @ (case snd r of None \<Rightarrow> [] | Some m \<Rightarrow> [m])\<rparr>"

record pod_state =
  pd_agent :: inject_state
  pd_workloads :: "workload list"

definition heard :: "conn \<Rightarrow> workload \<Rightarrow> bool" where
  "heard c w \<longleftrightarrow> prefix (cn_got c) (wk_sent w)"

text \<open>
  The agent moves as long as what it has received was written; a workload reads the next message written to it, finds
  its stream at an end or broken, or writes.
\<close>

inductive pod_step :: "(string, nat) hmap \<Rightarrow> pod_state \<Rightarrow> pod_state \<Rightarrow> bool" for pids where
  Agent: "inject_step pids (pd_agent s) a \<Longrightarrow> list_all2 heard (is_conns a) (pd_workloads s) \<Longrightarrow>
    pod_step pids s (s\<lparr>pd_agent := a\<rparr>)"
| Read: "i < length (pd_workloads s) \<Longrightarrow> i < length (is_conns (pd_agent s)) \<Longrightarrow>
    wk_read (pd_workloads s ! i) < length (cn_sent (is_conns (pd_agent s) ! i)) \<Longrightarrow>
    handle_conn (wk_state (pd_workloads s ! i)) (WkRead (Some (cn_sent (is_conns (pd_agent s) ! i) ! wk_read (pd_workloads s ! i)))) = Some r \<Longrightarrow>
    pod_step pids s (s\<lparr>pd_workloads := (pd_workloads s)[i := wk_move r 1 (pd_workloads s ! i)]\<rparr>)"
| Broken: "i < length (pd_workloads s) \<Longrightarrow> handle_conn (wk_state (pd_workloads s ! i)) (WkRead None) = Some r \<Longrightarrow>
    pod_step pids s (s\<lparr>pd_workloads := (pd_workloads s)[i := wk_move r 0 (pd_workloads s ! i)]\<rparr>)"
| Write: "i < length (pd_workloads s) \<Longrightarrow> handle_conn (wk_state (pd_workloads s ! i)) (WkWrote ok) = Some r \<Longrightarrow>
    pod_step pids s (s\<lparr>pd_workloads := (pd_workloads s)[i := wk_move r 0 (pd_workloads s ! i)]\<rparr>)"

definition pod_start :: "container_task list \<Rightarrow> pod_state" where
  "pod_start ts = \<lparr>pd_agent = inject_start ts, pd_workloads = replicate (length ts) new_workload\<rparr>"
section \<open>What a workload has read and written\<close>

fun wk_hist :: "wk_state \<Rightarrow> sandboxer_message list \<Rightarrow> workload_message list \<Rightarrow> bool" where
  "wk_hist WkSendCaps rd sent \<longleftrightarrow> rd = [] \<and> sent = []"
| "wk_hist WkAwaitFirst rd sent \<longleftrightarrow> rd = [] \<and> sent = [wk_capabilities]"
| "wk_hist WkSendReject rd sent \<longleftrightarrow> sent = [wk_capabilities]"
| "wk_hist (WkSendReady p) rd sent \<longleftrightarrow> rd = [SPrepare p] \<and> sent = [wk_capabilities]"
| "wk_hist (WkAwaitCommit p) rd sent \<longleftrightarrow> rd = [SPrepare p] \<and> sent = [wk_capabilities, WReady]"
| "wk_hist (WkSendStarted p) rd sent \<longleftrightarrow>
     (rd = [SPrepare p, SCommit] \<and> sent = [wk_capabilities, WReady]) \<or> (rd = [SCommit] \<and> sent = [wk_capabilities] \<and> p = empty_params)"
| "wk_hist (WkInjected p) rd sent \<longleftrightarrow>
     (rd = [SPrepare p, SCommit] \<and> sent = [wk_capabilities, WReady, WStarted]) \<or>
     (rd = [SCommit] \<and> sent = [wk_capabilities, WStarted] \<and> p = empty_params)"
| "wk_hist WkListening rd sent \<longleftrightarrow> WStarted \<notin> set sent"
| "wk_hist WkExited rd sent \<longleftrightarrow> (\<exists>r. SCancel r \<in> set rd) \<and> WStarted \<notin> set sent"

lemma wk_caps_not_started [simp]: "wk_capabilities \<noteq> WStarted" "WStarted \<noteq> wk_capabilities"
  by (simp_all add: wk_capabilities_def)

lemma handle_conn_read:
  "handle_conn st (WkRead (Some m)) = Some r \<Longrightarrow> wk_hist st rd sent \<Longrightarrow> wk_hist (fst r) (rd @ [m]) sent \<and> snd r = None"
  by (cases st; cases m) (auto split: if_splits)

lemma handle_conn_broken:
  "handle_conn st (WkRead None) = Some r \<Longrightarrow> wk_hist st rd sent \<Longrightarrow> wk_hist (fst r) rd sent \<and> snd r = None"
  by (cases st) auto

lemma handle_conn_wrote:
  "handle_conn st (WkWrote ok) = Some r \<Longrightarrow> wk_hist st rd sent \<Longrightarrow>
     wk_hist (fst r) rd (sent @ (case snd r of None \<Rightarrow> [] | Some m \<Rightarrow> [m]))"
  by (cases st; cases ok) auto

lemma hist_started: "wk_hist st rd sent \<Longrightarrow> WStarted \<in> set sent \<Longrightarrow> \<exists>p. st = WkInjected p"
  by (cases st) auto

definition wk_inv :: "conn \<Rightarrow> workload \<Rightarrow> bool" where
  "wk_inv c w \<longleftrightarrow> heard c w \<and> wk_read w \<le> length (cn_sent c) \<and>
     wk_hist (wk_state w) (take (wk_read w) (cn_sent c)) (wk_sent w)"

definition pod_inv :: "pod_state \<Rightarrow> bool" where
  "pod_inv s \<longleftrightarrow> list_all2 wk_inv (is_conns (pd_agent s)) (pd_workloads s)"

section \<open>The invariant of the pod\<close>

lemma one_step_sent:
  "inject_prepare_one pids c inp = Some c' \<or> inject_commit_one c inp = Some c' \<or> inject_cancel_one c inp = Some c' \<or>
     inject_autonomous_one pids c inp = Some c' \<Longrightarrow> prefix (cn_sent c) (cn_sent c')"
  by (cases inp; cases "cn_state c") (auto simp: step_defs split: if_splits sum.splits)

lemma inject_step_sent:
  "inject_step pids s s' \<Longrightarrow> list_all2 (\<lambda>c c'. prefix (cn_sent c) (cn_sent c')) (is_conns s) (is_conns s')"
  by (induction rule: inject_step.induct)
    (auto simp: list_all2_conv_all_nth nth_list_update barrier_def enter_def intro: one_step_sent)

lemma pod_inv_start: "pod_inv (pod_start ts)"
  by (auto simp: pod_inv_def pod_start_def inject_start_def new_conn_def new_workload_def wk_inv_def heard_def list_all2_conv_all_nth)

lemma wk_inv_agent:
  assumes "wk_inv c w" "prefix (cn_sent c) (cn_sent c')" "heard c' w"
  shows "wk_inv c' w"
  using assms by (auto simp: wk_inv_def elim!: prefixE)

lemma list_all2_update:
  "list_all2 P xs ys \<Longrightarrow> i < length ys \<Longrightarrow> (P (xs ! i) (ys ! i) \<Longrightarrow> P (xs ! i) y) \<Longrightarrow> list_all2 P xs (ys[i := y])"
  by (auto simp: list_all2_conv_all_nth nth_list_update)

lemma pod_inv_step: "pod_step pids s s' \<Longrightarrow> pod_inv s \<Longrightarrow> pod_inv s'"
proof (induction rule: pod_step.induct)
  case (Agent s a)
  have "list_all2 (\<lambda>c c'. prefix (cn_sent c) (cn_sent c')) (is_conns (pd_agent s)) (is_conns a)"
    by (rule inject_step_sent [OF Agent.hyps(1)])
  then show ?case
    using Agent.hyps(2) Agent.prems unfolding pod_inv_def list_all2_conv_all_nth by (auto intro: wk_inv_agent [rotated])
next
  case (Read i s r)
  let ?c = "is_conns (pd_agent s) ! i" and ?w = "pd_workloads s ! i"
  have "wk_inv ?c (wk_move r 1 ?w)" if "wk_inv ?c ?w"
    using that Read.hyps handle_conn_read [OF Read.hyps(4)]
    by (auto simp: wk_inv_def wk_move_def heard_def take_Suc_conv_app_nth)
  then show ?case
    using Read unfolding pod_inv_def by (auto intro!: list_all2_update)
next
  case (Broken i s r)
  let ?c = "is_conns (pd_agent s) ! i" and ?w = "pd_workloads s ! i"
  have "wk_inv ?c (wk_move r 0 ?w)" if "wk_inv ?c ?w"
    using that handle_conn_broken [OF Broken.hyps(2)] by (auto simp: wk_inv_def wk_move_def heard_def)
  then show ?case
    using Broken unfolding pod_inv_def by (auto intro!: list_all2_update)
next
  case (Write i s ok r)
  let ?c = "is_conns (pd_agent s) ! i" and ?w = "pd_workloads s ! i"
  have "wk_inv ?c (wk_move r 0 ?w)" if "wk_inv ?c ?w"
    using that handle_conn_wrote [OF Write.hyps(2)] by (auto simp: wk_inv_def wk_move_def heard_def intro: prefix_prefix)
  then show ?case
    using Write unfolding pod_inv_def by (auto intro!: list_all2_update)
qed

lemma pod_run:
  assumes "(pod_step pids)\<^sup>*\<^sup>* (pod_start ts) s"
  shows "pod_inv s \<and> (inject_step pids)\<^sup>*\<^sup>* (inject_start ts) (pd_agent s)"
  using assms
proof (induction rule: rtranclp_induct)
  case base
  then show ?case
    by (simp add: pod_inv_start) (simp add: pod_start_def)
next
  case (step s s')
  then have "pd_agent s' = pd_agent s \<or> inject_step pids (pd_agent s) (pd_agent s')"
    by (auto elim: pod_step.cases)
  then show ?case
    using step pod_inv_step by (auto intro: rtranclp.rtrancl_into_rtrancl)
qed

section \<open>Properties\<close>

lemma pod_nth:
  assumes "pod_inv s" "i < length (pd_workloads s)"
  shows "i < length (is_conns (pd_agent s))" "is_conns (pd_agent s) ! i \<in> set (is_conns (pd_agent s))"
    "wk_inv (is_conns (pd_agent s) ! i) (pd_workloads s ! i)"
  using assms by (auto simp: pod_inv_def list_all2_conv_all_nth)

lemma injected_committed: "wk_inv c w \<Longrightarrow> wk_state w = WkInjected p \<Longrightarrow> SCommit \<in> set (cn_sent c)"
proof -
  assume "wk_inv c w" "wk_state w = WkInjected p"
  then have "SCommit \<in> set (take (wk_read w) (cn_sent c))"
    by (auto simp: wk_inv_def)
  then show ?thesis
    by (rule in_set_takeD)
qed

lemma exited_cancelled: "wk_inv c w \<Longrightarrow> wk_state w = WkExited \<Longrightarrow> \<exists>r. SCancel r \<in> set (cn_sent c)"
  by (auto simp: wk_inv_def dest: in_set_takeD)

text \<open>One workload that started means that all connections are past the barrier.\<close>

lemma commit_means_all:
  assumes "round_inv a" "c \<in> set (is_conns a)" "SCommit \<in> set (cn_sent c)" "d \<in> set (is_conns a)"
  shows "prepared_for d \<and> (cn_sent d = [first_msg d] \<or> cn_sent d = [first_msg d, SCommit])"
proof -
  have inv: "conn_inv c" "conn_inv d"
    using assms by (auto simp: round_inv_def list_all_iff)
  have "\<not> in_prepare c" "\<not> in_cancel c"
    using inv(1) assms(3)
    by (cases "cn_state c"; auto simp: conn_inv.simps in_prepare_def in_cancel_def first_msg_def split: inject_phase.splits)+
  then have "list_all in_commit (is_conns a)"
    using assms(1,2) by (auto simp: round_inv_def list_all_iff split: exchange.splits)
  then have "in_commit d"
    using assms(4) by (simp add: list_all_iff)
  then show ?thesis
    using inv(2) by (cases "cn_state d") (auto simp: conn_inv.simps in_commit_def split: inject_phase.splits)
qed


definition demo_pod :: "exchange \<Rightarrow> conn \<Rightarrow> wk_state \<Rightarrow> nat \<Rightarrow> workload_message list \<Rightarrow> pod_state" where
  "demo_pod x c st n sent = \<lparr>pd_agent = demo_state x c, pd_workloads = [\<lparr>wk_state = st, wk_read = n, wk_sent = sent\<rparr>]\<rparr>"

lemma demo_pod_agent:
  "inject_step [] (demo_state x c) (demo_state x' c') \<Longrightarrow> prefix (cn_got c') sent \<Longrightarrow>
     (pod_step [])\<^sup>*\<^sup>* p (demo_pod x c st n sent) \<Longrightarrow> (pod_step [])\<^sup>*\<^sup>* p (demo_pod x' c' st n sent)"
proof (rule rtranclp.rtrancl_into_rtrancl)
  assume "inject_step [] (demo_state x c) (demo_state x' c')" "prefix (cn_got c') sent"
  then show "pod_step [] (demo_pod x c st n sent) (demo_pod x' c' st n sent)"
    using pod_step.Agent [of "[]" "demo_pod x c st n sent" "demo_state x' c'"]
    by (simp add: demo_pod_def) (simp add: demo_state_def heard_def)
qed

lemma demo_pod_wrote:
  "handle_conn st (WkWrote True) = Some (st', Some m) \<Longrightarrow> (pod_step [])\<^sup>*\<^sup>* p (demo_pod x c st n sent) \<Longrightarrow>
     (pod_step [])\<^sup>*\<^sup>* p (demo_pod x c st' n (sent @ [m]))"
  using pod_step.Write [of 0 "demo_pod x c st n sent" True "(st', Some m)" "[]"]
  by (simp add: demo_pod_def wk_move_def rtranclp.rtrancl_into_rtrancl)

lemma demo_pod_read:
  "n < length (cn_sent c) \<Longrightarrow> handle_conn st (WkRead (Some (cn_sent c ! n))) = Some (st', None) \<Longrightarrow>
     (pod_step [])\<^sup>*\<^sup>* p (demo_pod x c st n sent) \<Longrightarrow> (pod_step [])\<^sup>*\<^sup>* p (demo_pod x c st' (Suc n) sent)"
  using pod_step.Read [of 0 "demo_pod x c st n sent" "(st', None)" "[]"]
  by (simp add: demo_pod_def demo_state_def wk_move_def rtranclp.rtrancl_into_rtrancl)

lemma demo_caps_wk: "demo_caps = wk_capabilities"
  by (simp add: demo_caps_def wk_capabilities_def)

lemma demo_pod_injected:
  "(pod_step [])\<^sup>*\<^sup>* (pod_start [demo_task])
     (demo_pod CommitRound (demo_conn AwaitStarted [demo_msg, SCommit] [demo_caps, WReady])
        (WkInjected (payload_of demo_task)) (Suc (Suc 0)) [demo_caps, WReady, WStarted])"
proof -
  let ?run = "(pod_step [])\<^sup>*\<^sup>* (pod_start [demo_task])"
  have "?run (demo_pod PrepareRound (demo_conn Connecting [] []) WkSendCaps 0 [])"
    by (simp add: pod_start_def demo_pod_def inject_start_def autonomous_def demo_task_def demo_state_def demo_conn_def new_conn_def new_workload_def)
  then have "?run (demo_pod PrepareRound (demo_conn Connecting [] []) WkAwaitFirst 0 [demo_caps])"
    by (rule demo_pod_wrote [of WkSendCaps WkAwaitFirst demo_caps _ _ _ _ "[]", simplified, rotated]) (simp add: demo_caps_wk)
  then have "?run (demo_pod PrepareRound (demo_conn AwaitCaps [] []) WkAwaitFirst 0 [demo_caps])"
    by (rule demo_pod_agent [OF demo_step(1) [of _ "Connected ConnectOk"], rotated -1])
      (simp_all add: demo_conn_def connect_in_ns_def enter_def demo_task_def)
  then have "?run (demo_pod PrepareRound (demo_conn SendPrepare [] [demo_caps]) WkAwaitFirst 0 [demo_caps])"
    by (rule demo_pod_agent [OF demo_step(1) [of _ "Received (Inr demo_caps)"], rotated -1])
      (simp_all add: demo_conn_def enter_def note_got_def verify_capabilities_def demo_caps_def PROTOCOL_VERSION_def)
  then have "?run (demo_pod PrepareRound (demo_conn AwaitReady [demo_msg] [demo_caps]) WkAwaitFirst 0 [demo_caps])"
    by (rule demo_pod_agent [OF demo_step(1) [of _ "Written True"], rotated -1]) (simp_all add: demo_conn_def enter_def send_msg_def)
  then have "?run (demo_pod PrepareRound (demo_conn AwaitReady [demo_msg] [demo_caps]) (WkSendReady (payload_of demo_task)) (Suc 0) [demo_caps])"
    by (rule demo_pod_read [rotated -1]) (simp_all add: demo_conn_def payload_of_def demo_task_def)
  then have "?run (demo_pod PrepareRound (demo_conn AwaitReady [demo_msg] [demo_caps]) (WkAwaitCommit (payload_of demo_task)) (Suc 0) [demo_caps, WReady])"
    by (rule demo_pod_wrote [of "WkSendReady (payload_of demo_task)" "WkAwaitCommit (payload_of demo_task)" WReady _ _ _ _ "[demo_caps]", simplified])
  then have "?run (demo_pod PrepareRound (demo_conn Prepared [demo_msg] [demo_caps, WReady]) (WkAwaitCommit (payload_of demo_task)) (Suc 0) [demo_caps, WReady])"
    by (rule demo_pod_agent [OF demo_step(1) [of _ "Received (Inr WReady)"], rotated -1]) (simp_all add: demo_conn_def enter_def note_got_def)
  then have "?run (demo_pod CommitRound (demo_conn SendCommit [demo_msg] [demo_caps, WReady]) (WkAwaitCommit (payload_of demo_task)) (Suc 0) [demo_caps, WReady])"
    by (rule demo_pod_agent [rotated -1])
      (use inject_step.Barrier [of "demo_state PrepareRound (demo_conn Prepared [demo_msg] [demo_caps, WReady])" "[]"] in
        \<open>simp_all add: demo_state_def demo_conn_def prepare_over_def barrier_def enter_def\<close>)
  then have "?run (demo_pod CommitRound (demo_conn AwaitStarted [demo_msg, SCommit] [demo_caps, WReady]) (WkAwaitCommit (payload_of demo_task)) (Suc 0) [demo_caps, WReady])"
    by (rule demo_pod_agent [OF demo_step(2) [of _ "Written True"], rotated -1]) (simp_all add: demo_conn_def enter_def send_msg_def)
  then have "?run (demo_pod CommitRound (demo_conn AwaitStarted [demo_msg, SCommit] [demo_caps, WReady]) (WkSendStarted (payload_of demo_task)) (Suc (Suc 0)) [demo_caps, WReady])"
    by (rule demo_pod_read [rotated -1]) (simp_all add: demo_conn_def)
  then show ?thesis
    by (rule demo_pod_wrote [of "WkSendStarted (payload_of demo_task)" "WkInjected (payload_of demo_task)" WStarted _ _ _ _ "[demo_caps, WReady]", simplified])
qed


end
