(* ===== verification/Template_Build.thy ===== *)
theory Template_Build
  imports Service_System Ch_System
begin

text \<open>
  Building templates of the Environment kind and keeping the pool stocked: \<open>create_template_worker\<close> boots a
  machine, snapshots it once its agent answers, stops it and adds the snapshot to the pool; the maintenance
  task of the sandboxer starts as many of these workers as the pool is short of; the start of the program
  checks the limits of the pool before it enables that task.

  A worker touches the pool in two places, when it creates its directory and when it adds the template. Other
  workers and the maintenance task run between the two, so the step relation \<open>maint_step\<close> takes them apart.
  The machine is a parameter, through its operations and through what the guest agent and the snapshot
  answer.
\<close>

section \<open>The request\<close>

definition with_resources :: "nat \<Rightarrow> nat \<Rightarrow> factory \<Rightarrow> factory" where
  "with_resources vcpus memory_mb fa = fa\<lparr>fa_vcpus := vcpus, fa_memory_mb := memory_mb\<rparr>"

definition apply_resource_overrides :: "factory \<Rightarrow> create_template_request \<Rightarrow> factory" where
  "apply_resource_overrides fa r =
     (case (ctr_vcpus r, ctr_memory_mb r) of
        (None, None) \<Rightarrow> fa
      | (vcpus, memory_mb) \<Rightarrow>
          with_resources (case vcpus of None \<Rightarrow> fa_vcpus fa | Some n \<Rightarrow> n)
            (case memory_mb of None \<Rightarrow> fa_memory_mb fa | Some n \<Rightarrow> n) fa)"

section \<open>The worker\<close>

text \<open>
  What a worker meets: the file system at each of its four calls, the machine the factory makes for the
  directory it is given, the answer of the guest agent, the snapshot, and the clock.
\<close>

record ('v, 'c) build_env =
  be_vm_dir :: "'c pool_host"
  be_create_vm :: "string \<Rightarrow> sb_error + 'v"
  be_agent_ready :: "'v \<Rightarrow> sb_error option"
  be_snapshot_dir :: "'c pool_host"
  be_snapshot :: "string \<Rightarrow> disk_snapshot list \<Rightarrow> 'v \<Rightarrow> (sb_error + snapshot_meta) \<times> 'v"
  be_now :: nat
  be_add :: "'c pool_host"
  be_cleanup :: "'c pool_host"

definition template_base :: "'c pool \<Rightarrow> string \<Rightarrow> string" where
  "template_base p i = path_join (path_join (store_dir p) ''environment'') i"

definition environment_template :: "factory \<Rightarrow> nat \<Rightarrow> string \<Rightarrow> snapshot_meta \<Rightarrow> pooled_template" where
  "environment_template fa now i m =
     (pooled_template_new now i (environment_key fa) (sm_snapshot_dir m) (fa_image_path fa) (fa_kernel_path fa)
        (fa_vcpus fa) (fa_memory_mb fa) (sm_original_task_vsock m) (sm_original_console_path m))
     \<lparr>pt_created_at_secs := now\<rparr>"

text \<open>
  Up to the removal of the directory of the machine. The second component is the machine as the worker leaves
  it: nothing stops it when it is dropped.
\<close>

definition build_snapshot ::
  "'v vm_ops \<Rightarrow> ('v, 'c) build_env \<Rightarrow> factory \<Rightarrow> create_template_request \<Rightarrow> 'c pool
   \<Rightarrow> (sb_error + pooled_template) \<times> 'v option \<times> 'c pool" where
  "build_snapshot vo be fa r p =
     (case fs_create_dir_all (be_vm_dir be) (EnvironmentDir, ctr_id r) (disk p) of
        (Some _, dk) \<Rightarrow> (Inl (OtherError ''create template vm dir''), None, p\<lparr>disk := dk\<rparr>)
      | (None, dk) \<Rightarrow>
          (let p1 = p\<lparr>disk := dk\<rparr>; base = template_base p (ctr_id r) in
           case be_create_vm be (path_join base ''vm'') of
             Inl e \<Rightarrow> (Inl e, None, p1)
           | Inr v \<Rightarrow>
               (case vm_start vo v of
                  (Inl e, v1) \<Rightarrow> (Inl e, Some v1, p1)
                | (Inr _, v1) \<Rightarrow>
                    (case be_agent_ready be v1 of
                       Some e \<Rightarrow> (Inl e, Some v1, p1)
                     | None \<Rightarrow>
                         (case fs_create_dir_all (be_snapshot_dir be) (EnvironmentDir, ctr_id r) dk of
                            (Some _, dk2) \<Rightarrow> (Inl (OtherError ''create snapshot dir''), Some v1, p\<lparr>disk := dk2\<rparr>)
                          | (None, dk2) \<Rightarrow>
                              (case be_snapshot be (path_join base ''snapshot'') [] v1 of
                                 (Inl e, v2) \<Rightarrow> (Inl (OtherError ''snapshot failed''), Some v2, p\<lparr>disk := dk2\<rparr>)
                               | (Inr m, v2) \<Rightarrow>
                                   (Inr (environment_template fa (be_now be) (ctr_id r) m),
                                    Some (snd (vm_stop vo False v2)), p\<lparr>disk := dk2\<rparr>)))))))"

text \<open>The rest of \<open>create_template_inner\<close>, and the cleanup of \<open>create_template_worker\<close> around both.\<close>

definition build_add ::
  "('v, 'c) build_env \<Rightarrow> sb_error + pooled_template \<Rightarrow> 'c pool \<Rightarrow> (sb_error + pooled_template) \<times> 'c pool" where
  "build_add be res p =
     (case res of
        Inl e \<Rightarrow> (Inl e, p)
      | Inr t \<Rightarrow>
          (case add (be_add be) t p of
             (Inl _, p1) \<Rightarrow> (Inl (OtherError ''add template''), p1)
           | (Inr _, p1) \<Rightarrow> (Inr t, p1)))"

definition build_cleanup ::
  "('v, 'c) build_env \<Rightarrow> create_template_request \<Rightarrow> (sb_error + pooled_template) \<times> 'c pool
   \<Rightarrow> (sb_error + pooled_template) \<times> 'c pool" where
  "build_cleanup be r = (\<lambda>(res, p).
     (res, if isl res then cleanup_new_dir (be_cleanup be) (EnvironmentDir, ctr_id r) p else p))"

definition create_template_inner ::
  "'v vm_ops \<Rightarrow> ('v, 'c) build_env \<Rightarrow> factory \<Rightarrow> create_template_request \<Rightarrow> 'c pool
   \<Rightarrow> (sb_error + pooled_template) \<times> 'v option \<times> 'c pool" where
  "create_template_inner vo be fa r p =
     (case build_snapshot vo be fa r p of (res, v, p1) \<Rightarrow> case build_add be res p1 of (res', p2) \<Rightarrow> (res', v, p2))"

definition create_template_worker ::
  "'v vm_ops \<Rightarrow> ('v, 'c) build_env \<Rightarrow> factory \<Rightarrow> create_template_request \<Rightarrow> 'c pool
   \<Rightarrow> (sb_error + pooled_template) \<times> 'v option \<times> 'c pool" where
  "create_template_worker vo be fa r p =
     (case create_template_inner vo be (apply_resource_overrides fa r) r p of
        (res, v, p1) \<Rightarrow> case build_cleanup be r (res, p1) of (res', p2) \<Rightarrow> (res', v, p2))"

definition create_template ::
  "'v vm_ops \<Rightarrow> ('v, 'c) build_env \<Rightarrow> factory \<Rightarrow> create_template_request \<Rightarrow> ('v, 'c) sandboxer
   \<Rightarrow> (sb_error + pooled_template) \<times> 'v option \<times> ('v, 'c) sandboxer" where
  "create_template vo be fa r sx =
     (case sx_pool sx of
        None \<Rightarrow> (Inl (OtherError ''template pool not initialized''), None, sx)
      | Some p \<Rightarrow>
          (case create_template_worker vo be fa r p of (res, v, p1) \<Rightarrow> (res, v, sx\<lparr>sx_pool := Some p1\<rparr>)))"

section \<open>Starting up\<close>

record environment_pool_config =
  ep_min_per_key :: "nat option"
  ep_max_per_key :: "nat option"
  ep_maintenance_interval_secs :: "nat option"

record template_pool_config =
  tp_store_dir :: string
  tp_gc_interval_secs :: "nat option"
  tp_gc_watermark :: "nat option"
  tp_environment :: "environment_pool_config option"
  tp_warmfork :: "(nat option \<times> lease_mode) option"

definition pool_limits :: "template_pool_config \<Rightarrow> nat \<times> nat \<times> nat" where
  "pool_limits c =
     (case tp_environment c of None \<Rightarrow> 10 | Some b \<Rightarrow> (case ep_max_per_key b of None \<Rightarrow> 10 | Some n \<Rightarrow> n),
      case tp_warmfork c of None \<Rightarrow> 10 | Some (n, _) \<Rightarrow> (case n of None \<Rightarrow> 10 | Some n \<Rightarrow> n),
      case tp_gc_watermark c of None \<Rightarrow> 50 | Some n \<Rightarrow> n)"

definition min_per_key :: "template_pool_config \<Rightarrow> nat option" where
  "min_per_key c = (case tp_environment c of None \<Rightarrow> None | Some b \<Rightarrow> ep_min_per_key b)"

text \<open>The check before anything is started: the process exits unless it passes.\<close>

definition limits_ok :: "template_pool_config \<Rightarrow> bool" where
  "limits_ok c =
     (case (min_per_key c, pool_limits c) of
        (None, _) \<Rightarrow> True
      | (Some mn, env_max, _, watermark) \<Rightarrow> \<not> mn > env_max \<and> \<not> mn > watermark)"

text \<open>\<open>probe\<close> is what the test for reflinks between the two directories finds.\<close>

definition init_template_pool ::
  "'c pool_host \<Rightarrow> factory \<Rightarrow> unit + bool \<Rightarrow> string \<Rightarrow> nat \<Rightarrow> nat \<Rightarrow> nat \<Rightarrow> lease_mode \<Rightarrow> (pool_addr, 'c) store_disk
   \<Rightarrow> ('v, 'c) sandboxer \<Rightarrow> sb_error option \<times> ('v, 'c) sandboxer" where
  "init_template_pool h fa probe dir env_max wf_max watermark mode dk sx =
     (let reflink =
        (if mode = Shared then
           (case probe of
              Inr True \<Rightarrow> Inr True
            | Inr False \<Rightarrow>
                (if enable_reflink_cow (fa_storage_policy fa) then Inl (OtherError ''reflink is not supported'') else Inr False)
            | Inl _ \<Rightarrow>
                (if enable_reflink_cow (fa_storage_policy fa) then Inl (OtherError ''reflink probe failed'') else Inr False))
         else Inr False)
      in
      case reflink of
        Inl e \<Rightarrow> (Some e, sx)
      | Inr reflink \<Rightarrow>
          (case load_from_disk h dir env_max wf_max watermark mode reflink dk of
             Inl _ \<Rightarrow> (Some (OtherError ''load template pool''), sx)
           | Inr p \<Rightarrow> (None, sx\<lparr>sx_pool := Some p\<rparr>)))"

text \<open>The part of \<open>main\<close> that sets up the pool; \<open>None\<close> is an exit of the process.\<close>

definition start_pool ::
  "'c pool_host \<Rightarrow> factory \<Rightarrow> unit + bool \<Rightarrow> template_pool_config \<Rightarrow> (pool_addr, 'c) store_disk \<Rightarrow> ('v, 'c) sandboxer
   \<Rightarrow> ('v, 'c) sandboxer option" where
  "start_pool h fa probe c dk sx =
     (if \<not> limits_ok c then None
      else (case pool_limits c of
        (env_max, wf_max, watermark) \<Rightarrow>
          (case init_template_pool h fa probe (tp_store_dir c) env_max wf_max watermark
                  (case tp_warmfork c of None \<Rightarrow> lease_mode_default | Some (_, m) \<Rightarrow> m) dk sx of
             (Some _, _) \<Rightarrow> None
           | (None, sx') \<Rightarrow> Some sx')))"

section \<open>The maintenance task\<close>

text \<open>
  A worker that the task has started: before its machine is snapshotted, with the result of that, or over.
\<close>

datatype refill_phase = Booting | Built "sb_error + pooled_template" | is_Over: Over bool

record ('v, 'c) refill_worker =
  rw_req :: create_template_request
  rw_env :: "('v, 'c) build_env"
  rw_phase :: refill_phase

record ('v, 'c) maint_state =
  mt_pool :: "'c pool"
  mt_workers :: "('v, 'c) refill_worker list"

definition new_worker :: "lease_mode \<Rightarrow> string \<times> ('v, 'c) build_env \<Rightarrow> ('v, 'c) refill_worker" where
  "new_worker mode = (\<lambda>(i, be). \<lparr>rw_req = new_with_lease_mode i mode, rw_env = be, rw_phase = Booting\<rparr>)"

text \<open>
  One round of the task: the pool is short of \<open>refill_need\<close> templates, one worker starts for each, under a new
  identifier, and the garbage collection follows. Finished workers are gone.
\<close>

definition maintenance_round ::
  "nat \<Rightarrow> factory \<Rightarrow> 'c pool_host \<Rightarrow> (string \<times> ('v, 'c) build_env) list \<Rightarrow> ('v, 'c) maint_state \<Rightarrow> ('v, 'c) maint_state" where
  "maintenance_round min_pool_depth fa h new s =
     (let k = environment_key fa; need = refill_need min_pool_depth k (mt_pool s);
          p1 = (begin_refill k ^^ need) (mt_pool s)
      in \<lparr>mt_pool = snd (gc_if_needed h p1),
          mt_workers = filter (\<lambda>w. \<not> is_Over (rw_phase w)) (mt_workers s) @
            map (new_worker (pool_lease_mode (mt_pool s))) (take need new)\<rparr>)"

definition worker_ids :: "('v, 'c) refill_worker list \<Rightarrow> string list" where
  "worker_ids ws = map (\<lambda>w. ctr_id (rw_req w)) ws"

definition fresh_ids :: "nat \<Rightarrow> factory \<Rightarrow> (string \<times> ('v, 'c) build_env) list \<Rightarrow> ('v, 'c) maint_state \<Rightarrow> bool" where
  "fresh_ids mn fa new s \<longleftrightarrow>
     length new = refill_need mn (environment_key fa) (mt_pool s) \<and>
     distinct (worker_ids (mt_workers s) @ map fst new) \<and>
     set (map fst new) \<inter> pool_ids (mt_pool s) = {}"

text \<open>
  The two steps of a worker. The identifiers of a round are drawn at random, and the step assumes what the
  program assumes, that they are new.
\<close>

inductive build_step :: "'v vm_ops \<Rightarrow> factory \<Rightarrow> ('v, 'c) maint_state \<Rightarrow> ('v, 'c) maint_state \<Rightarrow> bool"
  for vo :: "'v vm_ops" and fa :: factory
  where
  Snapshot: "i < length (mt_workers s) \<Longrightarrow> mt_workers s ! i = w \<Longrightarrow> rw_phase w = Booting \<Longrightarrow>
     build_snapshot vo (rw_env w) (apply_resource_overrides fa (rw_req w)) (rw_req w) (mt_pool s) = (res, v, p) \<Longrightarrow>
     build_step vo fa s \<lparr>mt_pool = p, mt_workers = (mt_workers s)[i := w\<lparr>rw_phase := Built res\<rparr>]\<rparr>"
| Finish: "i < length (mt_workers s) \<Longrightarrow> mt_workers s ! i = w \<Longrightarrow> rw_phase w = Built res \<Longrightarrow>
     build_cleanup (rw_env w) (rw_req w) (build_add (rw_env w) res (mt_pool s)) = (res', p) \<Longrightarrow>
     build_step vo fa s
       \<lparr>mt_pool = end_refill (environment_key fa) p,
        mt_workers = (mt_workers s)[i := w\<lparr>rw_phase := Over (\<not> isl res')\<rparr>]\<rparr>"

inductive maint_step :: "'v vm_ops \<Rightarrow> factory \<Rightarrow> nat \<Rightarrow> ('v, 'c) maint_state \<Rightarrow> ('v, 'c) maint_state \<Rightarrow> bool"
  for vo :: "'v vm_ops" and fa :: factory and mn :: nat
  where
  Round: "fresh_ids mn fa new s \<Longrightarrow> maint_step vo fa mn s (maintenance_round mn fa h new s)"
| Build: "build_step vo fa s s' \<Longrightarrow> maint_step vo fa mn s s'"

inductive_cases build_stepE: "build_step vo fa s s'"
inductive_cases maint_stepE: "maint_step vo fa mn s s'"

definition maint_start :: "'c pool \<Rightarrow> ('v, 'c) maint_state" where
  "maint_start p = \<lparr>mt_pool = p, mt_workers = []\<rparr>"

definition builds_pending :: "('v, 'c) maint_state \<Rightarrow> nat" where
  "builds_pending s = length (filter (\<lambda>w. \<not> is_Over (rw_phase w)) (mt_workers s))"

definition failed_builds :: "('v, 'c) maint_state \<Rightarrow> nat" where
  "failed_builds s = length (filter (\<lambda>w. rw_phase w = Over False) (mt_workers s))"

section \<open>What a worker does to the pool\<close>

lemma overrides_none: "ctr_vcpus r = None \<Longrightarrow> ctr_memory_mb r = None \<Longrightarrow> apply_resource_overrides fa r = fa"
  by (simp add: apply_resource_overrides_def)

lemma environment_template_sel [simp]:
  "pt_id (environment_template fa now i m) = i" "pt_key (environment_template fa now i m) = environment_key fa"
  "pt_snapshot_type (environment_template fa now i m) = Environment"
  by (simp_all add: environment_template_def pooled_template_new_def)

lemma environment_template_dir [simp]: "template_dir (environment_template fa now i m) = Some (EnvironmentDir, i)"
  by (simp add: template_dir.simps)

text \<open>Up to the snapshot a worker changes nothing but its own directory.\<close>

lemma build_snapshot_spec:
  assumes "build_snapshot vo be fa r p = (res, v, p')" "hm_wf (disk p)"
  obtains dk where "p' = p\<lparr>disk := dk\<rparr>" "hm_wf dk" "offered dk = offered (disk p)"
    "\<And>t. res = Inr t \<Longrightarrow> \<exists>m. t = environment_template fa (be_now be) (ctr_id r) m"
proof -
  let ?d = "(EnvironmentDir, ctr_id r)"
  obtain e1 dk1 where c1: "fs_create_dir_all (be_vm_dir be) ?d (disk p) = (e1, dk1)" by force
  obtain e2 dk2 where c2: "fs_create_dir_all (be_snapshot_dir be) ?d dk1 = (e2, dk2)" by force
  have wf: "hm_wf dk1" "hm_wf dk2"
    using disk_wf(1) [OF assms(2), of "be_vm_dir be" ?d] disk_wf(1) [of dk1 "be_snapshot_dir be" ?d] c1 c2 by simp_all
  have off: "offered dk1 = offered (disk p)" "offered dk2 = offered (disk p)"
    using offered_create [of "be_vm_dir be" ?d "disk p"] offered_create [of "be_snapshot_dir be" ?d dk1] c1 c2 by simp_all
  have "(p' = p\<lparr>disk := dk1\<rparr> \<or> p' = p\<lparr>disk := dk2\<rparr>) \<and>
     (\<forall>t. res = Inr t \<longrightarrow> (\<exists>m. t = environment_template fa (be_now be) (ctr_id r) m))"
    using assms(1) c1 c2 unfolding build_snapshot_def Let_def
    by (auto split: option.splits sum.splits prod.splits)
  then show ?thesis
    using that wf off by metis
qed

text \<open>Below the limits, \<open>add\<close> evicts nothing.\<close>

lemma add_below:
  assumes "template_dir t = Some d" "total_depth p < gc_watermark p"
    and "kind_max_per_key p (pt_snapshot_type t) = Some mx" "depth (pt_key t) p < mx" "hm_wf (disk p)"
  obtains (failed) e dk where "add h t p = (Inl e, p\<lparr>disk := dk\<rparr>)" "hm_wf dk"
  | (added) dk where "hm_wf dk"
      "add h t p = (Inr (), p\<lparr>disk := dk, available := push_template t (available p), template_ready := template_ready p + 1\<rparr>)"
proof -
  obtain e1 dk1 where c: "fs_create_dir_all h d (disk p) = (e1, dk1)" by force
  obtain e2 dk2 where s: "template_save h t d dk1 = (e2, dk2)" by force
  have wf: "hm_wf dk1" "hm_wf dk2"
    using disk_wf(1) [OF assms(5), of h d] disk_wf(3) [of dk1 h t d] c s by simp_all
  have w: "add_water_level h d (p\<lparr>disk := dk1\<rparr>) = (Inr (), p\<lparr>disk := dk1\<rparr>)"
    using assms(2) by (simp add: add_water_level_def total_depth_def)
  have "kind_max_per_key (p\<lparr>disk := dk1\<rparr>) (pt_snapshot_type t) = Some mx"
    using assms(3) by (cases "pt_snapshot_type t") simp_all
  then have k: "add_key_depth h t d (p\<lparr>disk := dk1\<rparr>) = (Inr (), p\<lparr>disk := dk1\<rparr>)"
    using assms(4) by (auto simp: add_key_depth_def depth_def split: option.splits)
  show ?thesis
  proof (cases e1)
    case (Some e)
    then show ?thesis
      using failed [of CreateTemplateDirFailed dk1] wf by (simp add: add_def assms(1) c)
  next
    case None
    then have "add h t p = add_insert h t d (p\<lparr>disk := dk1\<rparr>)"
      by (simp add: add_def assms(1) c w k)
    then show ?thesis
      using failed [of SaveFailed dk2] added [of dk2] wf by (cases e2) (simp_all add: add_insert_def s)
  qed
qed

lemma build_finish_below:
  assumes "build_cleanup be r (build_add be res p) = (res', p')" "hm_wf (disk p)"
    and "total_depth p < gc_watermark p" "depth k p < environment_max_per_key p"
    and "\<forall>t. res = Inr t \<longrightarrow> pt_snapshot_type t = Environment \<and> pt_key t = k"
  obtains (failed) dk where "isl res'" "p' = p\<lparr>disk := dk\<rparr>" "hm_wf dk"
  | (added) t dk where "res = Inr t" "res' = Inr t" "hm_wf dk"
      "p' = p\<lparr>disk := dk, available := push_template t (available p), template_ready := template_ready p + 1\<rparr>"
proof (cases res)
  case (Inl e)
  then have "isl res'" "p' = p\<lparr>disk := snd (fs_remove_dir_all (be_cleanup be) (EnvironmentDir, ctr_id r) (disk p))\<rparr>"
    using assms(1) by (auto simp: build_add_def build_cleanup_def cleanup_new_dir_def)
  then show ?thesis
    by (rule failed) (simp add: assms(2))
next
  case (Inr t)
  have t: "pt_snapshot_type t = Environment" "pt_key t = k"
    using assms(5) Inr by auto
  then obtain d where d: "template_dir t = Some d"
    by (simp add: template_dir.simps)
  show ?thesis
  proof (rule add_below [OF d assms(3), of "environment_max_per_key p" "be_add be"])
    fix e dk assume *: "add (be_add be) t p = (Inl e, p\<lparr>disk := dk\<rparr>)" "hm_wf dk"
    then have "isl res'" "p' = p\<lparr>disk := snd (fs_remove_dir_all (be_cleanup be) (EnvironmentDir, ctr_id r) dk)\<rparr>"
      using assms(1) Inr by (auto simp: build_add_def build_cleanup_def cleanup_new_dir_def)
    then show ?thesis
      by (rule failed) (simp add: *(2))
  next
    fix dk assume *: "hm_wf dk" "add (be_add be) t p =
      (Inr (), p\<lparr>disk := dk, available := push_template t (available p), template_ready := template_ready p + 1\<rparr>)"
    show ?thesis
      by (rule added [OF Inr _ *(1)]) (use assms(1) Inr *(2) in \<open>auto simp: build_add_def build_cleanup_def\<close>)
  qed (use t assms in simp_all)
qed

section \<open>The stock of a pool\<close>

text \<open>
  What the rounds keep of the pool \<open>p0\<close> they started with, while \<open>n\<close> workers are at it: its templates and its
  limits; only templates of the key come in; and depth and workers together do not exceed the target.
\<close>

definition stock_inv :: "nat \<Rightarrow> template_key \<Rightarrow> 'c pool \<Rightarrow> 'c pool \<Rightarrow> nat \<Rightarrow> bool" where
  "stock_inv mn k p0 p n \<longleftrightarrow>
     pool_wf p \<and> gc_watermark p = gc_watermark p0 \<and> environment_max_per_key p = environment_max_per_key p0 \<and>
     mset (all_templates p0) \<subseteq># mset (all_templates p) \<and>
     total_depth p + depth k p0 = total_depth p0 + depth k p \<and>
     in_flight_count_for_key k p = n \<and> depth k p + n \<le> max mn (depth k p0)"

lemma pool_sel_disk [simp]:
  "depth k (p\<lparr>disk := dk\<rparr>) = depth k p" "total_depth (p\<lparr>disk := dk\<rparr>) = total_depth p"
  "pool_ids (p\<lparr>disk := dk\<rparr>) = pool_ids p" "in_flight_count_for_key k (p\<lparr>disk := dk\<rparr>) = in_flight_count_for_key k p"
  by (simp_all add: depth_def total_depth_def pool_ids_def all_templates_def in_flight_count_for_key_def)

lemma end_refill_sel [simp]:
  "available (end_refill k p) = available p" "gc_watermark (end_refill k p) = gc_watermark p"
  "environment_max_per_key (end_refill k p) = environment_max_per_key p"
  by (simp_all add: end_refill_def)

lemma begin_refill_sel [simp]:
  "available ((begin_refill k ^^ m) p) = available p" "gc_watermark ((begin_refill k ^^ m) p) = gc_watermark p"
  "environment_max_per_key ((begin_refill k ^^ m) p) = environment_max_per_key p"
  by (induction m) (simp_all add: begin_refill_def)

lemma available_only:
  assumes "available q = available p"
  shows "depth k q = depth k p" "total_depth q = total_depth p" "all_templates q = all_templates p" "pool_ids q = pool_ids p"
  using assms by (simp_all add: depth_def total_depth_def all_templates_def pool_ids_def)

lemma stock_disk: "stock_inv mn k p0 p n \<Longrightarrow> hm_wf dk \<Longrightarrow> stock_inv mn k p0 (p\<lparr>disk := dk\<rparr>) n"
  by (simp add: stock_inv_def pool_wf_disk)

lemma refills_end: "pool_wf p \<Longrightarrow> in_flight_count_for_key k (end_refill k p) = in_flight_count_for_key k p - 1"
  using refills.get_dec [of p k k] by (simp add: refills_of_def)

lemma stock_end: "stock_inv mn k p0 p (Suc n) \<Longrightarrow> stock_inv mn k p0 (end_refill k p) n"
  unfolding stock_inv_def by (simp add: available_only [of "end_refill k p" p] end_refill_wf refills_end)

lemma begin_refills_wf: "pool_wf p \<Longrightarrow> pool_wf ((begin_refill k ^^ m) p)"
  by (induction m) (simp_all add: begin_refill_wf)

lemma refills_begin:
  "pool_wf p \<Longrightarrow> in_flight_count_for_key k ((begin_refill k ^^ m) p) = in_flight_count_for_key k p + m"
proof (induction m)
  case (Suc m)
  then show ?case
    using refills.get_inc [OF begin_refills_wf [OF Suc.prems], of k m k k] by (simp add: refills_of_def)
qed simp

lemma stock_begin:
  "stock_inv mn k p0 p n \<Longrightarrow> depth k p + n + m \<le> max mn (depth k p0) \<Longrightarrow>
     stock_inv mn k p0 ((begin_refill k ^^ m) p) (n + m)"
  unfolding stock_inv_def
  by (simp add: available_only [of "(begin_refill k ^^ m) p" p] begin_refills_wf refills_begin)

lemma stock_added:
  assumes "stock_inv mn k p0 p (Suc n)" "hm_wf dk" "pt_id t \<notin> pool_ids p" "pt_snapshot_type t = Environment" "pt_key t = k"
  shows "stock_inv mn k p0 (end_refill k
    (p\<lparr>disk := dk, available := push_template t (available p), template_ready := template_ready p + 1\<rparr>)) n"
proof -
  let ?q = "p\<lparr>disk := dk, available := push_template t (available p), template_ready := template_ready p + 1\<rparr>"
  have inv: "pool_wf p" "in_flight_count_for_key k p = Suc n"
    using assms(1) by (simp_all add: stock_inv_def)
  have wf: "pool_wf ?q"
    using pool_wf_ready [OF pool_wf_push [OF pool_wf_disk [OF inv(1) assms(2)], of t]] assms by simp
  have "mset (all_templates ?q) = add_mset t (mset (all_templates p))"
    by (simp add: all_templates_def)
  moreover have "depth k ?q = depth k p + 1" "total_depth ?q = total_depth p + 1"
    by (simp_all add: total_push depth_push [of t, unfolded assms(5)])
  moreover have "mset (all_templates p0) \<subseteq># add_mset t (mset (all_templates p))"
    using assms(1) unfolding stock_inv_def by (metis add_mset_add_single mset_subset_eq_add_left subset_mset.order_trans)
  moreover have "in_flight_count_for_key k ?q = Suc n"
    using inv(2) by (simp add: in_flight_count_for_key_def)
  ultimately show ?thesis
    using assms(1) wf unfolding stock_inv_def
    by (simp add: available_only [of "end_refill k ?q" ?q] end_refill_wf refills_end)
qed

text \<open>There is room for the missing templates below the water level.\<close>

definition room :: "nat \<Rightarrow> template_key \<Rightarrow> 'c pool \<Rightarrow> bool" where
  "room mn k p0 \<longleftrightarrow> mn \<le> environment_max_per_key p0 \<and> total_depth p0 + (mn - depth k p0) \<le> gc_watermark p0"

lemma stock_depth: "stock_inv mn k p0 p n \<Longrightarrow> depth k p0 \<le> depth k p"
  using size_mset_mono [of "mset (all_templates p0)" "mset (all_templates p)"]
  by (auto simp: stock_inv_def total_depth_length)

lemma stock_room:
  assumes "stock_inv mn k p0 p n" "room mn k p0"
  shows "total_depth p \<le> gc_watermark p" "n > 0 \<Longrightarrow> total_depth p < gc_watermark p"
    "n > 0 \<Longrightarrow> depth k p < environment_max_per_key p"
  using assms stock_depth [OF assms(1)] by (auto simp: stock_inv_def room_def max_def split: if_splits)

section \<open>Rounds and workers\<close>

definition worker_ok :: "factory \<Rightarrow> 'c pool \<Rightarrow> ('v, 'c) refill_worker \<Rightarrow> bool" where
  "worker_ok fa p w \<longleftrightarrow>
     ctr_vcpus (rw_req w) = None \<and> ctr_memory_mb (rw_req w) = None \<and>
     (is_Over (rw_phase w) \<or> ctr_id (rw_req w) \<notin> pool_ids p) \<and>
     (\<forall>t. rw_phase w = Built (Inr t) \<longrightarrow>
        pt_id t = ctr_id (rw_req w) \<and> pt_snapshot_type t = Environment \<and> pt_key t = environment_key fa)"

definition maint_inv :: "nat \<Rightarrow> factory \<Rightarrow> 'c pool \<Rightarrow> ('v, 'c) maint_state \<Rightarrow> bool" where
  "maint_inv mn fa p0 s \<longleftrightarrow>
     stock_inv mn (environment_key fa) p0 (mt_pool s) (builds_pending s) \<and>
     distinct (worker_ids (mt_workers s)) \<and> list_all (worker_ok fa (mt_pool s)) (mt_workers s)"

lemma count_update:
  "i < length xs \<Longrightarrow>
     length (filter P (xs[i := y])) + (if P (xs ! i) then 1 else 0) = length (filter P xs) + (if P y then 1 else 0)"
proof (induction xs arbitrary: i)
  case (Cons x xs)
  then show ?case by (cases i) (auto split: if_splits)
qed simp

lemma worker_ids_update:
  "i < length ws \<Longrightarrow> rw_req w = rw_req (ws ! i) \<Longrightarrow> worker_ids (ws[i := w]) = worker_ids ws"
  by (simp add: worker_ids_def map_update list_update_same_conv)

lemma workers_update:
  assumes "list_all (worker_ok fa p) ws" "i < length ws" "worker_ok fa p' w"
    and "\<And>j. j < length ws \<Longrightarrow> j \<noteq> i \<Longrightarrow> worker_ok fa p (ws ! j) \<Longrightarrow> worker_ok fa p' (ws ! j)"
  shows "list_all (worker_ok fa p') (ws[i := w])"
  using assms by (auto simp: list_all_length nth_list_update)

text \<open>A step neither loses a template nor a worker: each worker ends as a template or as a failure.\<close>

definition stocked_up :: "factory \<Rightarrow> ('v, 'c) maint_state \<Rightarrow> nat" where
  "stocked_up fa s = depth (environment_key fa) (mt_pool s) + builds_pending s + failed_builds s"

lemma snapshot_inv:
  assumes "maint_inv mn fa p0 s" "i < length (mt_workers s)" "rw_phase (mt_workers s ! i) = Booting" "w = mt_workers s ! i"
    and "build_snapshot vo (rw_env w) (apply_resource_overrides fa (rw_req w)) (rw_req w) (mt_pool s) = (res, v, p)"
    and "s' = \<lparr>mt_pool = p, mt_workers = (mt_workers s)[i := w\<lparr>rw_phase := Built res\<rparr>]\<rparr>"
  shows "maint_inv mn fa p0 s' \<and> stocked_up fa s' = stocked_up fa s"
proof -
  let ?ws = "mt_workers s" and ?w = "w\<lparr>rw_phase := Built res\<rparr>"
  have inv: "stock_inv mn (environment_key fa) p0 (mt_pool s) (builds_pending s)" "distinct (worker_ids ?ws)"
    "list_all (worker_ok fa (mt_pool s)) ?ws"
    using assms(1) by (simp_all add: maint_inv_def)
  have w: "worker_ok fa (mt_pool s) w"
    using inv(3) assms(2,4) by (simp add: list_all_length)
  have disk: "hm_wf (disk (mt_pool s))"
    using inv(1) by (simp add: stock_inv_def pool_wf_disk_wf)
  have fa: "apply_resource_overrides fa (rw_req w) = fa"
    using w by (simp add: worker_ok_def overrides_none)
  obtain dk where dk: "p = (mt_pool s)\<lparr>disk := dk\<rparr>" "hm_wf dk"
    "\<And>t. res = Inr t \<Longrightarrow> \<exists>m. t = environment_template fa (be_now (rw_env w)) (ctr_id (rw_req w)) m"
    using build_snapshot_spec [OF assms(5) disk] fa by metis
  have same: "builds_pending s' = builds_pending s" "failed_builds s' = failed_builds s"
    using count_update [OF assms(2), of "\<lambda>w. \<not> is_Over (rw_phase w)" ?w]
      count_update [OF assms(2), of "\<lambda>w. rw_phase w = Over False" ?w] assms
    by (simp_all add: builds_pending_def failed_builds_def)
  have "worker_ok fa p ?w"
    using w dk(3) assms(3,4) by (auto simp: worker_ok_def dk(1))
  then have "list_all (worker_ok fa p) (?ws[i := ?w])"
    by (rule workers_update [OF inv(3) assms(2)]) (simp add: worker_ok_def dk(1))
  then show ?thesis
    using stock_disk [OF inv(1) dk(2)] same worker_ids_update [of i ?ws ?w] assms inv(2)
    by (simp add: maint_inv_def stocked_up_def dk(1))
qed

lemma finish_counts:
  assumes "i < length (mt_workers s)" "rw_phase (mt_workers s ! i) = Built res" "w = mt_workers s ! i"
    and "s' = \<lparr>mt_pool = p, mt_workers = (mt_workers s)[i := w\<lparr>rw_phase := Over ok\<rparr>]\<rparr>"
  shows "builds_pending s = Suc (builds_pending s')" "failed_builds s' = failed_builds s + (if ok then 0 else 1)"
  using count_update [OF assms(1), of "\<lambda>w. \<not> is_Over (rw_phase w)" "w\<lparr>rw_phase := Over ok\<rparr>"]
    count_update [OF assms(1), of "\<lambda>w. rw_phase w = Over False" "w\<lparr>rw_phase := Over ok\<rparr>"] assms
  by (simp_all add: builds_pending_def failed_builds_def)

lemma finish_inv:
  assumes "maint_inv mn fa p0 s" "room mn (environment_key fa) p0"
    and "i < length (mt_workers s)" "rw_phase (mt_workers s ! i) = Built res" "w = mt_workers s ! i"
    and "build_cleanup (rw_env w) (rw_req w) (build_add (rw_env w) res (mt_pool s)) = (res', p)"
    and s': "s' = \<lparr>mt_pool = end_refill (environment_key fa) p, mt_workers = (mt_workers s)[i := w\<lparr>rw_phase := Over (\<not> isl res')\<rparr>]\<rparr>"
  shows "maint_inv mn fa p0 s' \<and> stocked_up fa s' = stocked_up fa s"
proof -
  let ?k = "environment_key fa" and ?ws = "mt_workers s" and ?w = "w\<lparr>rw_phase := Over (\<not> isl res')\<rparr>"
  note counts = finish_counts [OF assms(3-5) s']
  have inv: "stock_inv mn ?k p0 (mt_pool s) (Suc (builds_pending s'))" "distinct (worker_ids ?ws)"
    "list_all (worker_ok fa (mt_pool s)) ?ws"
    using assms(1) counts(1) by (simp_all add: maint_inv_def)
  have w: "worker_ok fa (mt_pool s) w"
    using inv(3) assms(3,5) by (simp add: list_all_length)
  have disk: "hm_wf (disk (mt_pool s))"
    using inv(1) by (simp add: stock_inv_def pool_wf_disk_wf)
  have t: "pt_snapshot_type t = Environment \<and> pt_key t = ?k" "pt_id t = ctr_id (rw_req w)" if "res = Inr t" for t
    using w that assms(4,5) by (auto simp: worker_ok_def)
  have ids: "worker_ids (?ws[i := ?w]) = worker_ids ?ws"
    using worker_ids_update [OF assms(3), of ?w] assms(5) by simp
  have ok: "list_all (worker_ok fa q) (?ws[i := ?w])" if "pool_ids q \<subseteq> insert (ctr_id (rw_req w)) (pool_ids (mt_pool s))" for q
  proof (rule workers_update [OF inv(3) assms(3)])
    show "worker_ok fa q ?w"
      using w by (auto simp: worker_ok_def)
    show "worker_ok fa q (?ws ! j)" if "j < length ?ws" "j \<noteq> i" "worker_ok fa (mt_pool s) (?ws ! j)" for j
    proof -
      have "ctr_id (rw_req (?ws ! j)) \<noteq> ctr_id (rw_req w)"
        using inv(2) that(1,2) assms(3,5) by (auto simp: worker_ids_def distinct_conv_nth)
      then show ?thesis
        using that(3) \<open>pool_ids q \<subseteq> _\<close> by (auto simp: worker_ok_def)
    qed
  qed
  have "\<forall>t. res = Inr t \<longrightarrow> pt_snapshot_type t = Environment \<and> pt_key t = ?k"
    using t(1) by blast
  with assms(6) disk stock_room(2,3) [OF inv(1) assms(2) zero_less_Suc] show ?thesis
  proof (cases rule: build_finish_below [where k = ?k])
    case (failed dk)
    then show ?thesis
      using stock_end [OF stock_disk [OF inv(1) failed(3)]] ok [of "mt_pool s'"] ids inv(2) counts s'
        available_only [of "end_refill ?k p" "mt_pool s"]
      by (auto simp: maint_inv_def stocked_up_def)
  next
    case (added t dk)
    have t': "pt_id t \<notin> pool_ids (mt_pool s)" "pt_snapshot_type t = Environment" "pt_key t = ?k"
      using w t [OF added(1)] assms(4,5) by (simp_all add: worker_ok_def)
    have "depth ?k p = depth ?k (mt_pool s) + 1"
      by (simp add: added(4) depth_push [of t, unfolded t'(3)])
    moreover have "mset (all_templates p) = add_mset t (mset (all_templates (mt_pool s)))"
      by (simp add: added(4) all_templates_def)
    then have "set (all_templates p) = insert t (set (all_templates (mt_pool s)))"
      by (metis set_mset_add_mset_insert set_mset_mset)
    then have "pool_ids p \<subseteq> insert (ctr_id (rw_req w)) (pool_ids (mt_pool s))"
      using t(2) [OF added(1)] by (simp add: pool_ids_def subset_insertI)
    ultimately show ?thesis
      using stock_added [OF inv(1) added(3) t'] ok [of "mt_pool s'"] ids inv(2) counts s' added(2,4)
        available_only [of "end_refill ?k p" p]
      by (auto simp: maint_inv_def stocked_up_def)
  qed
qed

lemma build_step_inv:
  "build_step vo fa s s' \<Longrightarrow> maint_inv mn fa p0 s \<Longrightarrow> room mn (environment_key fa) p0 \<Longrightarrow>
     maint_inv mn fa p0 s' \<and> stocked_up fa s' = stocked_up fa s"
  by (erule build_stepE) (metis snapshot_inv, metis finish_inv)

lemma refill_need_stock:
  assumes "stock_inv mn k p0 p n" "mn \<le> u64_max"
  shows "refill_need mn k p = mn - (depth k p + n)"
  using assms by (auto simp: refill_need_def stock_inv_def min_def)

lemma round_inv_maint:
  assumes "fresh_ids mn fa new s" "maint_inv mn fa p0 s" "room mn (environment_key fa) p0" "mn \<le> u64_max"
  shows "maint_inv mn fa p0 (maintenance_round mn fa h new s)" "mn \<le> stocked_up fa (maintenance_round mn fa h new s)"
proof -
  let ?k = "environment_key fa" and ?p = "mt_pool s" and ?s = "maintenance_round mn fa h new s"
  let ?m = "refill_need mn ?k ?p" and ?old = "filter (\<lambda>w. \<not> is_Over (rw_phase w)) (mt_workers s)"
  let ?q = "(begin_refill ?k ^^ ?m) ?p" and ?new = "map (new_worker (pool_lease_mode ?p)) new"
  have inv: "stock_inv mn ?k p0 ?p (builds_pending s)" "distinct (worker_ids (mt_workers s))"
    "list_all (worker_ok fa ?p) (mt_workers s)"
    using assms(2) by (simp_all add: maint_inv_def)
  have m: "?m = mn - (depth ?k ?p + builds_pending s)"
    using refill_need_stock [OF inv(1) assms(4)] .
  have "depth ?k ?p + builds_pending s + ?m \<le> max mn (depth ?k p0)"
    using inv(1) unfolding m stock_inv_def by auto
  then have stock: "stock_inv mn ?k p0 ?q (builds_pending s + ?m)"
    by (rule stock_begin [OF inv(1)])
  have s: "?s = \<lparr>mt_pool = ?q, mt_workers = ?old @ ?new\<rparr>"
    using assms(1) stock_room(1) [OF stock assms(3)] by (simp add: maintenance_round_def Let_def gc_if_needed_def fresh_ids_def)
  have q: "pool_ids ?q = pool_ids ?p" "depth ?k ?q = depth ?k ?p"
    using available_only [of ?q ?p] by simp_all
  have new: "filter (\<lambda>w. \<not> is_Over (rw_phase w)) ?new = ?new" "worker_ids ?new = map fst new"
    by (auto simp: new_worker_def worker_ids_def new_with_lease_mode_def comp_def split: prod.splits)
  have builds_pending: "builds_pending ?s = builds_pending s + ?m"
    using assms(1) by (simp add: s builds_pending_def new(1) fresh_ids_def)
  have "distinct (worker_ids ?old)" "set (worker_ids ?old) \<subseteq> set (worker_ids (mt_workers s))"
    using inv(2) by (auto simp: worker_ids_def distinct_map_filter)
  then have "distinct (worker_ids ?old @ worker_ids ?new)"
    using assms(1) unfolding new(2) fresh_ids_def distinct_append by blast
  then have "distinct (worker_ids (?old @ ?new))"
    by (simp only: worker_ids_def map_append)
  moreover have "list_all (worker_ok fa ?q) (?old @ ?new)"
    using inv(3) assms(1) unfolding list_all_iff
    by (auto simp: q(1) worker_ok_def new_worker_def new_with_lease_mode_def fresh_ids_def)
  ultimately show "maint_inv mn fa p0 ?s"
    using stock builds_pending by (simp add: maint_inv_def s)
  show "mn \<le> stocked_up fa ?s"
    unfolding stocked_up_def builds_pending by (simp add: s q(2)) (simp add: m)
qed

lemma maint_run:
  assumes "(maint_step vo fa mn)\<^sup>*\<^sup>* s0 s" "maint_inv mn fa p0 s0" "mn \<le> stocked_up fa s0"
    and "room mn (environment_key fa) p0" "mn \<le> u64_max"
  shows "maint_inv mn fa p0 s \<and> mn \<le> stocked_up fa s"
  using assms(1)
proof (induction rule: rtranclp_induct)
  case (step s s')
  from step.hyps(2) show ?case
  proof cases
    case (Round new h)
    then show ?thesis using round_inv_maint [OF Round(2) _ assms(4,5)] step.IH by simp
  next
    case Build
    then show ?thesis using build_step_inv [OF Build _ assms(4)] step.IH by simp
  qed
qed (use assms in simp)

section \<open>Progress\<close>

primrec phase_left :: "refill_phase \<Rightarrow> nat" where
  "phase_left Booting = 2"
| "phase_left (Built _) = 1"
| "phase_left (Over _) = 0"

definition build_left :: "('v, 'c) maint_state \<Rightarrow> nat" where
  "build_left s = sum_list (map (\<lambda>w. phase_left (rw_phase w)) (mt_workers s))"

lemma sum_list_less_update:
  fixes f :: "'a \<Rightarrow> nat"
  shows "i < length xs \<Longrightarrow> f y < f (xs ! i) \<Longrightarrow> sum_list (map f (xs[i := y])) < sum_list (map f xs)"
proof (induction xs arbitrary: i)
  case (Cons x xs)
  then show ?case by (cases i) simp_all
qed simp

lemma build_step_left: "build_step vo fa s s' \<Longrightarrow> build_left s' < build_left s"
  by (erule build_stepE) (simp_all add: build_left_def sum_list_less_update)

lemma build_step_wf: "wfP (\<lambda>s' s. build_step vo fa s s')"
  by (rule wfp_if_convertible_to_nat [of _ build_left]) (rule build_step_left)

lemma build_progress:
  assumes "\<nexists>s'. build_step vo fa s s'"
  shows "builds_pending s = 0"
proof (rule ccontr)
  assume "builds_pending s \<noteq> 0"
  then obtain i where i: "i < length (mt_workers s)" "\<not> is_Over (rw_phase (mt_workers s ! i))"
    by (auto simp: builds_pending_def filter_empty_conv in_set_conv_nth)
  obtain a b p where "build_snapshot vo (rw_env (mt_workers s ! i))
      (apply_resource_overrides fa (rw_req (mt_workers s ! i))) (rw_req (mt_workers s ! i)) (mt_pool s) = (a, b, p)"
    by (metis prod_cases3)
  then have "rw_phase (mt_workers s ! i) \<noteq> Booting"
    using Snapshot [OF i(1) refl] assms by blast
  then obtain res where "rw_phase (mt_workers s ! i) = Built res"
    using i(2) by (cases "rw_phase (mt_workers s ! i)") auto
  then show False
    using Finish [OF i(1) refl] assms by (metis surj_pair)
qed

section \<open>Properties\<close>

lemma maint_start_inv:
  "pool_wf p0 \<Longrightarrow> in_flight_count_for_key (environment_key fa) p0 = 0 \<Longrightarrow> maint_inv mn fa p0 (maint_start p0)"
  by (simp add: maint_inv_def maint_start_def stock_inv_def builds_pending_def worker_ids_def)


definition demo_build :: "(string list, pooled_template) build_env" where
  "demo_build =
     \<lparr>be_vm_dir = ideal_host, be_create_vm = (\<lambda>_. Inr []), be_agent_ready = (\<lambda>_. None), be_snapshot_dir = ideal_host,
      be_snapshot = (\<lambda>d _ v. (Inr \<lparr>sm_snapshot_dir = d, sm_original_task_vsock = [], sm_original_console_path = [],
         sm_disk_images = []\<rparr>, v)), be_now = 7, be_add = ideal_host, be_cleanup = ideal_host\<rparr>"

definition demo_worker :: "refill_phase \<Rightarrow> (string list, pooled_template) refill_worker" where
  "demo_worker ph = \<lparr>rw_req = new_with_lease_mode ''x'' Shared, rw_env = demo_build, rw_phase = ph\<rparr>"

definition demo_round :: "(string list, pooled_template) maint_state" where
  "demo_round = maintenance_round 1 demo_factory ideal_host [(''x'', demo_build)] (maint_start (demo_pool Shared 4))"

lemma demo_round_eval:
  "demo_round = \<lparr>mt_pool = begin_refill (environment_key demo_factory) (demo_pool Shared 4), mt_workers = [demo_worker Booting]\<rparr>"
  by (simp add: demo_round_def maintenance_round_def maint_start_def refill_need_def depth_def in_flight_count_for_key_def
      demo_pool_def pool_new_def gc_if_needed_def begin_refill_def total_depth_def demo_worker_def new_worker_def)

lemma demo_round_done:
  obtains s where "(maint_step list_vm demo_factory 1)\<^sup>*\<^sup>* demo_round s" "mt_workers s = [demo_worker (Over True)]"
proof -
  let ?k = "environment_key demo_factory"
  let ?p = "begin_refill ?k (demo_pool Shared 4)" and ?r = "new_with_lease_mode ''x'' Shared"
  have k: "apply_resource_overrides demo_factory ?r = demo_factory"
    by (simp add: overrides_none new_with_lease_mode_def)
  let ?dk = "[((EnvironmentDir, ''x''), \<lparr>d_json = None, d_consumed = False\<rparr>)]"
  obtain m v where snap: "build_snapshot list_vm demo_build demo_factory ?r ?p =
      (Inr (environment_template demo_factory 7 ''x'' m), v, ?p\<lparr>disk := ?dk\<rparr>)"
    by (simp add: build_snapshot_def demo_build_def fs_defs list_vm_def demo_pool_def pool_new_def begin_refill_def Let_def
        new_with_lease_mode_def)
  define t where "t = environment_template demo_factory 7 ''x'' m"
  have t: "template_dir t = Some (EnvironmentDir, ''x'')" "pt_snapshot_type t = Environment"
    by (simp_all add: t_def)
  obtain p where fin: "build_cleanup demo_build ?r (build_add demo_build (Inr t) (?p\<lparr>disk := ?dk\<rparr>)) = (Inr t, p)"
    by (simp add: demo_build_def fs_defs demo_pool_def pool_new_def begin_refill_def build_add_def build_cleanup_def add_def t
        add_water_level_def add_key_depth_def add_insert_def total_depth_def)
  let ?s2 = "\<lparr>mt_pool = ?p\<lparr>disk := ?dk\<rparr>, mt_workers = [demo_worker (Built (Inr t))]\<rparr>"
  let ?s3 = "\<lparr>mt_pool = end_refill ?k p, mt_workers = [demo_worker (Over True)]\<rparr>"
  have "build_step list_vm demo_factory demo_round ?s2"
    using Snapshot [of 0 demo_round "demo_worker Booting"] snap k by (simp add: demo_round_eval demo_worker_def t_def)
  moreover have "build_step list_vm demo_factory ?s2 ?s3"
    using Finish [of 0 ?s2 "demo_worker (Built (Inr t))" "Inr t" "Inr t" p list_vm demo_factory] fin by (simp add: demo_worker_def)
  ultimately have "(maint_step list_vm demo_factory 1)\<^sup>*\<^sup>* demo_round ?s3"
    by (meson Build converse_rtranclp_into_rtranclp rtranclp.rtrancl_refl)
  then show ?thesis
    using that by simp
qed


lemma worker_split:
  assumes "create_template_worker vo be fa r p = (res, v, p')"
  obtains res1 p1 where "build_snapshot vo be (apply_resource_overrides fa r) r p = (res1, v, p1)"
    "build_cleanup be r (build_add be res1 p1) = (res, p')"
proof -
  obtain res1 v1 p1 where "build_snapshot vo be (apply_resource_overrides fa r) r p = (res1, v1, p1)"
    by (metis prod_cases3)
  moreover obtain res2 p2 where "build_add be res1 p1 = (res2, p2)"
    by force
  ultimately show ?thesis
    using that [of res1 p1] assms by (auto simp: create_template_worker_def create_template_inner_def split: prod.splits)
qed

text \<open>After the cleanup the directory of the template is gone, unless the cleanup itself met a fault.\<close>

lemma cleaned_up:
  "\<not> h_fault h (RemoveDir d) \<Longrightarrow> hm_get (disk (cleanup_new_dir h d p)) d = None"
  by (auto simp: cleanup_new_dir_def fs_remove_dir_all_def split: option.splits)

lemma cleanup_sel [simp]:
  "available (cleanup_new_dir h d p) = available p"
  by (simp add: cleanup_new_dir_def)

lemma success_stopped:
  "build_snapshot vo be fa r p = (Inr t, v, p') \<Longrightarrow> \<exists>v1. v = Some (snd (vm_stop vo False v1))"
  unfolding build_snapshot_def Let_def by (auto split: option.splits sum.splits prod.splits)

text \<open>
  C17: Building a template is all or nothing. If the worker succeeds, its template is the next one offered
  under the key of the machine it booted, and that machine was stopped. If it fails, at whatever point,
  nothing was added to the pool and its directory is gone, unless its removal met a fault. Either way every
  template that is being restored or backs a sandbox is still there.
\<close>

theorem build_all_or_nothing:
  assumes "pool_wf p" "residue_ok (be_add be)" "ctr_id r \<notin> pool_ids p"
    and "create_template_worker vo be fa r p = (res, v, p')"
  shows "(\<forall>u \<in> set (all_templates p). pinned p (pt_id u) \<longrightarrow> u \<in> set (all_templates p')) \<and>
    (case res of
       Inr t \<Rightarrow> pt_id t = ctr_id r \<and> latest (environment_key (apply_resource_overrides fa r)) p' = Some t \<and>
         (\<exists>v1. v = Some (snd (vm_stop vo False v1)))
     | Inl _ \<Rightarrow> mset (all_templates p') \<subseteq># mset (all_templates p) \<and>
         (\<not> h_fault (be_cleanup be) (RemoveDir (EnvironmentDir, ctr_id r)) \<longrightarrow>
            hm_get (disk p') (EnvironmentDir, ctr_id r) = None))"
proof -
  let ?fa = "apply_resource_overrides fa r" and ?d = "(EnvironmentDir, ctr_id r)"
  obtain res1 p1 where snap: "build_snapshot vo be ?fa r p = (res1, v, p1)"
    and fin: "build_cleanup be r (build_add be res1 p1) = (res, p')"
    using worker_split [OF assms(4)] .
  obtain dk where dk: "p1 = p\<lparr>disk := dk\<rparr>" "hm_wf dk"
    and t: "\<And>t. res1 = Inr t \<Longrightarrow> \<exists>m. t = environment_template ?fa (be_now be) (ctr_id r) m"
    using build_snapshot_spec [OF snap pool_wf_disk_wf [OF assms(1)]] by metis
  have pin: "pinned p1 i = pinned p i" "all_templates p1 = all_templates p" for i
    by (simp_all add: dk(1) pinned_def all_templates_def)
  have failed: ?thesis if "res = Inl e" "p' = cleanup_new_dir (be_cleanup be) ?d q" "reduced p1 q" for e q
    using that available_only(3) [of p' q] cleaned_up [of "be_cleanup be" ?d q]
    by (auto simp: reduced_def keeps_pinned_def shrunk_def pin)
  show ?thesis
  proof (cases res1)
    case (Inl e)
    then show ?thesis
      using failed [of e p1] fin reduced_refl [OF pool_wf_disk [OF assms(1) dk(2)]]
      by (auto simp: build_add_def build_cleanup_def dk(1))
  next
    case (Inr t1)
    then obtain m where t1: "t1 = environment_template ?fa (be_now be) (ctr_id r) m"
      using t by blast
    show ?thesis
    proof (rule add_spec [of p1 "be_add be" t1 ?d])
      show "pool_wf p1" "residue_ok (be_add be)" "pt_id t1 \<notin> pool_ids p1" "template_dir t1 = Some ?d"
        using assms(1-3) dk by (simp_all add: pool_wf_disk t1)
    next
      fix e q assume "add (be_add be) t1 p1 = (Inl e, q)" "reduced p1 q"
      then show ?thesis
        using failed [of "OtherError ''add template''" q] fin Inr by (auto simp: build_add_def build_cleanup_def)
    next
      fix q dk' assume q: "reduced p1 q" and add: "add (be_add be) t1 p1 =
        (Inr (), q\<lparr>disk := dk', available := push_template t1 (available q), template_ready := template_ready q + 1\<rparr>)"
      have p': "res = Inr t1" "p' = q\<lparr>disk := dk', available := push_template t1 (available q), template_ready := template_ready q + 1\<rparr>"
        using fin Inr add by (simp_all add: build_add_def build_cleanup_def)
      have "mset (all_templates p') = add_mset t1 (mset (all_templates q))"
        by (simp add: p'(2) all_templates_def)
      then have "set (all_templates p') = insert t1 (set (all_templates q))"
        by (metis set_mset_add_mset_insert set_mset_mset)
      moreover have "latest (environment_key ?fa) p' = Some t1"
        using latest_push [of t1] by (simp add: p'(2) t1)
      ultimately show ?thesis
        using q success_stopped [OF snap [unfolded Inr]] by (auto simp: p'(1) t1 reduced_def keeps_pinned_def pin)
    qed
  qed
qed

lemma demo_build_worker:
  "\<not> isl (fst (create_template_worker list_vm demo_build fa (new_with_lease_mode ''x'' Shared) (demo_pool Shared 4)))"
  by (simp add: create_template_worker_def create_template_inner_def build_snapshot_def build_add_def build_cleanup_def
      demo_build_def fs_defs list_vm_def demo_pool_def pool_new_def Let_def add_def add_water_level_def add_key_depth_def
      add_insert_def total_depth_def split: prod.splits sum.splits option.splits)

theorem build_all_or_nothing_witness:
  "\<exists>t. latest (environment_key demo_factory)
     (snd (snd (create_template_worker list_vm demo_build demo_factory (new_with_lease_mode ''x'' Shared) (demo_pool Shared 4)))) =
       Some t \<and> pt_id t = ''x''"
proof -
  let ?r = "new_with_lease_mode ''x'' Shared" and ?p = "demo_pool Shared 4"
  obtain res v p' where w: "create_template_worker list_vm demo_build demo_factory ?r ?p = (res, v, p')"
    by (metis prod_cases3)
  then obtain t where t: "res = Inr t"
    using demo_build_worker [of demo_factory] by (cases res) auto
  have "pool_wf ?p" "residue_ok (be_add demo_build)" "ctr_id ?r \<notin> pool_ids ?p"
    by (simp_all add: demo_pool_def pool_new_def pool_wf_def all_templates_def keyed_def demo_build_def residue_ok_def pool_ids_def)
  then show ?thesis
    using build_all_or_nothing [OF _ _ _ w] w t by (auto simp: overrides_none new_with_lease_mode_def)
qed

text \<open>When the agent of a booted machine does not answer, the worker leaves that machine running.\<close>

lemma unanswered_machine_left_running:
  assumes "\<not> h_fault (be_vm_dir be) (CreateDir (EnvironmentDir, ctr_id r))"
    and "be_create_vm be (path_join (template_base p (ctr_id r)) ''vm'') = Inr v" "vm_start vo v = (Inr pid, v1)"
    and "be_agent_ready be v1 = Some e"
  shows "\<exists>p'. create_template_worker vo be fa r p = (Inl e, Some v1, p')"
  using assms
  by (simp add: create_template_worker_def create_template_inner_def build_snapshot_def fs_create_dir_all_def Let_def
      build_add_def build_cleanup_def)

text \<open>
  The limits that the start of the program checks leave room for the refills as long as the pool holds
  templates of the key only.
\<close>

lemma limits_leave_room:
  assumes "limits_ok c" "min_per_key c = Some mn" "pool_limits c = (environment_max_per_key p, wf_max, gc_watermark p)"
    and "total_depth p = depth k p" "total_depth p \<le> gc_watermark p"
  shows "mn \<le> environment_max_per_key p" "total_depth p + (mn - depth k p) \<le> gc_watermark p"
  using assms by (auto simp: limits_ok_def)

text \<open>
  They do not when templates of warm forks fill the pool: in exclusive mode these are never evicted, so that each
  round boots machines whose templates the pool refuses.
\<close>

lemma no_candidate:
  assumes "pool_lease_mode p = Exclusive" "\<forall>u \<in> set ts. pt_snapshot_type u = WarmFork"
  shows "oldest_candidate p ts None = Inr None"
  using assms by (induction ts) (auto simp: add_evictable.simps)

lemma warm_forks_block_refills:
  assumes "pool_lease_mode p = Exclusive" "\<forall>u \<in> set (all_templates p). pt_snapshot_type u = WarmFork"
    and "gc_watermark p \<le> total_depth p" "pt_snapshot_type t = Environment"
  shows "isl (fst (add h t p)) \<and> available (snd (add h t p)) = available p"
proof -
  obtain e dk where c: "fs_create_dir_all h (EnvironmentDir, pt_id t) (disk p) = (e, dk)" by force
  have "oldest_candidate (p\<lparr>disk := dk\<rparr>) (all_templates (p\<lparr>disk := dk\<rparr>)) None = Inr None"
    using assms(1,2) by (intro no_candidate) (simp_all add: all_templates_def)
  then have "add_water_level h (EnvironmentDir, pt_id t) (p\<lparr>disk := dk\<rparr>) =
      (Inl WatermarkNoCandidate, cleanup_new_dir h (EnvironmentDir, pt_id t) (p\<lparr>disk := dk\<rparr>))"
    using assms(3) by (simp add: add_water_level_def)
  then show ?thesis
    using assms(4) by (cases e) (simp_all add: add_def template_dir.simps c)
qed

end
